(* ===== verification/Prelude.thy ===== *)
theory Prelude
  imports Main "HOL-Library.Word" "HOL-Library.Char_ord" "HOL-Library.List_Lexorder"
    "HOL-Library.Product_Lexorder"
begin

text \<open>
  Shared vocabulary of the development: byte strings and machine integers, the outcome of
  a fallible Rust function, the state-passing procedures built from it, the loops the code
  writes with \<open>for\<close> and \<open>try_fold\<close>, decimal rendering of integers, and the two relational
  predicates (\<open>all_runs\<close>, \<open>ok_runs\<close>) with which frame conditions and invariants of
  procedures are stated and proved.
\<close>

section \<open>Proof collections\<close>

named_theorems proc_defs \<open>unfoldings of the procedure combinators\<close>
named_theorems runs_intro \<open>introduction rules for all_runs and ok_runs\<close>
named_theorems ok_intro \<open>introduction rules for ok_runs\<close>
named_theorems run_eqs \<open>equations that run a bound procedure on a state\<close>
named_theorems omap_simps \<open>equations of the ordered map\<close>

section \<open>Bytes, strings and integers\<close>

type_synonym byte = "8 word"
type_synonym bytes = "byte list"
type_synonym u64 = "64 word"
type_synonym uint256 = "256 word"

text \<open>Rust's \<open>str::as_bytes\<close>: a string is the list of its UTF-8 bytes.\<close>

definition as_bytes :: "string \<Rightarrow> bytes" where
  "as_bytes s = map of_char s"

lemma as_bytes_append [simp]: "as_bytes (s @ t) = as_bytes s @ as_bytes t"
  by (simp add: as_bytes_def)

lemma as_bytes_inject [simp]: "as_bytes s = as_bytes t \<longleftrightarrow> s = t"
proof -
  have "inj (of_char :: char \<Rightarrow> byte)"
  proof (rule injI)
    fix c d :: char
    assume "(of_char c :: byte) = of_char d"
    then have "unat (of_char c :: byte) = unat (of_char d :: byte)" by simp
    moreover have "unat (of_char x :: byte) = of_char x" for x :: char
    proof -
      have "(of_char x :: byte) = word_of_nat (of_char x)" by (simp only: of_nat_of_char)
      moreover have "of_char x < (256::nat)" by simp
      ultimately show ?thesis by (simp add: unat_of_nat)
    qed
    ultimately show "c = d" by simp
  qed
  then show ?thesis by (simp add: as_bytes_def inj_map_eq_map)
qed

text \<open>\<open>checked_add\<close> and \<open>checked_sub\<close> of a fixed-width unsigned integer.\<close>

definition checked_add :: "'a::len word \<Rightarrow> 'a word \<Rightarrow> 'a word option" where
  "checked_add a b = (if unat a + unat b < 2 ^ LENGTH('a) then Some (a + b) else None)"

definition checked_sub :: "'a::len word \<Rightarrow> 'a word \<Rightarrow> 'a word option" where
  "checked_sub a b = (if unat b \<le> unat a then Some (a - b) else None)"

lemma checked_add_Some: "checked_add a b = Some c \<Longrightarrow> unat c = unat a + unat b"
  by (auto simp: checked_add_def unat_word_ariths split: if_splits)

lemma checked_sub_Some: "checked_sub a b = Some c \<Longrightarrow> unat c = unat a - unat b \<and> unat b \<le> unat a"
  by (auto simp: checked_sub_def unat_sub word_le_nat_alt split: if_splits)

lemma checked_add_None: "checked_add (a::'a::len word) b = None \<longleftrightarrow> 2 ^ LENGTH('a) \<le> unat a + unat b"
  by (auto simp: checked_add_def)

lemma checked_sub_None: "checked_sub a b = None \<longleftrightarrow> unat a < unat b"
  by (auto simp: checked_sub_def)

section \<open>Decimal rendering (\<open>to_string\<close> of the unsigned integers)\<close>

definition digit :: "nat \<Rightarrow> char" where
  "digit d = char_of (48 + d)"

definition digit_val :: "char \<Rightarrow> nat option" where
  "digit_val c = (let n = of_char c :: nat in if 48 \<le> n \<and> n < 58 then Some (n - 48) else None)"

fun show_nat :: "nat \<Rightarrow> string" where
  "show_nat n = (if n < 10 then [digit n] else show_nat (n div 10) @ [digit (n mod 10)])"

declare show_nat.simps [simp del]

definition show_word :: "'a::len word \<Rightarrow> string" where
  "show_word w = show_nat (unat w)"

text \<open>\<open>str::parse\<close> of an unsigned decimal numeral, without the width check.\<close>

fun parse_digits :: "nat \<Rightarrow> string \<Rightarrow> nat option" where
  "parse_digits acc [] = Some acc"
| "parse_digits acc (c # cs) =
     (case digit_val c of None \<Rightarrow> None | Some d \<Rightarrow> parse_digits (10 * acc + d) cs)"

definition parse_nat :: "string \<Rightarrow> nat option" where
  "parse_nat s = (if s = [] then None else parse_digits 0 s)"

definition parse_word :: "string \<Rightarrow> 'a::len word option" where
  "parse_word s = (case parse_nat s of
      None \<Rightarrow> None
    | Some n \<Rightarrow> (if n < 2 ^ LENGTH('a) then Some (of_nat n) else None))"

lemma digit_val_digit [simp]: "d < 10 \<Longrightarrow> digit_val (digit d) = Some d"
  by (simp add: digit_val_def digit_def)

lemma parse_digits_append:
  "parse_digits acc (s @ t) = (case parse_digits acc s of None \<Rightarrow> None | Some a \<Rightarrow> parse_digits a t)"
  by (induction s arbitrary: acc) (auto split: option.splits)

lemma show_nat_not_Nil [simp]: "show_nat n \<noteq> []"
  by (subst show_nat.simps) simp

lemma parse_digits_show: "parse_digits 0 (show_nat n) = Some n"
proof (induction n rule: show_nat.induct)
  case (1 n)
  show ?case
  proof (cases "n < 10")
    case True
    then show ?thesis by (subst show_nat.simps) simp
  next
    case False
    with 1 show ?thesis
      by (subst show_nat.simps) (simp add: parse_digits_append)
  qed
qed

lemma parse_nat_show [simp]: "parse_nat (show_nat n) = Some n"
  by (simp add: parse_nat_def parse_digits_show)

lemma parse_word_show [simp]: "parse_word (show_word (w :: 'a::len word)) = Some w"
  by (simp add: parse_word_def show_word_def unsigned_less)

lemma show_nat_inject [simp]: "show_nat m = show_nat n \<longleftrightarrow> m = n"
  by (metis option.inject parse_nat_show)

lemma show_word_inject [simp]: "show_word v = show_word w \<longleftrightarrow> v = w"
  by (simp add: show_word_def word_unat_eq_iff)

section \<open>Outcomes of fallible functions\<close>

text \<open>
  What a Rust call can do: return \<open>Ok\<close> or \<open>Err\<close> of its \<open>Result\<close>, or panic.
  \<open>NoFuel\<close> is the model's own value for "the bounded recursion of the router did not reach
  the result"; it is never produced by the code.
\<close>

datatype ('e, 'a) outcome = Ok 'a | Err 'e | Panic string | NoFuel

fun map_outcome_ok :: "('a \<Rightarrow> 'b) \<Rightarrow> ('e, 'a) outcome \<Rightarrow> ('e, 'b) outcome" where
  "map_outcome_ok f (Ok a) = Ok (f a)"
| "map_outcome_ok f (Err e) = Err e"
| "map_outcome_ok f (Panic p) = Panic p"
| "map_outcome_ok f NoFuel = NoFuel"

fun is_ok :: "('e, 'a) outcome \<Rightarrow> bool" where
  "is_ok (Ok a) = True"
| "is_ok r = False"

lemma is_ok_iff: "is_ok r \<longleftrightarrow> (\<exists>a. r = Ok a)"
  by (cases r) auto

section \<open>State-passing procedures\<close>

text \<open>
  A function with a \<open>&mut\<close> state parameter and a \<open>Result\<close>: it returns the outcome
  \<^emph>\<open>and\<close> the state it leaves behind, because a Rust function that returns \<open>Err\<close>
  keeps the writes it has made so far.
\<close>

type_synonym ('s, 'e, 'a) proc = "'s \<Rightarrow> ('e, 'a) outcome \<times> 's"

definition ret :: "'a \<Rightarrow> ('s, 'e, 'a) proc" where
  "ret a s = (Ok a, s)"

definition fail :: "'e \<Rightarrow> ('s, 'e, 'a) proc" where
  "fail e s = (Err e, s)"

definition panic :: "string \<Rightarrow> ('s, 'e, 'a) proc" where
  "panic p s = (Panic p, s)"

definition no_fuel :: "('s, 'e, 'a) proc" where
  "no_fuel s = (NoFuel, s)"

definition bindM :: "('s, 'e, 'a) proc \<Rightarrow> ('a \<Rightarrow> ('s, 'e, 'b) proc) \<Rightarrow> ('s, 'e, 'b) proc" where
  "bindM m f s = (case m s of
      (Ok a, s') \<Rightarrow> f a s'
    | (Err e, s') \<Rightarrow> (Err e, s')
    | (Panic p, s') \<Rightarrow> (Panic p, s')
    | (NoFuel, s') \<Rightarrow> (NoFuel, s'))"

definition thenM :: "('s, 'e, 'a) proc \<Rightarrow> ('s, 'e, 'b) proc \<Rightarrow> ('s, 'e, 'b) proc" where
  "thenM m k = bindM m (\<lambda>_. k)"

definition reads :: "('s \<Rightarrow> 'a) \<Rightarrow> ('s, 'e, 'a) proc" where
  "reads f s = (Ok (f s), s)"

definition modifies :: "('s \<Rightarrow> 's) \<Rightarrow> ('s, 'e, unit) proc" where
  "modifies f s = (Ok (), f s)"

definition lift_outcome :: "('e, 'a) outcome \<Rightarrow> ('s, 'e, 'a) proc" where
  "lift_outcome r s = (r, s)"

definition of_option :: "'e \<Rightarrow> 'a option \<Rightarrow> ('s, 'e, 'a) proc" where
  "of_option e v = (case v of None \<Rightarrow> fail e | Some a \<Rightarrow> ret a)"

definition or_panic :: "string \<Rightarrow> 'a option \<Rightarrow> ('s, 'e, 'a) proc" where
  "or_panic p v = (case v of None \<Rightarrow> panic p | Some a \<Rightarrow> ret a)"

definition guard :: "bool \<Rightarrow> 'e \<Rightarrow> ('s, 'e, unit) proc" where
  "guard b e = (if b then ret () else fail e)"

definition map_errM :: "('e \<Rightarrow> 'f) \<Rightarrow> ('s, 'e, 'a) proc \<Rightarrow> ('s, 'f, 'a) proc" where
  "map_errM g m s = (case m s of
      (Ok a, s') \<Rightarrow> (Ok a, s')
    | (Err e, s') \<Rightarrow> (Err (g e), s')
    | (Panic p, s') \<Rightarrow> (Panic p, s')
    | (NoFuel, s') \<Rightarrow> (NoFuel, s'))"

definition mapM_ok :: "('a \<Rightarrow> 'b) \<Rightarrow> ('s, 'e, 'a) proc \<Rightarrow> ('s, 'e, 'b) proc" where
  "mapM_ok f m s = (case m s of (r, s') \<Rightarrow> (map_outcome_ok f r, s'))"

text \<open>Running a procedure on a part of the state (a prefixed view of the storage).\<close>

definition zoom :: "('s \<Rightarrow> 't) \<Rightarrow> ('t \<Rightarrow> 's \<Rightarrow> 's) \<Rightarrow> ('t, 'e, 'a) proc \<Rightarrow> ('s, 'e, 'a) proc" where
  "zoom sel upd m s = (case m (sel s) of (r, t) \<Rightarrow> (r, upd t s))"

text \<open>\<open>for x in xs\<close> with an early return on error, and \<open>try_fold\<close>.\<close>

fun for_each :: "('a \<Rightarrow> ('s, 'e, unit) proc) \<Rightarrow> 'a list \<Rightarrow> ('s, 'e, unit) proc" where
  "for_each f [] = ret ()"
| "for_each f (x # xs) = thenM (f x) (for_each f xs)"

fun try_fold :: "('b \<Rightarrow> 'a \<Rightarrow> ('s, 'e, 'b) proc) \<Rightarrow> 'b \<Rightarrow> 'a list \<Rightarrow> ('s, 'e, 'b) proc" where
  "try_fold f acc [] = ret acc"
| "try_fold f acc (x # xs) = bindM (f acc x) (\<lambda>acc'. try_fold f acc' xs)"

fun collectM :: "('a \<Rightarrow> ('s, 'e, 'b) proc) \<Rightarrow> 'a list \<Rightarrow> ('s, 'e, 'b list) proc" where
  "collectM f [] = ret []"
| "collectM f (x # xs) = bindM (f x) (\<lambda>y. bindM (collectM f xs) (\<lambda>ys. ret (y # ys)))"

lemmas [proc_defs] = ret_def fail_def panic_def no_fuel_def bindM_def thenM_def reads_def
  modifies_def lift_outcome_def of_option_def or_panic_def guard_def map_errM_def mapM_ok_def
  zoom_def

subsection \<open>Evaluation of the combinators\<close>

lemma reads_apply [simp]: "reads f s = (Ok (f s), s)"
  and modifies_apply [simp]: "modifies h s = (Ok (), h s)"
  by (simp_all add: proc_defs)

lemma run_results [simp]:
  "fst (ret a s) = Ok a" "snd (ret a s) = s"
  "fst (fail e s) = Err e" "snd (fail e s) = s"
  "fst (panic p s) = Panic p" "snd (panic p s) = s"
  "fst (no_fuel s) = NoFuel" "snd (no_fuel s) = s"
  "fst (lift_outcome r s) = r" "snd (lift_outcome r s) = s"
  by (simp_all add: proc_defs)

lemma run_iffs [simp]:
  "ret a s = (r, s') \<longleftrightarrow> r = Ok a \<and> s' = s"
  "fail e s = (r, s') \<longleftrightarrow> r = Err e \<and> s' = s"
  "panic p s = (r, s') \<longleftrightarrow> r = Panic p \<and> s' = s"
  "no_fuel s = (r, s') \<longleftrightarrow> r = NoFuel \<and> s' = s"
  "lift_outcome q s = (r, s') \<longleftrightarrow> r = q \<and> s' = s"
  by (auto simp: proc_defs)

lemma of_option_simps [simp]: "of_option e None = fail e" "of_option e (Some a) = ret a"
  by (simp_all add: of_option_def)

lemma or_panic_simps [simp]: "or_panic p None = panic p" "or_panic p (Some a) = ret a"
  by (simp_all add: or_panic_def)

lemma guard_simps [simp]: "guard True e = ret ()" "guard False e = fail e"
  by (simp_all add: guard_def)

lemma bindM_ret [simp]: "bindM (ret a) f = f a"
  and bindM_fail [simp]: "bindM (fail e) f = fail e"
  and bindM_panic [simp]: "bindM (panic p) f = panic p"
  and bindM_reads: "bindM (reads h) f s = f (h s) s"
  by (rule ext, simp add: proc_defs)+ (simp add: proc_defs)

declare bindM_reads [run_eqs]

lemma bindM_of_option [run_eqs]:
    "bindM (of_option e v) f s = (case v of None \<Rightarrow> (Err e, s) | Some a \<Rightarrow> f a s)"
  and bindM_or_panic [run_eqs]:
    "bindM (or_panic p v) f s = (case v of None \<Rightarrow> (Panic p, s) | Some a \<Rightarrow> f a s)"
  and thenM_guard [run_eqs]: "thenM (guard b e) k s = (if b then k s else (Err e, s))"
  and thenM_modifies [run_eqs]: "thenM (modifies h) k s = k (h s)"
  and thenM_ret [run_eqs]: "thenM (ret a) k = k"
  and thenM_fail [run_eqs]: "thenM (fail e) k = fail e"
  and thenM_panic [run_eqs]: "thenM (panic p) k = panic p"
  by (simp_all add: thenM_def of_option_def or_panic_def guard_def bindM_def modifies_def fail_def panic_def ret_def
      split: option.splits)

lemma bindM_assoc: "bindM (bindM m f) g = bindM m (\<lambda>a. bindM (f a) g)"
  by (rule ext) (simp add: bindM_def split: prod.splits outcome.splits)

lemma bindM_eq: "m s = (r, s') \<Longrightarrow> bindM m f s = (case r of
    Ok a \<Rightarrow> f a s' | Err e \<Rightarrow> (Err e, s') | Panic p \<Rightarrow> (Panic p, s') | NoFuel \<Rightarrow> (NoFuel, s'))"
  by (simp add: bindM_def split: outcome.splits)

lemma bindM_Ok_iff:
  "bindM m f s = (Ok b, s'') \<longleftrightarrow> (\<exists>a s'. m s = (Ok a, s') \<and> f a s' = (Ok b, s''))"
  by (auto simp: bindM_def split: prod.splits outcome.splits)

lemma thenM_Ok_iff:
  "thenM m k s = (Ok b, s'') \<longleftrightarrow> (\<exists>a s'. m s = (Ok a, s') \<and> k s' = (Ok b, s''))"
  by (simp add: thenM_def bindM_Ok_iff)

lemma of_option_Ok_iff [simp]: "of_option e v s = (Ok a, s') \<longleftrightarrow> v = Some a \<and> s' = s"
  by (cases v) auto

lemma or_panic_Ok_iff [simp]: "or_panic p v s = (Ok a, s') \<longleftrightarrow> v = Some a \<and> s' = s"
  by (cases v) auto

lemma guard_Ok_iff [simp]: "guard b e s = (Ok u, s') \<longleftrightarrow> b \<and> s' = s"
  by (cases b) auto

lemma map_errM_Ok_iff [simp]: "map_errM g m s = (Ok a, s') \<longleftrightarrow> m s = (Ok a, s')"
  by (auto simp: map_errM_def split: prod.splits outcome.splits)

lemma map_outcome_ok_Ok_iff [simp]: "map_outcome_ok f r = Ok b \<longleftrightarrow> (\<exists>a. r = Ok a \<and> b = f a)"
  by (cases r) auto

lemma mapM_ok_Ok_iff: "mapM_ok f m s = (Ok b, s') \<longleftrightarrow> (\<exists>a. m s = (Ok a, s') \<and> b = f a)"
  by (auto simp: mapM_ok_def split: prod.splits)

lemma zoom_Ok_iff:
  "zoom sel upd m s = (Ok a, s') \<longleftrightarrow> (\<exists>t. m (sel s) = (Ok a, t) \<and> s' = upd t s)"
  by (auto simp: zoom_def split: prod.splits)

lemmas ok_iffs = bindM_Ok_iff thenM_Ok_iff mapM_ok_Ok_iff zoom_Ok_iff

section \<open>Relational properties of procedures\<close>

text \<open>
  \<open>all_runs R m\<close>: whatever the outcome, the state before and the state after are related
  by \<open>R\<close>; \<open>ok_runs R m\<close>: they are when the outcome is \<open>Ok\<close>. With \<open>R\<close> of the form
  \<open>P s \<longrightarrow> P t\<close> these are invariants, with \<open>f s = f t\<close> frame conditions.
\<close>

definition all_runs :: "('s \<Rightarrow> 's \<Rightarrow> bool) \<Rightarrow> ('s, 'e, 'a) proc \<Rightarrow> bool" where
  "all_runs R m \<longleftrightarrow> (\<forall>s. R s (snd (m s)))"

definition ok_runs :: "('s \<Rightarrow> 's \<Rightarrow> bool) \<Rightarrow> ('s, 'e, 'a) proc \<Rightarrow> bool" where
  "ok_runs R m \<longleftrightarrow> (\<forall>s a s'. m s = (Ok a, s') \<longrightarrow> R s s')"

lemma all_runsD: "all_runs R m \<Longrightarrow> m s = (r, s') \<Longrightarrow> R s s'"
  by (metis all_runs_def snd_conv)

lemma ok_runsD: "ok_runs R m \<Longrightarrow> m s = (Ok a, s') \<Longrightarrow> R s s'"
  by (auto simp: ok_runs_def)

lemma all_runs_ok: "all_runs R m \<Longrightarrow> ok_runs R m"
  by (auto simp: ok_runs_def dest: all_runsD)

lemma all_runs_mono: "all_runs R m \<Longrightarrow> (\<And>s t. R s t \<Longrightarrow> S s t) \<Longrightarrow> all_runs S m"
  by (auto simp: all_runs_def)

lemma all_runs_ret: "reflp R \<Longrightarrow> all_runs R (ret a)"
  and all_runs_fail: "reflp R \<Longrightarrow> all_runs R (fail e)"
  and all_runs_panic: "reflp R \<Longrightarrow> all_runs R (panic p)"
  and all_runs_no_fuel: "reflp R \<Longrightarrow> all_runs R no_fuel"
  and all_runs_reads: "reflp R \<Longrightarrow> all_runs R (reads f)"
  and all_runs_lift: "reflp R \<Longrightarrow> all_runs R (lift_outcome r)"
  and all_runs_of_option: "reflp R \<Longrightarrow> all_runs R (of_option e v)"
  and all_runs_or_panic: "reflp R \<Longrightarrow> all_runs R (or_panic p v)"
  and all_runs_guard: "reflp R \<Longrightarrow> all_runs R (guard b e)"
  by (auto simp: all_runs_def of_option_def or_panic_def guard_def reflp_def split: option.splits)

lemma all_runs_bind:
  assumes "transp R" "all_runs R m" "\<And>a. all_runs R (f a)"
  shows "all_runs R (bindM m f)"
  unfolding all_runs_def
proof
  fix s
  obtain r s' where m: "m s = (r, s')" by fastforce
  from assms(2) m have 1: "R s s'" by (rule all_runsD)
  show "R s (snd (bindM m f s))"
  proof (cases r)
    case (Ok a)
    have "R s' (snd (f a s'))" using assms(3) [of a] by (simp add: all_runs_def)
    with 1 assms(1) have "R s (snd (f a s'))" by (meson transpE)
    with m Ok show ?thesis by (simp add: bindM_def)
  qed (use m 1 in \<open>simp_all add: bindM_def\<close>)
qed

lemma ok_runs_bind:
  assumes "transp R" "ok_runs R m" "\<And>a. ok_runs R (f a)"
  shows "ok_runs R (bindM m f)"
  unfolding ok_runs_def
proof (intro allI impI)
  fix s b s''
  assume "bindM m f s = (Ok b, s'')"
  then obtain a s' where "m s = (Ok a, s')" "f a s' = (Ok b, s'')"
    by (auto simp: bindM_Ok_iff)
  with assms(2,3) have "R s s'" "R s' s''" by (auto dest: ok_runsD)
  with assms(1) show "R s s''" by (meson transpE)
qed

lemma all_runs_then:
  "transp R \<Longrightarrow> all_runs R m \<Longrightarrow> all_runs R k \<Longrightarrow> all_runs R (thenM m k)"
  by (simp add: thenM_def all_runs_bind)

lemma all_runs_map_err: "all_runs R m \<Longrightarrow> all_runs R (map_errM g m)"
  by (auto simp: all_runs_def [of R "map_errM g m"] map_errM_def dest: all_runsD
      split: prod.splits outcome.splits)

lemma all_runs_mapM_ok: "all_runs R m \<Longrightarrow> all_runs R (mapM_ok f m)"
  by (auto simp: all_runs_def [of R "mapM_ok f m"] mapM_ok_def dest: all_runsD split: prod.splits)

lemma all_runs_for_each:
  assumes "reflp R" "transp R" "\<And>x. x \<in> set xs \<Longrightarrow> all_runs R (f x)"
  shows "all_runs R (for_each f xs)"
  using assms(3)
  by (induction xs) (auto intro: all_runs_ret all_runs_then assms)

lemma all_runs_try_fold:
  assumes "reflp R" "transp R" "\<And>acc x. x \<in> set xs \<Longrightarrow> all_runs R (f acc x)"
  shows "all_runs R (try_fold f acc xs)"
  using assms(3)
  by (induction xs arbitrary: acc) (auto intro: all_runs_ret all_runs_bind assms)

lemma all_runs_collectM:
  assumes "reflp R" "transp R" "\<And>x. x \<in> set xs \<Longrightarrow> all_runs R (f x)"
  shows "all_runs R (collectM f xs)"
  using assms(3)
proof (induction xs)
  case Nil
  then show ?case by (simp add: all_runs_ret assms)
next
  case (Cons x xs)
  then have "all_runs R (f x)" "all_runs R (collectM f xs)" by simp_all
  then show ?case by (simp add: all_runs_bind all_runs_ret assms)
qed

lemma all_runs_if: "(b \<Longrightarrow> all_runs R m) \<Longrightarrow> (\<not> b \<Longrightarrow> all_runs R k) \<Longrightarrow> all_runs R (if b then m else k)"
  by simp

lemmas [runs_intro] = all_runs_ret all_runs_fail all_runs_panic all_runs_no_fuel all_runs_reads
  all_runs_lift all_runs_of_option all_runs_or_panic all_runs_guard all_runs_bind all_runs_then
  all_runs_map_err all_runs_mapM_ok all_runs_for_each all_runs_try_fold all_runs_collectM
  all_runs_if

text \<open>The two shapes of relation that are used: invariance and framing.\<close>

definition inv_rel :: "('s \<Rightarrow> bool) \<Rightarrow> 's \<Rightarrow> 's \<Rightarrow> bool" where
  "inv_rel P s t \<longleftrightarrow> (P s \<longrightarrow> P t)"

definition same :: "('s \<Rightarrow> 'a) \<Rightarrow> 's \<Rightarrow> 's \<Rightarrow> bool" where
  "same f s t \<longleftrightarrow> f s = f t"

lemma reflp_inv_rel [simp, runs_intro]: "reflp (inv_rel P)"
  and transp_inv_rel [simp, runs_intro]: "transp (inv_rel P)"
  and reflp_same [simp, runs_intro]: "reflp (same f)"
  and transp_same [simp, runs_intro]: "transp (same f)"
  by (auto simp: inv_rel_def same_def intro!: reflpI transpI)

lemma inv_relD: "all_runs (inv_rel P) m \<Longrightarrow> P s \<Longrightarrow> m s = (r, s') \<Longrightarrow> P s'"
  by (auto simp: inv_rel_def dest: all_runsD)

lemma sameD: "all_runs (same f) m \<Longrightarrow> m s = (r, s') \<Longrightarrow> f s' = f s"
  by (auto simp: same_def dest: all_runsD)

lemma all_runs_zoom_same:
  "(\<And>t s. f (upd t s) = f s) \<Longrightarrow> all_runs (same f) (zoom sel upd m)"
  by (auto simp: all_runs_def same_def zoom_def split: prod.splits)

lemma all_runs_zoom_inv:
  assumes "all_runs (inv_rel Q) m" "\<And>s. P s \<Longrightarrow> Q (sel s)" "\<And>t s. P s \<Longrightarrow> Q t \<Longrightarrow> P (upd t s)"
  shows "all_runs (inv_rel P) (zoom sel upd m)"
  using assms by (fastforce simp: all_runs_def inv_rel_def zoom_def split: prod.splits)

subsection \<open>Rules for successful runs\<close>

text \<open>
  A procedure that does not return \<open>Ok\<close> is rolled back by the enclosing \<open>transactional\<close>, so most
  relations between the states before and after need only hold for \<open>Ok\<close>.
\<close>

lemma ok_runs_fail [ok_intro]: "ok_runs R (fail e)"
  and ok_runs_panic [ok_intro]: "ok_runs R (panic p)"
  and ok_runs_no_fuel [ok_intro]: "ok_runs R no_fuel"
  by (auto simp: ok_runs_def)

lemma ok_runs_ret [ok_intro]: "reflp R \<Longrightarrow> ok_runs R (ret a)"
  and ok_runs_reads [ok_intro]: "reflp R \<Longrightarrow> ok_runs R (reads f)"
  and ok_runs_lift [ok_intro]: "reflp R \<Longrightarrow> ok_runs R (lift_outcome r)"
  and ok_runs_of_option [ok_intro]: "reflp R \<Longrightarrow> ok_runs R (of_option e v)"
  and ok_runs_or_panic [ok_intro]: "reflp R \<Longrightarrow> ok_runs R (or_panic p v)"
  and ok_runs_guard [ok_intro]: "reflp R \<Longrightarrow> ok_runs R (guard b e)"
  by (auto simp: ok_runs_def reflp_def)

lemma ok_runs_modifies [ok_intro]: "(\<And>s. R s (f s)) \<Longrightarrow> ok_runs R (modifies f)"
  by (auto simp: ok_runs_def)

lemma ok_runs_then [ok_intro]:
  "transp R \<Longrightarrow> ok_runs R m \<Longrightarrow> ok_runs R k \<Longrightarrow> ok_runs R (thenM m k)"
  by (simp add: thenM_def ok_runs_bind)

lemma ok_runs_map_err [ok_intro]: "ok_runs R m \<Longrightarrow> ok_runs R (map_errM g m)"
  by (auto simp: ok_runs_def)

lemma ok_runs_mapM_ok [ok_intro]: "ok_runs R m \<Longrightarrow> ok_runs R (mapM_ok f m)"
  by (auto simp: ok_runs_def mapM_ok_Ok_iff)

lemma ok_runs_for_each [ok_intro]:
  assumes "reflp R" "transp R" "\<And>x. x \<in> set xs \<Longrightarrow> ok_runs R (f x)"
  shows "ok_runs R (for_each f xs)"
  using assms(3)
  by (induction xs) (auto intro: ok_runs_ret ok_runs_then assms)

lemma ok_runs_try_fold [ok_intro]:
  assumes "reflp R" "transp R" "\<And>acc x. x \<in> set xs \<Longrightarrow> ok_runs R (f acc x)"
  shows "ok_runs R (try_fold f acc xs)"
  using assms(3)
  by (induction xs arbitrary: acc) (auto intro: ok_runs_ret ok_runs_bind assms)

lemma ok_runs_collectM [ok_intro]:
  assumes "reflp R" "transp R" "\<And>x. x \<in> set xs \<Longrightarrow> ok_runs R (f x)"
  shows "ok_runs R (collectM f xs)"
  using assms(3)
proof (induction xs)
  case (Cons x xs)
  then have "ok_runs R (f x)" "ok_runs R (collectM f xs)" by simp_all
  then show ?case by (simp add: ok_runs_bind ok_runs_ret assms)
qed (simp add: ok_runs_ret assms)

lemma ok_runs_zoom_inv:
  assumes "ok_runs (inv_rel Q) m" "\<And>s. P s \<Longrightarrow> Q (sel s)" "\<And>t s. P s \<Longrightarrow> Q t \<Longrightarrow> P (upd t s)"
  shows "ok_runs (inv_rel P) (zoom sel upd m)"
  using assms by (fastforce simp: ok_runs_def inv_rel_def zoom_Ok_iff)

lemma ok_runs_zoom:
  assumes "ok_runs Q m" "\<And>s t. Q (sel s) t \<Longrightarrow> R s (upd t s)"
  shows "ok_runs R (zoom sel upd m)"
  using assms by (fastforce simp: ok_runs_def zoom_Ok_iff)

lemma ok_runs_mono: "ok_runs R m \<Longrightarrow> (\<And>s t. R s t \<Longrightarrow> S s t) \<Longrightarrow> ok_runs S m"
  by (auto simp: ok_runs_def)

declare ok_runs_bind [ok_intro]

end
