(* ===== verification/Ordered_Map.thy ===== *)
theory Ordered_Map
  imports Prelude
begin

text \<open>
  The ordered containers of the Rust standard library and of cw-storage-plus as the code
  sees them: \<open>BTreeMap\<close> (and a \<open>cw_storage_plus::Map\<close>, which iterates in key order) is an
  association list with strictly increasing keys, \<open>BTreeSet\<close> a strictly increasing list.
  The operations are total; \<open>om_wf\<close> and \<open>os_wf\<close> are the representation invariants, kept
  by every operation.
\<close>

section \<open>Maps\<close>

type_synonym ('k, 'v) omap = "('k \<times> 'v) list"

definition om_empty :: "('k, 'v) omap" where
  "om_empty = []"

abbreviation om_get :: "('k, 'v) omap \<Rightarrow> 'k \<Rightarrow> 'v option" where
  "om_get \<equiv> map_of"

fun om_insert :: "'k::linorder \<Rightarrow> 'v \<Rightarrow> ('k, 'v) omap \<Rightarrow> ('k, 'v) omap" where
  "om_insert k v [] = [(k, v)]"
| "om_insert k v (p # ps) =
     (if fst p < k then p # om_insert k v ps
      else if fst p = k then (k, v) # ps
      else (k, v) # p # ps)"

definition om_remove :: "'k \<Rightarrow> ('k, 'v) omap \<Rightarrow> ('k, 'v) omap" where
  "om_remove k m = filter (\<lambda>p. fst p \<noteq> k) m"

definition om_has :: "('k, 'v) omap \<Rightarrow> 'k \<Rightarrow> bool" where
  "om_has m k = (om_get m k \<noteq> None)"

definition om_keys :: "('k, 'v) omap \<Rightarrow> 'k list" where
  "om_keys m = map fst m"

definition om_wf :: "('k::linorder, 'v) omap \<Rightarrow> bool" where
  "om_wf m = sorted_wrt (<) (map fst m)"

text \<open>\<open>BTreeMap::range\<close> with an included lower and an excluded upper bound.\<close>

definition in_range :: "'k::linorder option \<Rightarrow> 'k option \<Rightarrow> 'k \<Rightarrow> bool" where
  "in_range lo hi k = ((case lo of None \<Rightarrow> True | Some l \<Rightarrow> l \<le> k)
                     \<and> (case hi of None \<Rightarrow> True | Some h \<Rightarrow> k < h))"

definition om_range :: "'k::linorder option \<Rightarrow> 'k option \<Rightarrow> ('k, 'v) omap \<Rightarrow> ('k, 'v) omap" where
  "om_range lo hi m = filter (\<lambda>p. in_range lo hi (fst p)) m"

text \<open>\<open>keys().last()\<close>.\<close>

definition om_last_key :: "('k, 'v) omap \<Rightarrow> 'k option" where
  "om_last_key m = (if m = [] then None else Some (fst (last m)))"

lemma om_wf_Nil [simp]: "om_wf []"
  by (simp add: om_wf_def)

lemma om_wf_empty [simp]: "om_wf om_empty"
  by (simp add: om_empty_def)

lemma om_get_empty [simp]: "om_get om_empty k = None"
  by (simp add: om_empty_def)

lemma om_wf_Cons: "om_wf (p # m) \<longleftrightarrow> (\<forall>q \<in> set m. fst p < fst q) \<and> om_wf m"
  by (simp add: om_wf_def)

lemma om_get_insert [simp]: "om_get (om_insert k v m) = (om_get m)(k \<mapsto> v)"
proof (induction m)
  case (Cons p m)
  then show ?case by (cases p) (auto simp: fun_eq_iff)
qed simp

lemma om_get_remove [simp]: "om_get (om_remove k m) = (om_get m)(k := None)"
  by (induction m) (auto simp: om_remove_def fun_eq_iff)

lemma fst_set_om_insert: "fst ` set (om_insert k v m) = insert k (fst ` set m)"
  by (induction m) auto

lemma set_om_insert_subset: "set (om_insert k v m) \<subseteq> insert (k, v) (set m)"
  by (induction m) auto

lemma om_wf_insert [simp]: "om_wf m \<Longrightarrow> om_wf (om_insert k v m)"
proof (induction m)
  case (Cons p m)
  have "\<forall>q \<in> set (om_insert k v m). fst p < fst q" if "fst p < k"
    using that Cons.prems fst_set_om_insert [of k v m] by (fastforce simp: om_wf_Cons)
  with Cons show ?case by (fastforce simp: om_wf_Cons)
qed (simp add: om_wf_Cons)

lemma length_om_insert_fresh: "om_get m k = None \<Longrightarrow> length (om_insert k v m) = Suc (length m)"
  by (induction m) (auto split: if_splits)

lemma length_om_insert: "length m \<le> length (om_insert k v m)"
  by (induction m) auto

lemma om_wf_filter [simp]: "om_wf m \<Longrightarrow> om_wf (filter P m)"
  by (induction m) (auto simp: om_wf_Cons)

lemma om_wf_remove [simp]: "om_wf m \<Longrightarrow> om_wf (om_remove k m)"
  by (simp add: om_remove_def)

lemma om_wf_range [simp]: "om_wf m \<Longrightarrow> om_wf (om_range lo hi m)"
  by (simp add: om_range_def)

lemma om_wf_distinct: "om_wf m \<Longrightarrow> distinct (map fst m)"
  by (auto simp: om_wf_def strict_sorted_iff)

lemma om_get_Some_iff: "om_wf m \<Longrightarrow> om_get m k = Some v \<longleftrightarrow> (k, v) \<in> set m"
  by (simp add: om_wf_distinct)

lemma om_get_filter_keys:
  "om_get (filter (\<lambda>p. P (fst p)) m) k = (if P k then om_get m k else None)"
  by (induction m) auto

lemma om_get_range [simp]:
  "om_get (om_range lo hi m) k = (if in_range lo hi k then om_get m k else None)"
  by (simp add: om_range_def om_get_filter_keys)

text \<open>A well-formed map is determined by its lookups.\<close>

lemma om_wf_unique:
  assumes "om_wf m" "om_wf n" "om_get m = om_get n"
  shows "m = n"
proof -
  have "set m = set n"
    using assms by (auto simp flip: om_get_Some_iff)
  moreover have "sorted_wrt (<) (map fst m)" "sorted_wrt (<) (map fst n)"
    using assms(1,2) by (simp_all add: om_wf_def)
  ultimately have "map fst m = map fst n"
    by (intro strict_sorted_equal) (auto simp: om_wf_def)
  moreover have "snd p = the (om_get m (fst p))" if "p \<in> set m" for p
    using that assms(1) om_get_Some_iff [of m "fst p" "snd p"] by simp
  moreover have "snd p = the (om_get m (fst p))" if "p \<in> set n" for p
    using that assms om_get_Some_iff [of n "fst p" "snd p"] by simp
  ultimately show ?thesis
  proof -
    assume k: "map fst m = map fst n"
      and 1: "\<And>p. p \<in> set m \<Longrightarrow> snd p = the (om_get m (fst p))"
      and 2: "\<And>p. p \<in> set n \<Longrightarrow> snd p = the (om_get m (fst p))"
    have "m = map (\<lambda>x. (x, the (om_get m x))) (map fst m)"
      using 1 by (simp add: map_idI prod_eq_iff)
    also have "\<dots> = map (\<lambda>x. (x, the (om_get m x))) (map fst n)"
      by (simp only: k)
    also have "\<dots> = n"
      using 2 by (simp add: map_idI prod_eq_iff)
    finally show ?thesis .
  qed
qed

lemma map_of_rev_distinct: "distinct (map fst xs) \<Longrightarrow> map_of (rev xs) = map_of xs"
  by (subst map_of_inject_set) (simp_all add: rev_map [symmetric])

section \<open>Sums over the entries of a map\<close>

definition om_sum :: "('k \<Rightarrow> 'v \<Rightarrow> nat) \<Rightarrow> ('k, 'v) omap \<Rightarrow> nat" where
  "om_sum f m = sum_list (map (\<lambda>(k, v). f k v) m)"

definition om_at :: "('k \<Rightarrow> 'v \<Rightarrow> nat) \<Rightarrow> ('k, 'v) omap \<Rightarrow> 'k \<Rightarrow> nat" where
  "om_at f m k = (case om_get m k of None \<Rightarrow> 0 | Some v \<Rightarrow> f k v)"

lemma om_sum_Nil [simp]: "om_sum f [] = 0"
  and om_sum_Cons [simp]: "om_sum f (p # m) = f (fst p) (snd p) + om_sum f m"
  by (simp_all add: om_sum_def split: prod.splits)

lemma om_sum_empty [simp]: "om_sum f om_empty = 0"
  by (simp add: om_empty_def)

lemma om_at_notin: "k \<notin> fst ` set m \<Longrightarrow> om_at f m k = 0"
  by (simp add: om_at_def flip: map_of_eq_None_iff)

lemma om_sum_insert:
  "om_wf m \<Longrightarrow> om_sum f (om_insert k v m) + om_at f m k = om_sum f m + f k v"
proof (induction m)
  case Nil
  then show ?case by (simp add: om_at_def)
next
  case (Cons p m)
  have "fst p > k \<Longrightarrow> om_at f m k = 0"
    using Cons.prems by (intro om_at_notin) (auto simp: om_wf_Cons)
  with Cons show ?case
    by (cases p) (auto simp: om_at_def om_wf_Cons)
qed

lemma om_sum_remove: "om_wf m \<Longrightarrow> om_sum f (om_remove k m) + om_at f m k = om_sum f m"
proof (induction m)
  case Nil
  then show ?case by (simp add: om_at_def om_remove_def)
next
  case (Cons p m)
  have "fst p = k \<Longrightarrow> om_at f m k = 0 \<and> om_remove k m = m"
    using Cons.prems by (auto simp: om_wf_Cons om_remove_def intro!: om_at_notin filter_True)
  with Cons show ?case
    by (cases p) (auto simp: om_at_def om_wf_Cons om_remove_def)
qed

lemma om_at_le_sum: "om_wf m \<Longrightarrow> om_at f m k \<le> om_sum f m"
  using om_sum_remove [of m f k] by linarith

section \<open>Sets\<close>

type_synonym 'a oset = "'a list"

definition os_wf :: "'a::linorder oset \<Rightarrow> bool" where
  "os_wf xs = sorted_wrt (<) xs"

fun os_insert :: "'a::linorder \<Rightarrow> 'a oset \<Rightarrow> 'a oset" where
  "os_insert x [] = [x]"
| "os_insert x (y # ys) = (if y < x then y # os_insert x ys else if y = x then y # ys else x # y # ys)"

definition os_remove :: "'a \<Rightarrow> 'a oset \<Rightarrow> 'a oset" where
  "os_remove x xs = filter (\<lambda>y. y \<noteq> x) xs"

lemma set_os_insert [simp]: "set (os_insert x xs) = insert x (set xs)"
  by (induction xs) auto

lemma set_os_remove [simp]: "set (os_remove x xs) = set xs - {x}"
  by (auto simp: os_remove_def)

lemma os_wf_Nil [simp]: "os_wf []"
  by (simp add: os_wf_def)

lemma os_wf_insert [simp]: "os_wf xs \<Longrightarrow> os_wf (os_insert x xs)"
  by (induction xs) (auto simp: os_wf_def)

lemma os_wf_remove [simp]: "os_wf xs \<Longrightarrow> os_wf (os_remove x xs)"
  by (simp add: os_wf_def os_remove_def sorted_wrt_filter)

lemmas [omap_simps] = om_get_insert om_get_remove om_get_range om_wf_insert om_wf_remove
  om_wf_range set_os_insert set_os_remove os_wf_insert os_wf_remove

end
