(* ===== verification/Storage.thy ===== *)
theory Storage
  imports Ordered_Map
begin

text \<open>
  The \<open>cosmwasm_std::Storage\<close> trait as the code uses it. A trait object is a state together
  with a table of the four methods (\<open>storage_ops\<close>); code that is generic over
  \<open>&mut dyn Storage\<close> takes the table as an argument. \<open>range\<close> returns the records the
  iterator yields, \<open>None\<close> when collecting it panics.

  The locale \<open>storage\<close> states what the trait promises, over an abstract view of the
  state as a partial map from keys to values. \<open>sprog\<close> is an arbitrary program against the
  trait: every function of the crate that takes a \<open>&mut dyn Storage\<close> is such a program,
  so a theorem about all \<open>sprog\<close> is a theorem about all of them.
\<close>

section \<open>The method table\<close>

datatype order = Ascending | Descending

type_synonym rec = "bytes \<times> bytes"

record 's storage_ops =
  s_get :: "'s \<Rightarrow> bytes \<Rightarrow> bytes option"
  s_range :: "'s \<Rightarrow> bytes option \<Rightarrow> bytes option \<Rightarrow> order \<Rightarrow> rec list option"
  s_set :: "'s \<Rightarrow> bytes \<Rightarrow> bytes \<Rightarrow> 's"
  s_remove :: "'s \<Rightarrow> bytes \<Rightarrow> 's"

definition key_lt :: "order \<Rightarrow> bytes \<Rightarrow> bytes \<Rightarrow> bool" where
  "key_lt ord a b = (case ord of Ascending \<Rightarrow> a < b | Descending \<Rightarrow> b < a)"

text \<open>
  \<open>lists_view v lo hi ord xs\<close>: the list \<open>xs\<close> holds exactly the entries of \<open>v\<close> with a key in
  the range, in the order asked for.
\<close>

definition lists_view ::
    "(bytes \<rightharpoonup> bytes) \<Rightarrow> bytes option \<Rightarrow> bytes option \<Rightarrow> order \<Rightarrow> rec list \<Rightarrow> bool" where
  "lists_view v lo hi ord xs \<longleftrightarrow>
     sorted_wrt (key_lt ord) (map fst xs) \<and>
     (\<forall>k. map_of xs k = (if in_range lo hi k then v k else None))"

lemma key_lt_Ascending [simp]: "key_lt Ascending = (<)"
  by (simp add: key_lt_def fun_eq_iff)

lemma key_lt_irrefl [simp]: "\<not> key_lt ord a a"
  by (cases ord) (auto simp: key_lt_def)

lemma key_lt_trans: "key_lt ord a b \<Longrightarrow> key_lt ord b c \<Longrightarrow> key_lt ord a c"
  by (cases ord) (auto simp: key_lt_def)

lemma key_lt_total: "a \<noteq> b \<Longrightarrow> key_lt ord a b \<or> key_lt ord b a"
  by (cases ord) (auto simp: key_lt_def)

lemma sorted_key_lt_distinct: "sorted_wrt (key_lt ord) ks \<Longrightarrow> distinct ks"
  by (induction ks) auto

lemma sorted_key_lt_rev:
  "sorted_wrt (key_lt Descending) (rev ks) = sorted_wrt (key_lt Ascending) ks"
  by (simp add: sorted_wrt_rev key_lt_def)

lemma lists_view_rev:
  "lists_view v lo hi Ascending xs \<Longrightarrow> lists_view v lo hi Descending (rev xs)"
  using sorted_key_lt_distinct [of Ascending "map fst xs"]
  by (auto simp: lists_view_def rev_map [symmetric] sorted_key_lt_rev map_of_rev_distinct)

text \<open>The listing is determined by the view: two lawful storages with the same view agree.\<close>

lemma lists_view_unique:
  assumes "lists_view v lo hi ord xs" "lists_view v lo hi ord ys"
  shows "xs = ys"
proof -
  have asc: "xs = ys"
    if "lists_view v lo hi Ascending xs" "lists_view v lo hi Ascending ys" for xs ys
    using that by (intro om_wf_unique) (auto simp: lists_view_def om_wf_def key_lt_def fun_eq_iff)
  show ?thesis
  proof (cases ord)
    case Ascending
    with asc assms show ?thesis by simp
  next
    case Descending
    have r: "lists_view v lo hi Ascending (rev zs)" if "lists_view v lo hi Descending zs" for zs
      using that sorted_key_lt_distinct [of Descending "map fst zs"]
        sorted_key_lt_rev [of "rev (map fst zs)"]
      by (auto simp: lists_view_def rev_map map_of_rev_distinct)
    from asc [OF r r] assms Descending show ?thesis by simp
  qed
qed

section \<open>What the trait promises\<close>

locale storage =
  fixes ops :: "'s storage_ops"
    and view :: "'s \<Rightarrow> bytes \<rightharpoonup> bytes"
    and ok :: "'s \<Rightarrow> bool"
  assumes get: "ok s \<Longrightarrow> s_get ops s k = view s k"
    and set_view: "ok s \<Longrightarrow> val \<noteq> [] \<Longrightarrow> view (s_set ops s k val) = (view s)(k \<mapsto> val)"
    and set_ok: "ok s \<Longrightarrow> val \<noteq> [] \<Longrightarrow> ok (s_set ops s k val)"
    and remove_view: "ok s \<Longrightarrow> view (s_remove ops s k) = (view s)(k := None)"
    and remove_ok: "ok s \<Longrightarrow> ok (s_remove ops s k)"
    and range: "ok s \<Longrightarrow> \<exists>xs. s_range ops s lo hi ord = Some xs \<and> lists_view (view s) lo hi ord xs"

section \<open>Programs over a storage\<close>

datatype 'r sprog =
    SDone 'r
  | SGet bytes "bytes option \<Rightarrow> 'r sprog"
  | SRange "bytes option" "bytes option" order "rec list \<Rightarrow> 'r sprog"
  | SSet bytes bytes "'r sprog"
  | SRemove bytes "'r sprog"

text \<open>
  Running a program on a storage: the result (\<open>None\<close> when a range panicked) and the state it
  leaves behind.
\<close>

primrec run_sprog :: "'s storage_ops \<Rightarrow> 'r sprog \<Rightarrow> 's \<Rightarrow> 'r option \<times> 's" where
  "run_sprog ops (SDone r) = (\<lambda>s. (Some r, s))"
| "run_sprog ops (SGet k f) = (\<lambda>s. run_sprog ops (f (s_get ops s k)) s)"
| "run_sprog ops (SRange lo hi ord f) = (\<lambda>s. case s_range ops s lo hi ord of
      None \<Rightarrow> (None, s) | Some xs \<Rightarrow> run_sprog ops (f xs) s)"
| "run_sprog ops (SSet k v p) = (\<lambda>s. run_sprog ops p (s_set ops s k v))"
| "run_sprog ops (SRemove k p) = (\<lambda>s. run_sprog ops p (s_remove ops s k))"

text \<open>
  The documented precondition of \<open>Storage::set\<close>: values are not empty (a backing storage may
  refuse an empty one).
\<close>

primrec writes_ok :: "'r sprog \<Rightarrow> bool" where
  "writes_ok (SDone r) = True"
| "writes_ok (SGet k f) = (\<forall>x. writes_ok (f x))"
| "writes_ok (SRange lo hi ord f) = (\<forall>x. writes_ok (f x))"
| "writes_ok (SSet k v p) = (v \<noteq> [] \<and> writes_ok p)"
| "writes_ok (SRemove k p) = writes_ok p"

context storage begin

lemma run_sprog_ok: "ok s \<Longrightarrow> writes_ok p \<Longrightarrow> ok (snd (run_sprog ops p s))"
proof (induction p arbitrary: s)
  case (SRange lo hi ord f)
  then obtain xs where "s_range ops s lo hi ord = Some xs" using range by blast
  with SRange show ?case by simp
qed (auto simp: set_ok remove_ok)

lemma run_sprog_total: "ok s \<Longrightarrow> writes_ok p \<Longrightarrow> fst (run_sprog ops p s) \<noteq> None"
proof (induction p arbitrary: s)
  case (SRange lo hi ord f)
  then obtain xs where "s_range ops s lo hi ord = Some xs" using range by blast
  with SRange show ?case by simp
qed (auto simp: set_ok remove_ok)

end

text \<open>
  Two lawful storages with the same view cannot be told apart: a program returns the same
  result on both and leaves equal views behind.
\<close>

locale storage_pair = a: storage opsa viewa oka + b: storage opsb viewb okb
  for opsa :: "'s storage_ops" and viewa oka
  and opsb :: "'t storage_ops" and viewb okb
begin

lemma range_eq: "oka s \<Longrightarrow> okb t \<Longrightarrow> viewa s = viewb t \<Longrightarrow>
    s_range opsa s lo hi ord = s_range opsb t lo hi ord"
  using a.range [of s lo hi ord] b.range [of t lo hi ord] lists_view_unique by fastforce

lemma run_sprog_sim:
  assumes "oka s" "okb t" "viewa s = viewb t" "writes_ok p"
  shows "fst (run_sprog opsa p s) = fst (run_sprog opsb p t)
       \<and> viewa (snd (run_sprog opsa p s)) = viewb (snd (run_sprog opsb p t))"
  using assms
proof (induction p arbitrary: s t)
  case (SGet k f)
  then show ?case by (simp add: a.get b.get)
next
  case (SRange lo hi ord f)
  from SRange.prems have eq: "s_range opsa s lo hi ord = s_range opsb t lo hi ord"
    by (simp add: range_eq)
  from SRange.prems obtain xs where "s_range opsb t lo hi ord = Some xs" using b.range by blast
  with SRange eq show ?case by simp
next
  case (SSet k v p)
  then show ?case by (simp add: a.set_ok b.set_ok a.set_view b.set_view)
next
  case (SRemove k p)
  then show ?case by (simp add: a.remove_ok b.remove_ok a.remove_view b.remove_view)
qed simp

end

section \<open>A storage kept in an ordered map\<close>

type_synonym mem = "(bytes, bytes) omap"

definition mem_range :: "mem \<Rightarrow> bytes option \<Rightarrow> bytes option \<Rightarrow> order \<Rightarrow> rec list option" where
  "mem_range m lo hi ord = (case ord of
      Ascending \<Rightarrow> Some (om_range lo hi m)
    | Descending \<Rightarrow> Some (rev (om_range lo hi m)))"

definition mem_ops :: "mem storage_ops" where
  "mem_ops = \<lparr>s_get = om_get, s_range = mem_range, s_set = (\<lambda>m k v. om_insert k v m),
              s_remove = (\<lambda>m k. om_remove k m)\<rparr>"

lemma mem_range_lists:
  "om_wf m \<Longrightarrow> \<exists>xs. mem_range m lo hi ord = Some xs \<and> lists_view (om_get m) lo hi ord xs"
proof -
  assume "om_wf m"
  then have "om_wf (om_range lo hi m)" by simp
  then have "lists_view (om_get m) lo hi Ascending (om_range lo hi m)"
    by (simp add: lists_view_def om_wf_def key_lt_def)
  then show ?thesis
    by (cases ord) (auto simp: mem_range_def lists_view_rev)
qed

interpretation mem: storage mem_ops om_get om_wf
  by unfold_locales (simp_all add: mem_ops_def mem_range_lists)

end
