(* ===== verification/Transactions.thy ===== *)
theory Transactions
  imports Storage
begin

text \<open>
  \<open>src/src/transactions.rs\<close>: the write cache over a backing storage (\<open>StorageTransaction\<close>),
  the log it leaves for the commit (\<open>RepLog\<close>, \<open>Op\<close>, \<open>Delta\<close>), the iterator that merges
  the cached changes into the records of the backing storage (\<open>MergeOverlay\<close>), and
  \<open>transactional\<close>. The iterator is modelled as the state machine it is, \<open>next\<close> by \<open>next\<close>
  on the two peekable inputs; \<open>overlay\<close> is the abstract description it is proved to
  implement. The main result is that a cache over a lawful storage is again a lawful
  storage, with the base overlaid by the cached changes as its view, and that committing
  the log installs exactly that view.
\<close>

section \<open>Operations and deltas\<close>

datatype delta = DSet bytes | DDelete

datatype op = OpSet bytes bytes | OpDelete bytes

fun op_apply :: "'s storage_ops \<Rightarrow> 's \<Rightarrow> op \<Rightarrow> 's" where
  "op_apply ops s (OpSet k v) = s_set ops s k v"
| "op_apply ops s (OpDelete k) = s_remove ops s k"

fun to_delta :: "op \<Rightarrow> delta" where
  "to_delta (OpSet k v) = DSet v"
| "to_delta (OpDelete k) = DDelete"

fun op_key :: "op \<Rightarrow> bytes" where
  "op_key (OpSet k v) = k"
| "op_key (OpDelete k) = k"

fun op_ok :: "op \<Rightarrow> bool" where
  "op_ok (OpSet k v) = (v \<noteq> [])"
| "op_ok (OpDelete k) = True"

record rep_log =
  ops_log :: "op list"

definition rep_log_new :: rep_log where
  "rep_log_new = \<lparr>ops_log = []\<rparr>"

definition rep_log_append :: "rep_log \<Rightarrow> op \<Rightarrow> rep_log" where
  "rep_log_append l x = l\<lparr>ops_log := ops_log l @ [x]\<rparr>"

definition commit :: "'s storage_ops \<Rightarrow> rep_log \<Rightarrow> 's \<Rightarrow> 's" where
  "commit ops l s = foldl (op_apply ops) s (ops_log l)"

section \<open>The merging iterator\<close>

type_synonym lrec = "bytes \<times> delta"

text \<open>
  The state of a \<open>MergeOverlay\<close> is what is left of its two peekable inputs. \<open>next\<close> yields a
  record or the end, and the inputs that remain; \<open>None\<close> stands for the panic of the
  \<open>unwrap\<close> in \<open>take_left\<close>.
\<close>

function (sequential) mo_next :: "order \<Rightarrow> lrec list \<Rightarrow> rec list \<Rightarrow> (rec option \<times> lrec list \<times> rec list) option"
  and pick_match :: "order \<Rightarrow> bytes \<Rightarrow> bytes \<Rightarrow> lrec list \<Rightarrow> rec list \<Rightarrow> (rec option \<times> lrec list \<times> rec list) option"
  and take_left :: "order \<Rightarrow> lrec list \<Rightarrow> rec list \<Rightarrow> (rec option \<times> lrec list \<times> rec list) option"
where
  "mo_next ord (x # l) (y # r) = pick_match ord (fst x) (fst y) (x # l) (y # r)"
| "mo_next ord (x # l) [] = take_left ord (x # l) []"
| "mo_next ord [] (y # r) = Some (Some y, [], r)"
| "mo_next ord [] [] = Some (None, [], [])"
| "pick_match ord lkey rkey l r =
     (if key_lt ord lkey rkey then take_left ord l r
      else if lkey = rkey then take_left ord l (tl r)
      else (case r of [] \<Rightarrow> Some (None, l, []) | y # r' \<Rightarrow> Some (Some y, l, r')))"
| "take_left ord [] r = None"
| "take_left ord ((lkey, DSet value) # l) r = Some (Some (lkey, value), l, r)"
| "take_left ord ((lkey, DDelete) # l) r = mo_next ord l r"
  by pat_completeness auto
termination
  by (relation "measure (\<lambda>x. case x of
        Inl (_, l, _) \<Rightarrow> 3 * length l + 2
      | Inr (Inl (_, _, _, l, _)) \<Rightarrow> 3 * length l + 1
      | Inr (Inr (_, l, _)) \<Rightarrow> 3 * length l)") auto

lemma mo_next_shorter:
  "mo_next ord l r = Some (Some x, l', r') \<Longrightarrow> length l' + length r' < length l + length r"
  "pick_match ord lk rk l r = Some (Some x, l', r') \<Longrightarrow> length l' + length r' < length l + length r"
  "take_left ord l r = Some (Some x, l', r') \<Longrightarrow> length l' + length r' < length l + length r"
proof (induction ord l r and ord lk rk l r and ord l r rule: mo_next_pick_match_take_left.induct)
  case (5 ord lk rk l r)
  then show ?case by (cases r) (fastforce split: if_splits)+
next
  case (8 ord lk l r)
  then show ?case by fastforce
qed auto

text \<open>Draining the iterator (\<open>collect\<close>).\<close>

function mo_collect :: "order \<Rightarrow> lrec list \<Rightarrow> rec list \<Rightarrow> rec list option" where
  "mo_collect ord l r = (case mo_next ord l r of
      None \<Rightarrow> None
    | Some (None, l', r') \<Rightarrow> Some []
    | Some (Some x, l', r') \<Rightarrow> map_option (Cons x) (mo_collect ord l' r'))"
  by pat_completeness auto
termination
  by (relation "measure (\<lambda>(ord, l, r). length l + length r)") (auto dest: mo_next_shorter(1))

declare mo_collect.simps [simp del]

text \<open>The abstract description of the merged sequence.\<close>

fun emit :: "lrec \<Rightarrow> rec list \<Rightarrow> rec list" where
  "emit (k, DSet v) rest = (k, v) # rest"
| "emit (k, DDelete) rest = rest"

fun overlay :: "order \<Rightarrow> lrec list \<Rightarrow> rec list \<Rightarrow> rec list" where
  "overlay ord [] r = r"
| "overlay ord (x # l) [] = emit x (overlay ord l [])"
| "overlay ord (x # l) (y # r) =
     (if key_lt ord (fst x) (fst y) then emit x (overlay ord l (y # r))
      else if fst x = fst y then emit x (overlay ord l r)
      else y # overlay ord (x # l) r)"

definition yields :: "order \<Rightarrow> (rec option \<times> lrec list \<times> rec list) option \<Rightarrow> rec list \<Rightarrow> bool" where
  "yields ord res xs = (case res of
      None \<Rightarrow> False
    | Some (None, l, r) \<Rightarrow> xs = []
    | Some (Some x, l, r) \<Rightarrow> xs = x # overlay ord l r)"

lemma mo_next_yields:
  "yields ord (mo_next ord l r) (overlay ord l r)"
  "l \<noteq> [] \<Longrightarrow> r \<noteq> [] \<Longrightarrow> lk = fst (hd l) \<Longrightarrow> rk = fst (hd r) \<Longrightarrow>
     yields ord (pick_match ord lk rk l r) (overlay ord l r)"
  "l \<noteq> [] \<Longrightarrow> yields ord (take_left ord l r) (emit (hd l) (overlay ord (tl l) r))"
proof (induction ord l r and ord lk rk l r and ord l r rule: mo_next_pick_match_take_left.induct)
  case (1 ord x l y r)
  then show ?case by (simp del: pick_match.simps overlay.simps)
next
  case (2 ord x l)
  then show ?case by simp
next
  case (5 ord lk rk l r)
  then obtain x l' y r' where lr: "l = x # l'" "r = y # r'"
    by (meson neq_Nil_conv)
  with 5(5,6) have k: "lk = fst x" "rk = fst y" by simp_all
  consider "key_lt ord lk rk" | "\<not> key_lt ord lk rk" "lk = rk" | "\<not> key_lt ord lk rk" "lk \<noteq> rk"
    by blast
  then show ?case
  proof cases
    case 1
    with 5(1) lr k show ?thesis by simp
  next
    case 2
    with 5(2) lr k show ?thesis by simp
  next
    case 3
    with lr k show ?thesis by (simp add: yields_def)
  qed
next
  case (8 ord lk l r)
  then show ?case by simp
qed (simp_all add: yields_def)

lemma mo_collect_overlay: "mo_collect ord l r = Some (overlay ord l r)"
proof (induction ord l r rule: mo_collect.induct)
  case (1 ord l r)
  have y: "yields ord (mo_next ord l r) (overlay ord l r)" by (rule mo_next_yields)
  obtain res l' r' where n: "mo_next ord l r = Some (res, l', r')"
    using y by (cases "mo_next ord l r") (auto simp: yields_def)
  show ?case
  proof (cases res)
    case None
    with y n show ?thesis by (simp add: mo_collect.simps [of ord l r] yields_def)
  next
    case (Some x)
    with 1 n have "mo_collect ord l' r' = Some (overlay ord l' r')" by simp
    with y n Some show ?thesis by (simp add: mo_collect.simps [of ord l r] yields_def)
  qed
qed

lemma emit_fst: "fst ` set (emit x rest) \<subseteq> insert (fst x) (fst ` set rest)"
  by (cases "(x, rest)" rule: emit.cases) auto

lemma overlay_fst: "fst ` set (overlay ord l r) \<subseteq> fst ` set l \<union> fst ` set r"
proof (induction ord l r rule: overlay.induct)
  case (2 ord x l)
  then show ?case using emit_fst [of x "overlay ord l []"] by simp blast
next
  case (3 ord x l y r)
  then show ?case
  proof (cases "key_lt ord (fst x) (fst y)")
    case True
    with 3(1) emit_fst [of x "overlay ord l (y # r)"] show ?thesis by simp blast
  next
    case False
    with 3(2,3) emit_fst [of x "overlay ord l r"] show ?thesis
      by (cases "fst x = fst y") (simp, blast)+
  qed
qed simp

lemma sorted_emit:
  "sorted_wrt (key_lt ord) (map fst rest) \<Longrightarrow> \<forall>k \<in> fst ` set rest. key_lt ord (fst x) k \<Longrightarrow>
   sorted_wrt (key_lt ord) (map fst (emit x rest))"
  by (cases "(x, rest)" rule: emit.cases) auto

lemma sorted_overlay:
  "sorted_wrt (key_lt ord) (map fst l) \<Longrightarrow> sorted_wrt (key_lt ord) (map fst r) \<Longrightarrow>
   sorted_wrt (key_lt ord) (map fst (overlay ord l r))"
proof (induction ord l r rule: overlay.induct)
  case (2 ord x l)
  from 2 have "\<forall>k \<in> fst ` set l. key_lt ord (fst x) k" by simp
  then have "\<forall>k \<in> fst ` set (overlay ord l []). key_lt ord (fst x) k"
    using overlay_fst [of ord l "[]"] by (simp del: ball_simps) blast
  with 2 show ?case by (simp add: sorted_emit)
next
  case (3 ord x l y r)
  have L: "\<forall>k \<in> fst ` set l. key_lt ord (fst x) k" using 3(4) by simp
  have R: "\<forall>k \<in> fst ` set r. key_lt ord (fst y) k" using 3(5) by simp
  consider "key_lt ord (fst x) (fst y)" | "fst x = fst y" | "key_lt ord (fst y) (fst x)"
    using key_lt_total by blast
  then show ?case
  proof cases
    case 1
    then have "\<forall>k \<in> fst ` set (y # r). key_lt ord (fst x) k"
      using R key_lt_trans by auto
    then have "\<forall>k \<in> fst ` set (overlay ord l (y # r)). key_lt ord (fst x) k"
      using overlay_fst [of ord l "y # r"] L by blast
    with 1 3 show ?thesis by (simp add: sorted_emit)
  next
    case 2
    have "\<forall>k \<in> fst ` set r. key_lt ord (fst x) k" using R by (simp only: 2)
    then have "\<forall>k \<in> fst ` set (overlay ord l r). key_lt ord (fst x) k"
      using overlay_fst [of ord l r] L by blast
    with 2 3 show ?thesis by (simp add: sorted_emit)
  next
    case c: 3
    then have n: "\<not> key_lt ord (fst x) (fst y)" "fst x \<noteq> fst y"
      using key_lt_irrefl key_lt_trans by metis+
    from c have "\<forall>k \<in> fst ` set (x # l). key_lt ord (fst y) k"
      using L key_lt_trans by auto
    then have "\<forall>k \<in> fst ` set (overlay ord (x # l) r). key_lt ord (fst y) k"
      using overlay_fst [of ord "x # l" r] R by blast
    with n 3 show ?thesis by simp
  qed
qed simp

definition overlaid :: "delta option \<Rightarrow> bytes option \<Rightarrow> bytes option" where
  "overlaid d b = (case d of None \<Rightarrow> b | Some (DSet v) \<Rightarrow> Some v | Some DDelete \<Rightarrow> None)"

lemma overlaid_simps [simp]:
  "overlaid None b = b" "overlaid (Some (DSet v)) b = Some v" "overlaid (Some DDelete) b = None"
  by (simp_all add: overlaid_def)

lemma map_of_emit:
  "fst x \<notin> fst ` set rest \<Longrightarrow>
   map_of (emit x rest) k = (if k = fst x then overlaid (Some (snd x)) None else map_of rest k)"
  by (cases "(x, rest)" rule: emit.cases) (auto simp: map_of_eq_None_iff)

lemma map_of_overlay:
  "sorted_wrt (key_lt ord) (map fst l) \<Longrightarrow> sorted_wrt (key_lt ord) (map fst r) \<Longrightarrow>
   map_of (overlay ord l r) k = overlaid (map_of l k) (map_of r k)"
proof (induction ord l r rule: overlay.induct)
  case (2 ord x l)
  then have "fst x \<notin> fst ` set (overlay ord l [])"
    using overlay_fst [of ord l "[]"] by fastforce
  with 2 show ?case by (cases x) (auto simp: map_of_emit overlaid_def split: delta.splits)
next
  case (3 ord x l y r)
  have xl: "fst x \<notin> fst ` set l" and yr: "fst y \<notin> fst ` set r"
    using 3(4,5) by fastforce+
  consider "key_lt ord (fst x) (fst y)" | "fst x = fst y" | "key_lt ord (fst y) (fst x)"
    using key_lt_total by blast
  then show ?case
  proof cases
    case 1
    then have "fst x \<notin> fst ` set (y # r)"
      using 3(5) by (auto dest: key_lt_trans)
    moreover from this xl have "fst x \<notin> fst ` set (overlay ord l (y # r))"
      using overlay_fst [of ord l "y # r"] by auto
    ultimately show ?thesis
      using 1 3 by (cases x) (auto simp: map_of_emit map_of_eq_None_iff overlaid_def split: delta.splits)
  next
    case 2
    from 2 xl yr have "fst x \<notin> fst ` set (overlay ord l r)"
      using overlay_fst [of ord l r] by auto
    with 2 3 show ?thesis
      by (cases x; cases y) (auto simp: map_of_emit overlaid_def split: delta.splits)
  next
    case c: 3
    then have n: "\<not> key_lt ord (fst x) (fst y)" "fst x \<noteq> fst y"
      using key_lt_irrefl key_lt_trans by metis+
    from c have "fst y \<notin> fst ` set (x # l)"
      using 3(4) by (auto dest: key_lt_trans)
    then have "map_of (x # l) (fst y) = None"
      by (simp only: map_of_eq_None_iff) simp
    with n 3 show ?thesis by (cases y) auto
  qed
qed simp

section \<open>The write cache\<close>

text \<open>\<open>BTreeMap::range\<close> panics when the lower bound is above the upper one.\<close>

definition btree_range :: "bytes option \<Rightarrow> bytes option \<Rightarrow> (bytes, 'v) omap \<Rightarrow> (bytes, 'v) omap option" where
  "btree_range lo hi m = (case (lo, hi) of
      (Some l, Some h) \<Rightarrow> if h < l then None else Some (om_range lo hi m)
    | _ \<Rightarrow> Some (om_range lo hi m))"

record 's stx =
  stx_storage :: 's
  stx_local :: "(bytes, delta) omap"
  stx_log :: rep_log

definition stx_new :: "'s \<Rightarrow> 's stx" where
  "stx_new base = \<lparr>stx_storage = base, stx_local = om_empty, stx_log = rep_log_new\<rparr>"

definition stx_prepare :: "'s stx \<Rightarrow> rep_log" where
  "stx_prepare t = stx_log t"

definition stx_get :: "'s storage_ops \<Rightarrow> 's stx \<Rightarrow> bytes \<Rightarrow> bytes option" where
  "stx_get ops t key = (case om_get (stx_local t) key of
      Some (DSet value) \<Rightarrow> Some value
    | Some DDelete \<Rightarrow> None
    | None \<Rightarrow> s_get ops (stx_storage t) key)"

definition stx_range :: "'s storage_ops \<Rightarrow> 's stx \<Rightarrow> bytes option \<Rightarrow> bytes option \<Rightarrow> order \<Rightarrow> rec list option" where
  "stx_range ops t start stop ord = (
     let local_raw = (case (start, stop) of
           (Some a, Some b) \<Rightarrow> if b < a then Some [] else btree_range start stop (stx_local t)
         | _ \<Rightarrow> btree_range start stop (stx_local t));
         local = map_option (\<lambda>xs. case ord of Ascending \<Rightarrow> xs | Descending \<Rightarrow> rev xs) local_raw
     in case (local, s_range ops (stx_storage t) start stop ord) of
          (Some l, Some r) \<Rightarrow> mo_collect ord l r
        | _ \<Rightarrow> None)"

definition stx_write :: "'s stx \<Rightarrow> op \<Rightarrow> 's stx" where
  "stx_write t x = t\<lparr>stx_local := om_insert (op_key x) (to_delta x) (stx_local t),
                     stx_log := rep_log_append (stx_log t) x\<rparr>"

definition stx_set :: "'s stx \<Rightarrow> bytes \<Rightarrow> bytes \<Rightarrow> 's stx" where
  "stx_set t key value = stx_write t (OpSet key value)"

definition stx_remove :: "'s stx \<Rightarrow> bytes \<Rightarrow> 's stx" where
  "stx_remove t key = stx_write t (OpDelete key)"

definition stx_ops :: "'s storage_ops \<Rightarrow> 's stx storage_ops" where
  "stx_ops ops = \<lparr>s_get = stx_get ops, s_range = stx_range ops,
                  s_set = stx_set, s_remove = stx_remove\<rparr>"

text \<open>
  What a cache shows, and its invariant: the local changes are the last change the log holds
  for each key.
\<close>

definition stx_view :: "('s \<Rightarrow> bytes \<rightharpoonup> bytes) \<Rightarrow> 's stx \<Rightarrow> bytes \<rightharpoonup> bytes" where
  "stx_view view t = (\<lambda>k. overlaid (om_get (stx_local t) k) (view (stx_storage t) k))"

definition log_deltas :: "op list \<Rightarrow> bytes \<rightharpoonup> delta" where
  "log_deltas xs = foldl (\<lambda>m x. m(op_key x \<mapsto> to_delta x)) Map.empty xs"

definition stx_ok :: "('s \<Rightarrow> bool) \<Rightarrow> 's stx \<Rightarrow> bool" where
  "stx_ok base_ok t \<longleftrightarrow> base_ok (stx_storage t) \<and> om_wf (stx_local t)
     \<and> om_get (stx_local t) = log_deltas (ops_log (stx_log t))
     \<and> (\<forall>x \<in> set (ops_log (stx_log t)). op_ok x)"

lemma log_deltas_snoc [simp]: "log_deltas (xs @ [x]) = (log_deltas xs)(op_key x \<mapsto> to_delta x)"
  by (simp add: log_deltas_def)

lemma stx_write_simps [simp]:
  "stx_storage (stx_write t x) = stx_storage t"
  "stx_local (stx_write t x) = om_insert (op_key x) (to_delta x) (stx_local t)"
  "ops_log (stx_log (stx_write t x)) = ops_log (stx_log t) @ [x]"
  by (simp_all add: stx_write_def rep_log_append_def)

lemma stx_write_view:
  "stx_view view (stx_write t x) = (stx_view view t)(op_key x := overlaid (Some (to_delta x)) None)"
  by (cases x) (auto simp: stx_view_def fun_eq_iff)

lemma stx_write_ok: "stx_ok base_ok t \<Longrightarrow> op_ok x \<Longrightarrow> stx_ok base_ok (stx_write t x)"
  by (auto simp: stx_ok_def)

lemma stx_new_ok: "base_ok s \<Longrightarrow> stx_ok base_ok (stx_new s)"
  by (simp add: stx_ok_def stx_new_def rep_log_new_def log_deltas_def om_empty_def)

lemma stx_new_view: "stx_view view (stx_new s) = view s"
  by (simp add: stx_view_def stx_new_def)

lemma local_range_lists:
  assumes "om_wf m"
  shows "\<exists>l. map_option (\<lambda>xs. case ord of Ascending \<Rightarrow> xs | Descending \<Rightarrow> rev xs)
       (case (lo, hi) of (Some a, Some b) \<Rightarrow> if b < a then Some [] else btree_range lo hi m
                       | _ \<Rightarrow> btree_range lo hi m) = Some l
     \<and> sorted_wrt (key_lt ord) (map fst l)
     \<and> (\<forall>k. map_of l k = (if in_range lo hi k then om_get m k else None))"
proof -
  let ?r = "om_range lo hi m"
  have empty: "?r = []" if "lo = Some a" "hi = Some b" "b < a" for a b
    using that by (auto simp: om_range_def in_range_def filter_empty_conv)
  then have raw: "(case (lo, hi) of (Some a, Some b) \<Rightarrow> if b < a then Some [] else btree_range lo hi m
                       | _ \<Rightarrow> btree_range lo hi m) = Some ?r"
    by (auto simp: btree_range_def split: option.splits)
  have s: "sorted_wrt (key_lt Ascending) (map fst ?r)"
    using om_wf_range [OF assms] by (simp add: om_wf_def)
  then have d: "distinct (map fst ?r)" by (rule sorted_key_lt_distinct)
  show ?thesis
  proof (cases ord)
    case Ascending
    with raw s show ?thesis by simp
  next
    case Descending
    from s have "sorted_wrt (key_lt Descending) (map fst (rev ?r))"
      by (simp add: rev_map [symmetric] sorted_key_lt_rev)
    with raw Descending d show ?thesis by (simp add: map_of_rev_distinct)
  qed
qed

section \<open>A cache over a lawful storage is a lawful storage\<close>

locale tx_base = storage
begin

lemma stx_range_lists:
  assumes "stx_ok ok t"
  shows "\<exists>xs. stx_range ops t lo hi ord = Some xs \<and> lists_view (stx_view view t) lo hi ord xs"
proof -
  from assms have "om_wf (stx_local t)" "ok (stx_storage t)" by (auto simp: stx_ok_def)
  from local_range_lists [OF this(1)] range [OF this(2), of lo hi ord]
  obtain l r where l: "map_option (\<lambda>xs. case ord of Ascending \<Rightarrow> xs | Descending \<Rightarrow> rev xs)
       (case (lo, hi) of (Some a, Some b) \<Rightarrow> if b < a then Some [] else btree_range lo hi (stx_local t)
                       | _ \<Rightarrow> btree_range lo hi (stx_local t)) = Some l"
      "sorted_wrt (key_lt ord) (map fst l)"
      "\<forall>k. map_of l k = (if in_range lo hi k then om_get (stx_local t) k else None)"
    and r: "s_range ops (stx_storage t) lo hi ord = Some r"
      "lists_view (view (stx_storage t)) lo hi ord r"
    by blast
  have "stx_range ops t lo hi ord = Some (overlay ord l r)"
    unfolding stx_range_def Let_def l(1) r(1) by (simp add: mo_collect_overlay)
  moreover have "lists_view (stx_view view t) lo hi ord (overlay ord l r)"
    using l(2,3) r(2) by (simp add: lists_view_def sorted_overlay map_of_overlay stx_view_def)
  ultimately show ?thesis by blast
qed

sublocale tx: storage "stx_ops ops" "stx_view view" "stx_ok ok"
proof unfold_locales
  fix t k assume "stx_ok ok t"
  then show "s_get (stx_ops ops) t k = stx_view view t k"
    by (auto simp: stx_ops_def stx_get_def stx_view_def stx_ok_def get split: option.splits delta.splits)
next
  fix t lo hi ord assume "stx_ok ok t"
  then show "\<exists>xs. s_range (stx_ops ops) t lo hi ord = Some xs \<and> lists_view (stx_view view t) lo hi ord xs"
    by (simp add: stx_ops_def stx_range_lists)
qed (simp_all add: stx_ops_def stx_set_def stx_remove_def stx_write_view stx_write_ok)

sublocale direct: storage_pair "stx_ops ops" "stx_view view" "stx_ok ok" ops view ok
  by unfold_locales

text \<open>Committing the log installs the view of the cache.\<close>

lemma commit_view:
  "ok s \<Longrightarrow> \<forall>x \<in> set xs. op_ok x \<Longrightarrow>
   ok (foldl (op_apply ops) s xs) \<and>
   view (foldl (op_apply ops) s xs) = (\<lambda>k. overlaid (log_deltas xs k) (view s k))"
proof (induction xs rule: rev_induct)
  case Nil
  then show ?case by (simp add: log_deltas_def)
next
  case (snoc x xs)
  then show ?case
    by (cases x) (auto simp: fun_eq_iff set_ok set_view remove_ok remove_view)
qed

lemma commit_cache:
  assumes "stx_ok ok t"
  shows "ok (commit ops (stx_prepare t) (stx_storage t))
       \<and> view (commit ops (stx_prepare t) (stx_storage t)) = stx_view view t"
  using assms commit_view [of "stx_storage t" "ops_log (stx_log t)"]
  by (auto simp: stx_ok_def commit_def stx_prepare_def stx_view_def)

lemma run_sprog_storage: "stx_storage (snd (run_sprog (stx_ops ops) p t)) = stx_storage t"
  by (induction p arbitrary: t)
    (simp_all add: stx_ops_def stx_set_def stx_remove_def split: option.splits)

end

interpretation mem_tx: tx_base mem_ops om_get om_wf
  by unfold_locales

text \<open>Caches nest: a cache over a cache over the root storage, as for a submessage.\<close>

interpretation mem_tx2: tx_base "stx_ops mem_ops" "stx_view om_get" "stx_ok om_wf"
  by unfold_locales

section \<open>\<open>transactional\<close>\<close>

text \<open>
  The action receives the cache and, read-only, the storage underneath. It is committed when
  it returns \<open>Ok\<close>; on an error the cache is dropped.
\<close>

definition transactional ::
    "'s storage_ops \<Rightarrow> ('s stx \<Rightarrow> 's \<Rightarrow> ('e, 'a) outcome \<times> 's stx) \<Rightarrow> ('s, 'e, 'a) proc" where
  "transactional ops action base = (
     let cache = stx_new base
     in case action cache base of
          (Ok res, cache') \<Rightarrow> (Ok res, commit ops (stx_prepare cache') base)
        | (Err e, cache') \<Rightarrow> (Err e, base)
        | (Panic p, cache') \<Rightarrow> (Panic p, base)
        | (NoFuel, cache') \<Rightarrow> (NoFuel, base))"

text \<open>An action written as a program against the trait; it may depend on the read-only base.\<close>

definition sprog_result :: "('e, 'a) outcome option \<Rightarrow> ('e, 'a) outcome" where
  "sprog_result r = (case r of None \<Rightarrow> Panic ''range'' | Some x \<Rightarrow> x)"

definition run_action :: "'s storage_ops \<Rightarrow> ('e, 'a) outcome sprog \<Rightarrow> ('s, 'e, 'a) proc" where
  "run_action ops p s = (case run_sprog ops p s of (r, s') \<Rightarrow> (sprog_result r, s'))"

context tx_base begin

lemma transactional_run:
  assumes "ok s" "writes_ok (p s)"
  shows "fst (transactional ops (\<lambda>c b. run_action (stx_ops ops) (p b) c) s) = fst (run_action ops (p s) s)"
    and "is_ok (fst (run_action ops (p s) s)) \<Longrightarrow>
         ok (snd (transactional ops (\<lambda>c b. run_action (stx_ops ops) (p b) c) s)) \<and>
         view (snd (transactional ops (\<lambda>c b. run_action (stx_ops ops) (p b) c) s))
           = view (snd (run_action ops (p s) s))"
    and "\<not> is_ok (fst (run_action ops (p s) s)) \<Longrightarrow>
         snd (transactional ops (\<lambda>c b. run_action (stx_ops ops) (p b) c) s) = s"
proof -
  let ?c = "run_sprog (stx_ops ops) (p s) (stx_new s)"
  have c_ok: "stx_ok ok (stx_new s)" using assms(1) by (rule stx_new_ok)
  have sim: "fst ?c = fst (run_sprog ops (p s) s)"
      "stx_view view (snd ?c) = view (snd (run_sprog ops (p s) s))"
    using direct.run_sprog_sim [OF c_ok assms(1) stx_new_view assms(2)] by simp_all
  have end_ok: "stx_ok ok (snd ?c)" using tx.run_sprog_ok [OF c_ok assms(2)] .
  have base: "stx_storage (snd ?c) = s"
    by (simp add: run_sprog_storage) (simp add: stx_new_def)
  note com = commit_cache [OF end_ok, unfolded base]
  obtain r c where rc: "?c = (r, c)" by fastforce
  obtain r' s' where rs: "run_sprog ops (p s) s = (r', s')" by fastforce
  from sim rc rs have eq: "r' = r" "stx_view view c = view s'" by simp_all
  show "fst (transactional ops (\<lambda>c b. run_action (stx_ops ops) (p b) c) s) = fst (run_action ops (p s) s)"
    using rc rs eq by (simp add: transactional_def run_action_def split: outcome.splits)
  show "ok (snd (transactional ops (\<lambda>c b. run_action (stx_ops ops) (p b) c) s)) \<and>
         view (snd (transactional ops (\<lambda>c b. run_action (stx_ops ops) (p b) c) s))
           = view (snd (run_action ops (p s) s))"
    if "is_ok (fst (run_action ops (p s) s))"
    using that rc rs eq com by (auto simp: transactional_def run_action_def is_ok_iff)
  show "snd (transactional ops (\<lambda>c b. run_action (stx_ops ops) (p b) c) s) = s"
    if "\<not> is_ok (fst (run_action ops (p s) s))"
    using that rc rs eq by (auto simp: transactional_def run_action_def split: outcome.splits)
qed

end

section \<open>Properties\<close>

text \<open>
  C2. \<open>transactional\<close> is transparent and atomic. Whatever program runs in the write cache, over
  any lawful storage: it returns the same result as it would when run directly on the storage;
  if that result is \<open>Ok\<close>, the storage afterwards shows exactly what it would show after
  the direct run; if it is an error (or a panic), the storage is the untouched original.
\<close>
theorem transactional_refines:
  assumes laws: "storage ops view ok" and "ok s" and "writes_ok (p s)"
    and run: "run_action ops (p s) s = (r, s_direct)"
    and tx: "transactional ops (\<lambda>cache base. run_action (stx_ops ops) (p base) cache) s = (r', s_tx)"
  shows "r' = r \<and> (if is_ok r then ok s_tx \<and> view s_tx = view s_direct else s_tx = s)"
proof -
  have tb: "tx_base ops view ok" using laws by (rule tx_base.intro)
  note t = tx_base.transactional_run [where p = p and s = s, OF tb assms(2) assms(3)]
  from t run tx show ?thesis by simp
qed

definition demo_prog :: "bytes \<Rightarrow> (string, nat) outcome sprog" where
  "demo_prog k = SSet [1] [7] (SGet [1] (\<lambda>x. SRemove [2] (SRange None None Descending
     (\<lambda>xs. SDone (if k = [] then Err ''no key'' else if x = Some [7] then Ok (length xs) else Err ''lost'')))))"

lemma demo_prog_ok: "writes_ok (demo_prog k)"
  by (simp add: demo_prog_def)

theorem transactional_refines_witness:
  "snd (transactional mem_ops (\<lambda>cache base. run_action (stx_ops mem_ops) (demo_prog [1]) cache) [([2], [5]), ([3], [6])])
     = [([1], [7]), ([3], [6])]
   \<and> om_get (snd (run_action mem_ops (demo_prog [1]) [([2], [5]), ([3], [6])])) = om_get [([1], [7]), ([3], [6])]
   \<and> snd (transactional mem_ops (\<lambda>cache base. run_action (stx_ops mem_ops) (demo_prog []) cache) [([2], [5]), ([3], [6])])
     = [([2], [5]), ([3], [6])]"
proof -
  let ?s = "[([2], [5]), ([3], [6])] :: mem"
  have w: "om_wf ?s" by (simp add: om_wf_def)
  obtain r1 d1 where d1: "run_action mem_ops (demo_prog [1]) ?s = (r1, d1)" by fastforce
  obtain r1' t1 where t1: "transactional mem_ops
      (\<lambda>cache base. run_action (stx_ops mem_ops) (demo_prog [1]) cache) ?s = (r1', t1)" by fastforce
  obtain r2 d2 where d2: "run_action mem_ops (demo_prog []) ?s = (r2, d2)" by fastforce
  obtain r2' t2 where t2: "transactional mem_ops
      (\<lambda>cache base. run_action (stx_ops mem_ops) (demo_prog []) cache) ?s = (r2', t2)" by fastforce
  have e1: "r1 = Ok 2" "d1 = [([1], [7]), ([3], [6])]"
    using d1 by (auto simp: run_action_def demo_prog_def mem_ops_def mem_range_def om_remove_def
        om_range_def in_range_def sprog_result_def)
  have e2: "\<not> is_ok r2"
    using d2 by (auto simp: run_action_def demo_prog_def mem_ops_def mem_range_def om_remove_def
        om_range_def in_range_def sprog_result_def)
  note A = transactional_refines [where p = "\<lambda>_. demo_prog [1]", OF mem.storage_axioms w demo_prog_ok d1 t1]
  note B = transactional_refines [where p = "\<lambda>_. demo_prog []", OF mem.storage_axioms w demo_prog_ok d2 t2]
  from A e1 have "om_wf t1" "om_get t1 = om_get d1" by simp_all
  moreover have "om_wf d1" by (simp add: e1 om_wf_def)
  ultimately have "t1 = d1" by (intro om_wf_unique)
  with B e2 d1 t1 t2 e1 show ?thesis by simp
qed

text \<open>
  C35. Iteration over a write cache is exact: \<open>range\<close> never panics and yields the entries of
  the cache's view (the base with the local sets and deletes applied), each once, in the order
  asked for, whatever the base, the local changes and the bounds (an inverted range is empty).
\<close>
theorem cache_range_exact:
  assumes "storage ops view ok" and "stx_ok ok t"
  shows "\<exists>xs. stx_range ops t lo hi ord = Some xs
           \<and> sorted_wrt (key_lt ord) (map fst xs)
           \<and> (\<forall>k. map_of xs k = (if in_range lo hi k
                 then overlaid (om_get (stx_local t) k) (view (stx_storage t) k) else None))"
  using tx_base.stx_range_lists [OF tx_base.intro [OF assms(1)] assms(2)]
  by (simp add: lists_view_def stx_view_def)

theorem cache_range_exact_witness:
  "let t = stx_remove (stx_set (stx_new [([1], [5]), ([2], [6])]) [3] [7]) [1]
   in \<exists>xs. stx_range mem_ops t (Some [1]) (Some [9]) Descending = Some xs
        \<and> sorted_wrt (key_lt Descending) (map fst xs)
        \<and> map_of xs [1] = None \<and> map_of xs [2] = Some [6] \<and> map_of xs [3] = Some [7]"
proof -
  let ?s = "[([1], [5]), ([2], [6])] :: mem"
  let ?t = "stx_remove (stx_set (stx_new ?s) [3] [7]) [1]"
  have "stx_ok om_wf ?t"
    by (simp add: stx_set_def stx_remove_def stx_write_ok stx_new_ok om_wf_def)
  from cache_range_exact [OF mem.storage_axioms this, of "Some [1]" "Some [9]" Descending]
  show ?thesis
    by (auto simp: Let_def stx_set_def stx_remove_def stx_new_def in_range_def om_empty_def)
qed

end
