(* ===== verification/Chain_Types.thy ===== *)
theory Chain_Types
  imports Transactions
begin

text \<open>
  The data the modules of the chain exchange: addresses, coins, blocks, events, the messages
  and queries of the Cosmos SDK modules, contract responses, IBC packets and channels, errors.
  The types of cosmwasm-std and cw-utils are given by their public fields. Everything those
  packages (and serde, prost, hex, the hash crates) \<^emph>\<open>compute\<close> is a field of the record
  \<open>ext\<close>, an argument of the model.

  An enumeration that is marked non-exhaustive has a last constructor for the variants the
  code does not name, so that the catch-all arms of the code are branches of the model.
\<close>

section \<open>Addresses, decimals, coins\<close>

datatype addr = Addr (addr_str: string)

instantiation addr :: linorder
begin

definition less_eq_addr :: "addr \<Rightarrow> addr \<Rightarrow> bool" where
  "less_eq_addr a b = (addr_str a \<le> addr_str b)"

definition less_addr :: "addr \<Rightarrow> addr \<Rightarrow> bool" where
  "less_addr a b = (addr_str a < addr_str b)"

instance
  by standard (auto simp: less_eq_addr_def less_addr_def addr.expand)

end

text \<open>\<open>Decimal256\<close>: a 256-bit integer counting units of \<open>10 ^ -18\<close>.\<close>

datatype decimal = Decimal (atomics: uint256)

instantiation decimal :: linorder
begin

definition less_eq_decimal :: "decimal \<Rightarrow> decimal \<Rightarrow> bool" where
  "less_eq_decimal a b = (atomics a \<le> atomics b)"

definition less_decimal :: "decimal \<Rightarrow> decimal \<Rightarrow> bool" where
  "less_decimal a b = (atomics a < atomics b)"

instance
  by standard (auto simp: less_eq_decimal_def less_decimal_def decimal.expand)

end

definition dec_zero :: decimal where "dec_zero = Decimal 0"
definition dec_one :: decimal where "dec_one = Decimal (10 ^ 18)"

text \<open>Addition and subtraction; \<open>None\<close> is the panic on overflow.\<close>

definition dec_add :: "decimal \<Rightarrow> decimal \<Rightarrow> decimal option" where
  "dec_add a b = map_option Decimal (checked_add (atomics a) (atomics b))"

definition dec_sub :: "decimal \<Rightarrow> decimal \<Rightarrow> decimal option" where
  "dec_sub a b = map_option Decimal (checked_sub (atomics a) (atomics b))"

record coin =
  c_denom :: string
  c_amount :: uint256

text \<open>\<open>format!("{}{}", coin.amount, coin.denom)\<close>.\<close>

definition show_coin :: "coin \<Rightarrow> string" where
  "show_coin c = show_word (c_amount c) @ c_denom c"

type_synonym binary = bytes
type_synonym timestamp = u64

record block_info =
  bl_height :: u64
  bl_time :: timestamp
  bl_chain_id :: string

section \<open>Events and responses\<close>

record attribute =
  a_key :: string
  a_value :: string

record event =
  ev_ty :: string
  ev_attributes :: "attribute list"

definition new_event :: "string \<Rightarrow> (string \<times> string) list \<Rightarrow> event" where
  "new_event ty kvs = \<lparr>ev_ty = ty, ev_attributes = map (\<lambda>(k, v). \<lparr>a_key = k, a_value = v\<rparr>) kvs\<rparr>"

definition add_attributes :: "attribute list \<Rightarrow> event \<Rightarrow> event" where
  "add_attributes xs e = e\<lparr>ev_attributes := ev_attributes e @ xs\<rparr>"

definition attr :: "string \<Rightarrow> string \<Rightarrow> attribute" where
  "attr k v = \<lparr>a_key = k, a_value = v\<rparr>"

record app_response =
  ar_events :: "event list"
  ar_data :: "binary option"

definition default_response :: app_response where
  "default_response = \<lparr>ar_events = [], ar_data = None\<rparr>"

section \<open>IBC data\<close>

record ibc_endpoint =
  ep_port :: string
  ep_channel :: string

datatype ibc_order = Unordered | Ordered

record ibc_channel =
  ic_endpoint :: ibc_endpoint
  ic_counterparty :: ibc_endpoint
  ic_order :: ibc_order
  ic_version :: string
  ic_connection :: string

record timeout_block =
  tb_revision :: u64
  tb_height :: u64

record ibc_timeout =
  to_block :: "timeout_block option"
  to_timestamp :: "timestamp option"

record ibc_packet =
  pk_data :: binary
  pk_src :: ibc_endpoint
  pk_dest :: ibc_endpoint
  pk_sequence :: u64
  pk_timeout :: ibc_timeout

record ics20_packet =
  ics_amount :: uint256
  ics_denom :: string
  ics_receiver :: string
  ics_sender :: string
  ics_memo :: "string option"

datatype channel_open_msg = OpenInit ibc_channel | OpenTry ibc_channel string
datatype channel_connect_msg = OpenAck ibc_channel string | OpenConfirm ibc_channel
datatype channel_close_msg = CloseInit ibc_channel | CloseConfirm ibc_channel

text \<open>Packet messages carry the packet, the acknowledgement where there is one, and the relayer.\<close>

record packet_receive_msg =
  prm_packet :: ibc_packet
  prm_relayer :: addr

record packet_ack_msg =
  pam_ack :: binary
  pam_packet :: ibc_packet
  pam_relayer :: addr

record packet_timeout_msg =
  ptm_packet :: ibc_packet
  ptm_relayer :: addr

datatype ibc_module_msg =
    ChannelOpen channel_open_msg
  | ChannelConnect channel_connect_msg
  | ChannelClose channel_close_msg
  | PacketReceive packet_receive_msg
  | PacketAcknowledgement packet_ack_msg
  | PacketTimeout packet_timeout_msg

datatype source_callback_msg =
    CbAcknowledgement packet_ack_msg
  | CbTimeout packet_timeout_msg

datatype ibc_module = IbcWasm addr | IbcBank | IbcStaking

datatype ibc_response =
    RespOpen "string option"  \<comment> \<open>the version of an \<open>Ibc3ChannelOpenResponse\<close>\<close>
  | RespBasic "event list"
  | RespReceive "event list" "binary option"

datatype relaying_msg =
    RCreateConnection string "string option" "string option"
      \<comment> \<open>remote chain, connection, counterparty connection\<close>
  | ROpenChannel string string string ibc_order "string option" ibc_endpoint
      \<comment> \<open>connection, port, version, order, counterparty version, counterparty endpoint\<close>
  | RConnectChannel string string "string option" ibc_endpoint
  | RCloseChannel string string bool
  | RSend string string binary ibc_timeout
  | RReceive ibc_packet
  | RAcknowledge ibc_packet binary
  | RTimeout ibc_packet

section \<open>Messages\<close>

datatype bank_msg =
    BankSend string "coin list"
  | BankBurn "coin list"
  | BankMsgOther

datatype staking_msg =
    Delegate string coin
  | Undelegate string coin
  | Redelegate string string coin
  | StakingMsgOther

datatype distribution_msg =
    SetWithdrawAddress string
  | WithdrawDelegatorReward string
  | FundCommunityPool "coin list"
  | DistributionMsgOther

datatype wasm_msg =
    WasmExecute string binary "coin list"
  | WasmInstantiate "string option" u64 binary "coin list" string
  | WasmInstantiate2 "string option" u64 binary "coin list" string binary
  | WasmMigrate string u64 binary
  | WasmUpdateAdmin string string
  | WasmClearAdmin string
  | WasmMsgOther

datatype ibc_msg =
    IbcTransfer string string coin ibc_timeout "string option"
  | IbcSendPacket string binary ibc_timeout
  | IbcCloseChannel string
  | IbcMsgOther

datatype gov_msg = GovVote u64 | GovVoteWeighted u64 | GovMsgOther

text \<open>The application modelled is \<open>BasicApp\<close>: custom messages and queries are \<open>Empty\<close>.\<close>

datatype cosmos_msg =
    MWasm wasm_msg
  | MBank bank_msg
  | MCustom
  | MStaking staking_msg
  | MDistribution distribution_msg
  | MIbc ibc_msg
  | MGov gov_msg
  | MStargate string binary
  | MAny string binary
  | MOther

datatype bank_sudo = BankMint string "coin list"
datatype staking_sudo = Slash string decimal

record wasm_sudo =
  ws_contract :: addr
  ws_message :: binary

datatype sudo_msg =
    SudoBank bank_sudo
  | SudoCustom
  | SudoStaking staking_sudo
  | SudoWasm wasm_sudo
  | SudoIbc relaying_msg

section \<open>Queries\<close>

datatype bank_query =
    QBalance string string
  | QSupply string
  | QDenomMetadata string
  | QAllDenomMetadata
  | BankQueryOther

datatype staking_query =
    QBondedDenom
  | QAllDelegations string
  | QDelegation string string
  | QAllValidators
  | QValidator string
  | StakingQueryOther

datatype distribution_query =
    QDelegatorValidators string
  | QWithdrawAddress string
  | QDelegationRewards string string
  | QDelegationTotalRewards string
  | DistributionQueryOther

datatype wasm_query =
    QSmart string binary
  | QRaw string binary
  | QContractInfo string
  | QCodeInfo u64
  | WasmQueryOther

datatype ibc_query =
    QIbcChannel string "string option"  \<comment> \<open>channel, port\<close>
  | QIbcOther

datatype mock_ibc_query =
    QCosmWasm ibc_query
  | QSendPacket string string u64  \<comment> \<open>channel, port, sequence\<close>
  | QConnectedChain string
  | QChainConnections string
  | QChannelInfo string string  \<comment> \<open>port, channel\<close>

datatype query_request =
    ReqWasm wasm_query
  | ReqBank bank_query
  | ReqCustom
  | ReqStaking staking_query
  | ReqDistribution distribution_query
  | ReqIbc ibc_query
  | ReqStargate string binary
  | ReqGrpc string binary
  | ReqOther

section \<open>Contract responses and replies\<close>

datatype reply_on = ReplyAlways | ReplyError | ReplySuccess | ReplyNever

record sub_msg =
  sm_id :: u64
  sm_payload :: binary
  sm_msg :: cosmos_msg
  sm_reply_on :: reply_on

record response =
  rs_messages :: "sub_msg list"
  rs_attributes :: "attribute list"
  rs_events :: "event list"
  rs_data :: "binary option"

record ibc_receive_response =
  ir_messages :: "sub_msg list"
  ir_attributes :: "attribute list"
  ir_events :: "event list"
  ir_ack :: "binary option"

record ibc_basic_response =
  ib_messages :: "sub_msg list"
  ib_attributes :: "attribute list"
  ib_events :: "event list"

record sub_msg_response =
  sr_events :: "event list"
  sr_data :: "binary option"
  sr_type_url :: string
  sr_value :: binary

record reply =
  rp_id :: u64
  rp_payload :: binary
  rp_gas_used :: u64
  rp_result :: "string + sub_msg_response"  \<comment> \<open>\<open>SubMsgResult\<close>, \<open>Inl\<close> the error text\<close>

record message_info =
  mi_sender :: addr
  mi_funds :: "coin list"

section \<open>Errors\<close>

text \<open>
  \<open>StdMsg\<close> is \<open>StdError::msg\<close> of a text the code formats itself; the constructors after it
  keep the arguments of messages that print a library type with its \<open>Debug\<close> instance.
\<close>

datatype std_error =
    StdMsg string
  | NotFound string
  | ParseIntError
  | OverflowError
  | ExternalError string
  | OnlyAdminUpdates "addr option"
  | OnlyAdminMigrates "addr option"
  | UnsupportedStakingMsg staking_msg
  | UnsupportedStakingQuery staking_query
  | UnsupportedDistributionMsg distribution_msg
  | UnsupportedDistributionQuery distribution_query
  | UnexpectedExec cosmos_msg addr
  | UnexpectedQuery query_request
  | UnexpectedSudo
  | CannotExecute cosmos_msg
  | WasmMsgFailed addr wasm_msg std_error

type_synonym 'a std_result = "std_error + 'a"

end
