(* ===== verification/Chain_State.thy ===== *)
theory Chain_State
  imports Chain_Types
begin

text \<open>
  The state of the chain, the interface of the external packages, and the interface every
  module uses to call the others.

  Each \<open>cw_storage_plus\<close> container the modules declare is a field: a \<open>Map\<close> is an ordered map,
  an \<open>Item\<close> an option, a \<open>Deque\<close> a list. A module's \<open>prefixed\<close> storage is its sub-record;
  that the byte-level namespaces keep such sub-states apart is \<open>namespaces_isolated\<close>. The bank's
  denomination metadata and IBC denominations are read and written through the \<^emph>\<open>root\<close>
  storage in the code, so they are fields of the chain itself.
\<close>

section \<open>Module states\<close>

record bank_state =
  b_balances :: "(addr, coin list) omap"

record ibc_denom =
  id_channel :: string
  id_original :: string

record denom_unit =
  du_denom :: string
  du_exponent :: nat
  du_aliases :: "string list"

record denom_metadata =
  dm_description :: string
  dm_units :: "denom_unit list"
  dm_base :: string
  dm_display :: string
  dm_name :: string
  dm_symbol :: string
  dm_uri :: string
  dm_uri_hash :: string

definition default_metadata :: denom_metadata where
  "default_metadata = \<lparr>dm_description = [], dm_units = [], dm_base = [], dm_display = [],
     dm_name = [], dm_symbol = [], dm_uri = [], dm_uri_hash = []\<rparr>"

record staking_info =
  si_bonded_denom :: string
  si_unbonding_time :: u64
  si_apr :: decimal

record shares =
  sh_stake :: decimal
  sh_rewards :: decimal

record validator =
  v_address :: string
  v_commission :: decimal
  v_max_commission :: decimal
  v_max_change_rate :: decimal

record validator_info =
  vi_stakers :: "addr oset"
  vi_stake :: uint256
  vi_last :: timestamp

record unbonding =
  ub_delegator :: addr
  ub_validator :: string
  ub_amount :: uint256
  ub_payout_at :: timestamp

record staking_state =
  st_info :: "staking_info option"
  st_stakes :: "(addr \<times> string, shares) omap"
  st_validator_map :: "(string, validator) omap"
  st_validators :: "validator list"
  st_validator_info :: "(string, validator_info) omap"
  st_queue :: "unbonding list option"

record distribution_state =
  d_withdraw :: "(addr, addr) omap"

record contract_data =
  cd_code_id :: u64
  cd_creator :: addr
  cd_admin :: "addr option"
  cd_label :: string
  cd_created :: u64

text \<open>The namespace \<open>contract_data/ADDR\<close> below \<open>wasm\<close> is the entry of \<open>w_storage\<close> for ADDR.\<close>

record wasm_state =
  w_contracts :: "(addr, contract_data) omap"
  w_storage :: "(addr, (bytes, bytes) omap) omap"

record connection =
  cn_counterparty :: "string option"
  cn_chain :: string

datatype ibc_port = PortWasm string | PortBank | PortStaking

datatype handshake_state = HsInit | HsTry | HsAck | HsConfirm

record handshake_info =
  hs_connection :: string
  hs_port :: ibc_port
  hs_local :: ibc_endpoint
  hs_remote :: ibc_endpoint
  hs_state :: handshake_state
  hs_order :: ibc_order
  hs_version :: string

record channel_info =
  ci_next_packet :: u64
  ci_last_relayed :: u64
  ci_info :: ibc_channel
  ci_open :: bool

record packet_received =
  pr_data :: ibc_packet
  pr_timeout :: bool

text \<open>A packet is filed under port, channel and sequence.\<close>

type_synonym packet_key = "string \<times> string \<times> u64"

record ibc_state =
  i_connections :: "(string, connection) omap"
  i_ports :: "(string, u64) omap"  \<comment> \<open>\<open>PortInfo\<close>: the next channel number\<close>
  i_handshakes :: "(string \<times> string, handshake_info) omap"
  i_channels :: "(string \<times> string, channel_info) omap"
  i_send :: "(packet_key, ibc_packet) omap"
  i_send_ack :: "(packet_key, binary) omap"
  i_receive :: "(packet_key, packet_received) omap"
  i_receive_ack :: "(packet_key, binary option) omap"
  i_timeout :: "(packet_key, bool) omap"

record chain =
  ch_bank :: bank_state
  ch_metadata :: "(string, denom_metadata) omap"
  ch_ibc_denoms :: "(string, ibc_denom) omap"
  ch_staking :: staking_state
  ch_distribution :: distribution_state
  ch_wasm :: wasm_state
  ch_ibc :: ibc_state

definition empty_chain :: chain where
  "empty_chain = \<lparr>ch_bank = \<lparr>b_balances = []\<rparr>, ch_metadata = [], ch_ibc_denoms = [],
     ch_staking = \<lparr>st_info = None, st_stakes = [], st_validator_map = [], st_validators = [],
       st_validator_info = [], st_queue = None\<rparr>,
     ch_distribution = \<lparr>d_withdraw = []\<rparr>,
     ch_wasm = \<lparr>w_contracts = [], w_storage = []\<rparr>,
     ch_ibc = \<lparr>i_connections = [], i_ports = [], i_handshakes = [], i_channels = [], i_send = [],
       i_send_ack = [], i_receive = [], i_receive_ack = [], i_timeout = []\<rparr>\<rparr>"

section \<open>What is encoded as JSON\<close>

datatype lifecycle =
    IbcAckComplete string u64 string bool  \<comment> \<open>channel, sequence, ack, success\<close>
  | IbcTimeoutComplete string u64

record dec_coin =
  dc_denom :: string
  dc_amount :: decimal

record full_delegation =
  fd_delegator :: addr
  fd_validator :: string
  fd_amount :: coin
  fd_can_redelegate :: coin
  fd_rewards :: "coin list"

datatype json_doc =
    JBalance coin
  | JSupply coin
  | JDenomMetadata denom_metadata
  | JAllDenomMetadata "denom_metadata list"
  | JBondedDenom string
  | JAllDelegations "(addr \<times> string \<times> coin) list"
  | JDelegation "full_delegation option"
  | JAllValidators "validator list"
  | JValidator "validator option"
  | JDelegatorValidators "string list"
  | JWithdrawAddress addr
  | JDelegationRewards "dec_coin list"
  | JTotalRewards "(string \<times> dec_coin list) list" "dec_coin list"
  | JContractInfo u64 addr "addr option"
  | JCodeInfo u64 addr bytes
  | JIcs20 ics20_packet
  | JHookAck "binary option" "binary option"
  | JHookCallback lifecycle
  | JValue string
  | JChannel "ibc_channel option"
  | JPacket ibc_packet
  | JConnection connection
  | JConnections "(string \<times> connection) list"
  | JChannelInfo channel_info
  | JEmpty

datatype std_ack = AckOk binary | AckErr string

section \<open>External packages\<close>

text \<open>
  \<open>x_addr_*\<close> is the \<open>Api\<close> the application is built with; \<open>x_nb_*\<close> is \<open>cw_utils::NativeBalance\<close>;
  \<open>x_dec_*\<close> and \<open>x_mul_floor\<close> the decimal arithmetic and \<open>x_*_seconds\<close> the timestamps of
  cosmwasm-std (\<open>None\<close> is a panic); the rest are encoders, decoders and hashes. The memo
  parsers return \<open>None\<close> where \<open>from_str\<close> returns an error.
\<close>

record ext =
  x_addr_validate :: "string \<Rightarrow> addr std_result"
  x_addr_humanize :: "bytes \<Rightarrow> addr std_result"
  x_addr_canonicalize :: "string \<Rightarrow> bytes std_result"
  x_nb_normalize :: "coin list \<Rightarrow> coin list option"
  x_nb_add :: "coin list \<Rightarrow> coin list \<Rightarrow> coin list option"
  x_nb_sub :: "coin list \<Rightarrow> coin list \<Rightarrow> coin list std_result"
  x_dec_mul :: "decimal \<Rightarrow> decimal \<Rightarrow> decimal option"
  x_dec_div :: "decimal \<Rightarrow> decimal \<Rightarrow> decimal option"
  x_dec_div_uint :: "decimal \<Rightarrow> uint256 \<Rightarrow> decimal option"
  x_dec_ratio :: "uint256 \<Rightarrow> decimal option"  \<comment> \<open>\<open>from_ratio(n, 1)\<close>\<close>
  x_dec_from_atomics :: "uint256 \<Rightarrow> decimal std_result"  \<comment> \<open>\<open>from_atomics(n, 0)\<close>\<close>
  x_mul_floor :: "uint256 \<Rightarrow> decimal \<Rightarrow> uint256 option"
  x_plus_seconds :: "timestamp \<Rightarrow> u64 \<Rightarrow> timestamp option"
  x_minus_seconds :: "timestamp \<Rightarrow> u64 \<Rightarrow> timestamp option"
  x_seconds :: "timestamp \<Rightarrow> u64"
  x_to_json :: "json_doc \<Rightarrow> binary std_result"
  x_parse_ics20 :: "binary \<Rightarrow> ics20_packet std_result"
  x_parse_hooks_memo :: "string \<Rightarrow> (string \<times> string) option option"  \<comment> \<open>contract and message\<close>
  x_parse_callback_memo :: "string \<Rightarrow> string option"
  x_parse_callback_request :: "string \<Rightarrow> (bool \<times> bool) option"  \<comment> \<open>source, destination present\<close>
  x_parse_hooks_ack :: "binary \<Rightarrow> (binary option \<times> binary) std_result"
  x_parse_std_ack :: "binary \<Rightarrow> std_ack std_result"
  x_parse_packet :: "binary \<Rightarrow> ibc_packet std_result"
  x_parse_connection :: "binary \<Rightarrow> connection std_result"
  x_std_ack_binary :: "std_ack \<Rightarrow> binary"
  x_base64 :: "binary \<Rightarrow> string"
  x_keccak256 :: "bytes \<Rightarrow> bytes"
  x_sha256 :: "bytes \<Rightarrow> bytes"
  x_hex :: "bytes \<Rightarrow> string"
  x_unhex :: "string \<Rightarrow> bytes std_result"
  x_utf8_lossy :: "bytes \<Rightarrow> string"
  x_order_json :: "ibc_order \<Rightarrow> string"
  x_binary_json :: "binary \<Rightarrow> string"
  x_instantiate2 :: "bytes \<Rightarrow> bytes \<Rightarrow> bytes \<Rightarrow> bytes std_result"
  x_debug_error :: "std_error \<Rightarrow> string"
  x_encode_instantiate :: "string \<Rightarrow> bytes \<Rightarrow> bytes"
  x_encode_execute :: "bytes \<Rightarrow> bytes"
  x_encode_transfer :: "u64 \<Rightarrow> bytes"
  x_parse_instantiate :: "bytes \<Rightarrow> string std_result"  \<comment> \<open>the contract address\<close>
  x_parse_execute :: "bytes \<Rightarrow> binary option std_result"

section \<open>Procedures on the chain\<close>

type_synonym 'a chain_proc = "(chain, std_error, 'a) proc"

definition lift_result :: "'a std_result \<Rightarrow> ('s, std_error, 'a) proc" where
  "lift_result r = (case r of Inl e \<Rightarrow> fail e | Inr a \<Rightarrow> ret a)"

text \<open>
  \<open>transactional\<close> on the chain's state. By \<open>transactional_refines\<close> this is what the write cache
  does to what the storage shows: keep the writes on \<open>Ok\<close>, drop them otherwise.
\<close>

definition atomically :: "('s, 'e, 'a) proc \<Rightarrow> ('s, 'e, 'a) proc" where
  "atomically m s = (case m s of
      (Ok a, s') \<Rightarrow> (Ok a, s')
    | (Err e, s') \<Rightarrow> (Err e, s)
    | (Panic p, s') \<Rightarrow> (Panic p, s)
    | (NoFuel, s') \<Rightarrow> (NoFuel, s))"

definition in_bank :: "(bank_state, std_error, 'a) proc \<Rightarrow> 'a chain_proc" where
  "in_bank = zoom ch_bank (\<lambda>b s. s\<lparr>ch_bank := b\<rparr>)"

definition in_staking :: "(staking_state, std_error, 'a) proc \<Rightarrow> 'a chain_proc" where
  "in_staking = zoom ch_staking (\<lambda>b s. s\<lparr>ch_staking := b\<rparr>)"

definition in_distribution :: "(distribution_state, std_error, 'a) proc \<Rightarrow> 'a chain_proc" where
  "in_distribution = zoom ch_distribution (\<lambda>b s. s\<lparr>ch_distribution := b\<rparr>)"

definition in_wasm :: "(wasm_state, std_error, 'a) proc \<Rightarrow> 'a chain_proc" where
  "in_wasm = zoom ch_wasm (\<lambda>b s. s\<lparr>ch_wasm := b\<rparr>)"

definition in_ibc :: "(ibc_state, std_error, 'a) proc \<Rightarrow> 'a chain_proc" where
  "in_ibc = zoom ch_ibc (\<lambda>b s. s\<lparr>ch_ibc := b\<rparr>)"

text \<open>\<open>Map::load\<close>: a missing key is an error that names the type.\<close>

definition load :: "string \<Rightarrow> ('s \<Rightarrow> ('k, 'v) omap) \<Rightarrow> 'k \<Rightarrow> ('s, std_error, 'v) proc" where
  "load ty sel k = bindM (reads (\<lambda>s. om_get (sel s) k)) (of_option (NotFound ty))"

lemma lift_result_simps [simp]: "lift_result (Inl e) = fail e" "lift_result (Inr a) = ret a"
  by (simp_all add: lift_result_def)

lemma lift_result_Ok_iff [simp]: "lift_result r s = (Ok a, s') \<longleftrightarrow> r = Inr a \<and> s' = s"
  by (cases r) auto

lemma load_Ok_iff [simp]: "load ty sel k s = (Ok v, s') \<longleftrightarrow> om_get (sel s) k = Some v \<and> s' = s"
  by (auto simp: load_def bindM_Ok_iff)

lemma load_apply: "load ty sel k s = (case om_get (sel s) k of
    None \<Rightarrow> (Err (NotFound ty), s) | Some v \<Rightarrow> (Ok v, s))"
  by (auto simp: load_def proc_defs split: option.splits)

lemma bindM_load [run_eqs]: "bindM (load ty sel k) f s = (case om_get (sel s) k of
    None \<Rightarrow> (Err (NotFound ty), s) | Some v \<Rightarrow> f v s)"
  by (simp add: bindM_def load_apply split: option.split)

lemma bindM_lift_result [run_eqs]: "bindM (lift_result r) f s = (case r of
    Inl e \<Rightarrow> (Err e, s) | Inr v \<Rightarrow> f v s)"
  by (cases r) (simp_all add: bindM_def fail_def)

lemma atomically_Ok_iff [simp]: "atomically m s = (Ok a, s') \<longleftrightarrow> m s = (Ok a, s')"
  by (auto simp: atomically_def split: prod.splits outcome.splits)

lemma atomically_fst [simp]: "fst (atomically m s) = fst (m s)"
  by (auto simp: atomically_def split: prod.splits outcome.splits)

lemma atomically_not_ok: "atomically m s = (r, s') \<Longrightarrow> \<not> is_ok r \<Longrightarrow> s' = s"
  by (auto simp: atomically_def split: prod.splits outcome.splits)

lemma all_runs_atomically [runs_intro]:
  assumes "reflp R" "ok_runs R m"
  shows "all_runs R (atomically m)"
  unfolding all_runs_def
proof
  fix s
  show "R s (snd (atomically m s))"
  proof (cases "is_ok (fst (m s))")
    case True
    then obtain a s' where "m s = (Ok a, s')" by (cases "m s") (auto simp: is_ok_iff)
    with assms(2) show ?thesis by (simp add: atomically_def ok_runs_def)
  next
    case False
    then have "snd (atomically m s) = s"
      using atomically_not_ok [of m s] by (metis atomically_fst prod.collapse)
    with assms(1) show ?thesis by (simp add: reflp_def)
  qed
qed

lemma all_runs_lift_result [runs_intro]: "reflp R \<Longrightarrow> all_runs R (lift_result r)"
  by (auto simp: lift_result_def all_runs_fail all_runs_ret split: sum.splits)

lemma all_runs_load [runs_intro]: "reflp R \<Longrightarrow> all_runs R (load ty sel k)"
  by (auto simp: all_runs_def load_apply reflp_def split: option.splits)

lemma ok_runs_atomically [ok_intro]: "ok_runs R m \<Longrightarrow> ok_runs R (atomically m)"
  by (auto simp: ok_runs_def)

lemma ok_runs_lift_result [ok_intro]: "reflp R \<Longrightarrow> ok_runs R (lift_result r)"
  and ok_runs_load [ok_intro]: "reflp R \<Longrightarrow> ok_runs R (load ty sel k)"
  by (auto simp: ok_runs_def reflp_def)

text \<open>The \<open>Result\<close> of a call as a value, for code that goes on after an error.\<close>

definition attempt :: "('s, 'e, 'a) proc \<Rightarrow> ('s, 'e, 'e + 'a) proc" where
  "attempt m s = (case m s of
      (Ok a, s') \<Rightarrow> (Ok (Inr a), s')
    | (Err e, s') \<Rightarrow> (Ok (Inl e), s')
    | (Panic p, s') \<Rightarrow> (Panic p, s')
    | (NoFuel, s') \<Rightarrow> (NoFuel, s'))"

lemma attempt_Ok_iff: "attempt m s = (Ok v, s') \<longleftrightarrow>
    (\<exists>a. v = Inr a \<and> m s = (Ok a, s')) \<or> (\<exists>e. v = Inl e \<and> m s = (Err e, s'))"
  by (auto simp: attempt_def split: prod.splits outcome.splits)

lemma all_runs_eqD: "all_runs (=) m \<Longrightarrow> m s = (r, s') \<Longrightarrow> s' = s"
  by (auto dest: all_runsD)

lemma all_runs_attempt [runs_intro]: "all_runs R m \<Longrightarrow> all_runs R (attempt m)"
  by (auto simp: all_runs_def [of R "attempt m"] attempt_def dest: all_runsD split: prod.splits outcome.splits)

lemma ok_runs_attempt_atomically [ok_intro]:
  "reflp R \<Longrightarrow> ok_runs R m \<Longrightarrow> ok_runs R (attempt (atomically m))"
  by (auto intro!: all_runs_ok all_runs_attempt all_runs_atomically)

lemmas in_defs = in_bank_def in_staking_def in_distribution_def in_wasm_def in_ibc_def

section \<open>The router interface\<close>

text \<open>
  \<open>CosmosRouter\<close>: what a module can ask the rest of the chain to do. The code passes the router
  to every handler, and so does the model.
\<close>

record cosmos_router =
  r_execute :: "block_info \<Rightarrow> addr \<Rightarrow> cosmos_msg \<Rightarrow> app_response chain_proc"
  r_query :: "block_info \<Rightarrow> query_request \<Rightarrow> chain \<Rightarrow> (std_error, binary) outcome"
  r_sudo :: "block_info \<Rightarrow> sudo_msg \<Rightarrow> app_response chain_proc"
  r_ibc :: "block_info \<Rightarrow> ibc_module \<Rightarrow> ibc_module_msg \<Rightarrow> ibc_response chain_proc"
  r_source_callback :: "block_info \<Rightarrow> source_callback_msg \<Rightarrow> ibc_response chain_proc"

text \<open>\<open>MockRouter\<close>: for tests that must not call another module.\<close>

definition mock_router :: cosmos_router where
  "mock_router = \<lparr>r_execute = (\<lambda>block sender msg. panic ''Cannot execute MockRouters''),
     r_query = (\<lambda>block request s. Panic ''Cannot query MockRouters''),
     r_sudo = (\<lambda>block msg. panic ''Cannot sudo MockRouters''),
     r_ibc = (\<lambda>block module msg. panic ''Cannot ibc MockRouters''),
     r_source_callback = (\<lambda>block msg. fail (StdMsg ''No ibc source callback implemented''))\<rparr>"

end
