(* ===== verification/Contracts.thy ===== *)
theory Contracts
  imports Chain_State
begin

text \<open>
  Contracts as the chain sees them (\<open>src/contracts.rs\<close>): the entry points of the \<open>Contract\<close> trait.
  An entry point is a terminating program (\<open>cprog\<close>) that reads and writes the contract's own
  storage and queries the chain; it is arbitrary, so theorems about keepers that run contracts
  hold for every contract. \<open>ContractWrapper\<close> builds the entry points from functions on decoded
  messages.
\<close>

section \<open>Programs\<close>

datatype 'r cprog =
    CDone "'r std_result"
  | CPanic string
  | CGet bytes "bytes option \<Rightarrow> 'r cprog"
  | CRange "bytes option" "bytes option" order "rec list \<Rightarrow> 'r cprog"
  | CSet bytes bytes "'r cprog"
  | CRemove bytes "'r cprog"
  | CQuery query_request "binary std_result \<Rightarrow> 'r cprog"

text \<open>
  Running a program: \<open>q\<close> answers its queries, the state is the contract's own storage. A
  panic while answering a query unwinds through the contract.
\<close>

primrec run_cprog ::
    "(query_request \<Rightarrow> (std_error, binary) outcome) \<Rightarrow> 'r cprog \<Rightarrow> (mem, std_error, 'r) proc" where
  "run_cprog q (CDone r) = lift_result r"
| "run_cprog q (CPanic p) = panic p"
| "run_cprog q (CGet k f) = (\<lambda>m. run_cprog q (f (om_get m k)) m)"
| "run_cprog q (CRange lo hi ord f) = (\<lambda>m. case mem_range m lo hi ord of
      None \<Rightarrow> (Panic ''range'', m) | Some xs \<Rightarrow> run_cprog q (f xs) m)"
| "run_cprog q (CSet k v p) = (\<lambda>m. run_cprog q p (om_insert k v m))"
| "run_cprog q (CRemove k p) = (\<lambda>m. run_cprog q p (om_remove k m))"
| "run_cprog q (CQuery req f) = (\<lambda>m. case q req of
      Ok b \<Rightarrow> run_cprog q (f (Inr b)) m
    | Err e \<Rightarrow> run_cprog q (f (Inl e)) m
    | Panic p \<Rightarrow> (Panic p, m)
    | NoFuel \<Rightarrow> (NoFuel, m))"

lemma run_cprog_wf: "om_wf m \<Longrightarrow> om_wf (snd (run_cprog q p m))"
  by (induction p arbitrary: m) (auto simp: lift_result_def split: option.splits outcome.splits sum.splits)

section \<open>The contract trait\<close>

record env =
  env_block :: block_info
  env_contract :: addr

record migrate_info =
  mg_sender :: addr
  mg_old_version :: "u64 option"

record contract =
  ct_execute :: "env \<Rightarrow> message_info \<Rightarrow> bytes \<Rightarrow> response cprog"
  ct_instantiate :: "env \<Rightarrow> message_info \<Rightarrow> bytes \<Rightarrow> response cprog"
  ct_query :: "env \<Rightarrow> bytes \<Rightarrow> binary cprog"
  ct_sudo :: "env \<Rightarrow> bytes \<Rightarrow> response cprog"
  ct_reply :: "env \<Rightarrow> reply \<Rightarrow> response cprog"
  ct_migrate :: "env \<Rightarrow> bytes \<Rightarrow> migrate_info \<Rightarrow> response cprog"
  ct_checksum :: "bytes option"
  ct_channel_open :: "env \<Rightarrow> channel_open_msg \<Rightarrow> string option cprog"
  ct_channel_connect :: "env \<Rightarrow> channel_connect_msg \<Rightarrow> ibc_basic_response cprog"
  ct_channel_close :: "env \<Rightarrow> channel_close_msg \<Rightarrow> ibc_basic_response cprog"
  ct_packet_receive :: "env \<Rightarrow> packet_receive_msg \<Rightarrow> ibc_receive_response cprog"
  ct_packet_ack :: "env \<Rightarrow> packet_ack_msg \<Rightarrow> ibc_basic_response cprog"
  ct_packet_timeout :: "env \<Rightarrow> packet_timeout_msg \<Rightarrow> ibc_basic_response cprog"
  ct_source_callback :: "env \<Rightarrow> source_callback_msg \<Rightarrow> ibc_basic_response cprog"

section \<open>ContractWrapper\<close>

text \<open>
  The message types of the entry points are one type \<open>'m\<close> here (their sum); \<open>from_json\<close> for the
  type of an entry point is an argument. A wrapped function's error is rendered to a
  \<open>StdError\<close>, which is what the \<open>cprog\<close> returns.
\<close>

datatype entry_point = EpExecute | EpInstantiate | EpQuery | EpSudo | EpMigrate

record 'm wrapper =
  cw_execute :: "env \<Rightarrow> message_info \<Rightarrow> 'm \<Rightarrow> response cprog"
  cw_instantiate :: "env \<Rightarrow> message_info \<Rightarrow> 'm \<Rightarrow> response cprog"
  cw_query :: "env \<Rightarrow> 'm \<Rightarrow> binary cprog"
  cw_sudo :: "(env \<Rightarrow> 'm \<Rightarrow> response cprog) option"
  cw_reply :: "(env \<Rightarrow> reply \<Rightarrow> response cprog) option"
  cw_migrate :: "(env \<Rightarrow> 'm \<Rightarrow> migrate_info \<Rightarrow> response cprog) option"
  cw_checksum :: "bytes option"
  cw_channel_open :: "(env \<Rightarrow> channel_open_msg \<Rightarrow> string option cprog) option"
  cw_channel_connect :: "(env \<Rightarrow> channel_connect_msg \<Rightarrow> ibc_basic_response cprog) option"
  cw_channel_close :: "(env \<Rightarrow> channel_close_msg \<Rightarrow> ibc_basic_response cprog) option"
  cw_packet_receive :: "(env \<Rightarrow> packet_receive_msg \<Rightarrow> ibc_receive_response cprog) option"
  cw_packet_ack :: "(env \<Rightarrow> packet_ack_msg \<Rightarrow> ibc_basic_response cprog) option"
  cw_packet_timeout :: "(env \<Rightarrow> packet_timeout_msg \<Rightarrow> ibc_basic_response cprog) option"
  cw_source_callback :: "(env \<Rightarrow> source_callback_msg \<Rightarrow> ibc_basic_response cprog) option"

definition wrapper_new ::
    "(env \<Rightarrow> message_info \<Rightarrow> 'm \<Rightarrow> response cprog) \<Rightarrow> (env \<Rightarrow> message_info \<Rightarrow> 'm \<Rightarrow> response cprog)
       \<Rightarrow> (env \<Rightarrow> 'm \<Rightarrow> binary cprog) \<Rightarrow> 'm wrapper" where
  "wrapper_new execute_fn instantiate_fn query_fn = \<lparr>cw_execute = execute_fn,
     cw_instantiate = instantiate_fn, cw_query = query_fn, cw_sudo = None, cw_reply = None,
     cw_migrate = None, cw_checksum = None, cw_channel_open = None, cw_channel_connect = None,
     cw_channel_close = None, cw_packet_receive = None, cw_packet_ack = None,
     cw_packet_timeout = None, cw_source_callback = None\<rparr>"

definition with_sudo :: "(env \<Rightarrow> 'm \<Rightarrow> response cprog) \<Rightarrow> 'm wrapper \<Rightarrow> 'm wrapper" where
  "with_sudo f w = w\<lparr>cw_sudo := Some f, cw_checksum := None\<rparr>"

definition with_reply :: "(env \<Rightarrow> reply \<Rightarrow> response cprog) \<Rightarrow> 'm wrapper \<Rightarrow> 'm wrapper" where
  "with_reply f w = w\<lparr>cw_reply := Some f, cw_checksum := None\<rparr>"

definition with_migrate :: "(env \<Rightarrow> 'm \<Rightarrow> migrate_info \<Rightarrow> response cprog) \<Rightarrow> 'm wrapper \<Rightarrow> 'm wrapper" where
  "with_migrate f w = w\<lparr>cw_migrate := Some f, cw_checksum := None\<rparr>"

definition with_checksum :: "bytes \<Rightarrow> 'm wrapper \<Rightarrow> 'm wrapper" where
  "with_checksum c w = w\<lparr>cw_checksum := Some c\<rparr>"

definition with_ibc ::
    "(env \<Rightarrow> channel_open_msg \<Rightarrow> string option cprog) \<Rightarrow> (env \<Rightarrow> channel_connect_msg \<Rightarrow> ibc_basic_response cprog)
     \<Rightarrow> (env \<Rightarrow> channel_close_msg \<Rightarrow> ibc_basic_response cprog) \<Rightarrow> (env \<Rightarrow> packet_receive_msg \<Rightarrow> ibc_receive_response cprog)
     \<Rightarrow> (env \<Rightarrow> packet_ack_msg \<Rightarrow> ibc_basic_response cprog) \<Rightarrow> (env \<Rightarrow> packet_timeout_msg \<Rightarrow> ibc_basic_response cprog)
     \<Rightarrow> 'm wrapper \<Rightarrow> 'm wrapper" where
  "with_ibc open_fn connect_fn close_fn receive_fn ack_fn timeout_fn w = w\<lparr>cw_checksum := None,
     cw_channel_open := Some open_fn, cw_channel_connect := Some connect_fn,
     cw_channel_close := Some close_fn, cw_packet_receive := Some receive_fn,
     cw_packet_ack := Some ack_fn, cw_packet_timeout := Some timeout_fn\<rparr>"

definition with_ibc_source_callback ::
    "(env \<Rightarrow> source_callback_msg \<Rightarrow> ibc_basic_response cprog) \<Rightarrow> 'm wrapper \<Rightarrow> 'm wrapper" where
  "with_ibc_source_callback f w = w\<lparr>cw_checksum := None, cw_source_callback := Some f\<rparr>"

definition decoded :: "'m std_result \<Rightarrow> ('m \<Rightarrow> 'r cprog) \<Rightarrow> 'r cprog" where
  "decoded r f = (case r of Inl e \<Rightarrow> CDone (Inl e) | Inr m \<Rightarrow> f m)"

definition optional_fn :: "string \<Rightarrow> 'f option \<Rightarrow> ('f \<Rightarrow> 'r cprog) \<Rightarrow> 'r cprog" where
  "optional_fn what f run = (case f of None \<Rightarrow> CDone (Inl (StdMsg what)) | Some g \<Rightarrow> run g)"

text \<open>The \<open>Contract\<close> implementation of the wrapper. Messages are decoded before a missing
  entry point is reported.\<close>

definition wrapper_contract :: "(entry_point \<Rightarrow> bytes \<Rightarrow> 'm std_result) \<Rightarrow> 'm wrapper \<Rightarrow> contract" where
  "wrapper_contract from_json w = \<lparr>
     ct_execute = (\<lambda>env info msg. decoded (from_json EpExecute msg) (\<lambda>m. cw_execute w env info m)),
     ct_instantiate = (\<lambda>env info msg. decoded (from_json EpInstantiate msg) (\<lambda>m. cw_instantiate w env info m)),
     ct_query = (\<lambda>env msg. decoded (from_json EpQuery msg) (\<lambda>m. cw_query w env m)),
     ct_sudo = (\<lambda>env msg. decoded (from_json EpSudo msg) (\<lambda>m.
        optional_fn ''sudo is not implemented for contract'' (cw_sudo w) (\<lambda>f. f env m))),
     ct_reply = (\<lambda>env r. optional_fn ''reply is not implemented for contract'' (cw_reply w) (\<lambda>f. f env r)),
     ct_migrate = (\<lambda>env msg info. decoded (from_json EpMigrate msg) (\<lambda>m.
        optional_fn ''migrate is not implemented for contract'' (cw_migrate w) (\<lambda>f. f env m info))),
     ct_checksum = cw_checksum w,
     ct_channel_open = (\<lambda>env m. optional_fn ''channel open not implemented for contract''
        (cw_channel_open w) (\<lambda>f. f env m)),
     ct_channel_connect = (\<lambda>env m. optional_fn ''channel connect not implemented for contract''
        (cw_channel_connect w) (\<lambda>f. f env m)),
     ct_channel_close = (\<lambda>env m. optional_fn ''channel close not implemented for contract''
        (cw_channel_close w) (\<lambda>f. f env m)),
     ct_packet_receive = (\<lambda>env m. optional_fn ''packet receive not implemented for contract''
        (cw_packet_receive w) (\<lambda>f. f env m)),
     ct_packet_ack = (\<lambda>env m. optional_fn ''packet ack not implemented for contract''
        (cw_packet_ack w) (\<lambda>f. f env m)),
     ct_packet_timeout = (\<lambda>env m. optional_fn ''packet timeout not implemented for contract''
        (cw_packet_timeout w) (\<lambda>f. f env m)),
     ct_source_callback = (\<lambda>env m. optional_fn ''ibc source callback not implemented for contract''
        (cw_source_callback w) (\<lambda>f. f env m))\<rparr>"

section \<open>Contracts for Empty custom messages\<close>

text \<open>
  A contract written for \<open>Empty\<close> custom messages is adapted to a chain with its own: its functions
  run on the same storage and querier, and the messages of their responses are converted one by
  one. \<open>cprog_then\<close> continues a program with its result.
\<close>

primrec cprog_then :: "'r cprog \<Rightarrow> ('r \<Rightarrow> 'q cprog) \<Rightarrow> 'q cprog" where
  "cprog_then (CDone r) f = (case r of Inl e \<Rightarrow> CDone (Inl e) | Inr x \<Rightarrow> f x)"
| "cprog_then (CPanic p) f = CPanic p"
| "cprog_then (CGet k g) f = CGet k (\<lambda>v. cprog_then (g v) f)"
| "cprog_then (CRange lo hi ord g) f = CRange lo hi ord (\<lambda>xs. cprog_then (g xs) f)"
| "cprog_then (CSet k v p) f = CSet k v (cprog_then p f)"
| "cprog_then (CRemove k p) f = CRemove k (cprog_then p f)"
| "cprog_then (CQuery req g) f = CQuery req (\<lambda>b. cprog_then (g b) f)"

definition customize_msg :: "sub_msg \<Rightarrow> sub_msg cprog" where
  "customize_msg m = (case sm_msg m of
      MWasm _ \<Rightarrow> CDone (Inr m)
    | MBank _ \<Rightarrow> CDone (Inr m)
    | MStaking _ \<Rightarrow> CDone (Inr m)
    | MDistribution _ \<Rightarrow> CDone (Inr m)
    | MCustom \<Rightarrow> CPanic ''internal error: entered unreachable code''
    | MIbc _ \<Rightarrow> CDone (Inr m)
    | MAny _ _ \<Rightarrow> CDone (Inr m)
    | other \<Rightarrow> CPanic ''unknown message variant'')"

primrec customize_msgs :: "sub_msg list \<Rightarrow> sub_msg list cprog" where
  "customize_msgs [] = CDone (Inr [])"
| "customize_msgs (m # ms) = cprog_then (customize_msg m) (\<lambda>m'.
     cprog_then (customize_msgs ms) (\<lambda>ms'. CDone (Inr (m' # ms'))))"

definition customize_response :: "response \<Rightarrow> response cprog" where
  "customize_response resp = cprog_then (customize_msgs (rs_messages resp)) (\<lambda>ms.
     CDone (Inr \<lparr>rs_messages = ms, rs_attributes = rs_attributes resp, rs_events = rs_events resp,
       rs_data = rs_data resp\<rparr>))"

definition customize_instantiate_fn ::
    "(env \<Rightarrow> message_info \<Rightarrow> 'm \<Rightarrow> response cprog) \<Rightarrow> env \<Rightarrow> message_info \<Rightarrow> 'm \<Rightarrow> response cprog" where
  "customize_instantiate_fn raw_fn env info msg = cprog_then (raw_fn env info msg) customize_response"

definition customize_execute_fn ::
    "(env \<Rightarrow> message_info \<Rightarrow> 'm \<Rightarrow> response cprog) \<Rightarrow> env \<Rightarrow> message_info \<Rightarrow> 'm \<Rightarrow> response cprog" where
  "customize_execute_fn raw_fn env info msg = cprog_then (raw_fn env info msg) customize_response"

definition customize_query_fn :: "(env \<Rightarrow> 'm \<Rightarrow> binary cprog) \<Rightarrow> env \<Rightarrow> 'm \<Rightarrow> binary cprog" where
  "customize_query_fn raw_fn env msg = raw_fn env msg"

definition customize_sudo_fn :: "(env \<Rightarrow> 'm \<Rightarrow> response cprog) \<Rightarrow> env \<Rightarrow> 'm \<Rightarrow> response cprog" where
  "customize_sudo_fn raw_fn env msg = cprog_then (raw_fn env msg) customize_response"

definition customize_reply_fn :: "(env \<Rightarrow> reply \<Rightarrow> response cprog) \<Rightarrow> env \<Rightarrow> reply \<Rightarrow> response cprog" where
  "customize_reply_fn raw_fn env msg = cprog_then (raw_fn env msg) customize_response"

definition customize_migrate_fn ::
    "(env \<Rightarrow> 'm \<Rightarrow> migrate_info \<Rightarrow> response cprog) \<Rightarrow> env \<Rightarrow> 'm \<Rightarrow> migrate_info \<Rightarrow> response cprog" where
  "customize_migrate_fn raw_fn env msg info = cprog_then (raw_fn env msg info) customize_response"

definition new_with_empty ::
    "(env \<Rightarrow> message_info \<Rightarrow> 'm \<Rightarrow> response cprog) \<Rightarrow> (env \<Rightarrow> message_info \<Rightarrow> 'm \<Rightarrow> response cprog)
       \<Rightarrow> (env \<Rightarrow> 'm \<Rightarrow> binary cprog) \<Rightarrow> 'm wrapper" where
  "new_with_empty execute_fn instantiate_fn query_fn = \<lparr>cw_execute = customize_execute_fn execute_fn,
     cw_instantiate = customize_instantiate_fn instantiate_fn, cw_query = customize_query_fn query_fn,
     cw_sudo = None, cw_reply = None, cw_migrate = None, cw_checksum = None, cw_channel_open = None,
     cw_channel_connect = None, cw_channel_close = None, cw_packet_receive = None, cw_packet_ack = None,
     cw_packet_timeout = None, cw_source_callback = None\<rparr>"

definition with_sudo_empty :: "(env \<Rightarrow> 'm \<Rightarrow> response cprog) \<Rightarrow> 'm wrapper \<Rightarrow> 'm wrapper" where
  "with_sudo_empty f w = w\<lparr>cw_sudo := Some (customize_sudo_fn f), cw_checksum := None\<rparr>"

definition with_reply_empty :: "(env \<Rightarrow> reply \<Rightarrow> response cprog) \<Rightarrow> 'm wrapper \<Rightarrow> 'm wrapper" where
  "with_reply_empty f w = w\<lparr>cw_reply := Some (customize_reply_fn f), cw_checksum := None\<rparr>"

definition with_migrate_empty ::
    "(env \<Rightarrow> 'm \<Rightarrow> migrate_info \<Rightarrow> response cprog) \<Rightarrow> 'm wrapper \<Rightarrow> 'm wrapper" where
  "with_migrate_empty f w = w\<lparr>cw_migrate := Some (customize_migrate_fn f), cw_checksum := None\<rparr>"

lemma run_cprog_then:
  "run_cprog q (cprog_then p f) m = (case run_cprog q p m of
      (Ok r, m') \<Rightarrow> run_cprog q (f r) m'
    | (Err e, m') \<Rightarrow> (Err e, m')
    | (Panic x, m') \<Rightarrow> (Panic x, m')
    | (NoFuel, m') \<Rightarrow> (NoFuel, m'))"
  by (induction p arbitrary: m)
    (auto simp: lift_result_def panic_def fail_def ret_def split: sum.split outcome.split option.split)

text \<open>The messages the adapter passes on; they are the ones it does not change.\<close>

definition customizable :: "cosmos_msg \<Rightarrow> bool" where
  "customizable m \<longleftrightarrow> (case m of MCustom \<Rightarrow> False | MGov _ \<Rightarrow> False | MStargate _ _ \<Rightarrow> False | MOther \<Rightarrow> False | _ \<Rightarrow> True)"

lemma run_customize_msg:
  "customizable (sm_msg m) \<Longrightarrow> customize_msg m = CDone (Inr m)"
  "\<not> customizable (sm_msg m) \<Longrightarrow> \<exists>p. customize_msg m = CPanic p"
  by (auto simp: customizable_def customize_msg_def split: cosmos_msg.splits)

lemma run_customize_msgs:
  "list_all (\<lambda>m. customizable (sm_msg m)) ms \<Longrightarrow> customize_msgs ms = CDone (Inr ms)"
  "\<not> list_all (\<lambda>m. customizable (sm_msg m)) ms \<Longrightarrow> \<exists>p. customize_msgs ms = CPanic p"
proof -
  show ok: "customize_msgs ms = CDone (Inr ms)" if "list_all (\<lambda>m. customizable (sm_msg m)) ms" for ms
    using that by (induction ms) (simp_all add: run_customize_msg)
  show "\<exists>p. customize_msgs ms = CPanic p" if "\<not> list_all (\<lambda>m. customizable (sm_msg m)) ms"
    using that
  proof (induction ms)
    case (Cons m ms)
    show ?case
    proof (cases "customizable (sm_msg m)")
      case True
      with Cons show ?thesis by (auto simp: run_customize_msg(1))
    next
      case False
      then show ?thesis by (auto dest: run_customize_msg(2))
    qed
  qed simp
qed

section \<open>Properties\<close>

text \<open>
  The builder methods of \<open>ContractWrapper\<close> forget the checksum. A checksum set with
  \<open>with_checksum\<close> survives only when it is set last: adding a \<open>sudo\<close>, \<open>reply\<close>, \<open>migrate\<close>, IBC or
  source-callback entry point afterwards resets it, so the contract reports none; set last, it is
  what the contract reports.
\<close>
theorem builder_drops_checksum:
  "ct_checksum (wrapper_contract fj (with_sudo f (with_checksum c w))) = None
   \<and> ct_checksum (wrapper_contract fj (with_reply g (with_checksum c w))) = None
   \<and> ct_checksum (wrapper_contract fj (with_migrate h (with_checksum c w))) = None
   \<and> ct_checksum (wrapper_contract fj (with_ibc o1 o2 o3 o4 o5 o6 (with_checksum c w))) = None
   \<and> ct_checksum (wrapper_contract fj (with_ibc_source_callback k (with_checksum c w))) = None
   \<and> ct_checksum (wrapper_contract fj (with_checksum c (with_sudo f w))) = Some c"
  by (simp add: wrapper_contract_def with_sudo_def with_reply_def with_migrate_def with_ibc_def
      with_ibc_source_callback_def with_checksum_def)

text \<open>
  A contract written for \<open>Empty\<close> custom messages behaves under the adapter exactly as on its
  own. Its storage, its errors and its answers are unchanged, and so is its response, as long as
  every message in it is of a kind the adapter knows; a response with a custom, governance or
  stargate message is a panic, with the writes of the function done.
\<close>
theorem empty_contract_unchanged:
  "(case run_cprog q (raw_fn env info msg) m of
      (Ok r, m') \<Rightarrow>
        if list_all (\<lambda>x. customizable (sm_msg x)) (rs_messages r)
        then run_cprog q (customize_execute_fn raw_fn env info msg) m = (Ok r, m')
        else \<exists>p. run_cprog q (customize_execute_fn raw_fn env info msg) m = (Panic p, m')
    | other \<Rightarrow> run_cprog q (customize_execute_fn raw_fn env info msg) m = other)
   \<and> customize_instantiate_fn raw_fn env info msg = customize_execute_fn raw_fn env info msg
   \<and> customize_sudo_fn (\<lambda>e x. raw_fn e info x) env msg = customize_execute_fn raw_fn env info msg
   \<and> customize_query_fn query_fn env msg = query_fn env msg"
proof -
  have ok: "run_cprog q (customize_response r) m' = (Ok r, m')"
    if "list_all (\<lambda>x. customizable (sm_msg x)) (rs_messages r)" for r m'
    using run_customize_msgs(1) [OF that] by (simp add: customize_response_def lift_result_def)
  have bad: "\<exists>p. run_cprog q (customize_response r) m' = (Panic p, m')"
    if "\<not> list_all (\<lambda>x. customizable (sm_msg x)) (rs_messages r)" for r m'
    using run_customize_msgs(2) [OF that] by (auto simp: customize_response_def)
  show ?thesis
    by (cases "run_cprog q (raw_fn env info msg) m"; cases "fst (run_cprog q (raw_fn env info msg) m)")
      (auto simp: customize_execute_fn_def customize_instantiate_fn_def customize_sudo_fn_def
        customize_query_fn_def run_cprog_then ok bad)
qed

end
