(* ===== verification/Ext_Model.thy ===== *)
theory Ext_Model
  imports Chain_State
begin

text \<open>
  What the code relies on from the external packages, as predicates on \<open>ext\<close> that theorems take
  as named hypotheses, and one concrete \<open>ext\<close> that satisfies them, on which the theorems are
  evaluated.
\<close>

section \<open>Amounts, normal form, and what NativeBalance promises\<close>

definition amount_of :: "coin list \<Rightarrow> string \<Rightarrow> nat" where
  "amount_of cs d = sum_list (map (\<lambda>c. unat (c_amount c)) (filter (\<lambda>c. c_denom c = d) cs))"

definition normalized :: "coin list \<Rightarrow> bool" where
  "normalized cs \<longleftrightarrow> sorted_wrt (<) (map c_denom cs) \<and> (\<forall>c \<in> set cs. c_amount c \<noteq> 0)"

text \<open>
  The documented behaviour of \<open>NativeBalance\<close>: \<open>normalize\<close> sorts, merges and drops zero coins;
  \<open>+\<close> adds per denomination; \<open>-\<close> subtracts per denomination and is an error exactly when a
  denomination falls short. \<open>None\<close> (a panic) happens only when an amount leaves 256 bits.
\<close>

definition nb_laws :: "ext \<Rightarrow> bool" where
  "nb_laws ext \<longleftrightarrow>
     (\<forall>xs ys. x_nb_normalize ext xs = Some ys \<longrightarrow> normalized ys \<and> amount_of ys = amount_of xs) \<and>
     (\<forall>xs. (\<forall>d. amount_of xs d < 2 ^ 256) \<longrightarrow> x_nb_normalize ext xs \<noteq> None) \<and>
     (\<forall>xs ys zs. normalized xs \<longrightarrow> x_nb_add ext xs ys = Some zs \<longrightarrow>
        (\<forall>d. amount_of zs d = amount_of xs d + amount_of ys d)) \<and>
     (\<forall>xs ys. normalized xs \<longrightarrow> (\<forall>d. amount_of xs d + amount_of ys d < 2 ^ 256) \<longrightarrow>
        x_nb_add ext xs ys \<noteq> None) \<and>
     (\<forall>xs ys zs. normalized xs \<longrightarrow> x_nb_sub ext xs ys = Inr zs \<longrightarrow>
        (\<forall>d. amount_of zs d + amount_of ys d = amount_of xs d)) \<and>
     (\<forall>xs ys. normalized xs \<longrightarrow> (\<forall>c \<in> set ys. c_amount c \<noteq> 0) \<longrightarrow>
        (\<forall>d. amount_of ys d \<le> amount_of xs d) \<longrightarrow> (\<exists>zs. x_nb_sub ext xs ys = Inr zs))"

lemma amount_of_Nil [simp]: "amount_of [] d = 0"
  by (simp add: amount_of_def)

lemma amount_of_Cons [simp]:
  "amount_of (c # cs) d = (if c_denom c = d then unat (c_amount c) else 0) + amount_of cs d"
  by (simp add: amount_of_def)

lemma amount_of_nonzero [simp]: "amount_of (filter (\<lambda>c. c_amount c \<noteq> 0) cs) d = amount_of cs d"
  by (induction cs) auto

lemma amount_of_pos: "c \<in> set cs \<Longrightarrow> c_amount c \<noteq> 0 \<Longrightarrow> 0 < amount_of cs (c_denom c)"
  by (induction cs) (auto simp: unat_gt_0)

lemma normalized_Nil [simp]: "normalized []"
  by (simp add: normalized_def)

lemma nb_normalizeD:
  "nb_laws ext \<Longrightarrow> x_nb_normalize ext xs = Some ys \<Longrightarrow> normalized ys \<and> amount_of ys = amount_of xs"
  by (auto simp: nb_laws_def)

lemma nb_addD: "nb_laws ext \<Longrightarrow> x_nb_add ext xs ys = Some zs \<Longrightarrow> normalized xs \<Longrightarrow>
    amount_of zs d = amount_of xs d + amount_of ys d"
  by (auto simp: nb_laws_def)

lemma nb_subD: "nb_laws ext \<Longrightarrow> x_nb_sub ext xs ys = Inr zs \<Longrightarrow> normalized xs \<Longrightarrow>
    amount_of zs d + amount_of ys d = amount_of xs d"
  by (auto simp: nb_laws_def)

lemma nb_sub_complete: "nb_laws ext \<Longrightarrow> normalized xs \<Longrightarrow> \<forall>c \<in> set ys. c_amount c \<noteq> 0 \<Longrightarrow>
    \<forall>d. amount_of ys d \<le> amount_of xs d \<Longrightarrow> \<exists>zs. x_nb_sub ext xs ys = Inr zs"
  by (auto simp: nb_laws_def)

lemma nb_normalize_total: "nb_laws ext \<Longrightarrow> \<forall>d. amount_of xs d < 2 ^ 256 \<Longrightarrow> x_nb_normalize ext xs \<noteq> None"
  by (auto simp: nb_laws_def)

lemma nb_add_total: "nb_laws ext \<Longrightarrow> normalized xs \<Longrightarrow> \<forall>d. amount_of xs d + amount_of ys d < 2 ^ 256 \<Longrightarrow>
    x_nb_add ext xs ys \<noteq> None"
  by (auto simp: nb_laws_def)

text \<open>A normalized balance lists a denomination at most once.\<close>

lemma amount_of_notin: "d \<notin> c_denom ` set cs \<Longrightarrow> amount_of cs d = 0"
  by (induction cs) auto

lemma normalized_find:
  assumes "normalized cs"
  shows "case List.find (\<lambda>c. c_denom c = d) cs of
           None \<Rightarrow> amount_of cs d = 0
         | Some c \<Rightarrow> c_denom c = d \<and> amount_of cs d = unat (c_amount c)"
  using assms
proof (induction cs)
  case (Cons c cs)
  then have "normalized cs" "c_denom c \<notin> c_denom ` set cs" by (auto simp: normalized_def)
  with Cons.IH show ?case by (auto simp: amount_of_notin split: option.splits)
qed simp

section \<open>A concrete instance\<close>

fun nb_insert :: "coin \<Rightarrow> coin list \<Rightarrow> coin list option" where
  "nb_insert c [] = Some [c]"
| "nb_insert c (x # xs) =
     (if c_denom x < c_denom c then map_option ((#) x) (nb_insert c xs)
      else if c_denom x = c_denom c
      then map_option (\<lambda>t. \<lparr>c_denom = c_denom x, c_amount = t\<rparr> # xs) (checked_add (c_amount x) (c_amount c))
      else Some (c # x # xs))"

fun nb_merge :: "coin list \<Rightarrow> coin list \<Rightarrow> coin list option" where
  "nb_merge acc [] = Some acc"
| "nb_merge acc (c # cs) =
     (if c_amount c = 0 then nb_merge acc cs
      else (case nb_insert c acc of None \<Rightarrow> None | Some acc' \<Rightarrow> nb_merge acc' cs))"

fun nb_sub1 :: "coin list \<Rightarrow> coin \<Rightarrow> coin list std_result" where
  "nb_sub1 [] c = Inl OverflowError"
| "nb_sub1 (x # xs) c =
     (if c_denom x = c_denom c
      then (if c_amount x < c_amount c then Inl OverflowError
            else if c_amount x = c_amount c then Inr xs
            else Inr (\<lparr>c_denom = c_denom x, c_amount = c_amount x - c_amount c\<rparr> # xs))
      else map_sum id ((#) x) (nb_sub1 xs c))"

fun nb_sub :: "coin list \<Rightarrow> coin list \<Rightarrow> coin list std_result" where
  "nb_sub xs [] = Inr xs"
| "nb_sub xs (c # cs) = (case nb_sub1 xs c of Inl e \<Rightarrow> Inl e | Inr xs' \<Rightarrow> nb_sub xs' cs)"

lemma normalized_Cons: "normalized (c # cs) \<longleftrightarrow>
    c_amount c \<noteq> 0 \<and> (\<forall>d \<in> c_denom ` set cs. c_denom c < d) \<and> normalized cs"
  by (auto simp: normalized_def)

lemma nb_insert_denoms: "nb_insert c xs = Some ys \<Longrightarrow> c_denom ` set ys = insert (c_denom c) (c_denom ` set xs)"
proof (induction xs arbitrary: ys)
  case (Cons x xs)
  show ?case
  proof (cases "c_denom x < c_denom c")
    case True
    with Cons.prems obtain zs where zs: "nb_insert c xs = Some zs" "ys = x # zs" by auto
    from Cons.IH [OF zs(1)] show ?thesis by (simp add: zs(2) insert_commute)
  next
    case False
    with Cons.prems show ?thesis by (auto split: if_splits)
  qed
qed simp

lemma checked_add_nonzero: "checked_add a b = Some t \<Longrightarrow> a \<noteq> 0 \<Longrightarrow> t \<noteq> 0"
  using checked_add_Some [of a b t] by (auto simp: unat_eq_0)

lemma nb_insert_normalized:
  "nb_insert c xs = Some ys \<Longrightarrow> normalized xs \<Longrightarrow> c_amount c \<noteq> 0 \<Longrightarrow> normalized ys"
proof (induction xs arbitrary: ys)
  case (Cons x xs)
  consider "c_denom x < c_denom c" | "c_denom x = c_denom c" | "c_denom c < c_denom x" by fastforce
  then show ?case
  proof cases
    case 1
    with Cons.prems obtain zs where zs: "nb_insert c xs = Some zs" "ys = x # zs" by auto
    with Cons have "normalized zs" by (simp add: normalized_Cons)
    with zs(2) 1 Cons.prems(2) show ?thesis
      by (simp add: normalized_Cons nb_insert_denoms [OF zs(1)])
  next
    case 2
    with Cons.prems show ?thesis by (auto simp: normalized_Cons checked_add_nonzero)
  next
    case 3
    then have "\<not> c_denom x < c_denom c" "c_denom x \<noteq> c_denom c" by auto
    with 3 Cons.prems show ?thesis using order.strict_trans [OF 3] by (auto simp: normalized_Cons)
  qed
qed (simp add: normalized_Cons)

lemma nb_insert_amount: "nb_insert c xs = Some ys \<Longrightarrow> amount_of ys d = amount_of (c # xs) d"
proof (induction xs arbitrary: ys)
  case (Cons x xs)
  consider "c_denom x < c_denom c" | "\<not> c_denom x < c_denom c" "c_denom x = c_denom c"
    | "\<not> c_denom x < c_denom c" "c_denom x \<noteq> c_denom c" by blast
  then show ?case
  proof cases
    case 1
    with Cons.prems obtain zs where zs: "nb_insert c xs = Some zs" "ys = x # zs" by auto
    from Cons.IH [OF zs(1)] show ?thesis by (simp add: zs(2))
  next
    case 2
    with Cons.prems obtain t where t: "checked_add (c_amount x) (c_amount c) = Some t"
        "ys = \<lparr>c_denom = c_denom x, c_amount = t\<rparr> # xs" by auto
    from checked_add_Some [OF t(1)] 2 show ?thesis by (simp add: t(2))
  next
    case 3
    with Cons.prems show ?thesis by auto
  qed
qed simp

lemma nb_insert_None: "nb_insert c xs = None \<Longrightarrow> \<exists>d. 2 ^ 256 \<le> amount_of (c # xs) d"
proof (induction xs)
  case (Cons x xs)
  show ?case
  proof (cases "c_denom x < c_denom c")
    case True
    with Cons obtain d where "2 ^ 256 \<le> amount_of (c # xs) d" by auto
    then have "2 ^ 256 \<le> amount_of (c # x # xs) d" by (simp split: if_splits)
    then show ?thesis by blast
  next
    case False
    with Cons.prems have "c_denom x = c_denom c" "2 ^ 256 \<le> unat (c_amount x) + unat (c_amount c)"
      by (auto simp: checked_add_None split: if_splits)
    then have "2 ^ 256 \<le> amount_of (c # x # xs) (c_denom c)" by simp
    then show ?thesis by blast
  qed
qed simp

lemma nb_merge_normalized: "nb_merge acc xs = Some ys \<Longrightarrow> normalized acc \<Longrightarrow> normalized ys"
  by (induction acc xs rule: nb_merge.induct) (auto intro: nb_insert_normalized split: if_splits option.splits)

lemma nb_merge_amount: "nb_merge acc xs = Some ys \<Longrightarrow> amount_of ys d = amount_of acc d + amount_of xs d"
  by (induction acc xs rule: nb_merge.induct) (auto dest!: nb_insert_amount [where d = d] split: if_splits option.splits)

lemma nb_merge_None: "nb_merge acc xs = None \<Longrightarrow> \<exists>d. 2 ^ 256 \<le> amount_of acc d + amount_of xs d"
proof (induction acc xs rule: nb_merge.induct)
  case (2 acc c cs)
  show ?case
  proof (cases "c_amount c = 0")
    case True
    with 2 obtain d where "2 ^ 256 \<le> amount_of acc d + amount_of cs d" by auto
    then have "2 ^ 256 \<le> amount_of acc d + amount_of (c # cs) d" by simp
    then show ?thesis by blast
  next
    case False
    show ?thesis
    proof (cases "nb_insert c acc")
      case None
      then obtain d where "2 ^ 256 \<le> amount_of (c # acc) d" using nb_insert_None by blast
      then have "2 ^ 256 \<le> amount_of acc d + amount_of (c # cs) d" by (simp split: if_splits)
      then show ?thesis by blast
    next
      case (Some acc')
      with 2 False obtain d where "2 ^ 256 \<le> amount_of acc' d + amount_of cs d" by auto
      then have "2 ^ 256 \<le> amount_of acc d + amount_of (c # cs) d"
        using nb_insert_amount [OF Some, of d] by (simp split: if_splits)
      then show ?thesis by blast
    qed
  qed
qed simp

lemma nb_sub1_Inr:
  "nb_sub1 xs c = Inr ys \<Longrightarrow> normalized xs \<Longrightarrow>
     normalized ys \<and> c_denom ` set ys \<subseteq> c_denom ` set xs \<and> (\<forall>d. amount_of (c # ys) d = amount_of xs d)"
proof (induction xs arbitrary: ys)
  case (Cons x xs)
  show ?case
  proof (cases "c_denom x = c_denom c")
    case True
    with Cons.prems show ?thesis
      by (auto simp: normalized_Cons unat_sub word_le_nat_alt not_less split: if_splits)
  next
    case False
    with Cons.prems obtain zs where zs: "nb_sub1 xs c = Inr zs" "ys = x # zs"
      by (cases "nb_sub1 xs c") auto
    with Cons have z: "normalized zs" "c_denom ` set zs \<subseteq> c_denom ` set xs"
        "\<forall>d. amount_of (c # zs) d = amount_of xs d"
      by (auto simp: normalized_Cons)
    have "amount_of (c # ys) d = amount_of (x # xs) d" for d
      using z(3) [rule_format, of d] by (simp add: zs(2))
    moreover have "normalized ys" using z Cons.prems by (auto simp: zs(2) normalized_Cons)
    ultimately show ?thesis using z(2) by (auto simp: zs(2))
  qed
qed simp

lemma nb_sub1_complete:
  "normalized xs \<Longrightarrow> c_amount c \<noteq> 0 \<Longrightarrow> unat (c_amount c) \<le> amount_of xs (c_denom c) \<Longrightarrow>
     \<exists>ys. nb_sub1 xs c = Inr ys"
proof (induction xs)
  case Nil
  then show ?case by (simp add: unat_eq_0)
next
  case (Cons x xs)
  show ?case
  proof (cases "c_denom x = c_denom c")
    case True
    with Cons.prems have "c_denom c \<notin> c_denom ` set xs" by (auto simp: normalized_def)
    with True Cons.prems show ?thesis by (auto simp: amount_of_notin word_less_nat_alt)
  next
    case False
    with Cons have "\<exists>ys. nb_sub1 xs c = Inr ys" by (auto simp: normalized_def)
    with False show ?thesis by auto
  qed
qed

lemma nb_sub_Inr:
  "nb_sub xs cs = Inr ys \<Longrightarrow> normalized xs \<Longrightarrow> amount_of ys d + amount_of cs d = amount_of xs d"
proof (induction xs cs rule: nb_sub.induct)
  case (2 xs c cs)
  then obtain xs' where xs': "nb_sub1 xs c = Inr xs'" by (cases "nb_sub1 xs c") auto
  with 2 have "amount_of ys d + amount_of cs d = amount_of xs' d" "amount_of (c # xs') d = amount_of xs d"
    using nb_sub1_Inr [OF xs'] by auto
  then show ?case by simp
qed simp

lemma nb_sub_complete':
  "normalized xs \<Longrightarrow> \<forall>c \<in> set cs. c_amount c \<noteq> 0 \<Longrightarrow> \<forall>d. amount_of cs d \<le> amount_of xs d \<Longrightarrow>
     \<exists>ys. nb_sub xs cs = Inr ys"
proof (induction xs cs rule: nb_sub.induct)
  case (2 xs c cs)
  from "2.prems"(3) have "amount_of (c # cs) (c_denom c) \<le> amount_of xs (c_denom c)" by blast
  then obtain xs' where xs': "nb_sub1 xs c = Inr xs'"
    using nb_sub1_complete [OF "2.prems"(1), of c] "2.prems"(2) by auto
  note X = nb_sub1_Inr [OF xs' "2.prems"(1)]
  have "amount_of cs d \<le> amount_of xs' d" for d
  proof -
    have "amount_of (c # cs) d \<le> amount_of xs d" using "2.prems"(3) by blast
    also have "\<dots> = amount_of (c # xs') d" using X by simp
    finally show ?thesis by simp
  qed
  with "2.IH" [OF xs'] "2.prems" X show ?case by (simp add: xs')
qed simp

text \<open>A natural number as an unsigned word, if it fits.\<close>

definition fits :: "nat \<Rightarrow> 'a::len word option" where
  "fits n = (if n < 2 ^ LENGTH('a) then Some (of_nat n) else None)"

definition fits_dec :: "nat \<Rightarrow> decimal option" where
  "fits_dec n = map_option Decimal (fits n)"

lemma fits_Some: "fits n = Some (w :: 'a::len word) \<longleftrightarrow> n < 2 ^ LENGTH('a) \<and> unat w = n"
  by (auto simp: fits_def unsigned_of_nat take_bit_nat_eq_self)

lemma fits_dec_Some: "fits_dec n = Some d \<longleftrightarrow> n < 2 ^ 256 \<and> unat (atomics d) = n"
  by (cases d) (auto simp: fits_dec_def fits_Some)

text \<open>Bytes as characters and back.\<close>

lemma string_of_bytes: "map (\<lambda>w. char_of (unat w)) (as_bytes x) = x"
proof -
  have "unat (of_char c :: byte) = of_char c" for c :: char
  proof -
    have "(of_char c :: byte) = word_of_nat (of_char c)" by (simp only: of_nat_of_char)
    moreover have "of_char c < (256::nat)" by simp
    ultimately show ?thesis by (simp add: unat_of_nat)
  qed
  then show ?thesis by (simp add: as_bytes_def comp_def)
qed

lemma bytes_of_chars: "as_bytes (map (\<lambda>b. char_of (unat b)) bs) = bs"
proof -
  have "of_char (char_of (unat b) :: char) = b" for b :: byte
  proof -
    have "(of_char (char_of (unat b) :: char) :: byte) = word_of_nat (of_char (char_of (unat b) :: char))"
      by (simp only: of_nat_of_char)
    moreover have "unat b < 256" using unsigned_less [of b] by simp
    ultimately show ?thesis by simp
  qed
  then show ?thesis by (simp add: as_bytes_def comp_def)
qed

definition demo_ext :: ext where
  "demo_ext = \<lparr>
     x_addr_validate = (\<lambda>s. if s = [] then Inl (ExternalError ''empty address'') else Inr (Addr s)),
     x_addr_humanize = (\<lambda>b. Inr (Addr (map (\<lambda>w. char_of (unat w)) b))),
     x_addr_canonicalize = (\<lambda>s. Inr (as_bytes s)),
     x_nb_normalize = nb_merge [],
     x_nb_add = (\<lambda>xs ys. nb_merge [] (xs @ ys)),
     x_nb_sub = nb_sub,
     x_dec_mul = (\<lambda>a b. fits_dec (unat (atomics a) * unat (atomics b) div 10 ^ 18)),
     x_dec_div = (\<lambda>a b. if b = dec_zero then None
        else fits_dec (unat (atomics a) * 10 ^ 18 div unat (atomics b))),
     x_dec_div_uint = (\<lambda>a n. if n = 0 then None else Some (Decimal (of_nat (unat (atomics a) div unat n)))),
     x_dec_ratio = (\<lambda>n. fits_dec (unat n * 10 ^ 18)),
     x_dec_from_atomics = (\<lambda>n. case fits (unat n * 10 ^ 18) of
        None \<Rightarrow> Inl OverflowError | Some w \<Rightarrow> Inr (Decimal w)),
     x_mul_floor = (\<lambda>n d. fits (unat n * unat (atomics d) div 10 ^ 18)),
     x_plus_seconds = (\<lambda>t s. fits (unat t + unat s * 10 ^ 9)),
     x_minus_seconds = (\<lambda>t s. if unat s * 10 ^ 9 \<le> unat t then fits (unat t - unat s * 10 ^ 9) else None),
     x_seconds = (\<lambda>t. of_nat (unat t div 10 ^ 9)),
     x_to_json = (\<lambda>d. Inr []),
     x_parse_ics20 = (\<lambda>b. Inl (ExternalError ''not an ICS-20 packet'')),
     x_parse_hooks_memo = (\<lambda>m. None),
     x_parse_callback_memo = (\<lambda>m. None),
     x_parse_callback_request = (\<lambda>m. None),
     x_parse_hooks_ack = (\<lambda>b. Inl (ExternalError ''not a hooks acknowledgement'')),
     x_parse_std_ack = (\<lambda>b. Inl (ExternalError ''not an acknowledgement'')),
     x_parse_packet = (\<lambda>b. Inl (ExternalError ''not a packet'')),
     x_parse_connection = (\<lambda>b. Inl (ExternalError ''not a connection'')),
     x_std_ack_binary = (\<lambda>a. case a of AckOk b \<Rightarrow> 1 # b | AckErr e \<Rightarrow> 0 # as_bytes e),
     x_base64 = (\<lambda>b. map (\<lambda>w. char_of (unat w)) b),
     x_keccak256 = id,
     x_sha256 = id,
     x_hex = (\<lambda>b. map (\<lambda>w. char_of (unat w)) b),
     x_unhex = (\<lambda>s. Inr (as_bytes s)),
     x_utf8_lossy = (\<lambda>b. map (\<lambda>w. char_of (unat w)) b),
     x_order_json = (\<lambda>x. case x of Ordered \<Rightarrow> ''ORDERED'' | Unordered \<Rightarrow> ''UNORDERED''),
     x_binary_json = (\<lambda>b. map (\<lambda>w. char_of (unat w)) b),
     x_instantiate2 = (\<lambda>c a s. Inr (c @ a @ s)),
     x_debug_error = (\<lambda>e. ''error''),
     x_encode_instantiate = (\<lambda>a d. as_bytes a @ d),
     x_encode_execute = (\<lambda>d. 10 # d),
     x_encode_transfer = (\<lambda>n. as_bytes (show_word n)),
     x_parse_instantiate = (\<lambda>b. Inr (map (\<lambda>w. char_of (unat w)) b)),
     x_parse_execute = (\<lambda>b. if b = [] then Inl (ExternalError ''empty'') else Inr (Some (tl b)))\<rparr>"

lemma nb_laws_demo [simp]: "nb_laws demo_ext"
proof -
  have am: "amount_of (xs @ ys) d = amount_of xs d + amount_of ys d" for xs ys d
    by (induction xs) auto
  have c1: "\<exists>d. \<not> amount_of xs d < 2 ^ 256" if "nb_merge [] xs = None" for xs
    using nb_merge_None [OF that] by (auto simp: not_less)
  have c2: "\<exists>d. \<not> amount_of xs d + amount_of ys d < 2 ^ 256" if "nb_merge [] (xs @ ys) = None" for xs ys
    using nb_merge_None [OF that] by (auto simp: not_less am)
  show ?thesis
    unfolding nb_laws_def demo_ext_def ext.simps
  proof (intro conjI allI impI)
    fix xs ys
    assume "\<forall>d. amount_of xs d + amount_of ys d < 2 ^ 256"
    then show "nb_merge [] (xs @ ys) \<noteq> None" using c2 by blast
  next
    fix xs
    assume "\<forall>d. amount_of xs d < 2 ^ 256"
    then show "nb_merge [] xs \<noteq> None" using c1 by blast
  qed (auto simp: fun_eq_iff am nb_merge_normalized nb_merge_amount nb_sub_Inr nb_sub_complete'
      simp del: nb_merge.simps)
qed

text \<open>The other fields can be exchanged freely: the laws speak about three of them.\<close>

lemma nb_laws_cong:
  "x_nb_normalize e = x_nb_normalize f \<Longrightarrow> x_nb_add e = x_nb_add f \<Longrightarrow> x_nb_sub e = x_nb_sub f \<Longrightarrow>
     nb_laws e = nb_laws f"
  by (simp add: nb_laws_def)

section \<open>Decimals and times\<close>

text \<open>
  \<open>from_ratio(n, 1)\<close>, multiplication and \<open>mul_floor\<close> are exact up to rounding down, and a panic when
  the result does not fit; adding seconds to a timestamp is monotone.
\<close>

definition dec_laws :: "ext \<Rightarrow> bool" where
  "dec_laws ext \<longleftrightarrow>
     (\<forall>n. x_dec_ratio ext n = fits_dec (unat n * 10 ^ 18)) \<and>
     (\<forall>a b. x_dec_mul ext a b = fits_dec (unat (atomics a) * unat (atomics b) div 10 ^ 18)) \<and>
     (\<forall>n d. x_mul_floor ext n d = fits (unat n * unat (atomics d) div 10 ^ 18))"

definition time_laws :: "ext \<Rightarrow> bool" where
  "time_laws ext \<longleftrightarrow> (\<forall>s t d x y. s \<le> t \<longrightarrow> x_plus_seconds ext s d = Some x \<longrightarrow>
     x_plus_seconds ext t d = Some y \<longrightarrow> x \<le> y)"

lemma dec_laws_demo [simp]: "dec_laws demo_ext"
  by (simp add: dec_laws_def demo_ext_def)

lemma time_laws_demo [simp]: "time_laws demo_ext"
  unfolding time_laws_def
proof (intro allI impI)
  fix s t d x y :: u64
  assume "s \<le> t" "x_plus_seconds demo_ext s d = Some x" "x_plus_seconds demo_ext t d = Some y"
  then show "x \<le> y" by (simp add: demo_ext_def fits_Some word_le_nat_alt)
qed

end
