(* ===== verification/Wasm.thy ===== *)
theory Wasm
  imports Contracts Ext_Model
begin

text \<open>
  The wasm module (\<open>src/wasm.rs\<close>, \<open>src/addresses.rs\<close>, \<open>src/checksums.rs\<close>): the code registry of
  the keeper, registration of contract instances, running entry points on the instance's own
  storage, and the processing of the sub-messages and replies a contract returns. What the
  module asks of the other modules goes through the \<open>cosmos_router\<close> it is given.
\<close>

section \<open>The keeper and its code registry\<close>

record code_entry =
  ce_creator :: addr
  ce_checksum :: bytes
  ce_source_id :: nat

text \<open>The generators are trait objects; a generator is a function of its arguments here.\<close>

record wasm_keeper =
  wk_code_base :: "contract list"
  wk_code_data :: "(u64, code_entry) omap"
  wk_address :: "u64 \<Rightarrow> u64 \<Rightarrow> addr std_result"
  wk_predictable :: "u64 \<Rightarrow> u64 \<Rightarrow> bytes \<Rightarrow> bytes \<Rightarrow> bytes \<Rightarrow> addr std_result"
  wk_checksum :: "addr \<Rightarrow> u64 \<Rightarrow> bytes"

definition to_be_bytes :: "u64 \<Rightarrow> bytes" where
  "to_be_bytes w = map (\<lambda>i. ucast (drop_bit (8 * i) w)) [7, 6, 5, 4, 3, 2, 1, 0]"

definition instantiate_address :: "ext \<Rightarrow> u64 \<Rightarrow> u64 \<Rightarrow> bytes" where
  "instantiate_address ext code_id instance_id =
     (let key = as_bytes ''wasm'' @ [0] @ to_be_bytes code_id @ to_be_bytes instance_id;
          module = x_sha256 ext (as_bytes ''module'')
      in x_sha256 ext (module @ key))"

definition simple_contract_address :: "ext \<Rightarrow> u64 \<Rightarrow> u64 \<Rightarrow> addr std_result" where
  "simple_contract_address ext code_id instance_id =
     x_addr_humanize ext (instantiate_address ext code_id instance_id)"

definition simple_predictable_address ::
    "ext \<Rightarrow> u64 \<Rightarrow> u64 \<Rightarrow> bytes \<Rightarrow> bytes \<Rightarrow> bytes \<Rightarrow> addr std_result" where
  "simple_predictable_address ext code_id instance_id checksum creator salt =
     (case x_instantiate2 ext checksum creator salt of
        Inl e \<Rightarrow> Inl e | Inr canonical_addr \<Rightarrow> x_addr_humanize ext canonical_addr)"

definition simple_checksum :: "ext \<Rightarrow> addr \<Rightarrow> u64 \<Rightarrow> bytes" where
  "simple_checksum ext creator code_id =
     x_sha256 ext (as_bytes (''contract code '' @ show_word code_id))"

definition default_wasm_keeper :: "ext \<Rightarrow> wasm_keeper" where
  "default_wasm_keeper ext = \<lparr>wk_code_base = [], wk_code_data = om_empty,
     wk_address = simple_contract_address ext, wk_predictable = simple_predictable_address ext,
     wk_checksum = simple_checksum ext\<rparr>"

definition with_address_generator ::
    "(u64 \<Rightarrow> u64 \<Rightarrow> addr std_result) \<Rightarrow> (u64 \<Rightarrow> u64 \<Rightarrow> bytes \<Rightarrow> bytes \<Rightarrow> bytes \<Rightarrow> addr std_result)
       \<Rightarrow> wasm_keeper \<Rightarrow> wasm_keeper" where
  "with_address_generator f g wk = wk\<lparr>wk_address := f, wk_predictable := g\<rparr>"

definition with_checksum_generator :: "(addr \<Rightarrow> u64 \<Rightarrow> bytes) \<Rightarrow> wasm_keeper \<Rightarrow> wasm_keeper" where
  "with_checksum_generator f wk = wk\<lparr>wk_checksum := f\<rparr>"

definition invalid_code_id :: string where
  "invalid_code_id = ''code id: invalid''"

definition unregistered_code_id :: "u64 \<Rightarrow> string" where
  "unregistered_code_id code_id = ''code id '' @ show_word code_id @ '': no such code''"

definition duplicated_code_id :: "u64 \<Rightarrow> string" where
  "duplicated_code_id code_id = ''duplicated code id '' @ show_word code_id"

definition no_more_code_id_available :: string where
  "no_more_code_id_available = ''no more code identifiers available''"

definition duplicated_contract_address :: "addr \<Rightarrow> string" where
  "duplicated_contract_address a = ''Contract with this address already exists: '' @ addr_str a"

definition code_data :: "wasm_keeper \<Rightarrow> u64 \<Rightarrow> code_entry std_result" where
  "code_data wk code_id =
     (if code_id < 1 then Inl (StdMsg invalid_code_id)
      else case om_get (wk_code_data wk) code_id of
        None \<Rightarrow> Inl (StdMsg (unregistered_code_id code_id)) | Some d \<Rightarrow> Inr d)"

text \<open>Indexing the code base out of range is a panic.\<close>

definition contract_code :: "wasm_keeper \<Rightarrow> u64 \<Rightarrow> ('s, std_error, contract) proc" where
  "contract_code wk code_id =
     bindM (lift_result (code_data wk code_id)) (\<lambda>d.
       or_panic ''index out of bounds''
         (if ce_source_id d < length (wk_code_base wk)
          then Some (wk_code_base wk ! ce_source_id d) else None))"

definition next_code_id :: "wasm_keeper \<Rightarrow> u64 option" where
  "next_code_id wk = checked_add (case om_last_key (wk_code_data wk) of None \<Rightarrow> 0 | Some k \<Rightarrow> k) 1"

definition save_code :: "u64 \<Rightarrow> addr \<Rightarrow> contract \<Rightarrow> wasm_keeper \<Rightarrow> wasm_keeper" where
  "save_code code_id creator code wk =
     (let source_id = length (wk_code_base wk);
          checksum = (case ct_checksum code of Some c \<Rightarrow> c | None \<Rightarrow> wk_checksum wk creator code_id)
      in wk\<lparr>wk_code_base := wk_code_base wk @ [code],
            wk_code_data := om_insert code_id
              \<lparr>ce_creator = creator, ce_checksum = checksum, ce_source_id = source_id\<rparr> (wk_code_data wk)\<rparr>)"

type_synonym 'a keeper_proc = "(wasm_keeper, std_error, 'a) proc"

definition store_code :: "addr \<Rightarrow> contract \<Rightarrow> u64 keeper_proc" where
  "store_code creator code =
     bindM (reads next_code_id) (\<lambda>next. bindM (or_panic no_more_code_id_available next) (\<lambda>code_id.
       thenM (modifies (save_code code_id creator code)) (ret code_id)))"

definition store_code_with_id :: "addr \<Rightarrow> u64 \<Rightarrow> contract \<Rightarrow> u64 keeper_proc" where
  "store_code_with_id creator code_id code =
     bindM (reads (\<lambda>wk. om_has (wk_code_data wk) code_id)) (\<lambda>dup.
       if dup then fail (StdMsg (duplicated_code_id code_id))
       else if code_id = 0 then fail (StdMsg invalid_code_id)
       else thenM (modifies (save_code code_id creator code)) (ret code_id))"

definition duplicate_code :: "u64 \<Rightarrow> u64 keeper_proc" where
  "duplicate_code code_id =
     bindM (reads (\<lambda>wk. code_data wk code_id)) (\<lambda>r. bindM (lift_result r) (\<lambda>d.
     bindM (reads next_code_id) (\<lambda>next.
     bindM (of_option (StdMsg no_more_code_id_available) next) (\<lambda>new_code_id.
       thenM (modifies (\<lambda>wk. wk\<lparr>wk_code_data := om_insert new_code_id
                \<lparr>ce_creator = ce_creator d, ce_checksum = ce_checksum d, ce_source_id = ce_source_id d\<rparr>
                (wk_code_data wk)\<rparr>))
         (ret new_code_id)))))"

section \<open>Contract instances and their storage\<close>

definition contract_namespace :: "addr \<Rightarrow> bytes" where
  "contract_namespace contract = as_bytes ''contract_data/'' @ as_bytes (addr_str contract)"

definition contract_data :: "addr \<Rightarrow> contract_data chain_proc" where
  "contract_data address = in_wasm (load ''ContractData'' w_contracts address)"

definition save_contract :: "addr \<Rightarrow> contract_data \<Rightarrow> unit chain_proc" where
  "save_contract address c =
     in_wasm (modifies (\<lambda>w. w\<lparr>w_contracts := om_insert address c (w_contracts w)\<rparr>))"

definition instance_count :: "chain \<Rightarrow> nat" where
  "instance_count s = length (w_contracts (ch_wasm s))"

definition contract_storage :: "chain \<Rightarrow> addr \<Rightarrow> mem" where
  "contract_storage s address = (case om_get (w_storage (ch_wasm s)) address of None \<Rightarrow> [] | Some m \<Rightarrow> m)"

definition put_contract_storage :: "addr \<Rightarrow> mem \<Rightarrow> chain \<Rightarrow> chain" where
  "put_contract_storage address m s =
     s\<lparr>ch_wasm := (ch_wasm s)\<lparr>w_storage := om_insert address m (w_storage (ch_wasm s))\<rparr>\<rparr>"

definition contract_storage_mut :: "addr \<Rightarrow> (mem, std_error, 'r) proc \<Rightarrow> 'r chain_proc" where
  "contract_storage_mut address = zoom (\<lambda>s. contract_storage s address) (put_contract_storage address)"

definition dump_wasm_raw :: "chain \<Rightarrow> addr \<Rightarrow> rec list option" where
  "dump_wasm_raw s address = mem_range (contract_storage s address) None None Ascending"

definition query_raw :: "addr \<Rightarrow> bytes \<Rightarrow> chain \<Rightarrow> binary" where
  "query_raw address key s = (case om_get (contract_storage s address) key of None \<Rightarrow> [] | Some v \<Rightarrow> v)"

definition get_env :: "addr \<Rightarrow> block_info \<Rightarrow> env" where
  "get_env address block = \<lparr>env_block = block, env_contract = address\<rparr>"

text \<open>
  \<open>with_storage\<close>: the entry point works in a write cache, and its querier reads the store below
  the cache, so its queries see the chain as it was when the entry point was entered.
\<close>

definition with_storage ::
    "cosmos_router \<Rightarrow> wasm_keeper \<Rightarrow> block_info \<Rightarrow> addr \<Rightarrow> (contract \<Rightarrow> env \<Rightarrow> 'r cprog) \<Rightarrow> 'r chain_proc" where
  "with_storage router wk block address action =
     bindM (contract_data address) (\<lambda>c. bindM (contract_code wk (cd_code_id c)) (\<lambda>handler.
       atomically (\<lambda>s. contract_storage_mut address
         (run_cprog (\<lambda>req. r_query router block req s) (action handler (get_env address block))) s)))"

text \<open>\<open>with_storage_readonly\<close>: a query entry point; \<open>q\<close> is the querier it is given.\<close>

definition with_storage_readonly ::
    "(query_request \<Rightarrow> (std_error, binary) outcome) \<Rightarrow> wasm_keeper \<Rightarrow> block_info \<Rightarrow> addr
       \<Rightarrow> (contract \<Rightarrow> env \<Rightarrow> 'r cprog) \<Rightarrow> 'r chain_proc" where
  "with_storage_readonly q wk block address action =
     bindM (contract_data address) (\<lambda>c. bindM (contract_code wk (cd_code_id c)) (\<lambda>handler.
     bindM (reads (\<lambda>s. contract_storage s address)) (\<lambda>m.
       lift_outcome (fst (run_cprog q (action handler (get_env address block)) m)))))"

section \<open>Verification of contract responses\<close>

text \<open>\<open>str::trim\<close> on UTF-8: the white-space code points, encoded.\<close>

definition ws_tokens :: "string list" where
  "ws_tokens = [[CHR 0x09], [CHR 0x0A], [CHR 0x0B], [CHR 0x0C], [CHR 0x0D], [CHR 0x20],
     [CHR 0xC2, CHR 0x85], [CHR 0xC2, CHR 0xA0], [CHR 0xE1, CHR 0x9A, CHR 0x80],
     [CHR 0xE2, CHR 0x80, CHR 0x80], [CHR 0xE2, CHR 0x80, CHR 0x81], [CHR 0xE2, CHR 0x80, CHR 0x82],
     [CHR 0xE2, CHR 0x80, CHR 0x83], [CHR 0xE2, CHR 0x80, CHR 0x84], [CHR 0xE2, CHR 0x80, CHR 0x85],
     [CHR 0xE2, CHR 0x80, CHR 0x86], [CHR 0xE2, CHR 0x80, CHR 0x87], [CHR 0xE2, CHR 0x80, CHR 0x88],
     [CHR 0xE2, CHR 0x80, CHR 0x89], [CHR 0xE2, CHR 0x80, CHR 0x8A], [CHR 0xE2, CHR 0x80, CHR 0xA8],
     [CHR 0xE2, CHR 0x80, CHR 0xA9], [CHR 0xE2, CHR 0x80, CHR 0xAF], [CHR 0xE2, CHR 0x81, CHR 0x9F],
     [CHR 0xE3, CHR 0x80, CHR 0x80]]"

definition leading_token :: "string list \<Rightarrow> string \<Rightarrow> string option" where
  "leading_token toks s = List.find (\<lambda>t. t \<noteq> [] \<and> take (length t) s = t) toks"

function strip_leading :: "string list \<Rightarrow> string \<Rightarrow> string" where
  "strip_leading toks s = (case leading_token toks s of
      None \<Rightarrow> s | Some t \<Rightarrow> strip_leading toks (drop (length t) s))"
  by pat_completeness auto

lemma leading_token_Some: "leading_token toks s = Some t \<Longrightarrow> length s - length t < length s"
proof -
  assume "leading_token toks s = Some t"
  then have t: "t \<noteq> []" "take (length t) s = t" by (auto simp: leading_token_def find_Some_iff)
  then have "length t \<le> length s" by (metis length_take min.cobounded1)
  with t(1) show "length s - length t < length s" by (cases t) auto
qed

termination strip_leading
  by (relation "measure (length \<circ> snd)") (auto dest!: leading_token_Some)

declare strip_leading.simps [simp del]

definition trim :: "string \<Rightarrow> string" where
  "trim s = rev (strip_leading (map rev ws_tokens) (rev (strip_leading ws_tokens s)))"

definition empty_attribute_key :: "string \<Rightarrow> string" where
  "empty_attribute_key v = ''Empty attribute key. Value: '' @ v"

definition reserved_attribute_key :: "string \<Rightarrow> string" where
  "reserved_attribute_key k = ''Attribute key starts with reserved prefix _: '' @ k"

definition event_type_too_short :: "string \<Rightarrow> string" where
  "event_type_too_short ty = ''Event type too short: '' @ ty"

definition verify_attributes :: "attribute list \<Rightarrow> ('s, std_error, unit) proc" where
  "verify_attributes attributes = for_each (\<lambda>at.
     let key = trim (a_key at); val = trim (a_value at)
     in if key = [] then fail (StdMsg (empty_attribute_key val))
        else if hd key = CHR ''_'' then fail (StdMsg (reserved_attribute_key key))
        else ret ()) attributes"

definition verify_events :: "event list \<Rightarrow> ('s, std_error, unit) proc" where
  "verify_events events = for_each (\<lambda>ev.
     thenM (verify_attributes (ev_attributes ev))
       (let ty = trim (ev_ty ev) in guard (2 \<le> length ty) (StdMsg (event_type_too_short ty)))) events"

definition verify_response :: "response \<Rightarrow> ('s, std_error, response) proc" where
  "verify_response r =
     thenM (verify_attributes (rs_attributes r)) (thenM (verify_events (rs_events r)) (ret r))"

definition verify_ibc_response :: "ibc_basic_response \<Rightarrow> ('s, std_error, ibc_basic_response) proc" where
  "verify_ibc_response r =
     thenM (verify_attributes (ib_attributes r)) (thenM (verify_events (ib_events r)) (ret r))"

definition verify_packet_response :: "ibc_receive_response \<Rightarrow> ('s, std_error, ibc_receive_response) proc" where
  "verify_packet_response r =
     thenM (verify_attributes (ir_attributes r)) (thenM (verify_events (ir_events r)) (ret r))"

section \<open>Entry points\<close>

definition query_smart ::
    "(query_request \<Rightarrow> (std_error, binary) outcome) \<Rightarrow> wasm_keeper \<Rightarrow> block_info \<Rightarrow> addr \<Rightarrow> bytes
       \<Rightarrow> binary chain_proc" where
  "query_smart q wk block address msg =
     with_storage_readonly q wk block address (\<lambda>contract env. ct_query contract env msg)"

definition call_execute ::
    "cosmos_router \<Rightarrow> wasm_keeper \<Rightarrow> block_info \<Rightarrow> addr \<Rightarrow> message_info \<Rightarrow> bytes \<Rightarrow> response chain_proc" where
  "call_execute router wk block address info msg =
     bindM (with_storage router wk block address (\<lambda>contract env. ct_execute contract env info msg))
       verify_response"

definition call_instantiate ::
    "cosmos_router \<Rightarrow> wasm_keeper \<Rightarrow> block_info \<Rightarrow> addr \<Rightarrow> message_info \<Rightarrow> bytes \<Rightarrow> response chain_proc" where
  "call_instantiate router wk block address info msg =
     bindM (with_storage router wk block address (\<lambda>contract env. ct_instantiate contract env info msg))
       verify_response"

definition call_reply ::
    "cosmos_router \<Rightarrow> wasm_keeper \<Rightarrow> block_info \<Rightarrow> addr \<Rightarrow> reply \<Rightarrow> response chain_proc" where
  "call_reply router wk block address rp =
     bindM (with_storage router wk block address (\<lambda>contract env. ct_reply contract env rp))
       verify_response"

definition call_sudo ::
    "cosmos_router \<Rightarrow> wasm_keeper \<Rightarrow> block_info \<Rightarrow> addr \<Rightarrow> bytes \<Rightarrow> response chain_proc" where
  "call_sudo router wk block address msg =
     bindM (with_storage router wk block address (\<lambda>contract env. ct_sudo contract env msg))
       verify_response"

definition call_migrate ::
    "cosmos_router \<Rightarrow> wasm_keeper \<Rightarrow> block_info \<Rightarrow> addr \<Rightarrow> bytes \<Rightarrow> migrate_info \<Rightarrow> response chain_proc" where
  "call_migrate router wk block address msg info =
     bindM (with_storage router wk block address (\<lambda>contract env. ct_migrate contract env msg info))
       verify_response"

section \<open>Sub-messages and replies\<close>

definition CONTRACT_ATTR :: string where
  "CONTRACT_ATTR = ''_contract_address''"

definition build_app_response :: "addr \<Rightarrow> event \<Rightarrow> response \<Rightarrow> app_response \<times> sub_msg list" where
  "build_app_response contract custom_event r =
     (let wasm_event = (if rs_attributes r = [] then []
            else [add_attributes (rs_attributes r) (new_event ''wasm'' [(CONTRACT_ATTR, addr_str contract)])]);
          wasm_events = map (\<lambda>ev. \<lparr>ev_ty = ''wasm-'' @ ev_ty ev,
            ev_attributes = attr CONTRACT_ATTR (addr_str contract) # ev_attributes ev\<rparr>) (rs_events r)
      in (\<lparr>ar_events = custom_event # wasm_event @ wasm_events, ar_data = rs_data r\<rparr>, rs_messages r))"

text \<open>\<open>Option::or\<close> and \<open>unwrap_or_default\<close> of bytes.\<close>

definition opt_or :: "'a option \<Rightarrow> 'a option \<Rightarrow> 'a option" where
  "opt_or a b = (case a of None \<Rightarrow> b | Some x \<Rightarrow> Some x)"

definition bytes_or_default :: "bytes option \<Rightarrow> bytes" where
  "bytes_or_default b = (case b of None \<Rightarrow> [] | Some x \<Rightarrow> x)"

definition response_type_url :: "cosmos_msg \<Rightarrow> string" where
  "response_type_url msg = (case msg of
      MBank (BankSend _ _) \<Rightarrow> ''/cosmos.bank.v1beta1.MsgSendResponse''
    | MBank (BankBurn _) \<Rightarrow> ''/cosmos.bank.v1beta1.MsgBurnResponse''
    | MStaking (Delegate _ _) \<Rightarrow> ''/cosmos.staking.v1beta1.MsgDelegateResponse''
    | MStaking (Undelegate _ _) \<Rightarrow> ''/cosmos.staking.v1beta1.MsgUndelegateResponse''
    | MStaking (Redelegate _ _ _) \<Rightarrow> ''/cosmos.staking.v1beta1.MsgBeginRedelegateResponse''
    | MDistribution (FundCommunityPool _) \<Rightarrow> ''/cosmos.distribution.v1beta1.MsgFundCommunityPoolResponse''
    | MDistribution (SetWithdrawAddress _) \<Rightarrow> ''/cosmos.distribution.v1beta1.MsgSetWithdrawAddressResponse''
    | MDistribution (WithdrawDelegatorReward _) \<Rightarrow>
        ''/cosmos.distribution.v1beta1.MsgWithdrawDelegatorRewardResponse''
    | MWasm (WasmInstantiate _ _ _ _ _) \<Rightarrow> ''/cosmwasm.wasm.v1.MsgInstantiateContractResponse''
    | MWasm (WasmInstantiate2 _ _ _ _ _ _) \<Rightarrow> ''/cosmwasm.wasm.v1.MsgInstantiateContract2Response''
    | MWasm (WasmExecute _ _ _) \<Rightarrow> ''/cosmwasm.wasm.v1.MsgExecuteContractResponse''
    | MWasm (WasmMigrate _ _ _) \<Rightarrow> ''/cosmwasm.wasm.v1.MsgMigrateContractResponse''
    | MWasm (WasmUpdateAdmin _ _) \<Rightarrow> ''/cosmwasm.wasm.v1.MsgUpdateAdminResponse''
    | MWasm (WasmClearAdmin _) \<Rightarrow> ''/cosmwasm.wasm.v1.MsgClearAdminResponse''
    | MGov (GovVote _) \<Rightarrow> ''/cosmos.gov.v1beta1.MsgVoteResponse''
    | MGov (GovVoteWeighted _) \<Rightarrow> ''/cosmos.gov.v1beta1.MsgVoteWeightedResponse''
    | _ \<Rightarrow> ''/unknown'')"

text \<open>
  A sub-message runs in its own transaction; \<open>reply\<close> is the reply handler below, which calls
  back into this function through \<open>process_response\<close>.
\<close>

definition execute_submsg ::
    "ext \<Rightarrow> cosmos_router \<Rightarrow> (addr \<Rightarrow> reply \<Rightarrow> app_response chain_proc) \<Rightarrow> block_info \<Rightarrow> addr \<Rightarrow> sub_msg
       \<Rightarrow> app_response chain_proc" where
  "execute_submsg ext router reply block contract msg =
     bindM (attempt (atomically (r_execute router block contract (sm_msg msg)))) (\<lambda>result.
     case result of
       Inr r \<Rightarrow>
         if sm_reply_on msg = ReplyAlways \<or> sm_reply_on msg = ReplySuccess
         then bindM (reply contract \<lparr>rp_id = sm_id msg, rp_payload = sm_payload msg, rp_gas_used = 0,
                rp_result = Inr \<lparr>sr_events = ar_events r, sr_data = ar_data r,
                  sr_type_url = response_type_url (sm_msg msg), sr_value = bytes_or_default (ar_data r)\<rparr>\<rparr>)
              (\<lambda>reply_res. ret \<lparr>ar_events = ar_events r @ ar_events reply_res, ar_data = ar_data reply_res\<rparr>)
         else ret (r\<lparr>ar_data := None\<rparr>)
     | Inl e \<Rightarrow>
         if sm_reply_on msg = ReplyAlways \<or> sm_reply_on msg = ReplyError
         then reply contract \<lparr>rp_id = sm_id msg, rp_payload = sm_payload msg, rp_gas_used = 0,
                rp_result = Inl (x_debug_error ext e)\<rparr>
         else fail e)"

definition process_response ::
    "ext \<Rightarrow> cosmos_router \<Rightarrow> (addr \<Rightarrow> reply \<Rightarrow> app_response chain_proc) \<Rightarrow> block_info \<Rightarrow> addr
       \<Rightarrow> app_response \<Rightarrow> sub_msg list \<Rightarrow> app_response chain_proc" where
  "process_response ext router reply block contract r sub_messages =
     bindM (try_fold (\<lambda>acc sub_message.
         bindM (execute_submsg ext router reply block contract sub_message) (\<lambda>sub_response.
           ret (fst acc @ ar_events sub_response, opt_or (ar_data sub_response) (snd acc))))
       (ar_events r, ar_data r) sub_messages)
     (\<lambda>acc. ret \<lparr>ar_events = fst acc, ar_data = snd acc\<rparr>)"

text \<open>\<open>reply\<close>, with fuel for the recursion reply, process_response, execute_submsg, reply.\<close>

fun reply_at ::
    "ext \<Rightarrow> cosmos_router \<Rightarrow> wasm_keeper \<Rightarrow> block_info \<Rightarrow> nat \<Rightarrow> addr \<Rightarrow> reply \<Rightarrow> app_response chain_proc" where
  "reply_at ext router wk block 0 contract rp = no_fuel"
| "reply_at ext router wk block (Suc n) contract rp =
     (let ok_attr = (case rp_result rp of Inr _ \<Rightarrow> ''handle_success'' | Inl _ \<Rightarrow> ''handle_failure'');
          custom_event = new_event ''reply'' [(CONTRACT_ATTR, addr_str contract), (''mode'', ok_attr)]
      in bindM (call_reply router wk block contract rp) (\<lambda>res.
           let (r, msgs) = build_app_response contract custom_event res
           in process_response ext router (reply_at ext router wk block n) block contract r msgs))"

text \<open>\<open>process_response\<close> with the keeper's own \<open>reply\<close>.\<close>

definition process_at ::
    "ext \<Rightarrow> cosmos_router \<Rightarrow> wasm_keeper \<Rightarrow> nat \<Rightarrow> block_info \<Rightarrow> addr \<Rightarrow> app_response \<times> sub_msg list
       \<Rightarrow> app_response chain_proc" where
  "process_at ext router wk n block contract rm =
     process_response ext router (reply_at ext router wk block n) block contract (fst rm) (snd rm)"

definition process_ibc_response ::
    "ext \<Rightarrow> cosmos_router \<Rightarrow> wasm_keeper \<Rightarrow> nat \<Rightarrow> block_info \<Rightarrow> addr \<Rightarrow> ibc_basic_response
       \<Rightarrow> ibc_response chain_proc" where
  "process_ibc_response ext router wk n block contract res =
     bindM (process_at ext router wk n block contract
       (build_app_response contract (new_event ''ibc'' [])
         \<lparr>rs_messages = ib_messages res, rs_attributes = ib_attributes res, rs_events = ib_events res,
          rs_data = None\<rparr>))
     (\<lambda>r. ret (RespBasic (ar_events r)))"

definition process_ibc_receive_response ::
    "ext \<Rightarrow> cosmos_router \<Rightarrow> wasm_keeper \<Rightarrow> nat \<Rightarrow> block_info \<Rightarrow> addr \<Rightarrow> ibc_receive_response
       \<Rightarrow> ibc_response chain_proc" where
  "process_ibc_receive_response ext router wk n block contract res =
     bindM (process_at ext router wk n block contract
       (build_app_response contract (new_event ''ibc'' [])
         \<lparr>rs_messages = ir_messages res, rs_attributes = ir_attributes res, rs_events = ir_events res,
          rs_data = None\<rparr>))
     (\<lambda>r. ret (RespReceive (ar_events r) (opt_or (ar_data r) (ir_ack res))))"

section \<open>Messages\<close>

definition wasm_send ::
    "cosmos_router \<Rightarrow> block_info \<Rightarrow> addr \<Rightarrow> string \<Rightarrow> coin list \<Rightarrow> app_response chain_proc" where
  "wasm_send router block sender recipient amt =
     (if amt \<noteq> [] then r_execute router block sender (MBank (BankSend recipient amt))
      else ret default_response)"

definition update_admin :: "ext \<Rightarrow> addr \<Rightarrow> string \<Rightarrow> string option \<Rightarrow> app_response chain_proc" where
  "update_admin ext sender contract_addr new_admin =
     bindM (lift_result (x_addr_validate ext contract_addr)) (\<lambda>address.
     bindM (case new_admin of None \<Rightarrow> ret None
              | Some a \<Rightarrow> mapM_ok Some (lift_result (x_addr_validate ext a))) (\<lambda>admin.
     bindM (contract_data address) (\<lambda>c.
       if cd_admin c \<noteq> Some sender then fail (OnlyAdminUpdates (cd_admin c))
       else thenM (save_contract address (c\<lparr>cd_admin := admin\<rparr>)) (ret default_response))))"

definition instantiate_response :: "ext \<Rightarrow> binary option \<Rightarrow> addr \<Rightarrow> binary" where
  "instantiate_response ext data address =
     x_encode_instantiate ext (addr_str address) (bytes_or_default data)"

definition encode_response_data :: "ext \<Rightarrow> binary option \<Rightarrow> binary option" where
  "encode_response_data ext data = map_option (x_encode_execute ext) data"

text \<open>The address of a new instance: predictable when a salt is given.\<close>

definition new_address ::
    "ext \<Rightarrow> wasm_keeper \<Rightarrow> u64 \<Rightarrow> u64 \<Rightarrow> addr \<Rightarrow> binary option \<Rightarrow> ('s, std_error, addr) proc" where
  "new_address ext wk code_id instance_id creator salt = (case salt of
      Some sa \<Rightarrow>
        bindM (lift_result (code_data wk code_id)) (\<lambda>d.
        bindM (lift_result (x_addr_canonicalize ext (addr_str creator))) (\<lambda>canonical_addr.
          lift_result (wk_predictable wk code_id instance_id (ce_checksum d) canonical_addr sa)))
    | None \<Rightarrow> lift_result (wk_address wk code_id instance_id))"

text \<open>Both checks of the code id are against the number of registered codes.\<close>

definition register_contract ::
    "ext \<Rightarrow> wasm_keeper \<Rightarrow> u64 \<Rightarrow> addr \<Rightarrow> addr option \<Rightarrow> string \<Rightarrow> u64 \<Rightarrow> binary option \<Rightarrow> addr chain_proc" where
  "register_contract ext wk code_id creator admin label created salt =
     (if length (wk_code_data wk) < unat code_id
      then fail (StdMsg ''Cannot init contract with unregistered code id'')
      else bindM (reads (\<lambda>s. word_of_nat (instance_count s))) (\<lambda>instance_id.
        bindM (new_address ext wk code_id instance_id creator salt) (\<lambda>address.
        bindM (attempt (contract_data address)) (\<lambda>existing.
          case existing of
            Inr _ \<Rightarrow> fail (StdMsg (duplicated_contract_address address))
          | Inl _ \<Rightarrow>
              thenM (save_contract address \<lparr>cd_code_id = code_id, cd_creator = creator, cd_admin = admin,
                cd_label = label, cd_created = created\<rparr>)
              (ret address)))))"

definition process_wasm_msg_instantiate ::
    "ext \<Rightarrow> cosmos_router \<Rightarrow> wasm_keeper \<Rightarrow> nat \<Rightarrow> block_info \<Rightarrow> addr \<Rightarrow> string option \<Rightarrow> u64 \<Rightarrow> binary
       \<Rightarrow> coin list \<Rightarrow> string \<Rightarrow> binary option \<Rightarrow> app_response chain_proc" where
  "process_wasm_msg_instantiate ext router wk n block sender admin code_id msg funds label salt =
     (if label = [] then fail (StdMsg ''Label is required on all contracts'')
      else bindM (register_contract ext wk code_id sender (map_option Addr admin) label (bl_height block) salt)
        (\<lambda>contract_addr.
        thenM (wasm_send router block sender (addr_str contract_addr) funds)
        (bindM (call_instantiate router wk block contract_addr \<lparr>mi_sender = sender, mi_funds = funds\<rparr> msg)
          (\<lambda>res. bindM (process_at ext router wk n block contract_addr
              (build_app_response contract_addr
                (new_event ''instantiate'' [(CONTRACT_ATTR, addr_str contract_addr), (''code_id'', show_word code_id)])
                res))
            (\<lambda>r. ret (r\<lparr>ar_data := Some (instantiate_response ext (ar_data r) contract_addr)\<rparr>))))))"

definition execute_wasm ::
    "ext \<Rightarrow> cosmos_router \<Rightarrow> wasm_keeper \<Rightarrow> nat \<Rightarrow> block_info \<Rightarrow> addr \<Rightarrow> wasm_msg \<Rightarrow> app_response chain_proc" where
  "execute_wasm ext router wk n block sender msg = (case msg of
      WasmExecute contract_addr m funds \<Rightarrow>
        bindM (lift_result (x_addr_validate ext contract_addr)) (\<lambda>address.
        thenM (wasm_send router block sender (addr_str address) funds)
        (bindM (call_execute router wk block address \<lparr>mi_sender = sender, mi_funds = funds\<rparr> m) (\<lambda>res.
         bindM (process_at ext router wk n block address
            (build_app_response address (new_event ''execute'' [(CONTRACT_ATTR, addr_str address)]) res))
          (\<lambda>r. ret (r\<lparr>ar_data := encode_response_data ext (ar_data r)\<rparr>)))))
    | WasmInstantiate admin code_id m funds label \<Rightarrow>
        process_wasm_msg_instantiate ext router wk n block sender admin code_id m funds label None
    | WasmInstantiate2 admin code_id m funds label salt \<Rightarrow>
        process_wasm_msg_instantiate ext router wk n block sender admin code_id m funds label (Some salt)
    | WasmMigrate contract_addr new_code_id m \<Rightarrow>
        bindM (lift_result (x_addr_validate ext contract_addr)) (\<lambda>address.
          if length (wk_code_data wk) < unat new_code_id
          then fail (StdMsg ''Cannot migrate contract to unregistered code id'')
          else bindM (contract_data address) (\<lambda>c.
            if cd_admin c \<noteq> Some sender then fail (OnlyAdminMigrates (cd_admin c))
            else thenM (save_contract address (c\<lparr>cd_code_id := new_code_id\<rparr>))
              (bindM (call_migrate router wk block address m
                  \<lparr>mg_sender = sender, mg_old_version = Some (cd_code_id c)\<rparr>) (\<lambda>res.
               bindM (process_at ext router wk n block address
                  (build_app_response address (new_event ''migrate''
                     [(CONTRACT_ATTR, addr_str address), (''code_id'', show_word new_code_id)]) res))
                (\<lambda>r. ret (r\<lparr>ar_data := encode_response_data ext (ar_data r)\<rparr>))))))
    | WasmUpdateAdmin contract_addr admin \<Rightarrow> update_admin ext sender contract_addr (Some admin)
    | WasmClearAdmin contract_addr \<Rightarrow> update_admin ext sender contract_addr None
    | WasmMsgOther \<Rightarrow> panic ''Unsupported wasm message'')"

definition wasm_execute ::
    "ext \<Rightarrow> cosmos_router \<Rightarrow> wasm_keeper \<Rightarrow> nat \<Rightarrow> block_info \<Rightarrow> addr \<Rightarrow> wasm_msg \<Rightarrow> app_response chain_proc" where
  "wasm_execute ext router wk n block sender msg =
     map_errM (WasmMsgFailed sender msg) (execute_wasm ext router wk n block sender msg)"

definition wasm_query ::
    "ext \<Rightarrow> (query_request \<Rightarrow> (std_error, binary) outcome) \<Rightarrow> wasm_keeper \<Rightarrow> block_info \<Rightarrow> wasm_query
       \<Rightarrow> binary chain_proc" where
  "wasm_query ext q wk block request = (case request of
      QSmart contract_addr msg \<Rightarrow>
        bindM (lift_result (x_addr_validate ext contract_addr)) (\<lambda>address. query_smart q wk block address msg)
    | QRaw contract_addr key \<Rightarrow>
        bindM (lift_result (x_addr_validate ext contract_addr)) (\<lambda>address. reads (query_raw address key))
    | QContractInfo contract_addr \<Rightarrow>
        bindM (lift_result (x_addr_validate ext contract_addr)) (\<lambda>address.
        bindM (contract_data address) (\<lambda>c.
          lift_result (x_to_json ext (JContractInfo (cd_code_id c) (cd_creator c) (cd_admin c)))))
    | QCodeInfo code_id \<Rightarrow>
        bindM (lift_result (code_data wk code_id)) (\<lambda>d.
          lift_result (x_to_json ext (JCodeInfo code_id (ce_creator d) (ce_checksum d))))
    | WasmQueryOther \<Rightarrow> panic ''Unsupported wasm query'')"

definition wasm_sudo ::
    "ext \<Rightarrow> cosmos_router \<Rightarrow> wasm_keeper \<Rightarrow> nat \<Rightarrow> block_info \<Rightarrow> wasm_sudo \<Rightarrow> app_response chain_proc" where
  "wasm_sudo ext router wk n block msg =
     bindM (call_sudo router wk block (ws_contract msg) (ws_message msg)) (\<lambda>res.
       process_at ext router wk n block (ws_contract msg) (build_app_response (ws_contract msg)
         (new_event ''sudo'' [(CONTRACT_ATTR, addr_str (ws_contract msg))]) res))"

section \<open>IBC entry points\<close>

definition wasm_channel_open ::
    "cosmos_router \<Rightarrow> wasm_keeper \<Rightarrow> block_info \<Rightarrow> addr \<Rightarrow> channel_open_msg \<Rightarrow> ibc_response chain_proc" where
  "wasm_channel_open router wk block contract request =
     mapM_ok RespOpen (with_storage router wk block contract (\<lambda>c env. ct_channel_open c env request))"

text \<open>The entry points that return a basic response share their body.\<close>

definition ibc_basic_entry ::
    "ext \<Rightarrow> cosmos_router \<Rightarrow> wasm_keeper \<Rightarrow> nat \<Rightarrow> block_info \<Rightarrow> addr
       \<Rightarrow> (contract \<Rightarrow> env \<Rightarrow> ibc_basic_response cprog) \<Rightarrow> ibc_response chain_proc" where
  "ibc_basic_entry ext router wk n block contract action =
     bindM (bindM (with_storage router wk block contract action) verify_ibc_response)
       (process_ibc_response ext router wk n block contract)"

definition wasm_channel_connect ::
    "ext \<Rightarrow> cosmos_router \<Rightarrow> wasm_keeper \<Rightarrow> nat \<Rightarrow> block_info \<Rightarrow> addr \<Rightarrow> channel_connect_msg \<Rightarrow> ibc_response chain_proc" where
  "wasm_channel_connect ext router wk n block contract request =
     ibc_basic_entry ext router wk n block contract (\<lambda>c env. ct_channel_connect c env request)"

definition wasm_channel_close ::
    "ext \<Rightarrow> cosmos_router \<Rightarrow> wasm_keeper \<Rightarrow> nat \<Rightarrow> block_info \<Rightarrow> addr \<Rightarrow> channel_close_msg \<Rightarrow> ibc_response chain_proc" where
  "wasm_channel_close ext router wk n block contract request =
     ibc_basic_entry ext router wk n block contract (\<lambda>c env. ct_channel_close c env request)"

definition wasm_packet_receive ::
    "ext \<Rightarrow> cosmos_router \<Rightarrow> wasm_keeper \<Rightarrow> nat \<Rightarrow> block_info \<Rightarrow> addr \<Rightarrow> packet_receive_msg \<Rightarrow> ibc_response chain_proc" where
  "wasm_packet_receive ext router wk n block contract request =
     bindM (bindM (with_storage router wk block contract (\<lambda>c env. ct_packet_receive c env request))
       verify_packet_response)
       (process_ibc_receive_response ext router wk n block contract)"

definition wasm_packet_ack ::
    "ext \<Rightarrow> cosmos_router \<Rightarrow> wasm_keeper \<Rightarrow> nat \<Rightarrow> block_info \<Rightarrow> addr \<Rightarrow> packet_ack_msg \<Rightarrow> ibc_response chain_proc" where
  "wasm_packet_ack ext router wk n block contract request =
     ibc_basic_entry ext router wk n block contract (\<lambda>c env. ct_packet_ack c env request)"

definition wasm_packet_timeout ::
    "ext \<Rightarrow> cosmos_router \<Rightarrow> wasm_keeper \<Rightarrow> nat \<Rightarrow> block_info \<Rightarrow> addr \<Rightarrow> packet_timeout_msg \<Rightarrow> ibc_response chain_proc" where
  "wasm_packet_timeout ext router wk n block contract request =
     ibc_basic_entry ext router wk n block contract (\<lambda>c env. ct_packet_timeout c env request)"

definition wasm_source_callback ::
    "ext \<Rightarrow> cosmos_router \<Rightarrow> wasm_keeper \<Rightarrow> nat \<Rightarrow> block_info \<Rightarrow> addr \<Rightarrow> source_callback_msg \<Rightarrow> ibc_response chain_proc" where
  "wasm_source_callback ext router wk n block contract request =
     ibc_basic_entry ext router wk n block contract (\<lambda>c env. ct_source_callback c env request)"

section \<open>Lemmas on the registry\<close>

definition keeper_wf :: "wasm_keeper \<Rightarrow> bool" where
  "keeper_wf wk \<longleftrightarrow> om_wf (wk_code_data wk) \<and> om_get (wk_code_data wk) 0 = None
     \<and> (\<forall>k d. om_get (wk_code_data wk) k = Some d \<longrightarrow> ce_source_id d < length (wk_code_base wk))"

lemma keeper_wf_default [simp]: "keeper_wf (default_wasm_keeper ext)"
  by (simp add: keeper_wf_def default_wasm_keeper_def)

lemma code_data_Inr [simp]: "keeper_wf wk \<Longrightarrow> code_data wk k = Inr d \<longleftrightarrow> om_get (wk_code_data wk) k = Some d"
  by (auto simp: code_data_def keeper_wf_def word_less_1 split: option.splits)

lemma last_key_greatest:
  assumes "om_wf m" "om_get m k = Some v"
  shows "\<exists>l. om_last_key m = Some l \<and> k \<le> l"
proof -
  have "(k, v) \<in> set m" using assms by (simp add: om_get_Some_iff)
  then obtain i where i: "i < length m" "m ! i = (k, v)" by (meson in_set_conv_nth)
  then have m: "m \<noteq> []" by auto
  have "k \<le> fst (last m)"
  proof (cases "i = length m - 1")
    case True
    then show ?thesis using i m by (simp add: last_conv_nth)
  next
    case False
    with i have "map fst m ! i < map fst m ! (length m - 1)"
      using assms(1) by (intro sorted_wrt_nth_less [of "(<)"]) (auto simp: om_wf_def)
    with i m show ?thesis by (simp add: last_conv_nth)
  qed
  with m show ?thesis by (simp add: om_last_key_def)
qed

lemma next_code_id_above:
  assumes "keeper_wf wk" "next_code_id wk = Some n" "om_get (wk_code_data wk) k = Some d"
  shows "k < n"
proof -
  obtain l where l: "om_last_key (wk_code_data wk) = Some l" "k \<le> l"
    using last_key_greatest [OF _ assms(3)] assms(1) by (auto simp: keeper_wf_def)
  with assms(2) have "checked_add l 1 = Some n" by (simp add: next_code_id_def)
  then have "unat n = unat l + 1" using checked_add_Some by fastforce
  with l(2) show ?thesis by (simp add: word_less_nat_alt word_le_nat_alt)
qed

lemma next_code_id_nonzero: "next_code_id wk = Some n \<Longrightarrow> n \<noteq> 0"
  by (auto simp: next_code_id_def dest!: checked_add_Some split: option.splits)

lemma next_code_id_fresh: "keeper_wf wk \<Longrightarrow> next_code_id wk = Some n \<Longrightarrow> om_get (wk_code_data wk) n = None"
  using next_code_id_above by (metis less_irrefl not_None_eq)

lemma save_code_wf: "keeper_wf wk \<Longrightarrow> k \<noteq> 0 \<Longrightarrow> keeper_wf (save_code k creator code wk)"
  by (auto simp: keeper_wf_def save_code_def Let_def less_Suc_eq split: if_splits)

lemma contract_code_eq: "keeper_wf wk \<Longrightarrow> om_get (wk_code_data wk) k = Some d \<Longrightarrow>
    contract_code wk k s = (Ok (wk_code_base wk ! ce_source_id d), s)"
  by (auto simp: contract_code_def run_eqs code_data_def keeper_wf_def word_less_1)

lemma contract_code_Err: "keeper_wf wk \<Longrightarrow> om_get (wk_code_data wk) k = None \<Longrightarrow>
    \<exists>e. contract_code wk k s = (Err (StdMsg e), s)"
  by (auto simp: contract_code_def run_eqs code_data_def)

lemma contract_code_Ok: "contract_code wk k s = (Ok c, s') \<Longrightarrow> s' = s \<and> (\<exists>d. code_data wk k = Inr d)"
  by (auto simp: contract_code_def bindM_Ok_iff)

text \<open>Saving a code keeps what is registered and adds the new code.\<close>

lemma save_code_lookup:
  assumes "keeper_wf wk" "om_get (wk_code_data wk) k = None" "k \<noteq> 0"
  shows "contract_code (save_code k creator code wk) k s = (Ok code, s)"
    and "om_get (wk_code_data wk) j = Some d \<Longrightarrow>
           contract_code (save_code k creator code wk) j s = contract_code wk j s"
    and "j \<noteq> k \<Longrightarrow> code_data (save_code k creator code wk) j = code_data wk j"
proof -
  let ?w = "save_code k creator code wk"
  have wf: "keeper_wf ?w" using assms by (simp add: save_code_wf)
  show "contract_code ?w k s = (Ok code, s)"
    using contract_code_eq [OF wf, of k "the (om_get (wk_code_data ?w) k)" s]
    by (simp add: save_code_def Let_def)
  show "j \<noteq> k \<Longrightarrow> code_data ?w j = code_data wk j"
    by (simp add: code_data_def save_code_def Let_def)
  assume j: "om_get (wk_code_data wk) j = Some d"
  then have "j \<noteq> k" "ce_source_id d < length (wk_code_base wk)"
    using assms by (auto simp: keeper_wf_def)
  with j contract_code_eq [OF wf, of j d s] contract_code_eq [OF assms(1) j, of s]
  show "contract_code ?w j s = contract_code wk j s"
    by (simp add: save_code_def Let_def nth_append)
qed

section \<open>Lemmas on entry points\<close>

lemma contract_storage_put [simp]:
  "contract_storage (put_contract_storage a m s) b = (if b = a then m else contract_storage s b)"
  by (simp add: contract_storage_def put_contract_storage_def)

lemma put_contract_storage_frame [simp]:
  "w_contracts (ch_wasm (put_contract_storage a m s)) = w_contracts (ch_wasm s)"
  "ch_bank (put_contract_storage a m s) = ch_bank s"
  "ch_staking (put_contract_storage a m s) = ch_staking s"
  "ch_distribution (put_contract_storage a m s) = ch_distribution s"
  "ch_ibc (put_contract_storage a m s) = ch_ibc s"
  "ch_metadata (put_contract_storage a m s) = ch_metadata s"
  "ch_ibc_denoms (put_contract_storage a m s) = ch_ibc_denoms s"
  by (simp_all add: put_contract_storage_def)

lemma contract_data_eq: "contract_data a s = (case om_get (w_contracts (ch_wasm s)) a of
    None \<Rightarrow> (Err (NotFound ''ContractData''), s) | Some c \<Rightarrow> (Ok c, s))"
  by (simp add: contract_data_def in_wasm_def zoom_def load_apply split: option.split)

lemma contract_data_Ok_iff [simp]:
  "contract_data a s = (Ok c, s') \<longleftrightarrow> om_get (w_contracts (ch_wasm s)) a = Some c \<and> s' = s"
  by (auto simp: contract_data_eq split: option.splits)

lemma bindM_contract_data [run_eqs]: "bindM (contract_data a) f s =
    (case om_get (w_contracts (ch_wasm s)) a of
       None \<Rightarrow> (Err (NotFound ''ContractData''), s) | Some c \<Rightarrow> f c s)"
  by (simp add: bindM_def contract_data_eq split: option.split)

lemma save_contract_eq [simp]: "save_contract a c s =
    (Ok (), s\<lparr>ch_wasm := (ch_wasm s)\<lparr>w_contracts := om_insert a c (w_contracts (ch_wasm s))\<rparr>\<rparr>)"
  by (simp add: save_contract_def in_wasm_def zoom_def)

lemma thenM_save_contract [run_eqs]: "thenM (save_contract a c) k s =
    k (s\<lparr>ch_wasm := (ch_wasm s)\<lparr>w_contracts := om_insert a c (w_contracts (ch_wasm s))\<rparr>\<rparr>)"
  by (simp add: thenM_def bindM_def)

lemma bindM_attempt_data: "bindM (attempt (contract_data a)) f s =
    f (case om_get (w_contracts (ch_wasm s)) a of None \<Rightarrow> Inl (NotFound ''ContractData'') | Some c \<Rightarrow> Inr c) s"
  by (simp add: bindM_def attempt_def contract_data_eq split: option.split)

text \<open>An entry point writes at most its own contract's storage, and nothing when it fails.\<close>

lemma with_storage_run:
  assumes "om_get (w_contracts (ch_wasm s)) a = Some c" "contract_code wk (cd_code_id c) s = (Ok h, s)"
  shows "with_storage router wk block a action s = atomically (contract_storage_mut a
    (run_cprog (\<lambda>req. r_query router block req s) (action h (get_env a block)))) s"
  using assms
  by (simp add: with_storage_def bindM_contract_data atomically_def
      bindM_eq [where m = "contract_code wk (cd_code_id c)", OF assms(2)])

lemma call_execute_run:
  assumes "om_get (w_contracts (ch_wasm s)) a = Some c" "contract_code wk (cd_code_id c) s = (Ok code, s)"
    and "run_cprog (\<lambda>req. r_query router block req s) (ct_execute code (get_env a block) info msg) (contract_storage s a)
      = (Ok r, m)"
    and "\<And>t :: chain. verify_response r t = (Ok r, t)"
  shows "call_execute router wk block a info msg s = (Ok r, put_contract_storage a m s)"
  using assms(3,4) by (simp add: call_execute_def with_storage_run [OF assms(1,2)] bindM_def atomically_def
      contract_storage_mut_def zoom_def)

lemma with_storage_runs:
  assumes "om_get (w_contracts (ch_wasm s)) a = Some c" "contract_code wk (cd_code_id c) s = (Ok code, s)"
    and "run_cprog (\<lambda>req. r_query router block req s) (action code (get_env a block)) (contract_storage s a) = (out, m)"
  shows "with_storage router wk block a action s = (out, if is_ok out then put_contract_storage a m s else s)"
  using assms(3) by (cases out)
    (simp_all add: with_storage_run [OF assms(1,2)] atomically_def contract_storage_mut_def zoom_def)

lemma call_reply_runs:
  assumes "om_get (w_contracts (ch_wasm s)) a = Some c" "contract_code wk (cd_code_id c) s = (Ok code, s)"
    and "run_cprog (\<lambda>req. r_query router block req s) (ct_reply code (get_env a block) rp) (contract_storage s a) = (out, m)"
    and "\<And>resp (t :: chain). out = Ok resp \<Longrightarrow> verify_response resp t = (Ok resp, t)"
  shows "call_reply router wk block a rp s = (out, if is_ok out then put_contract_storage a m s else s)"
proof -
  have "with_storage router wk block a (\<lambda>contract env. ct_reply contract env rp) s
      = (out, if is_ok out then put_contract_storage a m s else s)"
    by (rule with_storage_runs [OF assms(1,2)]) (rule assms(3))
  with assms(4) show ?thesis by (cases out) (simp_all add: call_reply_def bindM_def)
qed

lemma with_storage_eq:
  "with_storage router wk block a action s = (r, s') \<Longrightarrow>
     (is_ok r \<longrightarrow> s' = put_contract_storage a (contract_storage s' a) s
        \<and> (\<exists>c d. om_get (w_contracts (ch_wasm s)) a = Some c \<and> code_data wk (cd_code_id c) = Inr d))
     \<and> (\<not> is_ok r \<longrightarrow> s' = s)"
proof -
  assume w: "with_storage router wk block a action s = (r, s')"
  show ?thesis
  proof (cases "om_get (w_contracts (ch_wasm s)) a")
    case None
    with w show ?thesis by (auto simp: with_storage_def run_eqs)
  next
    case (Some c)
    show ?thesis
    proof (cases "contract_code wk (cd_code_id c) s")
      case (Pair q t)
      have t: "t = s" using Pair by (auto simp: contract_code_def proc_defs lift_result_def
          split: sum.splits if_splits prod.splits option.splits)
      show ?thesis
      proof (cases q)
        case (Ok h)
        let ?m = "\<lambda>s. contract_storage_mut a
          (run_cprog (\<lambda>req. r_query router block req s) (action h (get_env a block))) s"
        have run: "atomically ?m s = (r, s')"
          using w Some Pair Ok t by (simp add: with_storage_def bindM_contract_data bindM_eq [where m = "contract_code wk (cd_code_id c)", OF Pair])
        have d: "\<exists>d. code_data wk (cd_code_id c) = Inr d"
          using contract_code_Ok [OF Pair [unfolded Ok]] by blast
        show ?thesis
        proof (cases "is_ok r")
          case True
          then obtain x where x: "r = Ok x" by (auto simp: is_ok_iff)
          with run obtain m where "s' = put_contract_storage a m s"
            by (auto simp: contract_storage_mut_def zoom_Ok_iff)
          with True d Some show ?thesis by auto
        next
          case False
          with atomically_not_ok [OF run] show ?thesis by simp
        qed
      qed (use w Some t in \<open>auto simp: with_storage_def bindM_contract_data
            bindM_eq [where m = "contract_code wk (cd_code_id c)", OF Pair]\<close>)
    qed
  qed
qed

lemma all_runs_verify [runs_intro]:
  assumes "reflp R" "transp R"
  shows "all_runs R (verify_attributes xs)" "all_runs R (verify_events evs)"
    "all_runs R (verify_response r)" "all_runs R (verify_ibc_response ib)"
    "all_runs R (verify_packet_response ir)"
proof -
  have a: "all_runs R (verify_attributes ys)" for ys
    unfolding verify_attributes_def by (auto simp: Let_def intro!: runs_intro assms)
  then have e: "all_runs R (verify_events es)" for es
    unfolding verify_events_def by (auto simp: Let_def intro!: runs_intro assms)
  show "all_runs R (verify_attributes xs)" "all_runs R (verify_events evs)"
    by (rule a, rule e)
  show "all_runs R (verify_response r)" "all_runs R (verify_ibc_response ib)"
    "all_runs R (verify_packet_response ir)"
    unfolding verify_response_def verify_ibc_response_def verify_packet_response_def
    by (auto intro!: runs_intro assms a e)
qed

lemma verify_pure: "all_runs (=) (verify_attributes xs)" "all_runs (=) (verify_events evs)"
    "all_runs (=) (verify_response r)" "all_runs (=) (verify_ibc_response ib)"
    "all_runs (=) (verify_packet_response ir)"
  by (rule all_runs_verify; simp)+

lemmas verify_state = verify_pure [THEN all_runs_eqD]

lemma verify_attributes_Ok: "verify_attributes xs s = (Ok u, s') \<Longrightarrow>
    \<forall>at \<in> set xs. trim (a_key at) \<noteq> [] \<and> hd (trim (a_key at)) \<noteq> CHR ''_''"
  by (induction xs) (auto simp: verify_attributes_def thenM_Ok_iff Let_def split: if_splits)

lemma verify_events_Ok: "verify_events evs s = (Ok u, s') \<Longrightarrow> \<forall>ev \<in> set evs.
    2 \<le> length (trim (ev_ty ev)) \<and>
    (\<forall>at \<in> set (ev_attributes ev). trim (a_key at) \<noteq> [] \<and> hd (trim (a_key at)) \<noteq> CHR ''_'')"
proof (induction evs)
  case (Cons e evs)
  then obtain s1 where 1: "verify_attributes (ev_attributes e) s = (Ok (), s1)"
      and 2: "2 \<le> length (trim (ev_ty e))" "verify_events evs s1 = (Ok u, s')"
    by (auto simp: verify_events_def thenM_Ok_iff Let_def)
  from verify_state(1) [OF 1] 2 Cons.IH verify_attributes_Ok [OF 1] show ?case by simp
qed simp

lemma verify_response_Ok:
  assumes "verify_response r s = (Ok r', s')"
  shows "r' = r" "s' = s" "\<exists>u. verify_attributes (rs_attributes r) s = (Ok u, s)"
    "\<exists>u. verify_events (rs_events r) s = (Ok u, s)"
proof -
  obtain u s1 where 1: "verify_attributes (rs_attributes r) s = (Ok u, s1)"
      and 2: "thenM (verify_events (rs_events r)) (ret r) s1 = (Ok r', s')"
    using assms by (auto simp: verify_response_def thenM_Ok_iff)
  from 2 obtain u' where 3: "verify_events (rs_events r) s1 = (Ok u', s')" "r' = r"
    by (auto simp: thenM_Ok_iff)
  from 1 3 verify_state(1) [OF 1] verify_state(2) [OF 3(1)]
  show "r' = r" "s' = s" "\<exists>u. verify_attributes (rs_attributes r) s = (Ok u, s)"
    "\<exists>u. verify_events (rs_events r) s = (Ok u, s)"
    by simp_all
qed

section \<open>Properties of the registry\<close>

text \<open>\<open>Response::new\<close>.\<close>

definition new_response :: response where
  "new_response = \<lparr>rs_messages = [], rs_attributes = [], rs_events = [], rs_data = None\<rparr>"

lemma verify_new_response: "verify_response new_response s = (Ok new_response, s)"
  by (simp add: verify_response_def verify_attributes_def verify_events_def new_response_def thenM_def)

text \<open>
  Storing code. \<open>store_code\<close> on a well-formed keeper hands out an identifier that is not zero and
  larger than every registered one; under it the keeper finds exactly the stored code, with the
  creator given and the code's own checksum or else the generated one; every earlier identifier
  keeps its data and its code, and the keeper stays well-formed. Only when the identifiers are
  exhausted does it panic.
\<close>
theorem store_code_fresh:
  assumes "keeper_wf wk" "store_code creator code wk = (r, wk')"
  shows "case r of
      Ok k \<Rightarrow> k \<noteq> 0 \<and> (\<forall>j d. code_data wk j = Inr d \<longrightarrow> j < k)
        \<and> (\<forall>s. contract_code wk' k (s :: chain) = (Ok code, s))
        \<and> (\<exists>d. code_data wk' k = Inr d \<and> ce_creator d = creator
             \<and> ce_checksum d = (case ct_checksum code of Some c \<Rightarrow> c | None \<Rightarrow> wk_checksum wk creator k))
        \<and> (\<forall>j d. code_data wk j = Inr d \<longrightarrow> code_data wk' j = Inr d
             \<and> (\<forall>s. contract_code wk' j (s :: chain) = contract_code wk j s))
        \<and> keeper_wf wk'
    | Err e \<Rightarrow> False
    | Panic p \<Rightarrow> wk' = wk \<and> (\<exists>d. code_data wk (- 1) = Inr d)
    | NoFuel \<Rightarrow> False"
proof (cases "next_code_id wk")
  case None
  then have "r = Panic no_more_code_id_available" "wk' = wk"
    using assms(2) by (auto simp: store_code_def run_eqs)
  moreover have "\<exists>d. om_get (wk_code_data wk) (- 1) = Some d"
  proof -
    from None obtain k where k: "om_last_key (wk_code_data wk) = Some k" "checked_add k 1 = None"
      by (auto simp: next_code_id_def checked_add_def split: option.splits)
    have "unat k = 18446744073709551615"
    proof -
      have "unat k < 2 ^ 64" using unsigned_less [of k] by simp
      with k(2) show ?thesis by (simp add: checked_add_None)
    qed
    then have "k = - 1" by (simp add: word_unat_eq_iff unsigned_minus_1_eq_mask mask_eq_exp_minus_1)
    moreover have "k \<in> fst ` set (wk_code_data wk)"
      using k(1) by (auto simp: om_last_key_def split: if_splits)
    ultimately show ?thesis by (metis (no_types) map_of_eq_None_iff not_None_eq)
  qed
  ultimately show ?thesis using assms(1) by simp
next
  case (Some k)
  then have r: "r = Ok k" "wk' = save_code k creator code wk"
    using assms(2) by (auto simp: store_code_def run_eqs ret_def)
  have fresh: "om_get (wk_code_data wk) k = None" "k \<noteq> 0"
    using next_code_id_fresh [OF assms(1) Some] next_code_id_nonzero [OF Some] by simp_all
  have wf: "keeper_wf wk'" using save_code_wf [OF assms(1) fresh(2)] r by simp
  show ?thesis
    using save_code_lookup [OF assms(1) fresh] next_code_id_above [OF assms(1) Some] fresh wf assms(1)
    by (auto simp: r) (auto simp: save_code_def Let_def)
qed

definition idle_contract :: contract where
  "idle_contract =
     (let r = CDone (Inr \<lparr>rs_messages = [], rs_attributes = [], rs_events = [], rs_data = None\<rparr>);
          b = CDone (Inr \<lparr>ib_messages = [], ib_attributes = [], ib_events = []\<rparr>)
      in \<lparr>ct_execute = (\<lambda>env info m. r), ct_instantiate = (\<lambda>env info m. r), ct_query = (\<lambda>env m. CDone (Inr m)),
          ct_sudo = (\<lambda>env m. r), ct_reply = (\<lambda>env m. r), ct_migrate = (\<lambda>env m info. r), ct_checksum = None,
          ct_channel_open = (\<lambda>env m. CDone (Inr None)), ct_channel_connect = (\<lambda>env m. b),
          ct_channel_close = (\<lambda>env m. b),
          ct_packet_receive = (\<lambda>env m. CDone (Inr \<lparr>ir_messages = [], ir_attributes = [], ir_events = [], ir_ack = None\<rparr>)),
          ct_packet_ack = (\<lambda>env m. b), ct_packet_timeout = (\<lambda>env m. b), ct_source_callback = (\<lambda>env m. b)\<rparr>)"

lemma idle_contract_runs:
  "run_cprog q (ct_execute idle_contract env info m) st = (Ok new_response, st)"
  "run_cprog q (ct_instantiate idle_contract env info m) st = (Ok new_response, st)"
  "run_cprog q (ct_reply idle_contract env rp) st = (Ok new_response, st)"
  "run_cprog q (ct_migrate idle_contract env b mg) st = (Ok new_response, st)"
  by (simp_all add: idle_contract_def Let_def new_response_def ret_def lift_result_def)

definition demo_keeper :: wasm_keeper where
  "demo_keeper = save_code 1 (Addr ''creator'') idle_contract (default_wasm_keeper demo_ext)"

lemma demo_keeper_wf [simp]: "keeper_wf demo_keeper"
  by (simp add: demo_keeper_def save_code_wf)

lemma demo_keeper_data: "wk_code_data demo_keeper = [(1, \<lparr>ce_creator = Addr ''creator'',
    ce_checksum = simple_checksum demo_ext (Addr ''creator'') 1, ce_source_id = 0\<rparr>)]"
  by (simp add: demo_keeper_def save_code_def default_wasm_keeper_def om_empty_def idle_contract_def Let_def)

theorem store_code_fresh_witness:
  "\<exists>wk'. store_code (Addr ''creator'') idle_contract demo_keeper = (Ok 2, wk')
     \<and> (\<forall>s. contract_code wk' 2 (s :: chain) = (Ok idle_contract, s)) \<and> keeper_wf wk'"
proof -
  have "next_code_id demo_keeper = Some 2"
    by (simp add: next_code_id_def demo_keeper_data om_last_key_def checked_add_def)
  then obtain wk' where 1: "store_code (Addr ''creator'') idle_contract demo_keeper = (Ok 2, wk')"
    by (simp add: store_code_def run_eqs ret_def)
  from store_code_fresh [OF demo_keeper_wf 1] 1 show ?thesis by auto
qed

lemma code_entry_eta: "\<lparr>ce_creator = ce_creator d, ce_checksum = ce_checksum d, ce_source_id = ce_source_id d\<rparr> = d"
  by simp

text \<open>
  Duplicating code. \<open>duplicate_code\<close> succeeds exactly when the identifier is registered and the
  identifiers are not exhausted; the copy gets a new, larger identifier, runs the very same code and
  reports the same creator and checksum, and nothing else in the registry changes. On an error the
  registry is unchanged.
\<close>
theorem duplicate_code_shares:
  assumes "keeper_wf wk" "duplicate_code k wk = (r, wk')"
  shows "(is_ok r \<longleftrightarrow> (\<exists>d. code_data wk k = Inr d) \<and> next_code_id wk \<noteq> None)
     \<and> (case r of
          Ok n \<Rightarrow> code_data wk' n = code_data wk k \<and> (\<forall>j d. code_data wk j = Inr d \<longrightarrow> j < n)
            \<and> (\<forall>s. contract_code wk' n (s :: chain) = contract_code wk k s)
            \<and> (\<forall>j. j \<noteq> n \<longrightarrow> code_data wk' j = code_data wk j)
            \<and> wk_code_base wk' = wk_code_base wk \<and> keeper_wf wk'
        | _ \<Rightarrow> wk' = wk)"
proof (cases "om_get (wk_code_data wk) k")
  case None
  then have "code_data wk k \<noteq> Inr d" for d using assms(1) by simp
  then obtain e where "code_data wk k = Inl e" by (cases "code_data wk k") auto
  with assms(2) show ?thesis by (auto simp: duplicate_code_def run_eqs)
next
  case (Some d)
  then have d: "code_data wk k = Inr d" using assms(1) by simp
  show ?thesis
  proof (cases "next_code_id wk")
    case None
    with d assms(2) show ?thesis by (auto simp: duplicate_code_def run_eqs)
  next
    case (Some n)
    let ?w = "wk\<lparr>wk_code_data := om_insert n d (wk_code_data wk)\<rparr>"
    have r: "r = Ok n" "wk' = ?w"
      using d Some assms(2) by (auto simp: duplicate_code_def run_eqs ret_def code_entry_eta)
    have n: "n \<noteq> 0" "om_get (wk_code_data wk) n = None"
      using next_code_id_nonzero [OF Some] next_code_id_fresh [OF assms(1) Some] by simp_all
    have wf: "keeper_wf ?w" using assms(1) n d by (auto simp: keeper_wf_def)
    have dk: "om_get (wk_code_data wk) k = Some d" using d assms(1) by simp
    have 1: "contract_code ?w n s = contract_code wk k s" for s :: chain
      using contract_code_eq [OF wf, of n d s] contract_code_eq [OF assms(1) dk, of s] by simp
    have 2: "code_data ?w j = code_data wk j" if "j \<noteq> n" for j
      using that by (simp add: code_data_def)
    have 3: "code_data ?w n = Inr d" using wf by simp
    show ?thesis
      using r Some 1 2 wf next_code_id_above [OF assms(1) Some] assms(1) dk by (auto simp: 3 d)
  qed
qed

theorem duplicate_code_shares_witness:
  "\<exists>wk'. duplicate_code 1 demo_keeper = (Ok 2, wk') \<and> code_data wk' 2 = code_data demo_keeper 1"
proof -
  have n: "next_code_id demo_keeper = Some 2"
    by (simp add: next_code_id_def demo_keeper_data om_last_key_def checked_add_def)
  obtain d where d: "code_data demo_keeper 1 = Inr d" by (simp add: demo_keeper_data)
  obtain wk' where 1: "duplicate_code 1 demo_keeper = (Ok 2, wk')"
    using n d by (simp add: duplicate_code_def run_eqs ret_def)
  from duplicate_code_shares [OF demo_keeper_wf 1] 1 show ?thesis by auto
qed

text \<open>
  A registered code id can be refused. \<open>store_code_with_id\<close> accepts any free identifier, but
  \<open>Instantiate\<close> and \<open>Migrate\<close> compare the identifier with the \<^emph>\<open>number\<close> of registered codes: an
  identifier above that number is refused as unregistered although the keeper has its code and
  answers code-info queries for it.
\<close>
theorem registered_id_refused:
  assumes "keeper_wf wk" "store_code_with_id creator k code wk = (Ok k', wk')"
    and "length (wk_code_data wk') < unat k" "x_addr_validate ext contract = Inr a"
  shows "(\<exists>d. code_data wk' k = Inr d) \<and> contract_code wk' k (s :: chain) = (Ok code, s)
     \<and> register_contract ext wk' k sender admin label created salt s
         = (Err (StdMsg ''Cannot init contract with unregistered code id''), s)
     \<and> execute_wasm ext router wk' n block sender (WasmMigrate contract k m) s
         = (Err (StdMsg ''Cannot migrate contract to unregistered code id''), s)"
proof -
  have k: "om_get (wk_code_data wk) k = None" "k \<noteq> 0" "wk' = save_code k creator code wk"
    using assms(2) by (auto simp: store_code_with_id_def bindM_reads om_has_def run_eqs ret_def split: if_splits)
  have wf: "keeper_wf wk'" using save_code_wf [OF assms(1) k(2)] k(3) by simp
  have "\<exists>d. om_get (wk_code_data wk') k = Some d" by (simp add: k(3) save_code_def Let_def)
  moreover have "contract_code wk' k s = (Ok code, s)"
    using save_code_lookup(1) [OF assms(1) k(1,2)] k(3) by simp
  ultimately show ?thesis
    using wf assms(3,4) by (auto simp: register_contract_def execute_wasm_def fail_def)
qed

theorem registered_id_refused_witness:
  "\<exists>wk'. store_code_with_id (Addr ''creator'') 5 idle_contract demo_keeper = (Ok 5, wk')
     \<and> (\<exists>d. code_data wk' 5 = Inr d)
     \<and> (\<exists>e. register_contract demo_ext wk' 5 (Addr ''bob'') None ''label'' 1 None empty_chain = (Err e, empty_chain))"
proof -
  obtain wk' where 1: "store_code_with_id (Addr ''creator'') 5 idle_contract demo_keeper = (Ok 5, wk')"
      and "length (wk_code_data wk') < unat (5 :: u64)"
    by (simp add: store_code_with_id_def bindM_reads run_eqs ret_def om_has_def demo_keeper_data save_code_def Let_def)
  with registered_id_refused [OF demo_keeper_wf 1, of demo_ext "''c''" "Addr ''c''" empty_chain]
  show ?thesis by (auto simp: demo_ext_def)
qed

section \<open>Properties of instances and messages\<close>

lemma new_address_pure: "all_runs (=) (new_address ext wk code_id instance_id creator salt)"
  unfolding new_address_def by (auto intro!: runs_intro split: option.split)

lemma register_contract_cases:
  "case register_contract ext wk code_id creator admin label created salt s of
     (Ok a, s') \<Rightarrow> om_get (w_contracts (ch_wasm s)) a = None \<and> unat code_id \<le> length (wk_code_data wk)
       \<and> s' = s\<lparr>ch_wasm := (ch_wasm s)\<lparr>w_contracts := w_contracts (ch_wasm s')\<rparr>\<rparr>
       \<and> om_get (w_contracts (ch_wasm s')) = (om_get (w_contracts (ch_wasm s)))(a \<mapsto>
           \<lparr>cd_code_id = code_id, cd_creator = creator, cd_admin = admin, cd_label = label, cd_created = created\<rparr>)
       \<and> instance_count s' = instance_count s + 1
   | (_, s') \<Rightarrow> s' = s"
proof (cases "length (wk_code_data wk) < unat code_id")
  case False
  let ?gen = "new_address ext wk code_id (word_of_nat (instance_count s)) creator salt"
  obtain q s1 where g: "?gen s = (q, s1)" by fastforce
  then have s1: "s1 = s" by (rule all_runs_eqD [OF new_address_pure])
  note unf = register_contract_def bindM_reads bindM_eq [where m = ?gen, OF g]
  show ?thesis
  proof (cases q)
    case (Ok a)
    show ?thesis
    proof (cases "om_get (w_contracts (ch_wasm s)) a")
      case None
      with False Ok s1 show ?thesis
        by (simp add: unf bindM_attempt_data thenM_save_contract ret_def) (simp add: instance_count_def length_om_insert_fresh)
    next
      case (Some c)
      with False Ok s1 show ?thesis
        by (simp add: unf bindM_attempt_data fail_def)
    qed
  qed (use False s1 in \<open>simp_all add: unf\<close>)
qed (simp add: register_contract_def fail_def)

text \<open>
  Registering an instance. A successful \<open>register_contract\<close> uses an address no instance had,
  records exactly the code id, creator, admin, label and height it was given, adds one to the number
  of instances, and changes nothing else of the chain. The code id only has to be at most the
  number of codes. Any other outcome leaves the chain unchanged.
\<close>
theorem register_contract_new:
  "case register_contract ext wk code_id creator admin label created salt s of
     (Ok a, s') \<Rightarrow> om_get (w_contracts (ch_wasm s)) a = None \<and> unat code_id \<le> length (wk_code_data wk)
       \<and> s' = s\<lparr>ch_wasm := (ch_wasm s)\<lparr>w_contracts := w_contracts (ch_wasm s')\<rparr>\<rparr>
       \<and> om_get (w_contracts (ch_wasm s')) = (om_get (w_contracts (ch_wasm s)))(a \<mapsto>
           \<lparr>cd_code_id = code_id, cd_creator = creator, cd_admin = admin, cd_label = label, cd_created = created\<rparr>)
       \<and> instance_count s' = instance_count s + 1
   | (_, s') \<Rightarrow> s' = s"
  by (rule register_contract_cases)

text \<open>
  C1. Entry points are confined. Whatever code runs as an entry point of a contract, with whatever
  router answering its queries, it changes at most that contract's own storage: the storage of every
  other contract, the instance records, balances, stakes and IBC state are the same afterwards; and
  when it returns an error or panics the chain is unchanged.
\<close>
theorem entry_point_confined:
  assumes "with_storage router wk block a action s = (r, s')"
  shows "(s' = put_contract_storage a (contract_storage s' a) s \<or> s' = s)
     \<and> (\<forall>b. b \<noteq> a \<longrightarrow> contract_storage s' b = contract_storage s b)
     \<and> w_contracts (ch_wasm s') = w_contracts (ch_wasm s) \<and> ch_bank s' = ch_bank s
     \<and> ch_staking s' = ch_staking s \<and> ch_distribution s' = ch_distribution s \<and> ch_ibc s' = ch_ibc s
     \<and> (\<not> is_ok r \<longrightarrow> s' = s)"
proof (cases "is_ok r")
  case True
  with with_storage_eq [OF assms] obtain m where "s' = put_contract_storage a m s" by blast
  with True show ?thesis by simp
next
  case False
  with with_storage_eq [OF assms] show ?thesis by simp
qed

definition demo_router :: cosmos_router where
  "demo_router = \<lparr>r_execute = (\<lambda>b c m. fail (StdMsg ''no'')), r_query = (\<lambda>b q s. Err (StdMsg ''no'')),
     r_sudo = (\<lambda>b m. fail (StdMsg ''no'')), r_ibc = (\<lambda>b m k. fail (StdMsg ''no'')),
     r_source_callback = (\<lambda>b m. fail (StdMsg ''no''))\<rparr>"

definition demo_block :: block_info where
  "demo_block = \<lparr>bl_height = 1, bl_time = 0, bl_chain_id = ''chain''\<rparr>"

definition demo_instance :: chain where
  "demo_instance = empty_chain\<lparr>ch_wasm := \<lparr>w_contracts = [(Addr ''one'', \<lparr>cd_code_id = 1,
     cd_creator = Addr ''creator'', cd_admin = Some (Addr ''admin''), cd_label = ''label'', cd_created = 0\<rparr>)],
     w_storage = []\<rparr>\<rparr>"

lemma demo_contract_code: "contract_code demo_keeper 1 s = (Ok idle_contract, s)"
  using save_code_lookup(1) [OF keeper_wf_default [of demo_ext], of 1 "Addr ''creator''" idle_contract s]
  by (simp add: demo_keeper_def default_wasm_keeper_def)

text \<open>A write from the entry point of contract \<open>one\<close>.\<close>

theorem entry_point_confined_witness:
  "\<exists>s'. with_storage demo_router demo_keeper demo_block (Addr ''one'') (\<lambda>c env. CSet [1] [2] (CDone (Inr ())))
       demo_instance = (Ok (), s')
     \<and> contract_storage s' (Addr ''one'') = [([1], [2])] \<and> contract_storage s' (Addr ''two'') = []"
proof -
  let ?s = "put_contract_storage (Addr ''one'') [([1], [2])] demo_instance"
  let ?c = "\<lparr>cd_code_id = 1, cd_creator = Addr ''creator'', cd_admin = Some (Addr ''admin''),
     cd_label = ''label'', cd_created = 0\<rparr>"
  have c: "om_get (w_contracts (ch_wasm demo_instance)) (Addr ''one'') = Some ?c"
    by (simp add: demo_instance_def)
  have code: "contract_code demo_keeper (cd_code_id ?c) demo_instance = (Ok idle_contract, demo_instance)"
    by (simp add: demo_contract_code)
  have m: "contract_storage demo_instance (Addr ''one'') = []"
    by (simp add: contract_storage_def demo_instance_def)
  have 1: "with_storage demo_router demo_keeper demo_block (Addr ''one'') (\<lambda>c env. CSet [1] [2] (CDone (Inr ())))
       demo_instance = (Ok (), ?s)"
    unfolding with_storage_run [OF c code]
    by (simp add: atomically_def contract_storage_mut_def zoom_def m ret_def)
  have "contract_storage ?s (Addr ''two'') = contract_storage demo_instance (Addr ''two'')"
    by (rule conjunct1 [OF conjunct2 [OF entry_point_confined [OF 1]], THEN spec, THEN mp]) simp
  also have "\<dots> = []" by (simp add: contract_storage_def demo_instance_def)
  finally show ?thesis using 1 by (intro exI [of _ ?s]) simp
qed

text \<open>
  Only the admin. When the sender is not the admin recorded for the contract (in particular when
  it has none), \<open>Migrate\<close>, \<open>UpdateAdmin\<close> and \<open>ClearAdmin\<close> fail and leave the chain unchanged.
\<close>
theorem admin_only:
  assumes "x_addr_validate ext contract = Inr a" "om_get (w_contracts (ch_wasm s)) a = Some c"
    and "cd_admin c \<noteq> Some sender"
    and "msg \<in> {WasmMigrate contract k m, WasmUpdateAdmin contract new, WasmClearAdmin contract}"
  shows "\<exists>e. execute_wasm ext router wk n block sender msg s = (Err e, s)"
proof -
  have *: "\<exists>e. update_admin ext sender contract v s = (Err e, s)" for v
  proof (cases v)
    case None
    with assms(1-3) show ?thesis by (simp add: update_admin_def bindM_contract_data fail_def)
  next
    case (Some w)
    with assms(1-3) show ?thesis
      by (cases "x_addr_validate ext w")
        (simp_all add: update_admin_def bindM_contract_data fail_def bindM_def mapM_ok_def ret_def contract_data_eq)
  qed
  have "\<exists>e. execute_wasm ext router wk n block sender (WasmMigrate contract k m) s = (Err e, s)"
    using assms(1-3) by (simp add: execute_wasm_def bindM_contract_data fail_def)
  with * assms(4) show ?thesis by (auto simp: execute_wasm_def)
qed

theorem admin_only_witness:
  "\<exists>e. execute_wasm demo_ext demo_router demo_keeper 1 demo_block (Addr ''mallory'')
      (WasmUpdateAdmin ''one'' ''mallory'') demo_instance = (Err e, demo_instance)"
  by (rule admin_only [where contract = "''one''" and a = "Addr ''one''" and new = "''mallory''" and k = 0 and m = "[]"])
    (auto simp: demo_ext_def demo_instance_def)

text \<open>
  C34. What the admin can do. A successful \<open>UpdateAdmin\<close> or \<open>ClearAdmin\<close> comes from the admin and
  replaces exactly the admin of that contract and nothing else on the chain. A successful \<open>Migrate\<close> comes
  from the admin too; the code of the new id can be loaded, although the guard only compares the id with the
  number of codes. It replaces exactly the code id of the contract - not the creator, admin, label or height -,
  runs \<open>migrate\<close> of the new code once on the storage the old code left, with the sender and the old code id, and
  stores what it wrote; from that state, and from no other, the messages of its response are run. When it
  sends none, nothing else on the chain has changed.
\<close>
theorem admin_actions:
  "(execute_wasm ext router wk n block sender (WasmUpdateAdmin contract new) s = (Ok r1, s1) \<longrightarrow>
      (\<exists>a c w. x_addr_validate ext contract = Inr a \<and> x_addr_validate ext new = Inr w
        \<and> om_get (w_contracts (ch_wasm s)) a = Some c \<and> cd_admin c = Some sender
        \<and> s1 = s\<lparr>ch_wasm := (ch_wasm s)\<lparr>w_contracts := om_insert a (c\<lparr>cd_admin := Some w\<rparr>) (w_contracts (ch_wasm s))\<rparr>\<rparr>))
   \<and> (execute_wasm ext router wk n block sender (WasmClearAdmin contract) s = (Ok r2, s2) \<longrightarrow>
      (\<exists>a c. x_addr_validate ext contract = Inr a
        \<and> om_get (w_contracts (ch_wasm s)) a = Some c \<and> cd_admin c = Some sender
        \<and> s2 = s\<lparr>ch_wasm := (ch_wasm s)\<lparr>w_contracts := om_insert a (c\<lparr>cd_admin := None\<rparr>) (w_contracts (ch_wasm s))\<rparr>\<rparr>))
   \<and> (execute_wasm ext router wk n block sender (WasmMigrate contract k m) s = (Ok r3, s3) \<longrightarrow>
      (\<exists>a c code res st r. x_addr_validate ext contract = Inr a
        \<and> om_get (w_contracts (ch_wasm s)) a = Some c \<and> cd_admin c = Some sender
        \<and> (let t = s\<lparr>ch_wasm := (ch_wasm s)\<lparr>w_contracts := om_insert a (c\<lparr>cd_code_id := k\<rparr>) (w_contracts (ch_wasm s))\<rparr>\<rparr>
           in contract_code wk k t = (Ok code, t)
            \<and> run_cprog (\<lambda>req. r_query router block req t) (ct_migrate code (get_env a block) m
                \<lparr>mg_sender = sender, mg_old_version = Some (cd_code_id c)\<rparr>) (contract_storage s a) = (Ok res, st)
            \<and> process_at ext router wk n block a (build_app_response a (new_event ''migrate''
                [(CONTRACT_ATTR, addr_str a), (''code_id'', show_word k)]) res) (put_contract_storage a st t) = (Ok r, s3)
            \<and> ar_events r3 = ar_events r \<and> (rs_messages res = [] \<longrightarrow> s3 = put_contract_storage a st t))))"
    (is "_ \<and> _ \<and> (_ \<longrightarrow> ?goal)")
proof (intro conjI impI)
  assume run: "execute_wasm ext router wk n block sender (WasmMigrate contract k m) s = (Ok r3, s3)"
  obtain a c where a: "x_addr_validate ext contract = Inr a" "om_get (w_contracts (ch_wasm s)) a = Some c"
      "cd_admin c = Some sender"
    using run by (simp add: execute_wasm_def run_eqs fail_def split: sum.splits option.splits if_splits)
  let ?t = "s\<lparr>ch_wasm := (ch_wasm s)\<lparr>w_contracts := om_insert a (c\<lparr>cd_code_id := k\<rparr>) (w_contracts (ch_wasm s))\<rparr>\<rparr>"
  let ?event = "new_event ''migrate'' [(CONTRACT_ATTR, addr_str a), (''code_id'', show_word k)]"
  let ?action = "\<lambda>contract env. ct_migrate contract env m \<lparr>mg_sender = sender, mg_old_version = Some (cd_code_id c)\<rparr>"
  from run a obtain res s' r where call: "call_migrate router wk block a m
        \<lparr>mg_sender = sender, mg_old_version = Some (cd_code_id c)\<rparr> ?t = (Ok res, s')"
      and proc: "process_at ext router wk n block a (build_app_response a ?event res) s' = (Ok r, s3)"
      and ev: "ar_events r3 = ar_events r"
    by (auto simp: execute_wasm_def run_eqs bindM_Ok_iff fail_def split: if_splits)
  from call obtain y s'' where y: "with_storage router wk block a ?action ?t = (Ok y, s'')"
      and v: "verify_response y s'' = (Ok res, s')"
    by (auto simp: call_migrate_def bindM_Ok_iff)
  from y verify_response_Ok(1) [OF v] all_runs_eqD [OF verify_pure(3) v]
  have ws: "with_storage router wk block a ?action ?t = (Ok res, s')" by simp
  have c': "om_get (w_contracts (ch_wasm ?t)) a = Some (c\<lparr>cd_code_id := k\<rparr>)" by simp
  obtain code where code: "contract_code wk (cd_code_id (c\<lparr>cd_code_id := k\<rparr>)) ?t = (Ok code, ?t)"
    using ws contract_code_Ok by (fastforce simp: with_storage_def bindM_contract_data bindM_Ok_iff)
  have st: "contract_storage ?t a = contract_storage s a" by (simp add: contract_storage_def)
  obtain out st' where out: "run_cprog (\<lambda>req. r_query router block req ?t) (?action code (get_env a block)) (contract_storage ?t a)
      = (out, st')" by fastforce
  have "with_storage router wk block a ?action ?t = (out, if is_ok out then put_contract_storage a st' ?t else ?t)"
    by (rule with_storage_runs [OF c' code]) (rule out)
  with ws have "out = Ok res" "s' = put_contract_storage a st' ?t" by (auto split: if_splits)
  moreover have "s3 = s'" if "rs_messages res = []"
    using proc that by (auto simp: process_at_def process_response_def build_app_response_def ok_iffs)
  ultimately show ?goal using a code out st proc ev by (auto simp: Let_def)
qed (auto simp: execute_wasm_def update_admin_def ok_iffs split: if_splits)

text \<open>The contract \<open>one\<close> is migrated to a second code, then it loses its admin.\<close>

theorem admin_actions_witness:
  "\<exists>r s1 r' s2. execute_wasm demo_ext demo_router (save_code 2 (Addr ''creator'') idle_contract demo_keeper) 1 demo_block
       (Addr ''admin'') (WasmMigrate ''one'' 2 []) demo_instance = (Ok r, s1)
     \<and> (\<exists>c. om_get (w_contracts (ch_wasm s1)) (Addr ''one'') = Some c \<and> cd_code_id c = 2 \<and> cd_admin c = Some (Addr ''admin''))
     \<and> execute_wasm demo_ext demo_router demo_keeper 1 demo_block (Addr ''admin'') (WasmClearAdmin ''one'') s1 = (Ok r', s2)
     \<and> (\<exists>c. om_get (w_contracts (ch_wasm s2)) (Addr ''one'') = Some c \<and> cd_code_id c = 2 \<and> cd_admin c = None)"
proof -
  let ?wk = "save_code 2 (Addr ''creator'') idle_contract demo_keeper"
  let ?c = "\<lparr>cd_code_id = 1, cd_creator = Addr ''creator'', cd_admin = Some (Addr ''admin''), cd_label = ''label'', cd_created = 0\<rparr>"
  let ?run = "execute_wasm demo_ext demo_router ?wk 1 demo_block (Addr ''admin'') (WasmMigrate ''one'' 2 []) demo_instance"
  have code: "contract_code ?wk 2 s = (Ok idle_contract, s)" for s :: chain
    by (rule save_code_lookup(1)) (simp_all add: demo_keeper_data)
  have c: "om_get (w_contracts (ch_wasm demo_instance)) (Addr ''one'') = Some ?c" by (simp add: demo_instance_def)
  have valid: "x_addr_validate demo_ext ''one'' = Inr (Addr ''one'')" by (simp add: demo_ext_def)
  define t where "t = demo_instance\<lparr>ch_wasm := (ch_wasm demo_instance)\<lparr>w_contracts :=
    om_insert (Addr ''one'') \<lparr>cd_code_id = 2, cd_creator = Addr ''creator'', cd_admin = Some (Addr ''admin''),
      cd_label = ''label'', cd_created = 0\<rparr> (w_contracts (ch_wasm demo_instance))\<rparr>\<rparr>"
  have run_idle: "run_cprog q (ct_migrate idle_contract env m info) st = (Ok new_response, st)" for q env m info st
    by (simp add: idle_contract_def Let_def new_response_def ret_def lift_result_def)
  have ws: "with_storage demo_router ?wk demo_block (Addr ''one'') (\<lambda>contract env. ct_migrate contract env []
        \<lparr>mg_sender = Addr ''admin'', mg_old_version = Some 1\<rparr>) t
      = (Ok new_response, put_contract_storage (Addr ''one'') (contract_storage t (Addr ''one'')) t)"
    using with_storage_runs [where s = t and a = "Addr ''one''" and c = "?c\<lparr>cd_code_id := 2\<rparr>" and code = idle_contract
        and action = "\<lambda>contract env. ct_migrate contract env [] \<lparr>mg_sender = Addr ''admin'', mg_old_version = Some 1\<rparr>"
        and out = "Ok new_response" and wk = ?wk and router = demo_router and block = demo_block] code run_idle
    by (simp add: t_def)
  have "length (wk_code_data ?wk) = 2" by (simp add: save_code_def Let_def demo_keeper_data)
  moreover have "bindM (call_migrate demo_router ?wk demo_block (Addr ''one'') []
        \<lparr>mg_sender = Addr ''admin'', mg_old_version = Some 1\<rparr>) f t
      = f new_response (put_contract_storage (Addr ''one'') (contract_storage t (Addr ''one'')) t)" for f :: "_ \<Rightarrow> app_response chain_proc"
    using ws by (simp add: call_migrate_def bindM_def verify_new_response)
  ultimately obtain r s1 where 1: "?run = (Ok r, s1)"
    using c by (simp add: execute_wasm_def valid bindM_contract_data thenM_save_contract t_def [symmetric]
        process_at_def process_response_def build_app_response_def new_response_def Let_def)
  from admin_actions [THEN conjunct2, THEN conjunct2, THEN mp, OF 1] obtain st where s1: "s1 = put_contract_storage (Addr ''one'') st t"
    using c code run_idle by (auto simp: valid t_def Let_def new_response_def)
  then have c1: "om_get (w_contracts (ch_wasm s1)) (Addr ''one'') = Some (?c\<lparr>cd_code_id := 2\<rparr>)" by (simp add: t_def)
  then obtain r' s2 where 2: "execute_wasm demo_ext demo_router demo_keeper 1 demo_block (Addr ''admin'') (WasmClearAdmin ''one'') s1
      = (Ok r', s2)"
    by (simp add: execute_wasm_def update_admin_def valid bindM_contract_data thenM_save_contract ret_def)
  from admin_actions [THEN conjunct2, THEN conjunct1, THEN mp, OF 2]
  have "om_get (w_contracts (ch_wasm s2)) (Addr ''one'') = Some (?c\<lparr>cd_code_id := 2, cd_admin := None\<rparr>)"
    using c1 by (auto simp: valid)
  with 1 2 c1 show ?thesis by auto
qed

text \<open>
  C32. A contract cannot forge where an event comes from. Of the events recorded for a verified
  response, every one after the module's own first event has a type that starts with \<open>wasm\<close> and
  carries exactly one \<open>_contract_address\<close> attribute, the first, whose value is the address of the
  contract that ran.
\<close>
theorem events_carry_own_address:
  assumes "verify_response r s = (Ok r', s')" "build_app_response a custom r' = (res, msgs)"
  shows "hd (ar_events res) = custom \<and> msgs = rs_messages r \<and> ar_data res = rs_data r
     \<and> (\<forall>ev \<in> set (tl (ar_events res)). take 4 (ev_ty ev) = ''wasm''
          \<and> hd (ev_attributes ev) = attr CONTRACT_ATTR (addr_str a)
          \<and> filter (\<lambda>at. a_key at = CONTRACT_ATTR) (ev_attributes ev) = [attr CONTRACT_ATTR (addr_str a)])"
proof -
  note v = verify_response_Ok [OF assms(1)]
  have trimmed: "hd (trim CONTRACT_ATTR) = CHR ''_''"
    by (simp add: trim_def CONTRACT_ATTR_def ws_tokens_def strip_leading.simps leading_token_def)
  then have none: "filter (\<lambda>at. a_key at = CONTRACT_ATTR) xs = []"
    if "\<forall>at \<in> set xs. trim (a_key at) \<noteq> [] \<and> hd (trim (a_key at)) \<noteq> CHR ''_''" for xs :: "attribute list"
    using that by (metis (mono_tags, lifting) filter_False)
  obtain u where u: "verify_attributes (rs_attributes r) s = (Ok u, s)" using v(3) by blast
  obtain u' where u': "verify_events (rs_events r) s = (Ok u', s)" using v(4) by blast
  have "filter (\<lambda>at. a_key at = CONTRACT_ATTR) (rs_attributes r) = []"
    by (rule none [OF verify_attributes_Ok [OF u]])
  moreover have "\<forall>ev \<in> set (rs_events r). filter (\<lambda>at. a_key at = CONTRACT_ATTR) (ev_attributes ev) = []"
    using verify_events_Ok [OF u'] none by blast
  moreover have "res = fst (build_app_response a custom r)" "msgs = snd (build_app_response a custom r)"
    using assms(2) v(1) by simp_all
  ultimately show ?thesis
    by (auto simp: build_app_response_def Let_def new_event_def add_attributes_def attr_def)
qed

theorem events_carry_own_address_witness:
  "map (\<lambda>ev. hd (ev_attributes ev)) (tl (ar_events (fst (build_app_response (Addr ''one'') (new_event ''execute'' [])
      \<lparr>rs_messages = [], rs_attributes = [attr ''action'' ''mint''], rs_events = [], rs_data = None\<rparr>))))
    = [attr CONTRACT_ATTR ''one'']"
proof -
  let ?r = "\<lparr>rs_messages = [], rs_attributes = [attr ''action'' ''mint''], rs_events = [], rs_data = None\<rparr> :: response"
  have k: "trim ''action'' = ''action''"
    by (simp add: trim_def ws_tokens_def strip_leading.simps leading_token_def)
  have v: "verify_response ?r () = (Ok ?r, ())"
    by (simp add: verify_response_def verify_attributes_def verify_events_def thenM_def bindM_def ret_def attr_def
        k Let_def)
  obtain res msgs where b: "build_app_response (Addr ''one'') (new_event ''execute'' []) ?r = (res, msgs)"
    by fastforce
  moreover obtain x where "tl (ar_events (fst (build_app_response (Addr ''one'') (new_event ''execute'' []) ?r))) = [x]"
    by (simp add: build_app_response_def attr_def)
  ultimately show ?thesis using events_carry_own_address [OF v b] by simp
qed

text \<open>The run of a list of sub-messages, one after the other, each from the state the last one left.\<close>

inductive sub_steps ::
    "(sub_msg \<Rightarrow> app_response chain_proc) \<Rightarrow> chain \<Rightarrow> sub_msg list \<Rightarrow> app_response list \<Rightarrow> chain \<Rightarrow> bool"
  for exec where
    no_subs: "sub_steps exec s [] [] s"
  | next_sub: "exec m s = (Ok r, s1) \<Longrightarrow> sub_steps exec s1 ms rs s2 \<Longrightarrow> sub_steps exec s (m # ms) (r # rs) s2"

inductive_simps sub_steps_Nil [simp]: "sub_steps exec s [] rs s'"
inductive_simps sub_steps_Cons [simp]: "sub_steps exec s (m # ms) rs s'"

definition last_data :: "binary option \<Rightarrow> app_response list \<Rightarrow> binary option" where
  "last_data d rs = foldl (\<lambda>acc r. opt_or (ar_data r) acc) d rs"

lemma try_fold_sub_steps:
  "try_fold (\<lambda>acc m. bindM (exec m) (\<lambda>r. ret (fst acc @ ar_events r, opt_or (ar_data r) (snd acc)))) (evs, d) ms s
     = (Ok acc, s') \<longleftrightarrow>
   (\<exists>rs. sub_steps exec s ms rs s' \<and> acc = (evs @ concat (map ar_events rs), last_data d rs))"
proof (induction ms arbitrary: s evs d)
  case Nil
  then show ?case by (auto simp: last_data_def)
next
  case (Cons m ms)
  show ?case by (auto simp: bindM_Ok_iff Cons.IH last_data_def) fastforce+
qed

text \<open>
  C18. What a contract call returns. \<open>process_response\<close> succeeds exactly when every sub-message in
  turn does, each run from the state the one before left (a failed message that its contract's
  \<open>reply\<close> handles counts as a success); the events are then the contract's own followed by those
  of the sub-messages in order, and the data is that of the last sub-message that returned any,
  or the contract's own.
\<close>
theorem process_response_collects:
  "process_response ext router reply block contract r msgs s = (Ok res, s') \<longleftrightarrow>
     (\<exists>rs. sub_steps (execute_submsg ext router reply block contract) s msgs rs s'
        \<and> ar_events res = ar_events r @ concat (map ar_events rs) \<and> ar_data res = last_data (ar_data r) rs)"
proof -
  have "res = \<lparr>ar_events = e, ar_data = d\<rparr> \<longleftrightarrow> ar_events res = e \<and> ar_data res = d" for e d
    by (cases res) simp
  then show ?thesis
    by (auto simp: process_response_def bindM_Ok_iff try_fold_sub_steps)
qed

section \<open>Failing sub-messages\<close>

text \<open>The events of a reply: its own, then those of the response of the contract.\<close>

definition failure_event :: "addr \<Rightarrow> event" where
  "failure_event contract = new_event ''reply'' [(CONTRACT_ATTR, addr_str contract), (''mode'', ''handle_failure'')]"

lemma process_at_Cons:
  "process_at ext router wk n block contract (r, msg # rest) =
     bindM (execute_submsg ext router (reply_at ext router wk block n) block contract msg) (\<lambda>sub.
       process_at ext router wk n block contract
         (\<lparr>ar_events = ar_events r @ ar_events sub, ar_data = opt_or (ar_data sub) (ar_data r)\<rparr>, rest))"
  by (simp add: process_at_def process_response_def bindM_assoc)

lemma failed_submsg_run:
  assumes "fst (r_execute router block contract (sm_msg msg) s) = Err e"
  shows "execute_submsg ext router reply block contract msg s =
    (if sm_reply_on msg = ReplyAlways \<or> sm_reply_on msg = ReplyError
     then reply contract \<lparr>rp_id = sm_id msg, rp_payload = sm_payload msg, rp_gas_used = 0,
            rp_result = Inl (x_debug_error ext e)\<rparr> s
     else (Err e, s))"
proof -
  have "atomically (r_execute router block contract (sm_msg msg)) s = (Err e, s)"
    using assms by (cases "r_execute router block contract (sm_msg msg) s") (simp add: atomically_def)
  then show ?thesis by (simp add: execute_submsg_def bindM_def attempt_def fail_def)
qed

text \<open>
  C30. A failure is contained, or fatal. Let a sub-message of a contract's response fail, whatever it has done to
  the chain before it failed. If its \<open>reply_on\<close> does not ask for errors, the whole call fails with its error
  and the sub-messages after it are not run. If it does, all it has done is undone, \<open>reply\<close> of the contract runs
  on the state before the message, with the text of the error, the id and the payload of the message; if \<open>reply\<close>
  returns a response without messages, the call goes on with the next sub-message, from the state \<open>reply\<close> left,
  with the events of \<open>reply\<close> - and none of the failed message - added to its own and the data of \<open>reply\<close> in
  place of its own if there is any; if \<open>reply\<close> fails, the call fails as \<open>reply\<close> did.
\<close>
theorem failed_submessage:
  assumes "fst (r_execute router block contract (sm_msg msg) s) = Err e"
    and "om_get (w_contracts (ch_wasm s)) contract = Some c" "contract_code wk (cd_code_id c) s = (Ok code, s)"
    and "run_cprog (\<lambda>req. r_query router block req s) (ct_reply code (get_env contract block)
        \<lparr>rp_id = sm_id msg, rp_payload = sm_payload msg, rp_gas_used = 0, rp_result = Inl (x_debug_error ext e)\<rparr>)
      (contract_storage s contract) = (out, m)"
    and "\<And>resp (t :: chain). out = Ok resp \<Longrightarrow> verify_response resp t = (Ok resp, t) \<and> rs_messages resp = []"
  shows "process_at ext router wk (Suc n) block contract (r, msg # rest) s =
    (if sm_reply_on msg = ReplyAlways \<or> sm_reply_on msg = ReplyError
     then case out of
         Ok resp \<Rightarrow> process_at ext router wk (Suc n) block contract
           (\<lparr>ar_events = ar_events r @ ar_events (fst (build_app_response contract (failure_event contract) resp)),
             ar_data = opt_or (rs_data resp) (ar_data r)\<rparr>, rest) (put_contract_storage contract m s)
       | Err e' \<Rightarrow> (Err e', s) | Panic p \<Rightarrow> (Panic p, s) | NoFuel \<Rightarrow> (NoFuel, s)
     else (Err e, s))"
proof (cases "sm_reply_on msg = ReplyAlways \<or> sm_reply_on msg = ReplyError")
  case True
  let ?rp = "\<lparr>rp_id = sm_id msg, rp_payload = sm_payload msg, rp_gas_used = 0, rp_result = Inl (x_debug_error ext e)\<rparr>"
  have call: "call_reply router wk block contract ?rp s = (out, if is_ok out then put_contract_storage contract m s else s)"
    by (rule call_reply_runs [OF assms(2-4)]) (use assms(5) in simp)
  have "execute_submsg ext router (reply_at ext router wk block (Suc n)) block contract msg s
      = (case out of
          Ok resp \<Rightarrow> (Ok (fst (build_app_response contract (failure_event contract) resp)), put_contract_storage contract m s)
        | Err e' \<Rightarrow> (Err e', s) | Panic p \<Rightarrow> (Panic p, s) | NoFuel \<Rightarrow> (NoFuel, s))"
    using True assms(5) unfolding failed_submsg_run [OF assms(1)]
    by (cases out) (simp_all add: bindM_eq [where m = "call_reply router wk block contract ?rp", OF call] failure_event_def build_app_response_def Let_def process_response_def)
  then show ?thesis using True unfolding process_at_Cons
    by (cases out) (simp_all add: bindM_def build_app_response_def Let_def)
next
  case False
  then show ?thesis unfolding process_at_Cons by (simp add: bindM_def failed_submsg_run [OF assms(1)])
qed

text \<open>A message that fails, sent by a contract that handles failures.\<close>

definition caught_msg :: sub_msg where
  "caught_msg = \<lparr>sm_id = 7, sm_payload = [], sm_msg = MGov (GovVote 1), sm_reply_on = ReplyError\<rparr>"

theorem failed_submessage_witness:
  "process_at demo_ext (demo_router\<lparr>r_execute := (\<lambda>b c m s. (Err (StdMsg ''no''), empty_chain))\<rparr>) demo_keeper 2 demo_block
      (Addr ''one'') (default_response, [caught_msg]) demo_instance
    = (Ok \<lparr>ar_events = [failure_event (Addr ''one'')], ar_data = None\<rparr>, put_contract_storage (Addr ''one'') [] demo_instance)"
proof -
  let ?router = "demo_router\<lparr>r_execute := (\<lambda>b c m s. (Err (StdMsg ''no''), empty_chain))\<rparr>"
  let ?msg = "caught_msg"
  have c: "om_get (w_contracts (ch_wasm demo_instance)) (Addr ''one'') = Some \<lparr>cd_code_id = 1,
      cd_creator = Addr ''creator'', cd_admin = Some (Addr ''admin''), cd_label = ''label'', cd_created = 0\<rparr>"
    by (simp add: demo_instance_def)
  have "process_at demo_ext ?router demo_keeper (Suc 1) demo_block (Addr ''one'') (default_response, [?msg]) demo_instance
      = (if sm_reply_on ?msg = ReplyAlways \<or> sm_reply_on ?msg = ReplyError
         then case Ok new_response of
             Ok resp \<Rightarrow> process_at demo_ext ?router demo_keeper (Suc 1) demo_block (Addr ''one'')
               (\<lparr>ar_events = ar_events default_response
                   @ ar_events (fst (build_app_response (Addr ''one'') (failure_event (Addr ''one'')) resp)),
                 ar_data = opt_or (rs_data resp) (ar_data default_response)\<rparr>, []) (put_contract_storage (Addr ''one'') [] demo_instance)
           | Err e' \<Rightarrow> (Err e', demo_instance) | Panic p \<Rightarrow> (Panic p, demo_instance) | NoFuel \<Rightarrow> (NoFuel, demo_instance)
         else (Err (StdMsg ''no''), demo_instance))"
    by (rule failed_submessage [OF _ c, where code = idle_contract and m = "[]"])
      (auto simp: caught_msg_def demo_contract_code contract_storage_def demo_instance_def idle_contract_def new_response_def
        verify_response_def verify_attributes_def verify_events_def Let_def thenM_def lift_result_def)
  then show ?thesis
    by (simp add: caught_msg_def process_at_def process_response_def new_response_def default_response_def build_app_response_def
        numeral_2_eq_2 opt_or_def ret_def)
qed

text \<open>
  C19. What a failed message wrote is invisible. Replace the router by one that answers every query
  and every message alike, except that the state left behind by \<^emph>\<open>failing\<close> messages may be anything:
  running a contract's sub-messages and replies gives the same result and the same state.
\<close>
theorem failed_writes_invisible:
  assumes "\<And>b c m s. fst (r_execute router b c m s) = fst (r_execute router' b c m s)
      \<and> (is_ok (fst (r_execute router b c m s)) \<longrightarrow> snd (r_execute router b c m s) = snd (r_execute router' b c m s))"
    and "r_query router = r_query router'"
  shows "process_at ext router wk n block contract rm = process_at ext router' wk n block contract rm"
proof -
  have at: "atomically (r_execute router b c m) = atomically (r_execute router' b c m)" for b c m
  proof
    fix s
    obtain r1 s1 where 1: "r_execute router b c m s = (r1, s1)" by fastforce
    obtain r2 s2 where 2: "r_execute router' b c m s = (r2, s2)" by fastforce
    show "atomically (r_execute router b c m) s = atomically (r_execute router' b c m) s"
      using assms(1) [of b c m s] 1 2 by (cases r1) (auto simp: atomically_def)
  qed
  have sub: "execute_submsg ext router reply block = execute_submsg ext router' reply block" for reply block
    by (simp add: execute_submsg_def fun_eq_iff at)
  have pr: "process_response ext router reply block = process_response ext router' reply block" for reply block
    by (simp add: process_response_def fun_eq_iff sub)
  have ws: "with_storage router = with_storage router'"
    by (simp add: with_storage_def fun_eq_iff assms(2))
  have rp: "reply_at ext router wk block n = reply_at ext router' wk block n" for n
  proof (induction n)
    case (Suc n)
    then show ?case by (intro ext) (simp add: call_reply_def ws pr)
  qed (intro ext, simp)
  show ?thesis by (simp add: process_at_def rp pr)
qed

text \<open>A failing message is caught; the router whose failing messages wipe the chain gives what the clean one gives.\<close>

lemma demo_caught:
  assumes "fst (r_execute router demo_block (Addr ''one'') (MGov (GovVote 1)) demo_instance) = Err e"
  shows "process_at demo_ext router demo_keeper 2 demo_block (Addr ''one'') (default_response, [caught_msg]) demo_instance
    = (Ok \<lparr>ar_events = [failure_event (Addr ''one'')], ar_data = None\<rparr>, put_contract_storage (Addr ''one'') [] demo_instance)"
proof -
  let ?rp = "\<lparr>rp_id = sm_id caught_msg, rp_payload = sm_payload caught_msg, rp_gas_used = 0, rp_result = Inl (x_debug_error demo_ext e)\<rparr>"
  have c: "om_get (w_contracts (ch_wasm demo_instance)) (Addr ''one'') = Some \<lparr>cd_code_id = 1,
      cd_creator = Addr ''creator'', cd_admin = Some (Addr ''admin''), cd_label = ''label'', cd_created = 0\<rparr>"
    by (simp add: demo_instance_def)
  have m: "fst (r_execute router demo_block (Addr ''one'') (sm_msg caught_msg) demo_instance) = Err e"
    using assms by (simp add: caught_msg_def)
  have "call_reply router demo_keeper demo_block (Addr ''one'') ?rp demo_instance
      = (Ok new_response, if is_ok (Ok new_response) then put_contract_storage (Addr ''one'') [] demo_instance else demo_instance)"
    using call_reply_runs [OF c, where code = idle_contract and wk = demo_keeper and rp = ?rp and out = "Ok new_response"
        and m = "[]" and router = router and block = demo_block]
    by (simp add: demo_contract_code verify_new_response idle_contract_runs(3) contract_storage_def)
       (simp add: demo_instance_def)
  then have "call_reply router demo_keeper demo_block (Addr ''one'') ?rp demo_instance
      = (Ok new_response, put_contract_storage (Addr ''one'') [] demo_instance)" by simp
  then have "execute_submsg demo_ext router (reply_at demo_ext router demo_keeper demo_block 2) demo_block (Addr ''one'')
      caught_msg demo_instance
    = (Ok \<lparr>ar_events = [failure_event (Addr ''one'')], ar_data = None\<rparr>, put_contract_storage (Addr ''one'') [] demo_instance)"
    unfolding failed_submsg_run [OF m] numeral_2_eq_2
    by (simp add: bindM_def caught_msg_def new_response_def build_app_response_def process_response_def failure_event_def ret_def)
  then show ?thesis
    unfolding process_at_Cons
    by (simp add: bindM_def process_at_def process_response_def default_response_def opt_or_def ret_def)
qed

theorem failed_writes_invisible_witness:
  "process_at demo_ext (demo_router\<lparr>r_execute := (\<lambda>b c m s. (Err (StdMsg ''no''), empty_chain))\<rparr>) demo_keeper 2
      demo_block (Addr ''one'') (default_response, [caught_msg]) demo_instance
    = (Ok \<lparr>ar_events = [failure_event (Addr ''one'')], ar_data = None\<rparr>, put_contract_storage (Addr ''one'') [] demo_instance)"
proof -
  have "process_at demo_ext (demo_router\<lparr>r_execute := (\<lambda>b c m s. (Err (StdMsg ''no''), empty_chain))\<rparr>) demo_keeper 2
      demo_block (Addr ''one'') (default_response, [caught_msg])
    = process_at demo_ext demo_router demo_keeper 2 demo_block (Addr ''one'') (default_response, [caught_msg])"
    by (rule failed_writes_invisible) (simp_all add: demo_router_def)
  moreover have "process_at demo_ext demo_router demo_keeper 2 demo_block (Addr ''one'') (default_response, [caught_msg])
      demo_instance = (Ok \<lparr>ar_events = [failure_event (Addr ''one'')], ar_data = None\<rparr>,
      put_contract_storage (Addr ''one'') [] demo_instance)"
    by (rule demo_caught) (simp add: demo_router_def)
  ultimately show ?thesis by (simp only:)
qed

end
