(* ===== verification/Ibc_Memo.thy ===== *)
theory Ibc_Memo
  imports Ext_Model
begin

text \<open>
  The memo of an ICS-20 packet (\<open>src/ibc/memo\<close>): the ibc-hooks memo, which redirects the
  receiver and asks for a contract call, the ibc-hooks callback memo and the callback request
  of ADR-8; and the local names of foreign denominations (\<open>src/bank.rs\<close>).
\<close>

section \<open>Memo formats\<close>

text \<open>The intermediate sender of a hook: the hash of a fixed tag, the channel and the sender.\<close>

definition hook_sender_bytes :: "ext \<Rightarrow> string \<Rightarrow> string \<Rightarrow> bytes" where
  "hook_sender_bytes ext channel_id sender =
     x_keccak256 ext (x_keccak256 ext (as_bytes ''ibc-wasm-hook-intermediary'')
                      @ as_bytes (channel_id @ ''/'' @ sender))"

text \<open>\<open>&mut packet\<close> is returned beside the call to make.\<close>

definition parse_ibc_hooks_memo ::
    "ext \<Rightarrow> string \<Rightarrow> ics20_packet \<Rightarrow> ((addr \<times> string \<times> string) option \<times> ics20_packet) std_result" where
  "parse_ibc_hooks_memo ext channel_id packet = (case ics_memo packet of
      None \<Rightarrow> Inr (None, packet)
    | Some memo \<Rightarrow> (case x_parse_hooks_memo ext memo of
          Some (Some (contract, msg)) \<Rightarrow>
            (case x_addr_humanize ext (hook_sender_bytes ext channel_id (ics_sender packet)) of
                Inl e \<Rightarrow> Inl e
              | Inr sender \<Rightarrow>
                  Inr (Some (sender, contract, msg), packet\<lparr>ics_receiver := addr_str sender\<rparr>))
        | _ \<Rightarrow> Inr (None, packet)))"

definition parse_ibc_hooks_callback_memo :: "ext \<Rightarrow> ics20_packet \<Rightarrow> addr option std_result" where
  "parse_ibc_hooks_callback_memo ext packet = (case ics_memo packet of
      None \<Rightarrow> Inr None
    | Some memo \<Rightarrow> (case x_parse_callback_memo ext memo of
          None \<Rightarrow> Inr None
        | Some contract \<Rightarrow> map_sum id Some (x_addr_validate ext contract)))"

text \<open>Whether a packet asks for a source callback (\<open>is_ok\<close> of the code's result).\<close>

definition parse_ics20_memo_callback :: "ext \<Rightarrow> binary \<Rightarrow> unit std_result" where
  "parse_ics20_memo_callback ext packet_data =
     (let err = Inl (StdMsg ''No ics_20_memo callback'')
      in case x_parse_ics20 ext packet_data of
          Inl e \<Rightarrow> err
        | Inr packet \<Rightarrow>
            (case x_parse_callback_request ext (case ics_memo packet of None \<Rightarrow> ''{}'' | Some m \<Rightarrow> m) of
                None \<Rightarrow> err
              | Some (src, dest) \<Rightarrow> (if src then Inr () else err)))"

section \<open>Local names of foreign denominations\<close>

definition wrap_ibc_denom_query :: "ext \<Rightarrow> string \<Rightarrow> string \<Rightarrow> string" where
  "wrap_ibc_denom_query ext channel_id dnm =
     ''ibc/'' @ x_hex ext (x_keccak256 ext (as_bytes (channel_id @ ''/'' @ dnm)))"

definition wrap_ibc_denom :: "ext \<Rightarrow> string \<Rightarrow> string \<Rightarrow> string chain_proc" where
  "wrap_ibc_denom ext channel_id dnm =
     (let local_denom = wrap_ibc_denom_query ext channel_id dnm
      in thenM (modifies (\<lambda>s. s\<lparr>ch_ibc_denoms :=
             om_insert local_denom \<lparr>id_channel = channel_id, id_original = dnm\<rparr> (ch_ibc_denoms s)\<rparr>))
           (ret local_denom))"

definition optional_unwrap_ibc_denom :: "chain \<Rightarrow> string \<Rightarrow> string \<Rightarrow> string" where
  "optional_unwrap_ibc_denom s dnm expected_channel_id = (case om_get (ch_ibc_denoms s) dnm of
      None \<Rightarrow> dnm
    | Some remote \<Rightarrow>
        (if id_channel remote \<noteq> expected_channel_id then dnm else id_original remote))"

section \<open>Properties\<close>

text \<open>
  Wrapping a foreign denomination records how to undo it: right after a packet with
  denomination d arrived on a channel, sending the wrapped denomination back through that
  channel names d again on the remote chain, and through any other channel it keeps its
  wrapped name.
\<close>
theorem wrap_then_unwrap:
  assumes "wrap_ibc_denom ext ch dnm s = (r, s')"
  shows "\<exists>w. r = Ok w \<and> w = wrap_ibc_denom_query ext ch dnm
     \<and> optional_unwrap_ibc_denom s' w c = (if c = ch then dnm else w)"
  using assms by (auto simp: wrap_ibc_denom_def optional_unwrap_ibc_denom_def proc_defs Let_def)

theorem wrap_then_unwrap_witness:
  "\<exists>s'. wrap_ibc_denom demo_ext ''channel-0'' ''uatom'' empty_chain = (Ok (wrap_ibc_denom_query demo_ext ''channel-0'' ''uatom''), s')
     \<and> optional_unwrap_ibc_denom s' (wrap_ibc_denom_query demo_ext ''channel-0'' ''uatom'') ''channel-0'' = ''uatom''"
proof -
  obtain r s' where 1: "wrap_ibc_denom demo_ext ''channel-0'' ''uatom'' empty_chain = (r, s')" by fastforce
  from wrap_then_unwrap [OF 1, of "''channel-0''"] 1 show ?thesis by auto
qed

end
