(* ===== verification/Ibc.thy ===== *)
theory Ibc
  imports Ibc_Memo Ext_Model
begin

text \<open>
  The IBC module (\<open>src/ibc/simple_ibc.rs\<close>, \<open>src/ibc/types.rs\<close>, \<open>src/ibc/state.rs\<close>): connections,
  the channel handshake, and the life of a packet (send, receive, acknowledge, time out). The
  module calls the application behind a port through the router, always in a transaction.
\<close>

section \<open>Ports\<close>

fun split_on :: "char \<Rightarrow> string \<Rightarrow> string list" where
  "split_on d [] = [[]]"
| "split_on d (c # cs) = (if c = d then [] # split_on d cs
     else (case split_on d cs of [] \<Rightarrow> [[c]] | x # xs \<Rightarrow> (c # x) # xs))"

definition BANK_MODULE_PORT :: string where
  "BANK_MODULE_PORT = ''transfer''"

definition parse_port :: "string \<Rightarrow> ibc_port std_result" where
  "parse_port s =
     (if s = BANK_MODULE_PORT then Inr PortBank
      else (let wasm = split_on CHR ''.'' s
        in if length wasm = 2 \<and> wasm ! 0 = ''wasm'' then Inr (PortWasm (wasm ! 1))
           else Inl (StdMsg (''The ibc port '' @ s @ '' can't be linked to an mock ibc implementation''))))"

text \<open>\<open>Display\<close>; \<open>None\<close> is the panic for the staking module.\<close>

definition show_port :: "ibc_port \<Rightarrow> string option" where
  "show_port p = (case p of PortWasm c \<Rightarrow> Some (''wasm.'' @ c) | PortBank \<Rightarrow> Some BANK_MODULE_PORT | PortStaking \<Rightarrow> None)"

definition module_of_port :: "ibc_port \<Rightarrow> ibc_module" where
  "module_of_port p = (case p of PortBank \<Rightarrow> IbcBank | PortStaking \<Rightarrow> IbcStaking | PortWasm c \<Rightarrow> IbcWasm (Addr c))"

section \<open>Connections and channels\<close>

definition RELAYER_ADDR :: addr where
  "RELAYER_ADDR = Addr ''relayer''"

definition create_connection ::
    "string \<Rightarrow> string option \<Rightarrow> string option \<Rightarrow> app_response chain_proc" where
  "create_connection remote_chain_id connection_id counterparty_connection_id = in_ibc (
     bindM (case connection_id of
         Some c \<Rightarrow> mapM_ok (\<lambda>d. (c, d)) (load ''Connection'' i_connections c)
       | None \<Rightarrow> reads (\<lambda>i. (''connection-'' @ show_nat (length (i_connections i)),
                    \<lparr>cn_counterparty = None, cn_chain = remote_chain_id\<rparr>)))
     (\<lambda>(cid, data).
       thenM (guard (remote_chain_id = cn_chain data)
           (StdMsg (''Wrong chain id already registered with this connection '' @ cid @ '', ''
              @ cn_chain data @ ''!='' @ remote_chain_id)))
       (let data' = (case counterparty_connection_id of None \<Rightarrow> data | Some c \<Rightarrow> data\<lparr>cn_counterparty := Some c\<rparr>)
        in thenM (modifies (\<lambda>i. i\<lparr>i_connections := om_insert cid data' (i_connections i)\<rparr>))
          (ret \<lparr>ar_events = [new_event ''connection_open'' [(''connection_id'', cid)]], ar_data = None\<rparr>))))"

definition load_port_info :: "string \<Rightarrow> ibc_state \<Rightarrow> u64" where
  "load_port_info port i = (case om_get (i_ports i) port of None \<Rightarrow> 0 | Some n \<Rightarrow> n)"

text \<open>The first half of \<open>open_channel\<close>: checks and the new channel id.\<close>

definition new_channel_id :: "block_info \<Rightarrow> string \<Rightarrow> string \<Rightarrow> (ibc_state, std_error, ibc_port \<times> string) proc" where
  "new_channel_id block local_connection_id local_port =
     bindM (reads (\<lambda>i. om_has (i_connections i) local_connection_id)) (\<lambda>known.
     thenM (guard known (StdMsg (''connection '' @ local_connection_id @ '' doesn't exist on chain '' @ bl_chain_id block)))
     (bindM (lift_result (parse_port local_port)) (\<lambda>port.
      bindM (reads (load_port_info local_port)) (\<lambda>next.
      bindM (or_panic ''attempt to add with overflow'' (checked_add next 1)) (\<lambda>next'.
      thenM (modifies (\<lambda>i. i\<lparr>i_ports := om_insert local_port next' (i_ports i)\<rparr>))
        (ret (port, ''channel-'' @ show_word next)))))))"

text \<open>The half-open channel is recorded after the application behind the port has agreed.\<close>

definition record_handshake :: "string \<times> string \<Rightarrow> handshake_info \<Rightarrow> (ibc_state, std_error, unit) proc" where
  "record_handshake x handshake = modifies (\<lambda>i. i\<lparr>i_handshakes := om_insert x handshake (i_handshakes i)\<rparr>)"

definition open_channel ::
    "cosmos_router \<Rightarrow> block_info \<Rightarrow> string \<Rightarrow> string \<Rightarrow> string \<Rightarrow> ibc_order \<Rightarrow> ibc_endpoint \<Rightarrow> string option
       \<Rightarrow> app_response chain_proc" where
  "open_channel router block local_connection_id local_port version order counterparty_endpoint counterparty_version =
     bindM (in_ibc (new_channel_id block local_connection_id local_port)) (\<lambda>(port, channel_id).
     (let local_endpoint = \<lparr>ep_port = local_port, ep_channel = channel_id\<rparr>;
          channel = \<lparr>ic_endpoint = local_endpoint, ic_counterparty = counterparty_endpoint, ic_order = order,
            ic_version = version, ic_connection = local_connection_id\<rparr>;
          (hs, request, ty) = (case counterparty_version of
              Some v \<Rightarrow> (HsTry, OpenTry channel v, ''channel_open_try'')
            | None \<Rightarrow> (HsInit, OpenInit channel, ''channel_open_init''));
          attrs = [(''port_id'', local_port), (''channel_id'', channel_id),
            (''counterparty_port_id'', ep_port counterparty_endpoint), (''counterparty_channel_id'', ''''),
            (''connection_id'', local_connection_id)]
      in bindM (atomically (r_ibc router block (module_of_port port) (ChannelOpen request))) (\<lambda>res.
         case res of
           RespOpen r \<Rightarrow>
             (let v = (case r of None \<Rightarrow> version | Some v \<Rightarrow> v);
                  handshake = \<lparr>hs_connection = local_connection_id, hs_port = port, hs_local = local_endpoint,
                    hs_remote = counterparty_endpoint, hs_state = hs, hs_order = order, hs_version = v\<rparr>
              in thenM (in_ibc (record_handshake (local_port, channel_id) handshake))
                 (ret \<lparr>ar_events = [new_event ty (attrs @ [(''version'', v)])], ar_data = None\<rparr>))
         | _ \<Rightarrow> panic ''Only an open response was expected when receiving a packet'')))"

text \<open>The module's request and the event of the second handshake step.\<close>

definition connect_request ::
    "handshake_info \<Rightarrow> ibc_channel \<Rightarrow> string option \<Rightarrow> ('s, std_error, channel_connect_msg \<times> string) proc" where
  "connect_request handshake channel counterparty_version =
     (if hs_state handshake = HsTry then ret (OpenConfirm channel, ''channel_open_confirm'')
      else if hs_state handshake = HsInit
      then bindM (or_panic ''called Option::unwrap() on a None value'' counterparty_version) (\<lambda>v.
             ret (OpenAck channel v, ''channel_open_ack''))
      else fail (StdMsg ''This is unreachable, configuration error''))"

text \<open>The handshake becomes a channel before the application is called.\<close>

definition record_connect ::
    "string \<Rightarrow> string \<Rightarrow> ibc_endpoint \<Rightarrow> string option
       \<Rightarrow> (ibc_state, std_error, handshake_info \<times> channel_connect_msg \<times> string) proc" where
  "record_connect port_id channel_id counterparty_endpoint counterparty_version =
     bindM (load ''ChannelHandshakeInfo'' i_handshakes (port_id, channel_id)) (\<lambda>handshake.
     (let channel = \<lparr>ic_endpoint = hs_local handshake, ic_counterparty = counterparty_endpoint,
            ic_order = hs_order handshake, ic_version = hs_version handshake,
            ic_connection = hs_connection handshake\<rparr>
      in bindM (connect_request handshake channel counterparty_version) (\<lambda>(request, ty).
         bindM (or_panic ''called Option::unwrap() on a None value'' counterparty_version) (\<lambda>v.
         thenM (modifies (\<lambda>i. i\<lparr>
             i_handshakes := om_remove (port_id, channel_id) (i_handshakes i),
             i_channels := om_insert (port_id, channel_id)
               \<lparr>ci_next_packet = 1, ci_last_relayed = 1,
                ci_info = \<lparr>ic_endpoint = \<lparr>ep_port = port_id, ep_channel = channel_id\<rparr>,
                  ic_counterparty = counterparty_endpoint, ic_order = hs_order handshake, ic_version = v,
                  ic_connection = hs_connection handshake\<rparr>,
                ci_open = True\<rparr> (i_channels i)\<rparr>))
           (ret (handshake, request, ty))))))"

definition connect_channel ::
    "cosmos_router \<Rightarrow> block_info \<Rightarrow> string \<Rightarrow> string \<Rightarrow> ibc_endpoint \<Rightarrow> string option \<Rightarrow> app_response chain_proc" where
  "connect_channel router block port_id channel_id counterparty_endpoint counterparty_version =
     bindM (in_ibc (record_connect port_id channel_id counterparty_endpoint counterparty_version))
       (\<lambda>(handshake, request, ty).
     bindM (atomically (r_ibc router block (module_of_port (hs_port handshake)) (ChannelConnect request)))
       (\<lambda>res. case res of
           RespBasic events \<Rightarrow> ret \<lparr>ar_events = events @ [new_event ty
               [(''port_id'', ep_port (hs_local handshake)), (''channel_id'', ep_channel (hs_local handshake)),
                (''counterparty_port_id'', ep_port counterparty_endpoint),
                (''counterparty_channel_id'', ep_channel counterparty_endpoint),
                (''connection_id'', hs_connection handshake)]], ar_data = None\<rparr>
         | _ \<Rightarrow> panic ''Only an Basic response was expected when receiving a packet''))"

definition record_close :: "string \<Rightarrow> string \<Rightarrow> (ibc_state, std_error, channel_info) proc" where
  "record_close port_id channel_id =
     bindM (reads (\<lambda>i. om_get (i_channels i) (port_id, channel_id))) (\<lambda>channel.
     bindM (of_option (StdMsg (''No channel exists with this port and channel id : '' @ port_id @ '':'' @ channel_id))
         channel) (\<lambda>c.
       (let c' = c\<lparr>ci_open := False\<rparr>
        in thenM (modifies (\<lambda>i. i\<lparr>i_channels := om_insert (port_id, channel_id) c' (i_channels i)\<rparr>)) (ret c'))))"

definition close_channel ::
    "cosmos_router \<Rightarrow> block_info \<Rightarrow> string \<Rightarrow> string \<Rightarrow> bool \<Rightarrow> app_response chain_proc" where
  "close_channel router block port_id channel_id init =
     bindM (in_ibc (record_close port_id channel_id)) (\<lambda>channel_info.
       (let info = ci_info channel_info;
            (request, ty) = (if init then (CloseInit info, ''channel_close_init'')
              else (CloseConfirm info, ''channel_close_confirm''))
        in bindM (atomically (bindM (lift_result (parse_port port_id)) (\<lambda>port.
               r_ibc router block (module_of_port port) (ChannelClose request)))) (\<lambda>res.
           case res of
             RespBasic events \<Rightarrow> ret \<lparr>ar_events = events @ [new_event ty
                 [(''port_id'', port_id), (''channel_id'', channel_id),
                  (''counterparty_port_id'', ep_port (ic_counterparty info)),
                  (''counterparty_channel_id'', ep_channel (ic_counterparty info)),
                  (''connection_id'', ic_connection info)]], ar_data = None\<rparr>
           | _ \<Rightarrow> panic ''Only an basic response was expected when closing a channel'')))"

section \<open>Packets\<close>

text \<open>The attributes of the packet events, in the groups in which the code lists them.\<close>

definition data_attrs :: "ext \<Rightarrow> ibc_packet \<Rightarrow> (string \<times> string) list" where
  "data_attrs ext packet = [(''packet_data'', x_utf8_lossy ext (pk_data packet)),
     (''packet_data_hex'', x_hex ext (pk_data packet))]"

definition route_attrs :: "ibc_packet \<Rightarrow> (string \<times> string) list" where
  "route_attrs packet =
     (let h = (case to_block (pk_timeout packet) of None \<Rightarrow> \<lparr>tb_revision = 0, tb_height = 0\<rparr> | Some b \<Rightarrow> b);
          t = (case to_timestamp (pk_timeout packet) of None \<Rightarrow> 0 | Some t \<Rightarrow> t)
      in [(''packet_timeout_height'', show_word (tb_revision h) @ ''-'' @ show_word (tb_height h)),
          (''packet_timeout_timestamp'', show_word t),
          (''packet_sequence'', show_word (pk_sequence packet)),
          (''packet_src_port'', ep_port (pk_src packet)),
          (''packet_src_channel'', ep_channel (pk_src packet)),
          (''packet_dst_port'', ep_port (pk_dest packet)),
          (''packet_dst_channel'', ep_channel (pk_dest packet))])"

definition channel_attrs :: "ext \<Rightarrow> ibc_channel \<Rightarrow> (string \<times> string) list" where
  "channel_attrs ext info = [(''packet_channel_ordering'', x_order_json ext (ic_order info)),
     (''packet_connection'', ic_connection info)]"

definition send_packet_raw ::
    "ext \<Rightarrow> string \<Rightarrow> string \<Rightarrow> binary \<Rightarrow> ibc_timeout \<Rightarrow> (u64 \<times> app_response) chain_proc" where
  "send_packet_raw ext port_id channel_id data timeout = in_ibc (
     bindM (load ''ChannelInfo'' i_channels (port_id, channel_id)) (\<lambda>c.
     (let seq = ci_next_packet c;
          packet = \<lparr>pk_data = data,
            pk_src = \<lparr>ep_port = ep_port (ic_endpoint (ci_info c)), ep_channel = channel_id\<rparr>,
            pk_dest = \<lparr>ep_port = ep_port (ic_counterparty (ci_info c)),
                       ep_channel = ep_channel (ic_counterparty (ci_info c))\<rparr>,
            pk_sequence = seq, pk_timeout = timeout\<rparr>
      in thenM (modifies (\<lambda>i. i\<lparr>i_send := om_insert (port_id, channel_id, seq) packet (i_send i)\<rparr>))
         (bindM (or_panic ''attempt to add with overflow'' (checked_add seq 1)) (\<lambda>next.
          thenM (modifies (\<lambda>i. i\<lparr>i_channels := om_insert (port_id, channel_id) (c\<lparr>ci_next_packet := next\<rparr>) (i_channels i)\<rparr>))
            (ret (seq, \<lparr>ar_events = [new_event ''send_packet''
               (data_attrs ext packet @ route_attrs packet @ channel_attrs ext (ci_info c))], ar_data = None\<rparr>)))))))"

definition send_packet ::
    "ext \<Rightarrow> string \<Rightarrow> string \<Rightarrow> binary \<Rightarrow> ibc_timeout \<Rightarrow> app_response chain_proc" where
  "send_packet ext port_id channel_id data timeout =
     bindM (send_packet_raw ext port_id channel_id data timeout) (\<lambda>(seq, r). ret r)"

text \<open>A packet is late when the block has reached either of its limits.\<close>

definition timed_out :: "block_info \<Rightarrow> ibc_timeout \<Rightarrow> bool" where
  "timed_out block timeout =
     ((case to_block timeout of None \<Rightarrow> False | Some b \<Rightarrow> tb_height b \<le> bl_height block)
      \<or> (case to_timestamp timeout of None \<Rightarrow> False | Some t \<Rightarrow> t \<le> bl_time block))"

definition dest_key :: "ibc_packet \<Rightarrow> packet_key" where
  "dest_key packet = (ep_port (pk_dest packet), ep_channel (pk_dest packet), pk_sequence packet)"

definition src_key :: "ibc_packet \<Rightarrow> packet_key" where
  "src_key packet = (ep_port (pk_src packet), ep_channel (pk_src packet), pk_sequence packet)"

text \<open>The checks of \<open>receive_packet\<close> and the record of the packet.\<close>

definition record_receive :: "block_info \<Rightarrow> ibc_packet \<Rightarrow> (ibc_state, std_error, channel_info \<times> bool) proc" where
  "record_receive block packet =
     bindM (load ''ChannelInfo'' i_channels (ep_port (pk_dest packet), ep_channel (pk_dest packet))) (\<lambda>c.
     bindM (reads (\<lambda>i. om_has (i_receive i) (dest_key packet))) (\<lambda>known.
     thenM (guard (\<not> known) (StdMsg ''You can't receive the same packet twice on the chain''))
     (let has_timeout = timed_out block (pk_timeout packet)
      in thenM (modifies (\<lambda>i. i\<lparr>i_receive := om_insert (dest_key packet)
                  \<lparr>pr_data = packet, pr_timeout = has_timeout\<rparr> (i_receive i)\<rparr>))
           (ret (c, has_timeout)))))"

definition receive_packet :: "ext \<Rightarrow> cosmos_router \<Rightarrow> block_info \<Rightarrow> ibc_packet \<Rightarrow> app_response chain_proc" where
  "receive_packet ext router block packet =
     bindM (in_ibc (record_receive block packet)) (\<lambda>(c, has_timeout).
       if has_timeout
       then
         bindM (if ic_order (ci_info c) = Ordered
             then atomically (r_sudo router block (SudoIbc (RCloseChannel (ep_port (pk_dest packet))
                    (ep_channel (pk_dest packet)) True)))
             else ret default_response) (\<lambda>res.
         ret \<lparr>ar_events = ar_events res @ [new_event ''timeout_received_packet''
             (data_attrs ext packet @ route_attrs packet @ channel_attrs ext (ci_info c))], ar_data = ar_data res\<rparr>)
       else
         bindM (lift_result (parse_port (ep_port (ic_endpoint (ci_info c))))) (\<lambda>port.
         bindM (atomically (r_ibc router block (module_of_port port)
             (PacketReceive \<lparr>prm_packet = packet, prm_relayer = RELAYER_ADDR\<rparr>))) (\<lambda>res.
         case res of
           RespReceive events acknowledgement \<Rightarrow>
             thenM (in_ibc (modifies (\<lambda>i. i\<lparr>i_receive_ack :=
                 om_insert (dest_key packet) acknowledgement (i_receive_ack i)\<rparr>)))
             (ret \<lparr>ar_events = events @
                [new_event ''recv_packet'' (data_attrs ext packet @ route_attrs packet @ channel_attrs ext (ci_info c)),
                 new_event ''write_acknowledgement''
                   ([(''packet_data'', x_binary_json ext (pk_data packet)),
                     (''packet_data_hex'', x_hex ext (pk_data packet))] @ route_attrs packet @
                    (case acknowledgement of None \<Rightarrow> []
                     | Some ack \<Rightarrow> [(''packet_ack'', x_utf8_lossy ext ack), (''packet_ack_hex'', x_hex ext ack)]))],
                ar_data = None\<rparr>)
         | _ \<Rightarrow> panic ''Only a receive response was expected when receiving a packet'')))"

text \<open>The checks of \<open>acknowledge_packet\<close> and the record of the acknowledgement.\<close>

definition record_ack :: "ibc_packet \<Rightarrow> binary \<Rightarrow> (ibc_state, std_error, channel_info) proc" where
  "record_ack packet ack =
     bindM (load ''ChannelInfo'' i_channels (ep_port (pk_src packet), ep_channel (pk_src packet))) (\<lambda>c.
     bindM (load ''IbcPacket'' i_send (src_key packet)) (\<lambda>_.
     bindM (reads (\<lambda>i. om_get (i_send_ack i) (src_key packet))) (\<lambda>packet_ack.
     thenM (guard (packet_ack = None) (StdMsg ''You can't ack the same packet twice on the chain''))
     (bindM (reads (\<lambda>i. om_has (i_timeout i) (src_key packet))) (\<lambda>late.
      thenM (guard (\<not> late) (StdMsg ''Packet has timed_out, can't acknowledge''))
      (thenM (modifies (\<lambda>i. i\<lparr>i_send_ack := om_insert (src_key packet) ack (i_send_ack i)\<rparr>))
        (ret c)))))))"

definition acknowledge_packet ::
    "ext \<Rightarrow> cosmos_router \<Rightarrow> block_info \<Rightarrow> ibc_packet \<Rightarrow> binary \<Rightarrow> app_response chain_proc" where
  "acknowledge_packet ext router block packet ack =
     bindM (in_ibc (record_ack packet ack)) (\<lambda>c.
     (let ack_message = \<lparr>pam_ack = ack, pam_packet = packet, pam_relayer = RELAYER_ADDR\<rparr>
      in bindM (lift_result (parse_port (ep_port (ic_endpoint (ci_info c))))) (\<lambda>port.
         bindM (atomically (r_ibc router block (module_of_port port) (PacketAcknowledgement ack_message))) (\<lambda>res.
         case res of
           RespBasic events \<Rightarrow>
             (let events' = events @ [new_event ''acknowledge_packet''
                    (route_attrs packet @ channel_attrs ext (ci_info c))]
              in case parse_ics20_memo_callback ext (pk_data packet) of
                  Inr _ \<Rightarrow>
                    bindM (attempt (atomically (r_source_callback router block (CbAcknowledgement ack_message))))
                      (\<lambda>callback_res. ret \<lparr>ar_events = events' @ (case callback_res of
                          Inr (RespBasic callback_events) \<Rightarrow> callback_events | _ \<Rightarrow> []), ar_data = None\<rparr>)
                | Inl _ \<Rightarrow> ret \<lparr>ar_events = events', ar_data = None\<rparr>)
         | _ \<Rightarrow> panic ''Only a basic response was expected when ack a packet''))))"

text \<open>The checks of \<open>timeout_packet\<close>, the record of the timeout and the packet as it was sent.\<close>

definition record_timeout :: "ibc_packet \<Rightarrow> (ibc_state, std_error, channel_info \<times> ibc_packet) proc" where
  "record_timeout packet =
     bindM (load ''ChannelInfo'' i_channels (ep_port (pk_src packet), ep_channel (pk_src packet))) (\<lambda>c.
     bindM (reads (\<lambda>i. om_get (i_send_ack i) (src_key packet))) (\<lambda>packet_ack.
     thenM (guard (packet_ack = None) (StdMsg ''You can't timeout an acked packet''))
     (bindM (reads (\<lambda>i. om_get (i_timeout i) (src_key packet))) (\<lambda>late.
      thenM (guard (late = None) (StdMsg ''You can't timeout an packet twice''))
      (thenM (modifies (\<lambda>i. i\<lparr>i_timeout := om_insert (src_key packet) True (i_timeout i)\<rparr>))
       (bindM (load ''IbcPacket'' i_send (src_key packet)) (\<lambda>original_packet. ret (c, original_packet))))))))"

definition timeout_packet :: "ext \<Rightarrow> cosmos_router \<Rightarrow> block_info \<Rightarrow> ibc_packet \<Rightarrow> app_response chain_proc" where
  "timeout_packet ext router block packet =
     bindM (in_ibc (record_timeout packet)) (\<lambda>(c, original_packet).
     bindM (lift_result (parse_port (ep_port (ic_endpoint (ci_info c))))) (\<lambda>port.
     bindM (atomically (r_ibc router block (module_of_port port)
         (PacketTimeout \<lparr>ptm_packet = original_packet, ptm_relayer = RELAYER_ADDR\<rparr>))) (\<lambda>res.
     case res of
       RespBasic events \<Rightarrow> ret \<lparr>ar_events = events @ [new_event ''timeout_packet''
           (route_attrs packet @ [(''packet_channel_ordering'', x_order_json ext (ic_order (ci_info c)))])],
           ar_data = None\<rparr>
     | _ \<Rightarrow> panic ''Only a basic response was expected when timeout a packet'')))"

definition transfer ::
    "ext \<Rightarrow> cosmos_router \<Rightarrow> block_info \<Rightarrow> addr \<Rightarrow> string \<Rightarrow> string \<Rightarrow> coin \<Rightarrow> ibc_timeout \<Rightarrow> string option
       \<Rightarrow> app_response chain_proc" where
  "transfer ext router block sender channel_id to_address amt timeout memo =
     thenM (r_execute router block sender (MBank (BankSend ''ibc_bank_lock_module'' [amt])))
     (bindM (reads (\<lambda>s. optional_unwrap_ibc_denom s (c_denom amt) channel_id)) (\<lambda>dnm.
      bindM (lift_result (x_to_json ext (JIcs20 \<lparr>ics_amount = c_amount amt, ics_denom = dnm,
          ics_receiver = to_address, ics_sender = addr_str sender, ics_memo = memo\<rparr>))) (\<lambda>data.
      bindM (send_packet_raw ext ''transfer'' channel_id data timeout) (\<lambda>(seq, r).
        ret (r\<lparr>ar_data := Some (x_encode_transfer ext seq)\<rparr>)))))"

section \<open>The module interface\<close>

definition ibc_execute ::
    "ext \<Rightarrow> cosmos_router \<Rightarrow> block_info \<Rightarrow> addr \<Rightarrow> ibc_msg \<Rightarrow> app_response chain_proc" where
  "ibc_execute ext router block sender msg = (case msg of
      IbcTransfer channel_id to_address amt timeout memo \<Rightarrow>
        transfer ext router block sender channel_id to_address amt timeout memo
    | IbcSendPacket channel_id data timeout \<Rightarrow>
        send_packet ext (''wasm.'' @ addr_str sender) channel_id data timeout
    | IbcCloseChannel channel_id \<Rightarrow>
        close_channel router block (''wasm.'' @ addr_str sender) channel_id True
    | IbcMsgOther \<Rightarrow> fail (StdMsg ''Not implemented on the ibc module''))"

definition ibc_sudo :: "ext \<Rightarrow> cosmos_router \<Rightarrow> block_info \<Rightarrow> relaying_msg \<Rightarrow> app_response chain_proc" where
  "ibc_sudo ext router block msg = (case msg of
      RCreateConnection remote cid counterparty \<Rightarrow> create_connection remote cid counterparty
    | ROpenChannel cid port version order cversion cendpoint \<Rightarrow>
        open_channel router block cid port version order cendpoint cversion
    | RConnectChannel port channel cversion cendpoint \<Rightarrow>
        connect_channel router block port channel cendpoint cversion
    | RCloseChannel port channel init \<Rightarrow> close_channel router block port channel init
    | RSend port channel data timeout \<Rightarrow> send_packet ext port channel data timeout
    | RReceive packet \<Rightarrow> receive_packet ext router block packet
    | RAcknowledge packet ack \<Rightarrow> acknowledge_packet ext router block packet ack
    | RTimeout packet \<Rightarrow> timeout_packet ext router block packet)"

definition ibc_query :: "ext \<Rightarrow> mock_ibc_query \<Rightarrow> binary chain_proc" where
  "ibc_query ext request = in_ibc (case request of
      QCosmWasm (QIbcChannel channel_id port_id) \<Rightarrow>
        bindM (or_panic ''called Option::unwrap() on a None value'' port_id) (\<lambda>port.
        bindM (reads (\<lambda>i. om_get (i_channels i) (port, channel_id))) (\<lambda>c.
          lift_result (x_to_json ext (JChannel (map_option ci_info c)))))
    | QCosmWasm QIbcOther \<Rightarrow> fail (StdMsg ''Query not available'')
    | QSendPacket channel_id port_id seq \<Rightarrow>
        bindM (load ''IbcPacket'' i_send (port_id, channel_id, seq)) (\<lambda>p. lift_result (x_to_json ext (JPacket p)))
    | QConnectedChain connection_id \<Rightarrow>
        bindM (load ''Connection'' i_connections connection_id) (\<lambda>c. lift_result (x_to_json ext (JConnection c)))
    | QChainConnections chain_id \<Rightarrow>
        bindM (reads (\<lambda>i. rev (filter (\<lambda>(k, c). cn_chain c = chain_id) (i_connections i)))) (\<lambda>cs.
          lift_result (x_to_json ext (JConnections cs)))
    | QChannelInfo port_id channel_id \<Rightarrow>
        bindM (load ''ChannelInfo'' i_channels (port_id, channel_id)) (\<lambda>c.
          lift_result (x_to_json ext (JChannelInfo c))))"

end
