(* ===== verification/Bank.thy ===== *)
theory Bank
  imports Ibc_Memo Ext_Model
begin

text \<open>
  The bank keeper (\<open>src/bank.rs\<close>): balances, transfers, minting and burning, supply and
  metadata queries, and the ICS-20 side of IBC transfers.

  \<open>bank_wf\<close> is the representation invariant (ordered map, every balance normalized), kept by
  every operation; \<open>held\<close> is the abstract ledger the operations are specified on.
\<close>

section \<open>Keeper\<close>

definition IBC_LOCK_MODULE_ADDRESS :: string where
  "IBC_LOCK_MODULE_ADDRESS = ''ibc_bank_lock_module''"

definition SUCCESS_BANK_ACK :: binary where
  "SUCCESS_BANK_ACK = [1]"

definition coins_to_string :: "coin list \<Rightarrow> string" where
  "coins_to_string cs = concat (case map show_coin cs of [] \<Rightarrow> [] | x # xs \<Rightarrow> x # map (\<lambda>y. '','' @ y) xs)"

definition set_balance :: "ext \<Rightarrow> addr \<Rightarrow> coin list \<Rightarrow> (bank_state, std_error, unit) proc" where
  "set_balance ext account amt =
     bindM (or_panic ''attempt to add with overflow'' (x_nb_normalize ext amt)) (\<lambda>balance.
       modifies (\<lambda>b. b\<lparr>b_balances := om_insert account balance (b_balances b)\<rparr>))"

definition init_balance :: "ext \<Rightarrow> addr \<Rightarrow> coin list \<Rightarrow> unit chain_proc" where
  "init_balance ext account amt = in_bank (set_balance ext account amt)"

text \<open>The caller passes the storage; both the application's tests and the queries use the root.\<close>

definition set_denom_metadata :: "string \<Rightarrow> denom_metadata \<Rightarrow> unit chain_proc" where
  "set_denom_metadata dnm metadata =
     modifies (\<lambda>s. s\<lparr>ch_metadata := om_insert dnm metadata (ch_metadata s)\<rparr>)"

definition get_balance :: "bank_state \<Rightarrow> addr \<Rightarrow> coin list" where
  "get_balance b a = (case om_get (b_balances b) a of None \<Rightarrow> [] | Some cs \<Rightarrow> cs)"

text \<open>\<open>amount.to_string().parse()\<close> for an \<open>u128\<close> parameter.\<close>

definition to_u128 :: "uint256 \<Rightarrow> uint256 std_result" where
  "to_u128 a = (case (parse_word (show_word a) :: 128 word option) of
      None \<Rightarrow> Inl ParseIntError | Some w \<Rightarrow> Inr (ucast w))"

fun subtotal :: "string \<Rightarrow> uint256 \<Rightarrow> coin list \<Rightarrow> uint256 option" where
  "subtotal dnm acc [] = Some acc"
| "subtotal dnm acc (c # cs) =
     (if c_denom c = dnm
      then (case checked_add acc (c_amount c) of None \<Rightarrow> None | Some acc' \<Rightarrow> subtotal dnm acc' cs)
      else subtotal dnm acc cs)"

fun supply_fold :: "string \<Rightarrow> uint256 \<Rightarrow> coin list list \<Rightarrow> uint256 option" where
  "supply_fold dnm acc [] = Some acc"
| "supply_fold dnm acc (cs # css) = (case subtotal dnm 0 cs of
      None \<Rightarrow> None
    | Some t \<Rightarrow> (case checked_add acc t of None \<Rightarrow> None | Some acc' \<Rightarrow> supply_fold dnm acc' css))"

definition get_supply :: "string \<Rightarrow> (bank_state, std_error, coin) proc" where
  "get_supply dnm =
     bindM (reads (\<lambda>b. supply_fold dnm 0 (map snd (b_balances b)))) (\<lambda>supply.
     bindM (or_panic ''attempt to add with overflow'' supply) (\<lambda>total.
     bindM (lift_result (to_u128 total)) (\<lambda>a. ret \<lparr>c_denom = dnm, c_amount = a\<rparr>)))"

definition normalize_amount :: "coin list \<Rightarrow> coin list std_result" where
  "normalize_amount amt =
     (let res = filter (\<lambda>c. c_amount c \<noteq> 0) amt
      in if res = [] then Inl (StdMsg ''Cannot transfer empty coins amount'') else Inr res)"

definition mint :: "ext \<Rightarrow> addr \<Rightarrow> coin list \<Rightarrow> (bank_state, std_error, unit) proc" where
  "mint ext to_address amt =
     bindM (lift_result (normalize_amount amt)) (\<lambda>amt'.
     bindM (reads (\<lambda>b. get_balance b to_address)) (\<lambda>b.
     bindM (or_panic ''attempt to add with overflow'' (x_nb_add ext b amt')) (\<lambda>b'.
       set_balance ext to_address b')))"

definition burn :: "ext \<Rightarrow> addr \<Rightarrow> coin list \<Rightarrow> (bank_state, std_error, unit) proc" where
  "burn ext from_address amt =
     bindM (lift_result (normalize_amount amt)) (\<lambda>amt'.
     bindM (reads (\<lambda>b. get_balance b from_address)) (\<lambda>a.
     bindM (lift_result (x_nb_sub ext a amt')) (\<lambda>a'.
       set_balance ext from_address a')))"

definition send :: "ext \<Rightarrow> addr \<Rightarrow> addr \<Rightarrow> coin list \<Rightarrow> (bank_state, std_error, unit) proc" where
  "send ext from_address to_address amt =
     thenM (burn ext from_address amt) (mint ext to_address amt)"

section \<open>Module entry points\<close>

definition bank_execute :: "ext \<Rightarrow> addr \<Rightarrow> bank_msg \<Rightarrow> app_response chain_proc" where
  "bank_execute ext sender msg = (case msg of
      BankSend to_address amt \<Rightarrow>
        (let events = [new_event ''transfer'' [(''recipient'', to_address),
               (''sender'', addr_str sender), (''amount'', coins_to_string amt)]]
         in thenM (in_bank (send ext sender (Addr to_address) amt))
              (ret \<lparr>ar_events = events, ar_data = None\<rparr>))
    | BankBurn amt \<Rightarrow> thenM (in_bank (burn ext sender amt)) (ret default_response)
    | BankMsgOther \<Rightarrow> panic ''not implemented: bank message'')"

definition bank_query :: "ext \<Rightarrow> bank_query \<Rightarrow> binary chain_proc" where
  "bank_query ext request = (case request of
      QBalance address dnm \<Rightarrow>
        bindM (lift_result (x_addr_validate ext address)) (\<lambda>addr.
        bindM (reads (\<lambda>s. get_balance (ch_bank s) addr)) (\<lambda>all_amounts.
          lift_result (x_to_json ext (JBalance
            (case List.find (\<lambda>c. c_denom c = dnm) all_amounts of
                Some c \<Rightarrow> c | None \<Rightarrow> \<lparr>c_denom = dnm, c_amount = 0\<rparr>)))))
    | QSupply dnm \<Rightarrow>
        bindM (in_bank (get_supply dnm)) (\<lambda>amt. lift_result (x_to_json ext (JSupply amt)))
    | QDenomMetadata dnm \<Rightarrow>
        bindM (reads (\<lambda>s. om_get (ch_metadata s) dnm)) (\<lambda>m.
          lift_result (x_to_json ext (JDenomMetadata (case m of None \<Rightarrow> default_metadata | Some d \<Rightarrow> d))))
    | QAllDenomMetadata \<Rightarrow>
        bindM (reads (\<lambda>s. map snd (ch_metadata s))) (\<lambda>ms.
          lift_result (x_to_json ext (JAllDenomMetadata ms)))
    | BankQueryOther \<Rightarrow> panic ''not implemented: bank query'')"

definition bank_sudo :: "ext \<Rightarrow> bank_sudo \<Rightarrow> app_response chain_proc" where
  "bank_sudo ext msg = (case msg of
      BankMint to_address amt \<Rightarrow>
        bindM (lift_result (x_addr_validate ext to_address)) (\<lambda>addr.
        thenM (in_bank (mint ext addr amt)) (ret default_response)))"

section \<open>ICS-20\<close>

definition lock_addr :: addr where
  "lock_addr = Addr IBC_LOCK_MODULE_ADDRESS"

text \<open>The escrowed coin of the packet's denomination, if this chain has sent it out before.\<close>

definition locked_coin :: "string \<Rightarrow> chain \<Rightarrow> coin option" where
  "locked_coin dnm s = List.find (\<lambda>c. c_denom c = dnm) (get_balance (ch_bank s) lock_addr)"

definition release_or_mint ::
    "ext \<Rightarrow> coin option \<Rightarrow> string \<Rightarrow> ics20_packet \<Rightarrow> coin list chain_proc" where
  "release_or_mint ext locked dest_channel packet = (case locked of
      Some locked_amount \<Rightarrow>
        (if c_amount locked_amount < ics_amount packet
         then panic ''The ibc locked amount is lower than the packet amount''
         else
           bindM (lift_result (to_u128 (ics_amount packet))) (\<lambda>a.
           bindM (lift_result (x_addr_validate ext (ics_receiver packet))) (\<lambda>receiver.
             (let funds = [\<lparr>c_denom = ics_denom packet, c_amount = a\<rparr>]
              in thenM (in_bank (send ext lock_addr receiver funds)) (ret funds)))))
    | None \<Rightarrow>
        bindM (lift_result (to_u128 (ics_amount packet))) (\<lambda>a.
        bindM (wrap_ibc_denom ext dest_channel (ics_denom packet)) (\<lambda>local_denom.
        bindM (lift_result (x_addr_validate ext (ics_receiver packet))) (\<lambda>receiver.
          (let funds = [\<lparr>c_denom = local_denom, c_amount = a\<rparr>]
           in thenM (in_bank (mint ext receiver funds)) (ret funds))))))"

definition bank_packet_receive ::
    "ext \<Rightarrow> cosmos_router \<Rightarrow> block_info \<Rightarrow> packet_receive_msg \<Rightarrow> ibc_response chain_proc" where
  "bank_packet_receive ext router block request =
     bindM (lift_result (x_parse_ics20 ext (pk_data (prm_packet request)))) (\<lambda>packet0.
     bindM (reads (locked_coin (ics_denom packet0))) (\<lambda>locked.
     bindM (lift_result (parse_ibc_hooks_memo ext (ep_channel (pk_src (prm_packet request))) packet0))
       (\<lambda>(contract_exec, packet).
     bindM (release_or_mint ext locked (ep_channel (pk_dest (prm_packet request))) packet) (\<lambda>funds.
       (let ics20_ack = x_std_ack_binary ext (AckOk SUCCESS_BANK_ACK)
        in case contract_exec of
            Some (sender, contract_addr, msg) \<Rightarrow>
              bindM (lift_result (x_to_json ext (JValue msg))) (\<lambda>payload.
              bindM (r_execute router block sender (MWasm (WasmExecute contract_addr payload funds)))
                (\<lambda>contract_result.
              bindM (lift_result (x_to_json ext (JHookAck (ar_data contract_result) (Some ics20_ack))))
                (\<lambda>ack. ret (RespReceive (ar_events contract_result) (Some ack)))))
          | None \<Rightarrow> ret (RespReceive [] (Some ics20_ack)))))))"

text \<open>The ibc-hooks callback of acknowledgements and timeouts: a sudo call of the contract.\<close>

definition hooks_callback ::
    "ext \<Rightarrow> cosmos_router \<Rightarrow> block_info \<Rightarrow> addr \<Rightarrow> lifecycle \<Rightarrow> event list chain_proc" where
  "hooks_callback ext router block contract lc =
     bindM (lift_result (x_to_json ext (JHookCallback lc))) (\<lambda>payload.
     bindM (r_sudo router block (SudoWasm \<lparr>ws_contract = contract, ws_message = payload\<rparr>))
       (\<lambda>res. ret (ar_events res)))"

definition bank_packet_ack ::
    "ext \<Rightarrow> cosmos_router \<Rightarrow> block_info \<Rightarrow> packet_ack_msg \<Rightarrow> ibc_response chain_proc" where
  "bank_packet_ack ext router block request =
     bindM (lift_result (x_parse_ics20 ext (pk_data (pam_packet request)))) (\<lambda>packet.
       (case parse_ibc_hooks_callback_memo ext packet of
           Inr (Some callback_contract) \<Rightarrow>
             bindM (lift_result (x_parse_hooks_ack ext (pam_ack request))) (\<lambda>(res, ibc_ack).
             bindM (lift_result (x_parse_std_ack ext ibc_ack)) (\<lambda>std_ack.
             bindM (hooks_callback ext router block callback_contract
                 (IbcAckComplete (ep_channel (pk_src (pam_packet request)))
                    (pk_sequence (pam_packet request)) (x_base64 ext (pam_ack request))
                    (std_ack = AckOk SUCCESS_BANK_ACK))) (\<lambda>events.
               ret (RespBasic events))))
         | _ \<Rightarrow> ret (RespBasic [])))"

definition bank_packet_timeout ::
    "ext \<Rightarrow> cosmos_router \<Rightarrow> block_info \<Rightarrow> packet_timeout_msg \<Rightarrow> ibc_response chain_proc" where
  "bank_packet_timeout ext router block request =
     bindM (lift_result (x_parse_ics20 ext (pk_data (ptm_packet request)))) (\<lambda>packet.
     bindM (reads (locked_coin (ics_denom packet))) (\<lambda>locked.
     thenM (case locked of
         None \<Rightarrow> fail (StdMsg (''Funds refund after a timeout, ''
                       @ ''can't timeout a transfer that was not initiated''))
       | Some locked_amount \<Rightarrow>
           (if c_amount locked_amount < ics_amount packet
            then panic ''The ibc locked amount is lower than the packet amount''
            else
              bindM (lift_result (x_addr_validate ext (ics_sender packet))) (\<lambda>receiver.
              bindM (lift_result (to_u128 (ics_amount packet))) (\<lambda>a.
                in_bank (send ext lock_addr receiver [\<lparr>c_denom = ics_denom packet, c_amount = a\<rparr>])))))
       (case parse_ibc_hooks_callback_memo ext packet of
           Inr (Some callback_contract) \<Rightarrow>
             bindM (hooks_callback ext router block callback_contract
                 (IbcTimeoutComplete (ep_channel (pk_src (ptm_packet request)))
                    (pk_sequence (ptm_packet request)))) (\<lambda>events.
               ret (RespBasic events))
         | _ \<Rightarrow> ret (RespBasic []))))"

section \<open>Invariant and abstract ledger\<close>

definition bank_wf :: "bank_state \<Rightarrow> bool" where
  "bank_wf b \<longleftrightarrow> om_wf (b_balances b) \<and> (\<forall>a cs. om_get (b_balances b) a = Some cs \<longrightarrow> normalized cs)"

definition supply_of :: "bank_state \<Rightarrow> string \<Rightarrow> nat" where
  "supply_of b d = om_sum (\<lambda>a cs. amount_of cs d) (b_balances b)"

text \<open>The abstract ledger: how much of a denomination an account holds.\<close>

definition held :: "bank_state \<Rightarrow> addr \<Rightarrow> string \<Rightarrow> nat" where
  "held b a d = amount_of (get_balance b a) d"

lemma normalize_amount_Inr:
  "normalize_amount amt = Inr xs \<longleftrightarrow> xs = filter (\<lambda>c. c_amount c \<noteq> 0) amt \<and> xs \<noteq> []"
  by (auto simp: normalize_amount_def Let_def)

lemma normalize_amount_Inl:
  "normalize_amount amt = Inl e \<longleftrightarrow>
     e = StdMsg ''Cannot transfer empty coins amount'' \<and> (\<forall>c \<in> set amt. c_amount c = 0)"
  by (auto simp: normalize_amount_def Let_def filter_empty_conv)

lemma get_balance_normalized: "bank_wf b \<Longrightarrow> normalized (get_balance b a)"
  by (auto simp: bank_wf_def get_balance_def split: option.splits)

lemma to_u128_Inr: "to_u128 a = Inr w \<longleftrightarrow> unat a < 2 ^ 128 \<and> w = a"
proof -
  have "(ucast (word_of_nat (unat a) :: 128 word) :: uint256) = a" if "unat a < 2 ^ 128"
    using that
    by (simp add: word_unat_eq_iff unsigned_ucast_eq unsigned_of_nat unsigned_take_bit_eq take_bit_nat_eq_self)
  then show ?thesis
    by (auto simp: to_u128_def parse_word_def show_word_def split: if_splits)
qed

lemma to_u128_Inl: "to_u128 a = Inl e \<longleftrightarrow> 2 ^ 128 \<le> unat a \<and> e = ParseIntError"
  by (auto simp: to_u128_def parse_word_def show_word_def split: if_splits)

section \<open>Effect of the operations on the ledger\<close>

lemma set_balance_Ok:
  assumes "nb_laws ext" "set_balance ext a cs b = (Ok u, b')"
  shows "held b' = (held b)(a := amount_of cs)" and "bank_wf b \<Longrightarrow> bank_wf b'"
proof -
  obtain cs' where n: "x_nb_normalize ext cs = Some cs'"
      and b': "b' = b\<lparr>b_balances := om_insert a cs' (b_balances b)\<rparr>"
    using assms(2) by (auto simp: set_balance_def bindM_Ok_iff)
  from nb_normalizeD [OF assms(1) n] have "normalized cs'" "amount_of cs' = amount_of cs" by simp_all
  then show "held b' = (held b)(a := amount_of cs)" "bank_wf b \<Longrightarrow> bank_wf b'"
    by (auto simp: b' held_def get_balance_def bank_wf_def fun_eq_iff split: if_splits)
qed

lemma set_balance_not_Ok: "set_balance ext a cs b = (r, b') \<Longrightarrow> \<not> is_ok r \<Longrightarrow>
    b' = b \<and> (\<exists>p. r = Panic p) \<and> x_nb_normalize ext cs = None"
  by (cases "x_nb_normalize ext cs") (auto simp: set_balance_def)

lemma mint_Ok:
  assumes "nb_laws ext" "bank_wf b" "mint ext a amt b = (Ok u, b')"
  shows "held b' = (held b)(a := (\<lambda>d. held b a d + amount_of amt d))" and "bank_wf b'"
proof -
  obtain b1 where add: "x_nb_add ext (get_balance b a) (filter (\<lambda>c. c_amount c \<noteq> 0) amt) = Some b1"
      and set: "set_balance ext a b1 b = (Ok u, b')"
    using assms(3) by (auto simp: mint_def ok_iffs normalize_amount_Inr)
  have "amount_of b1 = (\<lambda>d. held b a d + amount_of amt d)"
    using nb_addD [OF assms(1) add get_balance_normalized [OF assms(2)]]
    by (auto simp: held_def fun_eq_iff)
  then show "held b' = (held b)(a := (\<lambda>d. held b a d + amount_of amt d))" "bank_wf b'"
    using set_balance_Ok [OF assms(1) set] assms(2) by simp_all
qed

lemma burn_Ok:
  assumes "nb_laws ext" "bank_wf b" "burn ext a amt b = (Ok u, b')"
  shows "held b' = (held b)(a := (\<lambda>d. held b a d - amount_of amt d))"
    and "amount_of amt d \<le> held b a d" and "bank_wf b'" and "\<exists>c \<in> set amt. c_amount c \<noteq> 0"
proof -
  obtain b1 where sub: "x_nb_sub ext (get_balance b a) (filter (\<lambda>c. c_amount c \<noteq> 0) amt) = Inr b1"
      and ne: "filter (\<lambda>c. c_amount c \<noteq> 0) amt \<noteq> []"
      and set: "set_balance ext a b1 b = (Ok u, b')"
    using assms(3) by (auto simp: burn_def ok_iffs normalize_amount_Inr)
  have eq: "amount_of b1 d + amount_of amt d = held b a d" for d
    using nb_subD [OF assms(1) sub get_balance_normalized [OF assms(2)], of d]
    by (simp add: held_def)
  then have "amount_of b1 = (\<lambda>d. held b a d - amount_of amt d)"
    by (intro ext) (metis add_diff_cancel_right')
  then show "held b' = (held b)(a := (\<lambda>d. held b a d - amount_of amt d))" "bank_wf b'"
    using set_balance_Ok [OF assms(1) set] assms(2) by simp_all
  show "amount_of amt d \<le> held b a d" using eq [of d] by simp
  show "\<exists>c \<in> set amt. c_amount c \<noteq> 0" using ne by (auto simp: filter_empty_conv)
qed

lemma send_Ok:
  assumes "nb_laws ext" "bank_wf b" "send ext src dst amt b = (Ok u, b')"
  shows "held b' a d + (if a = src then amount_of amt d else 0)
       = held b a d + (if a = dst then amount_of amt d else 0)"
    and "amount_of amt d \<le> held b src d" and "bank_wf b'"
proof -
  obtain b1 where 1: "burn ext src amt b = (Ok (), b1)" and 2: "mint ext dst amt b1 = (Ok u, b')"
    using assms(3) by (auto simp: send_def ok_iffs)
  note B = burn_Ok [OF assms(1,2) 1]
  note M = mint_Ok [OF assms(1) B(3) 2]
  show "held b' a d + (if a = src then amount_of amt d else 0)
       = held b a d + (if a = dst then amount_of amt d else 0)"
    using B(2) [of d] by (auto simp: B(1) M(1))
  show "amount_of amt d \<le> held b src d" "bank_wf b'" by (fact B(2), fact M(2))
qed

text \<open>\<open>burn\<close> fails without a trace, exactly when nothing is to be moved or the account is short.\<close>

lemma burn_Err_iff:
  assumes "nb_laws ext" "bank_wf b" "\<forall>d. held b a d < 2 ^ 256"
  shows "is_ok (fst (burn ext a amt b)) \<longleftrightarrow>
     (\<exists>c \<in> set amt. c_amount c \<noteq> 0) \<and> (\<forall>d. amount_of amt d \<le> held b a d)"
proof
  assume "is_ok (fst (burn ext a amt b))"
  then obtain u b' where "burn ext a amt b = (Ok u, b')"
    by (cases "burn ext a amt b") (auto simp: is_ok_iff)
  then show "(\<exists>c \<in> set amt. c_amount c \<noteq> 0) \<and> (\<forall>d. amount_of amt d \<le> held b a d)"
    using burn_Ok [OF assms(1,2)] by blast
next
  let ?n = "filter (\<lambda>c. c_amount c \<noteq> 0) amt"
  assume r: "(\<exists>c \<in> set amt. c_amount c \<noteq> 0) \<and> (\<forall>d. amount_of amt d \<le> held b a d)"
  then have n: "normalize_amount amt = Inr ?n" by (auto simp: normalize_amount_Inr filter_empty_conv)
  obtain zs where zs: "x_nb_sub ext (get_balance b a) ?n = Inr zs"
    using nb_sub_complete [OF assms(1) get_balance_normalized [OF assms(2)], where ys = ?n] r
    by (auto simp: held_def)
  have "amount_of zs d \<le> held b a d" for d
    using nb_subD [OF assms(1) zs get_balance_normalized [OF assms(2)], of d] by (simp add: held_def)
  then have "\<forall>d. amount_of zs d < 2 ^ 256" using assms(3) by (meson le_less_trans)
  then obtain ys where "x_nb_normalize ext zs = Some ys" using nb_normalize_total [OF assms(1)] by blast
  then show "is_ok (fst (burn ext a amt b))"
    by (simp add: burn_def n zs bindM_reads set_balance_def)
qed

lemma burn_not_Ok: "burn ext a amt b = (r, b') \<Longrightarrow> \<not> is_ok r \<Longrightarrow> b' = b"
  by (auto simp: burn_def bindM_reads normalize_amount_def Let_def lift_result_def
      dest: set_balance_not_Ok split: if_splits sum.splits)

lemma mint_not_Ok: "mint ext a amt b = (r, b') \<Longrightarrow> \<not> is_ok r \<Longrightarrow>
    b' = b \<and> (\<forall>e. r = Err e \<longrightarrow> (\<forall>c \<in> set amt. c_amount c = 0))"
  by (cases "x_nb_add ext (get_balance b a) (filter (\<lambda>c. c_amount c \<noteq> 0) amt)")
    (auto simp: mint_def bindM_reads normalize_amount_def Let_def lift_result_def filter_empty_conv
      dest: set_balance_not_Ok split: if_splits sum.splits)

lemma send_not_ok_err: "send ext src dst amt b = (Err e, b') \<Longrightarrow> b' = b"
proof -
  assume s: "send ext src dst amt b = (Err e, b')"
  obtain r b1 where 1: "burn ext src amt b = (r, b1)" by fastforce
  show "b' = b"
  proof (cases r)
    case (Ok u)
    with s 1 have "mint ext dst amt b1 = (Err e, b')" by (simp add: send_def thenM_def bindM_def)
    then have "\<forall>c \<in> set amt. c_amount c = 0" using mint_not_Ok by fastforce
    moreover have "\<exists>c \<in> set amt. c_amount c \<noteq> 0"
      using 1 Ok by (auto simp: burn_def ok_iffs normalize_amount_Inr filter_empty_conv)
    ultimately show ?thesis by blast
  qed (use s 1 burn_not_Ok [OF 1] in \<open>auto simp: send_def thenM_def bindM_def\<close>)
qed

text \<open>Supply.\<close>

lemma om_at_held: "om_at (\<lambda>_ cs. amount_of cs d) (b_balances b) a = held b a d"
  by (simp add: om_at_def held_def get_balance_def split: option.splits)

lemma set_balance_supply:
  assumes "nb_laws ext" "bank_wf b" "set_balance ext a cs b = (Ok u, b')"
  shows "supply_of b' d + held b a d = supply_of b d + amount_of cs d"
proof -
  obtain cs' where n: "x_nb_normalize ext cs = Some cs'"
      and b': "b' = b\<lparr>b_balances := om_insert a cs' (b_balances b)\<rparr>"
    using assms(3) by (auto simp: set_balance_def bindM_Ok_iff)
  have "amount_of cs' = amount_of cs" using nb_normalizeD [OF assms(1) n] by simp
  with om_sum_insert [of "b_balances b" "\<lambda>_ cs. amount_of cs d" a cs'] assms(2)
  show ?thesis by (simp add: supply_of_def b' om_at_held bank_wf_def)
qed

lemma set_balance_of_mint:
  assumes "mint ext a amt b = (Ok u, b')" "nb_laws ext" "bank_wf b"
  shows "\<exists>cs. set_balance ext a cs b = (Ok u, b')"
  using assms(1) by (auto simp: mint_def ok_iffs)

lemma set_balance_of_burn:
  assumes "burn ext a amt b = (Ok u, b')"
  shows "\<exists>cs. set_balance ext a cs b = (Ok u, b')"
  using assms by (auto simp: burn_def ok_iffs)

lemma mint_supply:
  assumes "nb_laws ext" "bank_wf b" "mint ext a amt b = (Ok u, b')"
  shows "supply_of b' d = supply_of b d + amount_of amt d"
proof -
  obtain cs where s: "set_balance ext a cs b = (Ok u, b')"
    using set_balance_of_mint assms by blast
  have "amount_of cs d = held b a d + amount_of amt d"
    using mint_Ok(1) [OF assms] set_balance_Ok(1) [OF assms(1) s] by (metis fun_upd_same)
  with set_balance_supply [OF assms(1,2) s, of d] show ?thesis by simp
qed

lemma burn_supply:
  assumes "nb_laws ext" "bank_wf b" "burn ext a amt b = (Ok u, b')"
  shows "supply_of b' d + amount_of amt d = supply_of b d"
proof -
  obtain cs where s: "set_balance ext a cs b = (Ok u, b')"
    using set_balance_of_burn assms by blast
  have "amount_of cs d = held b a d - amount_of amt d"
    using burn_Ok(1) [OF assms] set_balance_Ok(1) [OF assms(1) s] by (metis fun_upd_same)
  with set_balance_supply [OF assms(1,2) s, of d] burn_Ok(2) [OF assms, of d] show ?thesis by simp
qed

lemma send_supply:
  assumes "nb_laws ext" "bank_wf b" "send ext src dst amt b = (Ok u, b')"
  shows "supply_of b' d = supply_of b d"
proof -
  obtain b1 where 1: "burn ext src amt b = (Ok (), b1)" and 2: "mint ext dst amt b1 = (Ok u, b')"
    using assms(3) by (auto simp: send_def ok_iffs)
  show ?thesis
    using burn_supply [OF assms(1,2) 1, of d] mint_supply [OF assms(1) burn_Ok(3) [OF assms(1,2) 1] 2, of d]
    by simp
qed

lemma held_le_supply: "bank_wf b \<Longrightarrow> held b a d \<le> supply_of b d"
  using om_at_le_sum [of "b_balances b" "\<lambda>_ cs. amount_of cs d" a]
  by (simp add: om_at_held bank_wf_def supply_of_def)

lemma subtotal_eq: "unat acc + amount_of cs d < 2 ^ 256 \<Longrightarrow>
    \<exists>t. subtotal d acc cs = Some t \<and> unat t = unat acc + amount_of cs d"
proof (induction cs arbitrary: acc)
  case (Cons c cs)
  show ?case
  proof (cases "c_denom c = d")
    case True
    with Cons.prems obtain acc' where a: "checked_add acc (c_amount c) = Some acc'"
      by (auto simp: checked_add_def)
    from checked_add_Some [OF a] Cons.prems True have "unat acc' + amount_of cs d < 2 ^ 256" by simp
    from Cons.IH [OF this] checked_add_Some [OF a] True a show ?thesis by auto
  next
    case False
    with Cons show ?thesis by simp
  qed
qed simp

lemma supply_fold_eq:
  "unat acc + sum_list (map (\<lambda>cs. amount_of cs d) css) < 2 ^ 256 \<Longrightarrow>
     \<exists>t. supply_fold d acc css = Some t \<and> unat t = unat acc + sum_list (map (\<lambda>cs. amount_of cs d) css)"
proof (induction css arbitrary: acc)
  case (Cons cs css)
  then obtain t where t: "subtotal d 0 cs = Some t" "unat t = amount_of cs d"
    using subtotal_eq [of 0 cs d] by auto
  with Cons.prems obtain acc' where a: "checked_add acc t = Some acc'"
    by (auto simp: checked_add_def)
  from checked_add_Some [OF a] t Cons.prems
  have "unat acc' + sum_list (map (\<lambda>cs. amount_of cs d) css) < 2 ^ 256" by simp
  from Cons.IH [OF this] checked_add_Some [OF a] t a show ?case by auto
qed simp

lemma get_supply_eq:
  assumes "supply_of b d < 2 ^ 256"
  shows "get_supply d b = (if supply_of b d < 2 ^ 128
      then Ok \<lparr>c_denom = d, c_amount = word_of_nat (supply_of b d)\<rparr> else Err ParseIntError, b)"
proof -
  have s: "sum_list (map (\<lambda>cs. amount_of cs d) (map snd (b_balances b))) = supply_of b d"
    by (simp add: supply_of_def om_sum_def case_prod_unfold comp_def)
  with assms obtain t where t: "supply_fold d 0 (map snd (b_balances b)) = Some t"
      "unat t = supply_of b d"
    using supply_fold_eq [of 0 d "map snd (b_balances b)"] by auto
  have "to_u128 t = (if supply_of b d < 2 ^ 128 then Inr (word_of_nat (supply_of b d)) else Inl ParseIntError)"
    using to_u128_Inr [of t t] to_u128_Inl [of t ParseIntError] by (simp flip: t(2))
  then show ?thesis by (simp add: get_supply_def bindM_reads t(1))
qed

section \<open>Properties\<close>

text \<open>
  C9. A transfer moves exactly the coins it names. When \<open>BankMsg::Send\<close> succeeds: the sender
  held the amount; in every denomination the sender is debited and the recipient credited by the
  amount (nothing changes when they are the same account), no other account and no other part of
  the chain changes, the supply of every denomination is conserved, and balances stay normalized.
\<close>
theorem bank_send_conserves:
  assumes "nb_laws ext" "bank_wf (ch_bank s)"
    and "bank_execute ext sender (BankSend recipient amt) s = (Ok res, s')"
  shows "(\<forall>d. amount_of amt d \<le> held (ch_bank s) sender d)
     \<and> (\<forall>a d. held (ch_bank s') a d + (if a = sender then amount_of amt d else 0)
            = held (ch_bank s) a d + (if a = Addr recipient then amount_of amt d else 0))
     \<and> supply_of (ch_bank s') = supply_of (ch_bank s)
     \<and> bank_wf (ch_bank s') \<and> s' = s\<lparr>ch_bank := ch_bank s'\<rparr>"
proof -
  obtain b' where b': "send ext sender (Addr recipient) amt (ch_bank s) = (Ok (), b')"
      "s' = s\<lparr>ch_bank := b'\<rparr>"
    using assms(3) by (auto simp: bank_execute_def Let_def ok_iffs in_bank_def)
  show ?thesis
    using send_Ok [OF assms(1,2) b'(1)] send_supply [OF assms(1,2) b'(1)] b'(2) by auto
qed

definition demo_bank :: chain where
  "demo_bank = empty_chain\<lparr>ch_bank := \<lparr>b_balances =
     [(Addr ''alice'', [\<lparr>c_denom = ''atom'', c_amount = 5\<rparr>, \<lparr>c_denom = ''osmo'', c_amount = 3\<rparr>])]\<rparr>\<rparr>"

lemma demo_bank_wf: "bank_wf (ch_bank demo_bank)"
  by (auto simp: bank_wf_def demo_bank_def om_wf_def normalized_def split: if_splits)

theorem bank_send_conserves_witness:
  "\<exists>res s'. bank_execute demo_ext (Addr ''alice'') (BankSend ''bob'' [\<lparr>c_denom = ''atom'', c_amount = 2\<rparr>]) demo_bank
       = (Ok res, s') \<and> held (ch_bank s') (Addr ''bob'') ''atom'' = 2
     \<and> held (ch_bank s') (Addr ''alice'') ''atom'' = 3"
proof -
  let ?amt = "[\<lparr>c_denom = ''atom'', c_amount = 2 :: uint256\<rparr>]"
  obtain r s' where run: "bank_execute demo_ext (Addr ''alice'') (BankSend ''bob'' ?amt) demo_bank = (r, s')"
    by fastforce
  have "is_ok (fst (bank_execute demo_ext (Addr ''alice'') (BankSend ''bob'' ?amt) demo_bank))"
    by (simp add: bank_execute_def in_bank_def send_def burn_def mint_def set_balance_def proc_defs
        normalize_amount_def get_balance_def demo_bank_def empty_chain_def demo_ext_def
        lift_result_def checked_add_def less_addr_def)
  with run obtain res where ok: "r = Ok res" by (auto simp: is_ok_iff)
  from bank_send_conserves [OF nb_laws_demo demo_bank_wf run [unfolded ok]]
  have *: "held (ch_bank s') a d + (if a = Addr ''alice'' then amount_of ?amt d else 0)
         = held (ch_bank demo_bank) a d + (if a = Addr ''bob'' then amount_of ?amt d else 0)" for a d
    by blast
  have "held (ch_bank demo_bank) (Addr ''alice'') ''atom'' = 5" "held (ch_bank demo_bank) (Addr ''bob'') ''atom'' = 0"
    by (simp_all add: held_def get_balance_def demo_bank_def)
  with *[of "Addr ''bob''" "''atom''"] *[of "Addr ''alice''" "''atom''"] run ok show ?thesis by auto
qed

text \<open>
  Burning is all or nothing. \<open>BankMsg::Burn\<close> succeeds exactly when some coin of the message is
  not zero and the sender holds at least the total of the message in every denomination; then the
  sender and the supply lose exactly that total. Otherwise the chain is unchanged.
\<close>
theorem bank_burn_exact:
  assumes "nb_laws ext" "bank_wf (ch_bank s)" "\<forall>d. held (ch_bank s) sender d < 2 ^ 256"
    and "bank_execute ext sender (BankBurn amt) s = (r, s')"
  shows "(is_ok r \<longleftrightarrow> (\<exists>c \<in> set amt. c_amount c \<noteq> 0) \<and> (\<forall>d. amount_of amt d \<le> held (ch_bank s) sender d))
     \<and> (if is_ok r
        then held (ch_bank s') = (held (ch_bank s))(sender := (\<lambda>d. held (ch_bank s) sender d - amount_of amt d))
           \<and> (\<forall>d. supply_of (ch_bank s') d + amount_of amt d = supply_of (ch_bank s) d)
           \<and> bank_wf (ch_bank s')
        else s' = s)"
proof -
  obtain q b' where b: "burn ext sender amt (ch_bank s) = (q, b')" by fastforce
  have ok: "is_ok r = is_ok q" "ch_bank s' = b'" "\<not> is_ok q \<Longrightarrow> s' = s"
    using assms(4) b burn_not_Ok [OF b]
    by (auto simp: bank_execute_def in_bank_def thenM_def bindM_def zoom_def split: outcome.splits)
  have iff: "is_ok q \<longleftrightarrow> (\<exists>c \<in> set amt. c_amount c \<noteq> 0) \<and> (\<forall>d. amount_of amt d \<le> held (ch_bank s) sender d)"
    using burn_Err_iff [OF assms(1-3), of amt] b by simp
  show ?thesis
  proof (cases "is_ok q")
    case True
    then obtain u where u: "burn ext sender amt (ch_bank s) = (Ok u, b')" using b by (auto simp: is_ok_iff)
    from burn_Ok [OF assms(1,2) u] burn_supply [OF assms(1,2) u] iff ok True show ?thesis by auto
  next
    case False
    with ok iff show ?thesis by auto
  qed
qed

theorem bank_burn_exact_witness:
  "\<exists>r s' r2. bank_execute demo_ext (Addr ''alice'') (BankBurn [\<lparr>c_denom = ''atom'', c_amount = 2\<rparr>]) demo_bank
       = (r, s') \<and> is_ok r \<and> held (ch_bank s') (Addr ''alice'') ''atom'' = 3
     \<and> bank_execute demo_ext (Addr ''alice'') (BankBurn [\<lparr>c_denom = ''atom'', c_amount = 9\<rparr>]) demo_bank
       = (r2, demo_bank) \<and> \<not> is_ok r2"
proof -
  let ?amt = "\<lambda>n. [\<lparr>c_denom = ''atom'', c_amount = n :: uint256\<rparr>]"
  have h: "held (ch_bank demo_bank) (Addr ''alice'') d
      = (if d = ''atom'' then 5 else if d = ''osmo'' then 3 else 0)" for d
    by (simp add: held_def get_balance_def demo_bank_def)
  then have lt: "\<forall>d. held (ch_bank demo_bank) (Addr ''alice'') d < 2 ^ 256" by simp
  obtain r s' where run: "bank_execute demo_ext (Addr ''alice'') (BankBurn (?amt 2)) demo_bank = (r, s')"
    by fastforce
  obtain r2 s2 where run2: "bank_execute demo_ext (Addr ''alice'') (BankBurn (?amt 9)) demo_bank = (r2, s2)"
    by fastforce
  note A = bank_burn_exact [OF nb_laws_demo demo_bank_wf lt run]
  note B = bank_burn_exact [OF nb_laws_demo demo_bank_wf lt run2]
  have "\<forall>d. amount_of (?amt 2) d \<le> held (ch_bank demo_bank) (Addr ''alice'') d" by (simp add: h)
  then have a: "is_ok r" "held (ch_bank s') (Addr ''alice'') ''atom'' = 3"
    using A by (simp_all add: h fun_eq_iff)
  have "\<not> amount_of (?amt 9) ''atom'' \<le> held (ch_bank demo_bank) (Addr ''alice'') ''atom''" by (simp add: h)
  then have "\<not> is_ok r2" using B by blast
  with a B run run2 show ?thesis by auto
qed

text \<open>
  A failed bank message leaves no trace: when \<open>Send\<close>, \<open>Burn\<close> or the privileged \<open>Mint\<close> returns an
  error, the chain is exactly what it was (for a transfer too, although it debits the sender
  before it credits the recipient, outside any write cache).
\<close>
theorem bank_error_unchanged:
  "(bank_execute ext sender msg s = (Err e, s') \<longrightarrow> s' = s)
   \<and> (bank_sudo ext smsg s = (Err e, s') \<longrightarrow> s' = s)"
proof (intro conjI impI)
  assume "bank_execute ext sender msg s = (Err e, s')"
  then show "s' = s"
    by (cases msg) (auto simp: bank_execute_def Let_def in_bank_def thenM_def bindM_def zoom_def
        dest: send_not_ok_err burn_not_Ok split: prod.splits outcome.splits)
next
  assume "bank_sudo ext smsg s = (Err e, s')"
  then show "s' = s"
    by (cases smsg) (auto simp: bank_sudo_def in_bank_def thenM_def bindM_def zoom_def lift_result_def
        dest: mint_not_Ok split: prod.splits outcome.splits sum.splits)
qed

theorem bank_error_unchanged_witness:
  "\<exists>e. bank_execute demo_ext (Addr ''alice'') (BankSend ''bob'' [\<lparr>c_denom = ''atom'', c_amount = 1\<rparr>]) empty_chain
     = (Err e, empty_chain)"
proof -
  obtain r s' where 1: "bank_execute demo_ext (Addr ''alice'') (BankSend ''bob'' [\<lparr>c_denom = ''atom'', c_amount = 1\<rparr>])
      empty_chain = (r, s')" by fastforce
  moreover from this have "\<exists>e. r = Err e"
    by (auto simp: bank_execute_def in_bank_def send_def burn_def empty_chain_def get_balance_def demo_ext_def proc_defs
        normalize_amount_def Let_def)
  ultimately show ?thesis using conjunct1 [OF bank_error_unchanged, THEN mp] by blast
qed

text \<open>
  The supply query is exact up to 128 bits. For balances that sum to less than 2^256, the
  query for a denomination answers with the sum over all accounts if that sum is below 2^128
  and fails with an integer parse error if it is not (the code renders the 256-bit total and
  parses it as an \<open>u128\<close>); the chain is unchanged.
\<close>
theorem supply_query_exact:
  assumes "supply_of (ch_bank s) d < 2 ^ 256"
  shows "bank_query ext (QSupply d) s =
     (if supply_of (ch_bank s) d < 2 ^ 128
      then (case x_to_json ext (JSupply \<lparr>c_denom = d, c_amount = word_of_nat (supply_of (ch_bank s) d)\<rparr>) of
              Inl e \<Rightarrow> Err e | Inr b \<Rightarrow> Ok b)
      else Err ParseIntError, s)"
  by (simp add: bank_query_def in_bank_def bindM_def zoom_def get_supply_eq [OF assms] lift_result_def
      split: sum.split)

theorem supply_query_exact_witness:
  "bank_query demo_ext (QSupply ''atom'') (demo_bank\<lparr>ch_bank := \<lparr>b_balances =
       [(Addr ''a'', [\<lparr>c_denom = ''atom'', c_amount = 2 ^ 127\<rparr>]),
        (Addr ''b'', [\<lparr>c_denom = ''atom'', c_amount = 2 ^ 127\<rparr>])]\<rparr>\<rparr>)
     = (Err ParseIntError, demo_bank\<lparr>ch_bank := \<lparr>b_balances =
       [(Addr ''a'', [\<lparr>c_denom = ''atom'', c_amount = 2 ^ 127\<rparr>]),
        (Addr ''b'', [\<lparr>c_denom = ''atom'', c_amount = 2 ^ 127\<rparr>])]\<rparr>\<rparr>)"
  by (subst supply_query_exact) (simp_all add: supply_of_def om_sum_def)

lemma parse_hooks_no_memo: "ics_memo packet = None \<Longrightarrow> parse_ibc_hooks_memo ext ch packet = Inr (None, packet)"
  by (simp add: parse_ibc_hooks_memo_def)

lemma locked_coin_Some:
  assumes "bank_wf (ch_bank s)" "locked_coin d s = Some c"
  shows "c_denom c = d" "unat (c_amount c) = held (ch_bank s) lock_addr d"
  using normalized_find [OF get_balance_normalized [OF assms(1), of lock_addr], of d] assms(2)
  by (auto simp: locked_coin_def held_def)

lemma release_or_mint_Some:
  assumes "release_or_mint ext (Some c) ch packet s = (Ok funds, s')"
  shows "\<exists>receiver b'. x_addr_validate ext (ics_receiver packet) = Inr receiver
     \<and> funds = [\<lparr>c_denom = ics_denom packet, c_amount = ics_amount packet\<rparr>]
     \<and> send ext lock_addr receiver funds (ch_bank s) = (Ok (), b') \<and> s' = s\<lparr>ch_bank := b'\<rparr>
     \<and> unat (ics_amount packet) < 2 ^ 128 \<and> ics_amount packet \<le> c_amount c"
  using assms
  by (auto simp: release_or_mint_def ok_iffs Let_def in_bank_def to_u128_Inr not_less split: if_splits)

lemma release_or_mint_None:
  assumes "release_or_mint ext None ch packet s = (Ok funds, s')"
  shows "\<exists>receiver b' w. x_addr_validate ext (ics_receiver packet) = Inr receiver
     \<and> w = wrap_ibc_denom_query ext ch (ics_denom packet)
     \<and> funds = [\<lparr>c_denom = w, c_amount = ics_amount packet\<rparr>]
     \<and> mint ext receiver funds (ch_bank s) = (Ok (), b')
     \<and> s' = s\<lparr>ch_bank := b', ch_ibc_denoms := om_insert w
          \<lparr>id_channel = ch, id_original = ics_denom packet\<rparr> (ch_ibc_denoms s)\<rparr>"
  using assms
  by (auto simp: release_or_mint_def ok_iffs Let_def in_bank_def to_u128_Inr wrap_ibc_denom_def)

text \<open>
  Receiving an ICS-20 packet (without a hook memo) either releases escrow or mints a voucher.
  If the escrow account holds the packet's denomination, exactly the packet's amount moves from
  escrow to the receiver, in the original denomination, and no supply changes; otherwise the
  amount is minted to the receiver in the denomination wrapped for the receiving channel, no
  other supply changes, and the wrapped name is recorded.
\<close>
theorem ics20_receive_exact:
  assumes "nb_laws ext" "bank_wf (ch_bank s)"
    and "x_parse_ics20 ext (pk_data (prm_packet m)) = Inr p" "ics_memo p = None"
    and "x_addr_validate ext (ics_receiver p) = Inr rcv"
    and "bank_packet_receive ext router block m s = (Ok res, s')"
  shows "(if \<exists>c \<in> set (get_balance (ch_bank s) lock_addr). c_denom c = ics_denom p
      then unat (ics_amount p) \<le> held (ch_bank s) lock_addr (ics_denom p)
        \<and> supply_of (ch_bank s') = supply_of (ch_bank s)
        \<and> (rcv \<noteq> lock_addr \<longrightarrow>
             held (ch_bank s') rcv (ics_denom p) = held (ch_bank s) rcv (ics_denom p) + unat (ics_amount p)
           \<and> held (ch_bank s') lock_addr (ics_denom p) + unat (ics_amount p)
               = held (ch_bank s) lock_addr (ics_denom p))
        \<and> s' = s\<lparr>ch_bank := ch_bank s'\<rparr>
      else (let w = wrap_ibc_denom_query ext (ep_channel (pk_dest (prm_packet m))) (ics_denom p)
        in held (ch_bank s') rcv w = held (ch_bank s) rcv w + unat (ics_amount p)
         \<and> supply_of (ch_bank s') = (supply_of (ch_bank s))(w := supply_of (ch_bank s) w + unat (ics_amount p))
         \<and> optional_unwrap_ibc_denom s' w (ep_channel (pk_dest (prm_packet m))) = ics_denom p))"
proof -
  obtain funds where rel: "release_or_mint ext (locked_coin (ics_denom p) s)
      (ep_channel (pk_dest (prm_packet m))) p s = (Ok funds, s')"
    using assms(3,4,6)
    by (auto simp: bank_packet_receive_def ok_iffs parse_hooks_no_memo Let_def)
  have found: "(\<exists>c \<in> set (get_balance (ch_bank s) lock_addr). c_denom c = ics_denom p)
      \<longleftrightarrow> locked_coin (ics_denom p) s \<noteq> None"
    by (auto simp: locked_coin_def find_None_iff)
  show ?thesis
  proof (cases "locked_coin (ics_denom p) s")
    case (Some c)
    let ?f = "[\<lparr>c_denom = ics_denom p, c_amount = ics_amount p\<rparr>]"
    from release_or_mint_Some [OF rel [unfolded Some]] assms(5) obtain b' where
        b: "send ext lock_addr rcv ?f (ch_bank s) = (Ok (), b')" and s': "s' = s\<lparr>ch_bank := b'\<rparr>"
      by auto
    note S = send_Ok [OF assms(1,2) b]
    have "held (ch_bank s') rcv (ics_denom p) = held (ch_bank s) rcv (ics_denom p) + unat (ics_amount p)
        \<and> held (ch_bank s') lock_addr (ics_denom p) + unat (ics_amount p) = held (ch_bank s) lock_addr (ics_denom p)"
      if "rcv \<noteq> lock_addr"
      using S(1) [of rcv "ics_denom p"] S(1) [of lock_addr "ics_denom p"] that s' by simp
    moreover have "unat (ics_amount p) \<le> held (ch_bank s) lock_addr (ics_denom p)"
      using S(2) [of "ics_denom p"] by simp
    moreover have "supply_of (ch_bank s') = supply_of (ch_bank s)"
      using send_supply [OF assms(1,2) b] s' by auto
    ultimately show ?thesis using s' found Some by auto
  next
    case None
    from release_or_mint_None [OF rel [unfolded None]] assms(5) obtain b' w where
        w: "w = wrap_ibc_denom_query ext (ep_channel (pk_dest (prm_packet m))) (ics_denom p)"
      and b: "mint ext rcv [\<lparr>c_denom = w, c_amount = ics_amount p\<rparr>] (ch_bank s) = (Ok (), b')"
      and s': "s' = s\<lparr>ch_bank := b', ch_ibc_denoms := om_insert w
          \<lparr>id_channel = ep_channel (pk_dest (prm_packet m)), id_original = ics_denom p\<rparr> (ch_ibc_denoms s)\<rparr>"
      by auto
    have "held (ch_bank s') rcv w = held (ch_bank s) rcv w + unat (ics_amount p)"
      using mint_Ok(1) [OF assms(1,2) b] s' by simp
    moreover have "supply_of (ch_bank s') = (supply_of (ch_bank s))(w := supply_of (ch_bank s) w + unat (ics_amount p))"
      using mint_supply [OF assms(1,2) b] s' by (auto simp: fun_eq_iff)
    moreover have "optional_unwrap_ibc_denom s' w (ep_channel (pk_dest (prm_packet m))) = ics_denom p"
      by (simp add: s' optional_unwrap_ibc_denom_def)
    ultimately show ?thesis using found None by (simp flip: w)
  qed
qed

definition demo_ics20 :: ics20_packet where
  "demo_ics20 = \<lparr>ics_amount = 4, ics_denom = ''atom'', ics_receiver = ''bob'', ics_sender = ''carol'',
     ics_memo = None\<rparr>"

definition ics20_ext :: ext where
  "ics20_ext = demo_ext\<lparr>x_parse_ics20 := (\<lambda>b. Inr demo_ics20)\<rparr>"

lemma nb_laws_ics20 [simp]: "nb_laws ics20_ext"
  by (subst nb_laws_cong [where f = demo_ext]) (simp_all add: ics20_ext_def)

definition demo_receive :: "string \<Rightarrow> packet_receive_msg" where
  "demo_receive channel = \<lparr>prm_packet = \<lparr>pk_data = [], pk_src = \<lparr>ep_port = ''transfer'', ep_channel = ''channel-9''\<rparr>,
     pk_dest = \<lparr>ep_port = ''transfer'', ep_channel = channel\<rparr>, pk_sequence = 1,
     pk_timeout = \<lparr>to_block = None, to_timestamp = None\<rparr>\<rparr>, prm_relayer = Addr ''relayer''\<rparr>"

definition demo_time :: block_info where
  "demo_time = \<lparr>bl_height = 1, bl_time = 0, bl_chain_id = ''demo''\<rparr>"

theorem ics20_receive_exact_witness:
  "\<exists>res s'. bank_packet_receive ics20_ext mock_router demo_time (demo_receive ''channel-0'') demo_bank = (Ok res, s')
     \<and> supply_of (ch_bank s') (wrap_ibc_denom_query ics20_ext ''channel-0'' ''atom'') = 4"
proof -
  obtain r s' where run: "bank_packet_receive ics20_ext mock_router demo_time (demo_receive ''channel-0'') demo_bank = (r, s')"
    by fastforce
  have "is_ok (fst (bank_packet_receive ics20_ext mock_router demo_time (demo_receive ''channel-0'') demo_bank))"
    by (simp add: bank_packet_receive_def demo_receive_def ics20_ext_def demo_ext_def demo_ics20_def
        parse_ibc_hooks_memo_def release_or_mint_def locked_coin_def lock_addr_def get_balance_def
        demo_bank_def empty_chain_def in_bank_def mint_def set_balance_def proc_defs lift_result_def
        normalize_amount_def wrap_ibc_denom_def to_u128_def Let_def IBC_LOCK_MODULE_ADDRESS_def
        parse_word_show parse_word_def show_word_def)
  with run obtain res where ok: "r = Ok res" by (auto simp: is_ok_iff)
  have nl: "\<not> (\<exists>c \<in> set (get_balance (ch_bank demo_bank) lock_addr). c_denom c = ics_denom demo_ics20)"
    by (simp add: get_balance_def demo_bank_def lock_addr_def IBC_LOCK_MODULE_ADDRESS_def)
  have p: "x_parse_ics20 ics20_ext (pk_data (prm_packet (demo_receive ''channel-0''))) = Inr demo_ics20"
    "ics_memo demo_ics20 = None" "x_addr_validate ics20_ext (ics_receiver demo_ics20) = Inr (Addr ''bob'')"
    by (simp_all add: ics20_ext_def demo_ics20_def demo_ext_def)
  have z: "supply_of (ch_bank demo_bank) (wrap_ibc_denom_query ics20_ext ''channel-0'' ''atom'') = 0"
    by (simp add: supply_of_def om_sum_def demo_bank_def wrap_ibc_denom_query_def)
  from ics20_receive_exact [OF nb_laws_ics20 demo_bank_wf p run [unfolded ok]] nl z run ok
  show ?thesis by (auto simp: Let_def demo_ics20_def demo_receive_def)
qed

text \<open>
  The escrow is not tied to a channel. A comment in the receive handler says the escrowed
  denomination is recognized by having been "sent through this channel"; the code looks at the
  balance of one module account only, so a packet that arrives on \<^emph>\<open>any\<close> other channel releases
  the same escrow: the outcome and the resulting chain do not depend on the channels of the packet.
\<close>
theorem ics20_release_ignores_channel:
  assumes "x_parse_ics20 ext (pk_data (prm_packet m)) = Inr p" "ics_memo p = None"
    and "x_parse_ics20 ext (pk_data (prm_packet m')) = Inr p"
    and "\<exists>c \<in> set (get_balance (ch_bank s) lock_addr). c_denom c = ics_denom p"
  shows "bank_packet_receive ext router block m s = bank_packet_receive ext router block m' s"
proof -
  obtain c where "locked_coin (ics_denom p) s = Some c"
    using assms(4) by (cases "locked_coin (ics_denom p) s") (auto simp: locked_coin_def find_None_iff)
  then show ?thesis
    by (simp add: bank_packet_receive_def assms bindM_reads parse_hooks_no_memo release_or_mint_def bindM_def)
qed

theorem ics20_release_ignores_channel_witness:
  "bank_packet_receive ics20_ext mock_router demo_time (demo_receive ''channel-0'')
       (demo_bank\<lparr>ch_bank := \<lparr>b_balances = [(lock_addr, [\<lparr>c_denom = ''atom'', c_amount = 7\<rparr>])]\<rparr>\<rparr>)
   = bank_packet_receive ics20_ext mock_router demo_time (demo_receive ''channel-1'')
       (demo_bank\<lparr>ch_bank := \<lparr>b_balances = [(lock_addr, [\<lparr>c_denom = ''atom'', c_amount = 7\<rparr>])]\<rparr>\<rparr>)"
  by (rule ics20_release_ignores_channel [where p = demo_ics20])
    (simp_all add: ics20_ext_def demo_ics20_def demo_receive_def get_balance_def)

end
