(* ===== verification/Staking.thy ===== *)
theory Staking
  imports Bank
begin

text \<open>
  The staking and distribution keepers (\<open>src/staking.rs\<close>): validators, delegations with
  fractional shares, time-based rewards, slashing, the unbonding queue, reward withdrawal.

  A store the code reads with \<open>may_load\<close> and writes with \<open>save\<close> is read and written at the same
  place here; decimal arithmetic that overflows panics, as in the code.
\<close>

section \<open>Parameters and rewards\<close>

definition BONDED_DENOM :: string where "BONDED_DENOM = ''TOKEN''"

definition YEAR :: u64 where "YEAR = 60 * 60 * 24 * 365"

definition default_staking_info :: staking_info where
  "default_staking_info = \<lparr>si_bonded_denom = BONDED_DENOM, si_unbonding_time = 60,
     si_apr = Decimal (10 ^ 17)\<rparr>"

definition staking_module_addr :: addr where
  "staking_module_addr = Addr ''staking_module''"

definition default_shares :: shares where
  "default_shares = \<lparr>sh_stake = dec_zero, sh_rewards = dec_zero\<rparr>"

definition new_validator_info :: "timestamp \<Rightarrow> validator_info" where
  "new_validator_info block_time = \<lparr>vi_stakers = [], vi_stake = 0, vi_last = block_time\<rparr>"

definition share_of_rewards :: "ext \<Rightarrow> shares \<Rightarrow> validator_info \<Rightarrow> decimal \<Rightarrow> decimal option" where
  "share_of_rewards ext sh vi rewards =
     (if vi_stake vi = 0 then Some dec_zero
      else Option.bind (x_dec_mul ext rewards (sh_stake sh)) (\<lambda>p. x_dec_div_uint ext p (vi_stake vi)))"

text \<open>\<open>None\<close>: the time runs backwards or the arithmetic overflows; the code panics.\<close>

definition calculate_rewards ::
    "ext \<Rightarrow> timestamp \<Rightarrow> timestamp \<Rightarrow> decimal \<Rightarrow> decimal \<Rightarrow> uint256 \<Rightarrow> decimal option" where
  "calculate_rewards ext current_time since interest_rate validator_commission stake =
     Option.bind (x_minus_seconds ext current_time (x_seconds ext since)) (\<lambda>diff.
     Option.bind (x_dec_ratio ext stake) (\<lambda>stake_dec.
     Option.bind (x_dec_mul ext stake_dec interest_rate) (\<lambda>a.
     Option.bind (x_dec_ratio ext (ucast (x_seconds ext diff))) (\<lambda>time_dec.
     Option.bind (x_dec_mul ext a time_dec) (\<lambda>b.
     Option.bind (x_dec_ratio ext (ucast YEAR)) (\<lambda>year_dec.
     Option.bind (x_dec_div ext b year_dec) (\<lambda>reward.
     Option.bind (x_dec_mul ext reward validator_commission) (\<lambda>commission.
       dec_sub reward commission))))))))"

definition get_staking_info :: "staking_state \<Rightarrow> staking_info" where
  "get_staking_info st = (case st_info st of None \<Rightarrow> default_staking_info | Some i \<Rightarrow> i)"

type_synonym 'a staking_proc = "(staking_state, std_error, 'a) proc"

definition staking_setup :: "staking_info \<Rightarrow> unit chain_proc" where
  "staking_setup info = in_staking (modifies (\<lambda>st. st\<lparr>st_info := Some info\<rparr>))"

definition add_validator :: "block_info \<Rightarrow> validator \<Rightarrow> unit chain_proc" where
  "add_validator block v = in_staking (
     bindM (reads (\<lambda>st. om_get (st_validator_map st) (v_address v))) (\<lambda>old.
     if old \<noteq> None
     then fail (StdMsg (''Cannot add validator '' @ v_address v
                 @ '', since a validator with that address already exists''))
     else modifies (\<lambda>st. st\<lparr>
            st_validator_map := om_insert (v_address v) v (st_validator_map st),
            st_validators := st_validators st @ [v],
            st_validator_info :=
              om_insert (v_address v) (new_validator_info (bl_time block)) (st_validator_info st)\<rparr>)))"

definition get_rewards_from_validator ::
    "ext \<Rightarrow> block_info \<Rightarrow> shares \<Rightarrow> validator \<Rightarrow> validator_info \<Rightarrow> coin staking_proc" where
  "get_rewards_from_validator ext block sh v vi =
     bindM (reads get_staking_info) (\<lambda>info.
     bindM (or_panic ''reward arithmetic'' (calculate_rewards ext (bl_time block) (vi_last vi)
              (si_apr info) (v_commission v) (vi_stake vi))) (\<lambda>new_rewards.
     bindM (or_panic ''reward arithmetic'' (Option.bind (share_of_rewards ext sh vi new_rewards)
              (\<lambda>share. Option.bind (dec_add (sh_rewards sh) share) (\<lambda>r. x_mul_floor ext 1 r)))) (\<lambda>a.
       ret \<lparr>c_denom = si_bonded_denom info, c_amount = a\<rparr>)))"

definition get_rewards_internal ::
    "ext \<Rightarrow> block_info \<Rightarrow> addr \<Rightarrow> string \<Rightarrow> coin option staking_proc" where
  "get_rewards_internal ext block delegator v =
     bindM (reads (\<lambda>st. om_get (st_validator_map st) v)) (\<lambda>vo.
     case vo of
       None \<Rightarrow> fail (StdMsg (''validator '' @ v @ '' not found''))
     | Some validator_obj \<Rightarrow>
         bindM (reads (\<lambda>st. om_get (st_stakes st) (delegator, v))) (\<lambda>sh.
         case sh of
           None \<Rightarrow> ret None
         | Some s \<Rightarrow>
             bindM (load ''ValidatorInfo'' st_validator_info v) (\<lambda>vi.
               mapM_ok Some (get_rewards_from_validator ext block s validator_obj vi))))"

text \<open>One staker's entry when a validator's rewards are brought up to date.\<close>

definition credit_rewards ::
    "ext \<Rightarrow> string \<Rightarrow> validator_info \<Rightarrow> decimal \<Rightarrow> addr \<Rightarrow> unit staking_proc" where
  "credit_rewards ext v vi new_rewards staker =
     bindM (reads (\<lambda>st. om_get (st_stakes st) (staker, v))) (\<lambda>sh.
     bindM (or_panic ''all stakers in validator_info should exist'' sh) (\<lambda>s.
     bindM (or_panic ''reward arithmetic'' (Option.bind (share_of_rewards ext s vi new_rewards)
              (\<lambda>share. dec_add (sh_rewards s) share))) (\<lambda>r.
       modifies (\<lambda>st. st\<lparr>st_stakes := om_insert (staker, v) (s\<lparr>sh_rewards := r\<rparr>) (st_stakes st)\<rparr>))))"

definition update_rewards :: "ext \<Rightarrow> block_info \<Rightarrow> string \<Rightarrow> unit staking_proc" where
  "update_rewards ext block v =
     bindM (reads get_staking_info) (\<lambda>info.
     bindM (reads (\<lambda>st. om_get (st_validator_info st) v)) (\<lambda>vio.
     bindM (of_option (StdMsg ''validator does not exist'') vio) (\<lambda>vi.
     bindM (load ''Validator'' st_validator_map v) (\<lambda>validator_obj.
     if bl_time block \<le> vi_last vi then ret ()
     else
       bindM (or_panic ''reward arithmetic'' (calculate_rewards ext (bl_time block) (vi_last vi)
                (si_apr info) (v_commission validator_obj) (vi_stake vi))) (\<lambda>new_rewards.
       let vi' = vi\<lparr>vi_last := bl_time block\<rparr>
       in thenM (modifies (\<lambda>st. st\<lparr>st_validator_info := om_insert v vi' (st_validator_info st)\<rparr>))
            (if new_rewards = dec_zero then ret ()
             else for_each (credit_rewards ext (v_address validator_obj) vi' new_rewards)
                    (vi_stakers vi')))))))"

definition get_stake :: "ext \<Rightarrow> addr \<Rightarrow> string \<Rightarrow> coin option staking_proc" where
  "get_stake ext account v =
     bindM (reads (\<lambda>st. om_get (st_stakes st) (account, v))) (\<lambda>sh.
     bindM (reads get_staking_info) (\<lambda>info.
     case sh of
       None \<Rightarrow> ret None
     | Some s \<Rightarrow> bindM (or_panic ''stake arithmetic'' (x_mul_floor ext 1 (sh_stake s))) (\<lambda>a.
         ret (Some \<lparr>c_denom = si_bonded_denom info, c_amount = a\<rparr>))))"

section \<open>Changing stakes\<close>

definition validate_denom :: "coin \<Rightarrow> unit staking_proc" where
  "validate_denom amt =
     bindM (reads get_staking_info) (\<lambda>info.
       guard (c_denom amt = si_bonded_denom info)
         (StdMsg (''cannot delegate coins of denominator '' @ c_denom amt @ '', only of ''
                  @ si_bonded_denom info)))"

definition validate_percentage :: "decimal \<Rightarrow> unit staking_proc" where
  "validate_percentage p = guard (p \<le> dec_one) (StdMsg ''expected percentage'')"

definition update_stake ::
    "ext \<Rightarrow> block_info \<Rightarrow> addr \<Rightarrow> string \<Rightarrow> uint256 \<Rightarrow> bool \<Rightarrow> unit staking_proc" where
  "update_stake ext block delegator v amt sub =
     thenM (update_rewards ext block v)
     (bindM (reads (\<lambda>st. om_get (st_validator_info st) v)) (\<lambda>vio.
      bindM (reads (\<lambda>st. om_get (st_stakes st) (delegator, v))) (\<lambda>sho.
      let vi = (case vio of None \<Rightarrow> new_validator_info (bl_time block) | Some i \<Rightarrow> i)
      in bindM (if sub then of_option (StdMsg ''no delegation for (address, validator) tuple'') sho
                else ret (case sho of None \<Rightarrow> default_shares | Some s \<Rightarrow> s)) (\<lambda>sh.
      bindM (or_panic ''stake arithmetic'' (x_dec_ratio ext amt)) (\<lambda>amount_dec.
      bindM (if sub
         then (if sh_stake sh < amount_dec then fail (StdMsg ''invalid shares amount'')
               else bindM (or_panic ''stake arithmetic'' (dec_sub (sh_stake sh) amount_dec)) (\<lambda>s.
                    bindM (of_option OverflowError (checked_sub (vi_stake vi) amt)) (\<lambda>t. ret (s, t))))
         else bindM (or_panic ''stake arithmetic'' (dec_add (sh_stake sh) amount_dec)) (\<lambda>s.
              bindM (of_option OverflowError (checked_add (vi_stake vi) amt)) (\<lambda>t. ret (s, t))))
        (\<lambda>(s, t).
      modifies (\<lambda>st. st\<lparr>
        st_stakes := (if s = dec_zero then om_remove (delegator, v) (st_stakes st)
                      else om_insert (delegator, v) (sh\<lparr>sh_stake := s\<rparr>) (st_stakes st)),
        st_validator_info := om_insert v (vi\<lparr>vi_stake := t,
          vi_stakers := (if s = dec_zero then os_remove delegator (vi_stakers vi)
                         else os_insert delegator (vi_stakers vi))\<rparr>) (st_validator_info st)\<rparr>)))))))"

definition add_stake :: "ext \<Rightarrow> block_info \<Rightarrow> addr \<Rightarrow> string \<Rightarrow> coin \<Rightarrow> unit staking_proc" where
  "add_stake ext block to_address v amt =
     thenM (validate_denom amt) (update_stake ext block to_address v (c_amount amt) False)"

definition remove_stake :: "ext \<Rightarrow> block_info \<Rightarrow> addr \<Rightarrow> string \<Rightarrow> coin \<Rightarrow> unit staking_proc" where
  "remove_stake ext block from_address v amt =
     thenM (validate_denom amt) (update_stake ext block from_address v (c_amount amt) True)"

definition slash_staker :: "ext \<Rightarrow> string \<Rightarrow> decimal \<Rightarrow> addr \<Rightarrow> unit staking_proc" where
  "slash_staker ext v remaining delegator =
     bindM (reads (\<lambda>st. om_get (st_stakes st) (delegator, v))) (\<lambda>sho.
     bindM (or_panic ''all stakers in validator_info should exist'' sho) (\<lambda>sh.
     bindM (or_panic ''stake arithmetic'' (x_dec_mul ext (sh_stake sh) remaining)) (\<lambda>s.
       modifies (\<lambda>st. st\<lparr>st_stakes := om_insert (delegator, v) (sh\<lparr>sh_stake := s\<rparr>) (st_stakes st)\<rparr>))))"

definition unstake :: "string \<Rightarrow> addr \<Rightarrow> unit staking_proc" where
  "unstake v delegator = modifies (\<lambda>st. st\<lparr>st_stakes := om_remove (delegator, v) (st_stakes st)\<rparr>)"

fun slash_queue :: "ext \<Rightarrow> string \<Rightarrow> decimal \<Rightarrow> unbonding list \<Rightarrow> unbonding list option" where
  "slash_queue ext v remaining [] = Some []"
| "slash_queue ext v remaining (u # us) =
     (if ub_validator u = v
      then (case x_mul_floor ext (ub_amount u) remaining of
              None \<Rightarrow> None
            | Some a \<Rightarrow> map_option ((#) (u\<lparr>ub_amount := a\<rparr>)) (slash_queue ext v remaining us))
      else map_option ((#) u) (slash_queue ext v remaining us))"

definition the_queue :: "staking_state \<Rightarrow> unbonding list" where
  "the_queue st = (case st_queue st of None \<Rightarrow> [] | Some q \<Rightarrow> q)"

definition slash :: "ext \<Rightarrow> block_info \<Rightarrow> string \<Rightarrow> decimal \<Rightarrow> unit staking_proc" where
  "slash ext block v percentage =
     thenM (update_rewards ext block v)
     (bindM (reads (\<lambda>st. om_get (st_validator_info st) v)) (\<lambda>vio.
      bindM (or_panic ''unwrap on a None value'' vio) (\<lambda>vi.
      bindM (or_panic ''stake arithmetic'' (dec_sub dec_one percentage)) (\<lambda>remaining.
      bindM (or_panic ''stake arithmetic'' (x_mul_floor ext (vi_stake vi) remaining)) (\<lambda>stake.
      thenM (if stake = 0 then for_each (unstake v) (vi_stakers vi)
             else for_each (slash_staker ext v remaining) (vi_stakers vi))
      (bindM (reads the_queue) (\<lambda>q.
       bindM (or_panic ''stake arithmetic'' (slash_queue ext v remaining q)) (\<lambda>q'.
       modifies (\<lambda>st. st\<lparr>st_queue := Some q',
         st_validator_info := om_insert v (vi\<lparr>vi_stake := stake,
           vi_stakers := (if stake = 0 then [] else vi_stakers vi)\<rparr>) (st_validator_info st)\<rparr>)))))))))"

section \<open>The unbonding queue\<close>

fun sum_amounts :: "uint256 \<Rightarrow> unbonding list \<Rightarrow> uint256 option" where
  "sum_amounts acc [] = Some acc"
| "sum_amounts acc (u # us) = (case checked_add acc (ub_amount u) of
      None \<Rightarrow> None | Some acc' \<Rightarrow> sum_amounts acc' us)"

text \<open>"Remove staking entry if it is empty": \<open>rest\<close> is the queue after the popped entry.\<close>

definition drop_empty_stake :: "ext \<Rightarrow> unbonding \<Rightarrow> unbonding list \<Rightarrow> unit staking_proc" where
  "drop_empty_stake ext u rest =
     bindM (get_stake ext (ub_delegator u) (ub_validator u)) (\<lambda>stake.
     case stake of
       None \<Rightarrow> unstake (ub_validator u) (ub_delegator u)
     | Some c \<Rightarrow>
         bindM (or_panic ''attempt to add with overflow''
           (Option.bind (sum_amounts 0 (filter (\<lambda>w. ub_delegator w = ub_delegator u
                            \<and> ub_validator w = ub_validator u) rest))
              (\<lambda>pending. checked_add (c_amount c) pending))) (\<lambda>total.
           if total = 0 then unstake (ub_validator u) (ub_delegator u) else ret ()))"

fun queue_loop ::
    "ext \<Rightarrow> cosmos_router \<Rightarrow> block_info \<Rightarrow> unbonding list \<Rightarrow> unbonding list chain_proc" where
  "queue_loop ext router block [] = ret []"
| "queue_loop ext router block (u # rest) =
     (if ub_payout_at u \<le> bl_time block
      then thenM (in_staking (drop_empty_stake ext u rest))
             (bindM (in_staking (reads get_staking_info)) (\<lambda>info.
              thenM (if ub_amount u = 0 then ret default_response
                     else r_execute router block staking_module_addr
                            (MBank (BankSend (addr_str (ub_delegator u))
                               [\<lparr>c_denom = si_bonded_denom info, c_amount = ub_amount u\<rparr>])))
                (queue_loop ext router block rest)))
      else ret (u # rest))"

definition process_queue :: "ext \<Rightarrow> cosmos_router \<Rightarrow> block_info \<Rightarrow> app_response chain_proc" where
  "process_queue ext router block =
     bindM (in_staking (reads the_queue)) (\<lambda>q.
     bindM (queue_loop ext router block q) (\<lambda>q'.
     thenM (in_staking (modifies (\<lambda>st. st\<lparr>st_queue := Some q'\<rparr>)))
       (ret default_response)))"

section \<open>Staking module\<close>

definition staking_execute ::
    "ext \<Rightarrow> cosmos_router \<Rightarrow> block_info \<Rightarrow> addr \<Rightarrow> staking_msg \<Rightarrow> app_response chain_proc" where
  "staking_execute ext router block sender msg = (case msg of
      Delegate v amt \<Rightarrow>
        (if c_amount amt = 0 then fail (StdMsg ''invalid delegation amount'')
         else
           let events = [new_event ''delegate'' [(''validator'', v), (''amount'', show_coin amt),
                 (''new_shares'', show_word (c_amount amt))]]
           in thenM (in_staking (add_stake ext block sender v amt))
                (thenM (r_execute router block sender
                          (MBank (BankSend (addr_str staking_module_addr) [amt])))
                   (ret \<lparr>ar_events = events, ar_data = None\<rparr>)))
    | Undelegate v amt \<Rightarrow>
        thenM (in_staking (validate_denom amt))
          (if c_amount amt = 0 then fail (StdMsg ''invalid shares amount'')
           else
             let events = [new_event ''unbond'' [(''validator'', v), (''amount'', show_coin amt),
                   (''completion_time'', ''2022-09-27T14:00:00+00:00'')]]
             in thenM (in_staking (remove_stake ext block sender v amt))
                  (bindM (in_staking (reads get_staking_info)) (\<lambda>info.
                   bindM (in_staking (reads the_queue)) (\<lambda>q.
                   bindM (or_panic ''attempt to add with overflow''
                       (x_plus_seconds ext (bl_time block) (si_unbonding_time info))) (\<lambda>payout_at.
                   thenM (in_staking (modifies (\<lambda>st. st\<lparr>st_queue := Some (q @
                       [\<lparr>ub_delegator = sender, ub_validator = v, ub_amount = c_amount amt,
                         ub_payout_at = payout_at\<rparr>])\<rparr>)))
                     (ret \<lparr>ar_events = events, ar_data = None\<rparr>))))))
    | Redelegate src_validator dst_validator amt \<Rightarrow>
        (let events = [new_event ''redelegate'' [(''source_validator'', src_validator),
               (''destination_validator'', dst_validator), (''amount'', show_coin amt)]]
         in thenM (in_staking (remove_stake ext block sender src_validator amt))
              (thenM (in_staking (add_stake ext block sender dst_validator amt))
                 (ret \<lparr>ar_events = events, ar_data = None\<rparr>)))
    | StakingMsgOther \<Rightarrow> fail (UnsupportedStakingMsg StakingMsgOther))"

definition staking_sudo :: "ext \<Rightarrow> block_info \<Rightarrow> staking_sudo \<Rightarrow> app_response chain_proc" where
  "staking_sudo ext block msg = (case msg of
      Slash v percentage \<Rightarrow>
        thenM (in_staking (validate_percentage percentage))
          (thenM (in_staking (slash ext block v percentage)) (ret default_response)))"

fun cons_delegation :: "addr \<Rightarrow> string \<Rightarrow> coin option \<Rightarrow> (addr \<times> string \<times> coin) list \<Rightarrow> (addr \<times> string \<times> coin) list" where
  "cons_delegation d v None ds = ds"
| "cons_delegation d v (Some c) ds = (d, v, c) # ds"

definition staking_query :: "ext \<Rightarrow> block_info \<Rightarrow> staking_query \<Rightarrow> binary chain_proc" where
  "staking_query ext block request = (case request of
      QBondedDenom \<Rightarrow>
        bindM (in_staking (reads get_staking_info)) (\<lambda>info.
          lift_result (x_to_json ext (JBondedDenom (si_bonded_denom info))))
    | QAllDelegations delegator \<Rightarrow>
        bindM (lift_result (x_addr_validate ext delegator)) (\<lambda>d.
        bindM (in_staking (reads st_validators)) (\<lambda>vs.
        bindM (in_staking (collectM (\<lambda>v. mapM_ok (Pair (v_address v)) (get_stake ext d (v_address v))) vs))
          (\<lambda>res. lift_result (x_to_json ext (JAllDelegations
             (foldr (\<lambda>(v, c). cons_delegation d v c) res []))))))
    | QDelegation delegator v \<Rightarrow>
        bindM (in_staking (reads (\<lambda>st. om_get (st_validator_map st) v))) (\<lambda>vo.
        case vo of
          None \<Rightarrow> fail (StdMsg (''non-existent validator '' @ v))
        | Some validator_obj \<Rightarrow>
            bindM (lift_result (x_addr_validate ext delegator)) (\<lambda>d.
            bindM (in_staking (reads (\<lambda>st. om_get (st_stakes st) (d, v)))) (\<lambda>sho.
            let sh = (case sho of None \<Rightarrow> default_shares | Some s \<Rightarrow> s) in
            bindM (in_staking (load ''ValidatorInfo'' st_validator_info v)) (\<lambda>vi.
            bindM (in_staking (get_rewards_from_validator ext block sh validator_obj vi)) (\<lambda>reward.
            bindM (in_staking (reads get_staking_info)) (\<lambda>info.
            bindM (or_panic ''stake arithmetic'' (x_mul_floor ext 1 (sh_stake sh))) (\<lambda>a.
            let amt = \<lparr>c_denom = si_bonded_denom info, c_amount = a\<rparr> in
            lift_result (x_to_json ext (JDelegation (if a = 0 then None
              else Some \<lparr>fd_delegator = d, fd_validator = v, fd_amount = amt, fd_can_redelegate = amt,
                fd_rewards = (if c_amount reward = 0 then [] else [reward])\<rparr>))))))))))
    | QAllValidators \<Rightarrow>
        bindM (in_staking (reads st_validators)) (\<lambda>vs.
          lift_result (x_to_json ext (JAllValidators vs)))
    | QValidator v \<Rightarrow>
        bindM (in_staking (reads (\<lambda>st. om_get (st_validator_map st) v))) (\<lambda>vo.
          lift_result (x_to_json ext (JValidator vo)))
    | StakingQueryOther \<Rightarrow> fail (UnsupportedStakingQuery StakingQueryOther))"

section \<open>Distribution module\<close>

definition remove_rewards :: "ext \<Rightarrow> block_info \<Rightarrow> addr \<Rightarrow> string \<Rightarrow> uint256 staking_proc" where
  "remove_rewards ext block delegator v =
     thenM (update_rewards ext block v)
     (bindM (load ''Shares'' st_stakes (delegator, v)) (\<lambda>sh.
      bindM (or_panic ''reward arithmetic'' (x_mul_floor ext 1 (sh_rewards sh))) (\<lambda>rewards.
      thenM (modifies (\<lambda>st. st\<lparr>st_stakes :=
               om_insert (delegator, v) (sh\<lparr>sh_rewards := dec_zero\<rparr>) (st_stakes st)\<rparr>))
        (ret rewards))))"

definition get_withdraw_address :: "distribution_state \<Rightarrow> addr \<Rightarrow> addr" where
  "get_withdraw_address d delegator = (case om_get (d_withdraw d) delegator of
      Some a \<Rightarrow> a | None \<Rightarrow> delegator)"

definition set_withdraw_address :: "addr \<Rightarrow> addr \<Rightarrow> (distribution_state, std_error, unit) proc" where
  "set_withdraw_address delegator withdraw =
     modifies (\<lambda>d. d\<lparr>d_withdraw := (if delegator = withdraw then om_remove delegator (d_withdraw d)
                                    else om_insert delegator withdraw (d_withdraw d))\<rparr>)"

text \<open>\<open>STAKES.prefix(delegator).keys\<close>: the validators, in key order.\<close>

definition get_delegator_validators :: "staking_state \<Rightarrow> addr \<Rightarrow> string list" where
  "get_delegator_validators st delegator = map snd (filter (\<lambda>k. fst k = delegator) (om_keys (st_stakes st)))"

definition get_rewards_dec ::
    "ext \<Rightarrow> block_info \<Rightarrow> addr \<Rightarrow> string \<Rightarrow> dec_coin option staking_proc" where
  "get_rewards_dec ext block delegator v =
     bindM (get_rewards_internal ext block delegator v) (\<lambda>c.
     case c of
       None \<Rightarrow> ret None
     | Some coin \<Rightarrow> bindM (lift_result (x_dec_from_atomics ext (c_amount coin))) (\<lambda>a.
         ret (Some \<lparr>dc_denom = c_denom coin, dc_amount = a\<rparr>)))"

definition distribution_execute ::
    "ext \<Rightarrow> cosmos_router \<Rightarrow> block_info \<Rightarrow> addr \<Rightarrow> distribution_msg \<Rightarrow> app_response chain_proc" where
  "distribution_execute ext router block sender msg = (case msg of
      WithdrawDelegatorReward v \<Rightarrow>
        bindM (in_staking (remove_rewards ext block sender v)) (\<lambda>rewards.
        bindM (in_staking (reads get_staking_info)) (\<lambda>info.
        bindM (in_distribution (reads (\<lambda>d. get_withdraw_address d sender))) (\<lambda>receiver.
        thenM (r_sudo router block (SudoBank (BankMint (addr_str receiver)
                 [\<lparr>c_denom = si_bonded_denom info, c_amount = rewards\<rparr>])))
          (ret \<lparr>ar_events = [new_event ''withdraw_delegator_reward'' [(''validator'', v),
                 (''sender'', addr_str sender), (''amount'', show_word rewards @ si_bonded_denom info)]],
               ar_data = None\<rparr>))))
    | SetWithdrawAddress address \<Rightarrow>
        bindM (lift_result (x_addr_validate ext address)) (\<lambda>a.
        thenM (in_distribution (set_withdraw_address sender a))
          (ret \<lparr>ar_events = [new_event ''set_withdraw_address'' [(''withdraw_address'', addr_str a)]],
               ar_data = None\<rparr>))
    | other \<Rightarrow> fail (UnsupportedDistributionMsg other))"

text \<open>The accumulation of \<open>DelegationTotalRewards\<close>: per validator, and per denomination.\<close>

definition total_rewards_step ::
    "ext \<Rightarrow> block_info \<Rightarrow> addr \<Rightarrow> (string \<times> dec_coin list) list \<times> (string, decimal) omap \<Rightarrow> string
       \<Rightarrow> ((string \<times> dec_coin list) list \<times> (string, decimal) omap) staking_proc" where
  "total_rewards_step ext block delegator acc v =
     bindM (get_rewards_dec ext block delegator v) (\<lambda>c.
     case c of
       None \<Rightarrow> ret acc
     | Some dc \<Rightarrow>
         bindM (or_panic ''attempt to add with overflow'' (case om_get (snd acc) (dc_denom dc) of
             None \<Rightarrow> Some (dc_amount dc) | Some a \<Rightarrow> dec_add a (dc_amount dc))) (\<lambda>t.
         ret (fst acc @ [(v, [dc])], om_insert (dc_denom dc) t (snd acc))))"

definition distribution_query :: "ext \<Rightarrow> block_info \<Rightarrow> distribution_query \<Rightarrow> binary chain_proc" where
  "distribution_query ext block request = (case request of
      QDelegatorValidators delegator \<Rightarrow>
        bindM (lift_result (x_addr_validate ext delegator)) (\<lambda>d.
        bindM (in_staking (reads (\<lambda>st. get_delegator_validators st d))) (\<lambda>vs.
          lift_result (x_to_json ext (JDelegatorValidators vs))))
    | QWithdrawAddress delegator \<Rightarrow>
        bindM (lift_result (x_addr_validate ext delegator)) (\<lambda>d.
        bindM (in_distribution (reads (\<lambda>ds. get_withdraw_address ds d))) (\<lambda>a.
          lift_result (x_to_json ext (JWithdrawAddress a))))
    | QDelegationRewards delegator v \<Rightarrow>
        bindM (lift_result (x_addr_validate ext delegator)) (\<lambda>d.
        bindM (in_staking (get_rewards_dec ext block d v)) (\<lambda>c.
          lift_result (x_to_json ext (JDelegationRewards (case c of None \<Rightarrow> [] | Some dc \<Rightarrow> [dc])))))
    | QDelegationTotalRewards delegator \<Rightarrow>
        bindM (lift_result (x_addr_validate ext delegator)) (\<lambda>d.
        bindM (in_staking (reads (\<lambda>st. get_delegator_validators st d))) (\<lambda>vs.
        bindM (in_staking (try_fold (total_rewards_step ext block d) ([], om_empty) vs)) (\<lambda>(per, total).
          lift_result (x_to_json ext (JTotalRewards per
            (map (\<lambda>(dn, a). \<lparr>dc_denom = dn, dc_amount = a\<rparr>) total))))))
    | DistributionQueryOther \<Rightarrow> fail (UnsupportedDistributionQuery DistributionQueryOther))"

definition distribution_sudo :: "app_response chain_proc" where
  "distribution_sudo = fail (StdMsg (''Something went wrong - distribution doesn't have sudo messages''))"

section \<open>Invariant\<close>

text \<open>
  \<open>staking_wf\<close>: the validator maps agree, and the stakers listed for a validator are exactly the
  accounts with an entry in STAKES - what the code's \<open>expect\<close> relies on. \<open>stake_at\<close> and
  \<open>validator_stake\<close> are the abstract bookkeeping (in units of \<open>10 ^ -18\<close> and in tokens).
\<close>

definition lists_staker :: "staking_state \<Rightarrow> string \<Rightarrow> addr \<Rightarrow> bool" where
  "lists_staker st v a = (case om_get (st_validator_info st) v of
      None \<Rightarrow> False | Some i \<Rightarrow> a \<in> set (vi_stakers i))"

definition has_stake :: "staking_state \<Rightarrow> addr \<Rightarrow> string \<Rightarrow> bool" where
  "has_stake st a v = (om_get (st_stakes st) (a, v) \<noteq> None)"

definition validators_wf :: "staking_state \<Rightarrow> bool" where
  "validators_wf st \<longleftrightarrow> om_wf (st_stakes st) \<and> om_wf (st_validator_map st) \<and> om_wf (st_validator_info st)
     \<and> (\<forall>v vo. om_get (st_validator_map st) v = Some vo \<longrightarrow> v_address vo = v)
     \<and> (\<forall>v. om_get (st_validator_info st) v = None \<longleftrightarrow> om_get (st_validator_map st) v = None)
     \<and> (\<forall>v i. om_get (st_validator_info st) v = Some i \<longrightarrow> os_wf (vi_stakers i))"

definition staking_wf :: "staking_state \<Rightarrow> bool" where
  "staking_wf st \<longleftrightarrow> validators_wf st \<and> (\<forall>a v. has_stake st a v \<longleftrightarrow> lists_staker st v a)"

definition stake_at :: "staking_state \<Rightarrow> addr \<Rightarrow> string \<Rightarrow> nat" where
  "stake_at st a v = (case om_get (st_stakes st) (a, v) of None \<Rightarrow> 0 | Some sh \<Rightarrow> unat (atomics (sh_stake sh)))"

definition validator_stake :: "staking_state \<Rightarrow> string \<Rightarrow> nat" where
  "validator_stake st v = (case om_get (st_validator_info st) v of None \<Rightarrow> 0 | Some i \<Rightarrow> unat (vi_stake i))"

definition total_stake :: "staking_state \<Rightarrow> string \<Rightarrow> nat" where
  "total_stake st v = om_sum (\<lambda>k sh. if snd k = v then unat (atomics (sh_stake sh)) else 0) (st_stakes st)"

section \<open>Reward updates touch rewards only\<close>

definition stakes_view :: "staking_state \<Rightarrow> addr \<times> string \<Rightarrow> decimal option" where
  "stakes_view st k = map_option sh_stake (om_get (st_stakes st) k)"

definition infos_view :: "staking_state \<Rightarrow> string \<Rightarrow> (addr list \<times> uint256) option" where
  "infos_view st v = map_option (\<lambda>i. (vi_stakers i, vi_stake i)) (om_get (st_validator_info st) v)"

definition rewards_only :: "staking_state \<Rightarrow> staking_state \<Rightarrow> bool" where
  "rewards_only s t \<longleftrightarrow> stakes_view t = stakes_view s \<and> infos_view t = infos_view s
     \<and> st_queue t = st_queue s \<and> st_info t = st_info s
     \<and> st_validator_map t = st_validator_map s \<and> st_validators t = st_validators s
     \<and> (om_wf (st_stakes s) \<longrightarrow> om_wf (st_stakes t))
     \<and> (om_wf (st_validator_info s) \<longrightarrow> om_wf (st_validator_info t))"

lemma reflp_rewards_only [simp, runs_intro]: "reflp rewards_only"
  and transp_rewards_only [simp, runs_intro]: "transp rewards_only"
  by (auto simp: rewards_only_def intro!: reflpI transpI)

lemma rewards_only_trans: "rewards_only a b \<Longrightarrow> rewards_only b c \<Longrightarrow> rewards_only a c"
  by (auto simp: rewards_only_def)

lemma credit_rewards_only: "all_runs rewards_only (credit_rewards ext v vi r a)"
  unfolding all_runs_def
proof
  fix st
  show "rewards_only st (snd (credit_rewards ext v vi r a st))"
  proof (cases "om_get (st_stakes st) (a, v)")
    case None
    then show ?thesis by (simp add: credit_rewards_def bindM_reads rewards_only_def)
  next
    case (Some sh)
    then have "om_get (om_insert (a, v) (sh\<lparr>sh_rewards := x\<rparr>) (st_stakes st)) k
        = (if k = (a, v) then Some (sh\<lparr>sh_rewards := x\<rparr>) else om_get (st_stakes st) k)" for x k
      by simp
    with Some show ?thesis
      by (auto simp: credit_rewards_def bindM_reads rewards_only_def stakes_view_def infos_view_def
          or_panic_def fun_eq_iff split: option.splits)
  qed
qed

text \<open>The branches of \<open>update_rewards\<close>.\<close>

lemma update_rewards_run:
  "update_rewards ext block v st = (case om_get (st_validator_info st) v of
      None \<Rightarrow> (Err (StdMsg ''validator does not exist''), st)
    | Some vi \<Rightarrow> (case om_get (st_validator_map st) v of
        None \<Rightarrow> (Err (NotFound ''Validator''), st)
      | Some vo \<Rightarrow>
          if bl_time block \<le> vi_last vi then (Ok (), st)
          else (case calculate_rewards ext (bl_time block) (vi_last vi) (si_apr (get_staking_info st))
                       (v_commission vo) (vi_stake vi) of
              None \<Rightarrow> (Panic ''reward arithmetic'', st)
            | Some r \<Rightarrow>
                (if r = dec_zero then ret ()
                 else for_each (credit_rewards ext (v_address vo) (vi\<lparr>vi_last := bl_time block\<rparr>) r)
                        (vi_stakers vi))
                (st\<lparr>st_validator_info := om_insert v (vi\<lparr>vi_last := bl_time block\<rparr>) (st_validator_info st)\<rparr>))))"
  by (simp add: update_rewards_def run_eqs Let_def ret_def split: option.split)

lemma update_rewards_only: "all_runs rewards_only (update_rewards ext block v)"
  unfolding all_runs_def
proof
  fix st :: staking_state
  let ?i = "\<lambda>vi. vi\<lparr>vi_last := bl_time block\<rparr>"
  let ?st = "\<lambda>vi. st\<lparr>st_validator_info := om_insert v (?i vi) (st_validator_info st)\<rparr>"
  have "rewards_only st (snd ((if r = dec_zero then ret ()
      else for_each (credit_rewards ext w (?i vi) r) (vi_stakers vi)) (?st vi)))"
    if "om_get (st_validator_info st) v = Some vi" for r w vi
  proof -
    have "rewards_only st (?st vi)"
      using that by (auto simp: rewards_only_def stakes_view_def infos_view_def fun_eq_iff)
    moreover have "rewards_only (?st vi) (snd (for_each (credit_rewards ext w (?i vi) r) (vi_stakers vi) (?st vi)))"
      using all_runs_for_each [of rewards_only "vi_stakers vi" "credit_rewards ext w (?i vi) r"]
        credit_rewards_only by (simp add: all_runs_def)
    ultimately show ?thesis by (auto intro: rewards_only_trans)
  qed
  moreover have "rewards_only st st" by (simp add: rewards_only_def)
  ultimately show "rewards_only st (snd (update_rewards ext block v st))"
    by (simp add: update_rewards_run split: option.split)
qed

lemma lists_staker_view: "lists_staker st v a = (case infos_view st v of None \<Rightarrow> False | Some p \<Rightarrow> a \<in> set (fst p))"
  by (auto simp: lists_staker_def infos_view_def split: option.splits)

lemma has_stake_view: "has_stake st a v = (stakes_view st (a, v) \<noteq> None)"
  by (simp add: has_stake_def stakes_view_def)

lemma stake_at_view: "stake_at st a v = (case stakes_view st (a, v) of None \<Rightarrow> 0 | Some d \<Rightarrow> unat (atomics d))"
  by (simp add: stake_at_def stakes_view_def split: option.splits)

lemma validator_stake_view:
  "validator_stake st v = (case infos_view st v of None \<Rightarrow> 0 | Some p \<Rightarrow> unat (snd p))"
  by (simp add: validator_stake_def infos_view_def split: option.splits)

lemma infos_view_None: "infos_view st v = None \<longleftrightarrow> om_get (st_validator_info st) v = None"
  by (simp add: infos_view_def)

lemma validators_wf_view:
  "validators_wf st \<longleftrightarrow> om_wf (st_stakes st) \<and> om_wf (st_validator_map st) \<and> om_wf (st_validator_info st)
     \<and> (\<forall>v vo. om_get (st_validator_map st) v = Some vo \<longrightarrow> v_address vo = v)
     \<and> (\<forall>v. infos_view st v = None \<longleftrightarrow> om_get (st_validator_map st) v = None)
     \<and> (\<forall>v p. infos_view st v = Some p \<longrightarrow> os_wf (fst p))"
  by (fastforce simp: validators_wf_def infos_view_def)

lemma rewards_only_wf: "rewards_only s t \<Longrightarrow> staking_wf s \<Longrightarrow> staking_wf t"
  unfolding rewards_only_def staking_wf_def validators_wf_view lists_staker_view has_stake_view by simp

lemma rewards_only_stake_at: "rewards_only s t \<Longrightarrow> stake_at t = stake_at s"
  by (simp add: rewards_only_def stake_at_view fun_eq_iff)

lemma rewards_only_validator_stake: "rewards_only s t \<Longrightarrow> validator_stake t = validator_stake s"
  by (simp add: rewards_only_def validator_stake_view fun_eq_iff)

text \<open>A well-formed map with the same keys and the same stakes has the same total.\<close>

lemma om_sum_views:
  fixes m n :: "('k::linorder, 'v) omap"
  assumes "om_wf m" "om_wf n" "\<And>k. map_option g (om_get m k) = map_option g (om_get n k)"
  shows "om_sum (\<lambda>k x. f k (g x)) m = om_sum (\<lambda>k x. f k (g x)) n"
proof -
  define p where "p = map (\<lambda>(k :: 'k, x :: 'v). (k, g x))"
  have get: "om_get (p m) k = map_option g (om_get m k)" for m k
    by (induction m) (auto simp: p_def)
  have "map fst (p m) = map fst m" for m
    by (induction m) (auto simp: p_def)
  then have wf: "om_wf (p m) = om_wf m" for m by (simp add: om_wf_def)
  have "p m = p n"
    by (rule om_wf_unique) (use assms in \<open>auto simp: wf get fun_eq_iff\<close>)
  moreover have "om_sum (\<lambda>k x. f k (g x)) m = om_sum f (p m)" for m
    by (induction m) (auto simp: p_def)
  ultimately show ?thesis by simp
qed

lemma rewards_only_total:
  assumes "rewards_only s t" "om_wf (st_stakes s)"
  shows "total_stake t v = total_stake s v"
proof -
  have "om_sum (\<lambda>k sh. (\<lambda>k d. if snd k = v then unat (atomics d) else 0) k (sh_stake sh)) (st_stakes t)
      = om_sum (\<lambda>k sh. (\<lambda>k d. if snd k = v then unat (atomics d) else 0) k (sh_stake sh)) (st_stakes s)"
    by (rule om_sum_views) (use assms in \<open>auto simp: rewards_only_def stakes_view_def fun_eq_iff\<close>)
  then show ?thesis by (simp add: total_stake_def)
qed

section \<open>Effect of the stake operations\<close>

lemma update_rewards_Ok:
  assumes "update_rewards ext block v st = (Ok u, st')"
  shows "rewards_only st st'" and "om_get (st_validator_info st') v \<noteq> None"
proof -
  show r: "rewards_only st st'" using update_rewards_only assms by (rule all_runsD)
  have "om_get (st_validator_info st) v \<noteq> None"
    using assms by (auto simp: update_rewards_run split: option.splits)
  with r show "om_get (st_validator_info st') v \<noteq> None"
    by (simp add: rewards_only_def flip: infos_view_None)
qed

lemma dec_ratioD: "dec_laws ext \<Longrightarrow> x_dec_ratio ext n = Some d \<Longrightarrow> unat (atomics d) = unat n * 10 ^ 18"
  by (simp add: dec_laws_def fits_dec_Some)

lemma dec_mulD: "dec_laws ext \<Longrightarrow> x_dec_mul ext a b = Some d \<Longrightarrow>
    unat (atomics d) = unat (atomics a) * unat (atomics b) div 10 ^ 18"
  by (simp add: dec_laws_def fits_dec_Some)

lemma mul_floorD: "dec_laws ext \<Longrightarrow> x_mul_floor ext n d = Some m \<Longrightarrow>
    unat m = unat n * unat (atomics d) div 10 ^ 18"
  by (simp add: dec_laws_def fits_Some)

lemma dec_zero_iff: "d = dec_zero \<longleftrightarrow> unat (atomics d) = 0"
  by (cases d) (simp add: dec_zero_def unat_eq_0)

lemma dec_add_Some: "dec_add a b = Some c \<Longrightarrow> unat (atomics c) = unat (atomics a) + unat (atomics b)"
  by (auto simp: dec_add_def dest: checked_add_Some)

lemma dec_sub_Some: "dec_sub a b = Some c \<Longrightarrow>
    unat (atomics c) = unat (atomics a) - unat (atomics b) \<and> unat (atomics b) \<le> unat (atomics a)"
  by (auto simp: dec_sub_def dest: checked_sub_Some)

text \<open>The write at the end of \<open>update_stake\<close>: new stake \<open>s\<close> for the delegator, \<open>t\<close> for the validator.\<close>

definition put_stake :: "addr \<Rightarrow> string \<Rightarrow> shares \<Rightarrow> validator_info \<Rightarrow> decimal \<Rightarrow> uint256 \<Rightarrow> staking_state \<Rightarrow> staking_state" where
  "put_stake delegator v sh vi s t st = st\<lparr>
     st_stakes := (if s = dec_zero then om_remove (delegator, v) (st_stakes st)
                   else om_insert (delegator, v) (sh\<lparr>sh_stake := s\<rparr>) (st_stakes st)),
     st_validator_info := om_insert v (vi\<lparr>vi_stake := t,
       vi_stakers := (if s = dec_zero then os_remove delegator (vi_stakers vi)
                      else os_insert delegator (vi_stakers vi))\<rparr>) (st_validator_info st)\<rparr>"

lemma put_stake_wf:
  assumes "staking_wf st" "om_get (st_validator_info st) v = Some vi"
  shows "staking_wf (put_stake a v sh vi s t st)"
proof -
  have w: "validators_wf st" and l: "\<And>b w. has_stake st b w \<longleftrightarrow> lists_staker st w b"
    using assms(1) by (auto simp: staking_wf_def)
  have "om_get (st_validator_map st) v \<noteq> None"
    using w assms(2) unfolding validators_wf_def by (metis option.distinct(1))
  then have "validators_wf (put_stake a v sh vi s t st)"
    using w assms(2) by (auto simp: validators_wf_def put_stake_def split: if_splits)
  moreover have "has_stake (put_stake a v sh vi s t st) b w \<longleftrightarrow> lists_staker (put_stake a v sh vi s t st) w b"
    for b w
    using l [of b w] assms(2)
    by (auto simp: has_stake_def lists_staker_def put_stake_def split: if_splits)
  ultimately show ?thesis by (simp add: staking_wf_def)
qed

lemma put_stake_at:
  "stake_at (put_stake a v sh vi s t st) b w = (if b = a \<and> w = v then unat (atomics s) else stake_at st b w)"
  by (auto simp: stake_at_def put_stake_def dec_zero_def)

lemma put_stake_validator:
  "validator_stake (put_stake a v sh vi s t st) w = (if w = v then unat t else validator_stake st w)"
  by (auto simp: validator_stake_def put_stake_def)

lemma put_stake_total:
  assumes "om_wf (st_stakes st)"
  shows "total_stake (put_stake a v sh vi s t st) w + (if w = v then stake_at st a v else 0)
       = total_stake st w + (if w = v then unat (atomics s) else 0)"
proof -
  let ?f = "\<lambda>k sh. if snd k = w then unat (atomics (sh_stake sh)) else 0"
  have at: "om_at ?f (st_stakes st) (a, v) = (if w = v then stake_at st a v else 0)"
    by (auto simp: om_at_def stake_at_def split: option.splits)
  show ?thesis
    using om_sum_remove [OF assms, of ?f "(a, v)"] om_sum_insert [OF assms, of ?f "(a, v)" "sh\<lparr>sh_stake := s\<rparr>"]
    by (auto simp: total_stake_def put_stake_def at dec_zero_def split: if_splits)
qed

lemma update_stake_Ok:
  assumes "update_stake ext block a v amt sub st = (Ok u, st')"
  shows "\<exists>st1 sh vi s t d. rewards_only st st1 \<and> om_get (st_validator_info st1) v = Some vi
     \<and> (sub \<longrightarrow> om_get (st_stakes st1) (a, v) = Some sh)
     \<and> (\<not> sub \<longrightarrow> sh = (case om_get (st_stakes st1) (a, v) of None \<Rightarrow> default_shares | Some x \<Rightarrow> x))
     \<and> x_dec_ratio ext amt = Some d
     \<and> (if sub then dec_sub (sh_stake sh) d = Some s \<and> checked_sub (vi_stake vi) amt = Some t
        else dec_add (sh_stake sh) d = Some s \<and> checked_add (vi_stake vi) amt = Some t)
     \<and> st' = put_stake a v sh vi s t st1"
proof -
  obtain st1 where 1: "update_rewards ext block v st = (Ok (), st1)"
    using assms by (auto simp: update_stake_def ok_iffs)
  note U = update_rewards_Ok [OF 1]
  then obtain vi where vi: "om_get (st_validator_info st1) v = Some vi" by auto
  have then1: "thenM (update_rewards ext block v) k st = k st1" for k
    using 1 by (simp add: thenM_def bindM_def)
  note run = assms [unfolded update_stake_def then1, simplified run_eqs Let_def vi option.case]
  show ?thesis
  proof (cases sub)
    case True
    with run obtain sh d s t where "om_get (st_stakes st1) (a, v) = Some sh"
        "x_dec_ratio ext amt = Some d" "dec_sub (sh_stake sh) d = Some s"
        "checked_sub (vi_stake vi) amt = Some t" "st' = put_stake a v sh vi s t st1"
      by (auto simp: ok_iffs put_stake_def split: if_splits)
    with True U(1) vi show ?thesis by auto
  next
    case False
    with run obtain d s t where "x_dec_ratio ext amt = Some d"
        "dec_add (sh_stake (case om_get (st_stakes st1) (a, v) of None \<Rightarrow> default_shares | Some x \<Rightarrow> x)) d = Some s"
        "checked_add (vi_stake vi) amt = Some t"
        "st' = put_stake a v (case om_get (st_stakes st1) (a, v) of None \<Rightarrow> default_shares | Some x \<Rightarrow> x) vi s t st1"
      by (auto simp: ok_iffs put_stake_def split: if_splits)
    with False U(1) vi show ?thesis by auto
  qed
qed

lemma update_stake_effect:
  assumes "dec_laws ext" "staking_wf st" "update_stake ext block a v amt sub st = (Ok u, st')"
  shows "staking_wf st'"
    and "stake_at st' b w = (if b = a \<and> w = v
           then (if sub then stake_at st a v - unat amt * 10 ^ 18 else stake_at st a v + unat amt * 10 ^ 18)
           else stake_at st b w)"
    and "validator_stake st' w = (if w = v
           then (if sub then validator_stake st v - unat amt else validator_stake st v + unat amt)
           else validator_stake st w)"
    and "sub \<Longrightarrow> unat amt * 10 ^ 18 \<le> stake_at st a v \<and> unat amt \<le> validator_stake st v"
    and "total_stake st' w = (if w = v
           then (if sub then total_stake st v - unat amt * 10 ^ 18 else total_stake st v + unat amt * 10 ^ 18)
           else total_stake st w)"
    and "st_queue st' = st_queue st \<and> st_info st' = st_info st"
proof -
  obtain st1 sh vi s t d where r: "rewards_only st st1" and vi: "om_get (st_validator_info st1) v = Some vi"
      and sh: "sub \<Longrightarrow> om_get (st_stakes st1) (a, v) = Some sh"
        "\<not> sub \<Longrightarrow> sh = (case om_get (st_stakes st1) (a, v) of None \<Rightarrow> default_shares | Some x \<Rightarrow> x)"
      and d: "x_dec_ratio ext amt = Some d"
      and st: "if sub then dec_sub (sh_stake sh) d = Some s \<and> checked_sub (vi_stake vi) amt = Some t
        else dec_add (sh_stake sh) d = Some s \<and> checked_add (vi_stake vi) amt = Some t"
      and st': "st' = put_stake a v sh vi s t st1"
    using update_stake_Ok [OF assms(3)] by blast
  have wf1: "staking_wf st1" using rewards_only_wf r assms(2) by blast
  have d18: "unat (atomics d) = unat amt * 10 ^ 18" using dec_ratioD [OF assms(1) d] .
  have shv: "unat (atomics (sh_stake sh)) = stake_at st1 a v"
    using sh by (cases sub) (auto simp: stake_at_def default_shares_def dec_zero_def split: option.splits)
  have viv: "unat (vi_stake vi) = validator_stake st1 v" by (simp add: validator_stake_def vi)
  note eqs = rewards_only_stake_at [OF r] rewards_only_validator_stake [OF r]
  have s: "unat (atomics s) = (if sub then stake_at st a v - unat amt * 10 ^ 18 else stake_at st a v + unat amt * 10 ^ 18)"
      and sle: "sub \<Longrightarrow> unat amt * 10 ^ 18 \<le> stake_at st a v"
    using st d18 shv dec_add_Some [of "sh_stake sh" d s] dec_sub_Some [of "sh_stake sh" d s]
    by (auto simp: eqs split: if_splits)
  have t: "unat t = (if sub then validator_stake st v - unat amt else validator_stake st v + unat amt)"
      and tle: "sub \<Longrightarrow> unat amt \<le> validator_stake st v"
    using st viv checked_add_Some [of "vi_stake vi" amt t] checked_sub_Some [of "vi_stake vi" amt t]
    by (auto simp: eqs split: if_splits)
  have w: "om_wf (st_stakes st)" "om_wf (st_stakes st1)"
    using assms(2) wf1 by (auto simp: staking_wf_def validators_wf_def)
  show "staking_wf st'" unfolding st' by (rule put_stake_wf [OF wf1 vi])
  show "stake_at st' b w = (if b = a \<and> w = v
           then (if sub then stake_at st a v - unat amt * 10 ^ 18 else stake_at st a v + unat amt * 10 ^ 18)
           else stake_at st b w)"
    by (simp add: st' put_stake_at s eqs)
  show "validator_stake st' w = (if w = v
           then (if sub then validator_stake st v - unat amt else validator_stake st v + unat amt)
           else validator_stake st w)"
    by (simp add: st' put_stake_validator t eqs)
  show "sub \<Longrightarrow> unat amt * 10 ^ 18 \<le> stake_at st a v \<and> unat amt \<le> validator_stake st v"
    using sle tle by blast
  have tot: "stake_at st a v \<le> total_stake st v"
    using om_at_le_sum [OF w(1), of "\<lambda>k sh. if snd k = v then unat (atomics (sh_stake sh)) else 0" "(a, v)"]
    by (cases "om_get (st_stakes st) (a, v)") (simp_all add: om_at_def stake_at_def total_stake_def)
  show "total_stake st' w = (if w = v
           then (if sub then total_stake st v - unat amt * 10 ^ 18 else total_stake st v + unat amt * 10 ^ 18)
           else total_stake st w)"
    using put_stake_total [OF w(2), of a v sh vi s t w] rewards_only_total [OF r w(1), of w] s sle tot
    by (auto simp: st' eqs split: if_splits)
  show "st_queue st' = st_queue st \<and> st_info st' = st_info st"
    using r by (simp add: st' put_stake_def rewards_only_def)
qed

section \<open>Effect of slashing\<close>

lemma slash_staker_Ok:
  assumes "slash_staker ext v r a st = (Ok u, st')"
  shows "\<exists>sh s. om_get (st_stakes st) (a, v) = Some sh \<and> x_dec_mul ext (sh_stake sh) r = Some s
     \<and> st' = st\<lparr>st_stakes := om_insert (a, v) (sh\<lparr>sh_stake := s\<rparr>) (st_stakes st)\<rparr>"
  using assms by (auto simp: slash_staker_def ok_iffs)

text \<open>Every listed staker, each once, has the stake scaled; the rest of the state is kept.\<close>

definition scales :: "addr list \<Rightarrow> string \<Rightarrow> decimal \<Rightarrow> staking_state \<Rightarrow> staking_state \<Rightarrow> bool" where
  "scales as v r s t \<longleftrightarrow> t = s\<lparr>st_stakes := st_stakes t\<rparr> \<and> (om_wf (st_stakes s) \<longrightarrow> om_wf (st_stakes t))
     \<and> (\<forall>a w. has_stake t a w = has_stake s a w)
     \<and> (\<forall>a w. stake_at t a w = (if a \<in> set as \<and> w = v then stake_at s a w * unat (atomics r) div 10 ^ 18
                               else stake_at s a w))"

lemma only_stakes_trans:
  fixes s t u :: staking_state
  shows "t = s\<lparr>st_stakes := st_stakes t\<rparr> \<Longrightarrow> u = t\<lparr>st_stakes := st_stakes u\<rparr> \<Longrightarrow> u = s\<lparr>st_stakes := st_stakes u\<rparr>"
  by (cases s; cases t; cases u) simp

lemma for_each_slash:
  assumes "dec_laws ext" "distinct as" "for_each (slash_staker ext v r) as st = (Ok u, st')"
  shows "scales as v r st st'"
  using assms(2,3)
proof (induction as arbitrary: st)
  case Nil
  then show ?case by (simp add: scales_def)
next
  case (Cons a as)
  obtain st1 where 1: "slash_staker ext v r a st = (Ok (), st1)"
      and 2: "for_each (slash_staker ext v r) as st1 = (Ok u, st')"
    using Cons.prems(2) by (auto simp: thenM_Ok_iff)
  obtain sh s where sh: "om_get (st_stakes st) (a, v) = Some sh" "x_dec_mul ext (sh_stake sh) r = Some s"
      and st1: "st1 = st\<lparr>st_stakes := om_insert (a, v) (sh\<lparr>sh_stake := s\<rparr>) (st_stakes st)\<rparr>"
    using slash_staker_Ok [OF 1] by blast
  have "scales [a] v r st st1"
    using sh dec_mulD [OF assms(1) sh(2)] by (auto simp: scales_def st1 has_stake_def stake_at_def)
  moreover have "scales as v r st1 st'" using Cons 2 by simp
  ultimately show ?case
    using Cons.prems(1) only_stakes_trans [of st1 st st'] by (simp add: scales_def)
qed

lemma for_each_unstake:
  "for_each (unstake v) as st = (Ok (), st\<lparr>st_stakes := filter (\<lambda>p. \<not> (snd (fst p) = v \<and> fst (fst p) \<in> set as)) (st_stakes st)\<rparr>)"
proof (induction as arbitrary: st)
  case (Cons a as)
  have f: "filter P (om_remove (a, v) m) = filter (\<lambda>p. P p \<and> \<not> (snd (fst p) = v \<and> fst (fst p) = a)) m"
    for P and m :: "(addr \<times> string, shares) omap"
    by (induction m) (auto simp: om_remove_def)
  have then1: "thenM (unstake v a) k st = k (st\<lparr>st_stakes := om_remove (a, v) (st_stakes st)\<rparr>)" for k
    by (simp add: unstake_def run_eqs)
  show ?case
    by (auto simp: then1 Cons.IH f intro!: arg_cong [where f = "\<lambda>m. st\<lparr>st_stakes := m\<rparr>"] filter_cong)
qed (simp add: ret_def)

definition scaled_by :: "decimal \<Rightarrow> nat \<Rightarrow> nat" where
  "scaled_by r n = n * unat (atomics r) div 10 ^ 18"

text \<open>
  The loop over the stakers: when nothing is left of the validator's stake (\<open>k\<close>), the stakes are removed,
  otherwise each is scaled.
\<close>

lemma slash_stakers:
  assumes "dec_laws ext" "om_wf (st_stakes s)" "distinct as" and mem: "\<And>b. b \<in> set as \<longleftrightarrow> has_stake s b v"
    and loop: "(if k = 0 then for_each (unstake v) as else for_each (slash_staker ext v r) as) s = (Ok (), t)"
  shows "t = s\<lparr>st_stakes := st_stakes t\<rparr> \<and> om_wf (st_stakes t)
      \<and> stake_at t b w = (if w = v then (if k = (0 :: uint256) then 0 else scaled_by r (stake_at s b v)) else stake_at s b w)
      \<and> (has_stake t b w \<longleftrightarrow> has_stake s b w \<and> \<not> (k = 0 \<and> w = v))"
proof (cases "k = 0")
  case True
  let ?P = "\<lambda>x. \<not> (snd x = v \<and> fst x \<in> set as)"
  have t: "t = s\<lparr>st_stakes := filter (\<lambda>p. ?P (fst p)) (st_stakes s)\<rparr>" using loop True by (simp add: for_each_unstake)
  from True show "t = s\<lparr>st_stakes := st_stakes t\<rparr> \<and> om_wf (st_stakes t)
      \<and> stake_at t b w = (if w = v then (if k = 0 then 0 else scaled_by r (stake_at s b v)) else stake_at s b w)
      \<and> (has_stake t b w \<longleftrightarrow> has_stake s b w \<and> \<not> (k = 0 \<and> w = v))"
    using assms(2) mem [of b] t om_get_filter_keys [of ?P "st_stakes s" "(b, w)"]
    by (auto simp: stake_at_def has_stake_def split: if_splits)
next
  case False
  have none: "\<not> has_stake s b v \<Longrightarrow> stake_at s b v = 0" by (simp add: has_stake_def stake_at_def)
  from loop False have "scales as v r s t" using for_each_slash [OF assms(1,3)] by simp
  then show "t = s\<lparr>st_stakes := st_stakes t\<rparr> \<and> om_wf (st_stakes t)
      \<and> stake_at t b w = (if w = v then (if k = 0 then 0 else scaled_by r (stake_at s b v)) else stake_at s b w)
      \<and> (has_stake t b w \<longleftrightarrow> has_stake s b w \<and> \<not> (k = 0 \<and> w = v))"
    using False assms(2) none mem [of b] by (auto simp: scales_def scaled_by_def)
qed

lemma slash_queue_eq:
  assumes "dec_laws ext"
  shows "slash_queue ext v r q = Some q' \<Longrightarrow>
    map (\<lambda>u. (ub_delegator u, ub_validator u, ub_payout_at u, unat (ub_amount u))) q'
    = map (\<lambda>u. (ub_delegator u, ub_validator u, ub_payout_at u,
        if ub_validator u = v then scaled_by r (unat (ub_amount u)) else unat (ub_amount u))) q"
  by (induction q arbitrary: q')
    (auto simp: scaled_by_def dest: mul_floorD [OF assms] split: if_splits option.splits)

lemma slash_Ok:
  assumes "slash ext block v p st = (Ok u, st')"
  shows "\<exists>st1 st2 vi r k q. rewards_only st st1 \<and> om_get (st_validator_info st1) v = Some vi
     \<and> dec_sub dec_one p = Some r \<and> x_mul_floor ext (vi_stake vi) r = Some k
     \<and> (if k = 0 then for_each (unstake v) (vi_stakers vi) else for_each (slash_staker ext v r) (vi_stakers vi))
         st1 = (Ok (), st2)
     \<and> slash_queue ext v r (the_queue st2) = Some q
     \<and> st' = st2\<lparr>st_queue := Some q, st_validator_info := om_insert v (vi\<lparr>vi_stake := k,
           vi_stakers := (if k = 0 then [] else vi_stakers vi)\<rparr>) (st_validator_info st2)\<rparr>"
proof -
  obtain st1 where 1: "update_rewards ext block v st = (Ok (), st1)"
    using assms by (auto simp: slash_def ok_iffs)
  note U = update_rewards_Ok [OF 1]
  then obtain vi where vi: "om_get (st_validator_info st1) v = Some vi" by auto
  have then1: "thenM (update_rewards ext block v) k st = k st1" for k
    using 1 by (simp add: thenM_def bindM_def)
  note run = assms [unfolded slash_def then1, simplified run_eqs Let_def vi option.case]
  from run obtain r where r: "dec_sub dec_one p = Some r" by (cases "dec_sub dec_one p") auto
  from run [simplified r option.case] obtain k where k: "x_mul_floor ext (vi_stake vi) r = Some k"
    by (cases "x_mul_floor ext (vi_stake vi) r") auto
  from run [simplified r k option.case] obtain st2 q where
      "(if k = 0 then for_each (unstake v) (vi_stakers vi) else for_each (slash_staker ext v r) (vi_stakers vi))
         st1 = (Ok (), st2)"
      "slash_queue ext v r (the_queue st2) = Some q"
      "st' = st2\<lparr>st_queue := Some q, st_validator_info := om_insert v (vi\<lparr>vi_stake := k,
           vi_stakers := (if k = 0 then [] else vi_stakers vi)\<rparr>) (st_validator_info st2)\<rparr>"
    by (auto simp: ok_iffs)
  with U(1) vi r k show ?thesis by blast
qed

lemma slash_effect:
  assumes "dec_laws ext" "staking_wf st" "slash ext block v p st = (Ok u, st')" "p \<le> dec_one"
  shows "staking_wf st'"
    and "dec_sub dec_one p = Some r \<Longrightarrow> validator_stake st' w =
           (if w = v then scaled_by r (validator_stake st v) else validator_stake st w)"
    and "dec_sub dec_one p = Some r \<Longrightarrow> stake_at st' a w =
           (if w = v then (if scaled_by r (validator_stake st v) = 0 then 0 else scaled_by r (stake_at st a v))
            else stake_at st a w)"
    and "dec_sub dec_one p = Some r \<Longrightarrow>
           map (\<lambda>u. (ub_delegator u, ub_validator u, ub_payout_at u, unat (ub_amount u))) (the_queue st')
         = map (\<lambda>u. (ub_delegator u, ub_validator u, ub_payout_at u,
               if ub_validator u = v then scaled_by r (unat (ub_amount u)) else unat (ub_amount u))) (the_queue st)"
proof -
  obtain st1 st2 vi r' k q where r: "rewards_only st st1" and vi: "om_get (st_validator_info st1) v = Some vi"
      and rr: "dec_sub dec_one p = Some r'" and k: "x_mul_floor ext (vi_stake vi) r' = Some k"
      and loop: "(if k = 0 then for_each (unstake v) (vi_stakers vi)
           else for_each (slash_staker ext v r') (vi_stakers vi)) st1 = (Ok (), st2)"
      and q: "slash_queue ext v r' (the_queue st2) = Some q"
      and st': "st' = st2\<lparr>st_queue := Some q, st_validator_info := om_insert v (vi\<lparr>vi_stake := k,
           vi_stakers := (if k = 0 then [] else vi_stakers vi)\<rparr>) (st_validator_info st2)\<rparr>"
    using slash_Ok [OF assms(3)] by blast
  have wf1: "staking_wf st1" using rewards_only_wf r assms(2) by blast
  then have w1: "om_wf (st_stakes st1)" and has: "\<And>b w. has_stake st1 b w \<longleftrightarrow> lists_staker st1 w b"
      and os: "os_wf (vi_stakers vi)" and v1: "validators_wf st1"
    using vi by (auto simp: staking_wf_def validators_wf_def)
  have mem: "b \<in> set (vi_stakers vi) \<longleftrightarrow> has_stake st1 b v" for b
    using has [of b v] vi by (simp add: lists_staker_def)
  have dis: "distinct (vi_stakers vi)" using os by (simp add: os_wf_def strict_sorted_iff)
  note eqs = rewards_only_stake_at [OF r] rewards_only_validator_stake [OF r]
  have kv: "unat k = scaled_by r' (validator_stake st v)"
    using mul_floorD [OF assms(1) k] by (simp add: scaled_by_def validator_stake_def vi flip: eqs)
  have scaled: "st2 = st1\<lparr>st_stakes := st_stakes st2\<rparr>" "om_wf (st_stakes st2)"
    and stk: "stake_at st2 b w = (if w = v then (if k = 0 then 0 else scaled_by r' (stake_at st b v)) else stake_at st b w)"
    and hs: "has_stake st2 b w \<longleftrightarrow> has_stake st1 b w \<and> \<not> (k = 0 \<and> w = v)" for b w
    using slash_stakers [OF assms(1) w1 dis mem loop, of b w] by (auto simp flip: eqs)
  have i2: "st_validator_info st2 = st_validator_info st1" "st_validator_map st2 = st_validator_map st1"
      "st_queue st2 = st_queue st1"
    by (subst scaled(1), simp)+
  have "om_get (st_validator_map st1) v \<noteq> None"
    using v1 vi unfolding validators_wf_def by (metis option.distinct(1))
  then have "validators_wf st'"
    using v1 scaled(2) os vi by (auto simp: validators_wf_def st' i2 split: if_splits)
  moreover have "has_stake st' b w \<longleftrightarrow> lists_staker st' w b" for b w
    using hs [of b w] has [of b w] vi
    by (auto simp: has_stake_def lists_staker_def st' i2 split: if_splits)
  ultimately show "staking_wf st'" by (simp add: staking_wf_def)
  assume "dec_sub dec_one p = Some r"
  with rr have r': "r' = r" by simp
  show "validator_stake st' w = (if w = v then scaled_by r (validator_stake st v) else validator_stake st w)"
    using kv by (simp add: validator_stake_def st' i2 r' flip: eqs)
  show "stake_at st' a w =
           (if w = v then (if scaled_by r (validator_stake st v) = 0 then 0 else scaled_by r (stake_at st a v))
            else stake_at st a w)"
    using stk [of a w] kv by (auto simp: stake_at_def st' r' unat_eq_0)
  have tq: "the_queue st' = q" by (simp add: the_queue_def st')
  have "the_queue st2 = the_queue st" using r by (simp add: the_queue_def i2 rewards_only_def)
  with slash_queue_eq [OF assms(1) q]
  show "map (\<lambda>u. (ub_delegator u, ub_validator u, ub_payout_at u, unat (ub_amount u))) (the_queue st')
         = map (\<lambda>u. (ub_delegator u, ub_validator u, ub_payout_at u,
               if ub_validator u = v then scaled_by r (unat (ub_amount u)) else unat (ub_amount u))) (the_queue st)"
    by (simp add: tq r')
qed

section \<open>The listed stakers exist\<close>

lemma credit_rewards_missing:
  assumes "credit_rewards ext v vi r a st = (Panic m, st')" "m = ''all stakers in validator_info should exist''"
  shows "\<not> has_stake st a v"
  using assms by (auto simp: credit_rewards_def run_eqs has_stake_def split: option.splits)

lemma for_each_credit_missing:
  assumes "for_each (credit_rewards ext v vi r) as st = (Panic m, st')" "m = ''all stakers in validator_info should exist''"
  shows "\<exists>a \<in> set as. \<not> has_stake st a v"
  using assms(1)
proof (induction as arbitrary: st)
  case (Cons a as)
  obtain q st1 where 1: "credit_rewards ext v vi r a st = (q, st1)" by fastforce
  have "rewards_only st st1" using credit_rewards_only 1 by (rule all_runsD)
  then have same: "has_stake st1 b v = has_stake st b v" for b
    by (simp add: has_stake_view rewards_only_def)
  show ?case
  proof (cases q)
    case (Ok u)
    with Cons.prems 1 have "for_each (credit_rewards ext v vi r) as st1 = (Panic m, st')"
      by (simp add: thenM_def bindM_def)
    from Cons.IH [OF this] same show ?thesis by auto
  next
    case (Panic m')
    with Cons.prems 1 have "m' = m" "st1 = st'" by (simp_all add: thenM_def bindM_def)
    with 1 Panic credit_rewards_missing assms(2) show ?thesis by fastforce
  qed (use Cons.prems 1 in \<open>auto simp: thenM_def bindM_def\<close>)
qed simp

lemma update_rewards_stakers_exist:
  assumes "staking_wf st" "m = ''all stakers in validator_info should exist''"
  shows "fst (update_rewards ext block v st) \<noteq> Panic m"
proof
  assume p: "fst (update_rewards ext block v st) = Panic m"
  then obtain vi vo r st' where vi: "om_get (st_validator_info st) v = Some vi"
      and vo: "om_get (st_validator_map st) v = Some vo"
      and loop: "for_each (credit_rewards ext (v_address vo) (vi\<lparr>vi_last := bl_time block\<rparr>) r) (vi_stakers vi)
        (st\<lparr>st_validator_info := om_insert v (vi\<lparr>vi_last := bl_time block\<rparr>) (st_validator_info st)\<rparr>)
        = (Panic m, st')"
    using assms(2) by (auto simp: update_rewards_run prod_eq_iff split: option.splits if_splits)
  have "v_address vo = v" using assms(1) vo by (simp add: staking_wf_def validators_wf_def)
  with for_each_credit_missing [OF loop assms(2)] obtain a where "a \<in> set (vi_stakers vi)" "\<not> has_stake st a v"
    by (auto simp: has_stake_def)
  with assms(1) vi show False by (auto simp: staking_wf_def lists_staker_def)
qed

section \<open>Other operations\<close>

lemma remove_rewards_Ok:
  assumes "remove_rewards ext block a v st = (Ok r, st')"
  shows "\<exists>st1 sh. update_rewards ext block v st = (Ok (), st1) \<and> om_get (st_stakes st1) (a, v) = Some sh
     \<and> x_mul_floor ext 1 (sh_rewards sh) = Some r
     \<and> st' = st1\<lparr>st_stakes := om_insert (a, v) (sh\<lparr>sh_rewards := dec_zero\<rparr>) (st_stakes st1)\<rparr>"
  using assms by (auto simp: remove_rewards_def ok_iffs)

lemma remove_rewards_only: "remove_rewards ext block a v st = (Ok r, st') \<Longrightarrow> rewards_only st st'"
proof -
  assume "remove_rewards ext block a v st = (Ok r, st')"
  then obtain st1 sh where "rewards_only st st1" "om_get (st_stakes st1) (a, v) = Some sh"
      "st' = st1\<lparr>st_stakes := om_insert (a, v) (sh\<lparr>sh_rewards := dec_zero\<rparr>) (st_stakes st1)\<rparr>"
    using remove_rewards_Ok update_rewards_Ok(1) by blast
  moreover from this(2,3) have "rewards_only st1 st'"
    by (auto simp: rewards_only_def stakes_view_def infos_view_def fun_eq_iff)
  ultimately show ?thesis by (auto intro: rewards_only_trans)
qed

lemma queue_loop_rest:
  "queue_loop ext router block q s = (Ok q', s') \<Longrightarrow> q' = dropWhile (\<lambda>u. ub_payout_at u \<le> bl_time block) q"
  by (induction q arbitrary: s) (auto simp: ok_iffs split: if_splits)

lemma process_queue_Ok:
  assumes "process_queue ext router block s = (Ok r, s')"
  shows "st_queue (ch_staking s')
      = Some (dropWhile (\<lambda>u. ub_payout_at u \<le> bl_time block) (the_queue (ch_staking s)))"
  using assms by (auto simp: process_queue_def ok_iffs in_staking_def dest: queue_loop_rest)

text \<open>Entries are in payout order, and were made at times that are not in the future.\<close>

definition queue_timely :: "ext \<Rightarrow> timestamp \<Rightarrow> staking_state \<Rightarrow> bool" where
  "queue_timely ext now st \<longleftrightarrow> sorted (map ub_payout_at (the_queue st))
     \<and> (\<forall>u \<in> set (the_queue st). \<exists>t \<le> now.
          x_plus_seconds ext t (si_unbonding_time (get_staking_info st)) = Some (ub_payout_at u))"

lemma queue_timely_later: "queue_timely ext now st \<Longrightarrow> now \<le> now' \<Longrightarrow> queue_timely ext now' st"
  unfolding queue_timely_def by (meson order_trans)

section \<open>Properties\<close>

definition demo_validator :: validator where
  "demo_validator = \<lparr>v_address = ''val'', v_commission = dec_zero, v_max_commission = dec_one,
     v_max_change_rate = dec_one\<rparr>"

definition demo_block :: "u64 \<Rightarrow> block_info" where
  "demo_block t = \<lparr>bl_height = 1, bl_time = t, bl_chain_id = ''demo''\<rparr>"

text \<open>A validator with two delegators, one of which has less than one token left.\<close>

definition demo_staking :: staking_state where
  "demo_staking = \<lparr>st_info = None,
     st_stakes = [((Addr ''alice'', ''val''), \<lparr>sh_stake = Decimal (5 * 10 ^ 17), sh_rewards = dec_zero\<rparr>),
                  ((Addr ''bob'', ''val''), \<lparr>sh_stake = Decimal (5 * 10 ^ 18), sh_rewards = dec_zero\<rparr>)],
     st_validator_map = [(''val'', demo_validator)], st_validators = [demo_validator],
     st_validator_info = [(''val'', \<lparr>vi_stakers = [Addr ''alice'', Addr ''bob''], vi_stake = 5, vi_last = 0\<rparr>)],
     st_queue = Some [\<lparr>ub_delegator = Addr ''alice'', ub_validator = ''val'', ub_amount = 0,
                       ub_payout_at = 60 * 10 ^ 9\<rparr>]\<rparr>"

lemma demo_staking_wf: "staking_wf demo_staking"
  by (auto simp: staking_wf_def validators_wf_def demo_staking_def has_stake_def lists_staker_def
      demo_validator_def om_wf_def os_wf_def less_addr_def split: if_splits)

text \<open>
  The stakers a validator lists are exactly the accounts with shares at it. Delegating,
  undelegating, slashing and withdrawing rewards keep this invariant, and under it updating a
  validator's rewards never hits the code's \<open>expect\<close> that a listed staker has shares.
\<close>
theorem listed_stakers_have_shares:
  assumes "staking_wf st" "dec_laws ext"
  shows "fst (update_rewards ext block v st) \<noteq> Panic ''all stakers in validator_info should exist''
     \<and> (update_stake ext block a v amt sub st = (Ok u, st') \<longrightarrow> staking_wf st')
     \<and> (p \<le> dec_one \<longrightarrow> slash ext block v p st = (Ok u, st') \<longrightarrow> staking_wf st')
     \<and> (remove_rewards ext block a v st = (Ok r, st') \<longrightarrow> staking_wf st')"
proof (intro conjI impI)
  show "fst (update_rewards ext block v st) \<noteq> Panic ''all stakers in validator_info should exist''"
    by (rule update_rewards_stakers_exist [OF assms(1) refl])
  show "staking_wf st'" if "update_stake ext block a v amt sub st = (Ok u, st')"
    using that by (rule update_stake_effect(1) [OF assms(2,1)])
  show "staking_wf st'" if "p \<le> dec_one" "slash ext block v p st = (Ok u, st')"
    using that(2,1) by (rule slash_effect(1) [OF assms(2,1)])
  show "staking_wf st'" if "remove_rewards ext block a v st = (Ok r, st')"
    using remove_rewards_only [OF that] assms(1) by (rule rewards_only_wf)
qed

theorem listed_stakers_have_shares_witness:
  "fst (update_rewards demo_ext (demo_block (10 ^ 12)) ''val'' demo_staking)
     \<noteq> Panic ''all stakers in validator_info should exist''"
  by (rule conjunct1 [OF listed_stakers_have_shares [OF demo_staking_wf dec_laws_demo]])

text \<open>
  C40. Processing the unbonding queue breaks that invariant. When a due entry's delegator has less
  than one token of stake left (after a slash), the code removes the shares but leaves the account
  in the validator's list of stakers; from then on, every update of that validator's rewards that
  has something to distribute panics, so the validator can no longer be delegated to, undelegated
  from, slashed or withdrawn from. The entry here has been slashed to zero, so nothing is paid out.
\<close>
theorem process_queue_breaks_listing:
  assumes "staking_wf (ch_staking s)" "the_queue (ch_staking s) = [w]"
    and "ub_payout_at w \<le> bl_time block" "ub_amount w = 0"
    and "om_get (st_stakes (ch_staking s)) (ub_delegator w, ub_validator w) = Some sh"
    and "x_mul_floor ext 1 (sh_stake sh) = Some 0"
    and "process_queue ext router block s = (r, s')"
  shows "is_ok r \<and> lists_staker (ch_staking s') (ub_validator w) (ub_delegator w)
     \<and> \<not> has_stake (ch_staking s') (ub_delegator w) (ub_validator w)
     \<and> (\<forall>block' vi vo rew. om_get (st_validator_info (ch_staking s)) (ub_validator w) = Some vi \<longrightarrow>
          om_get (st_validator_map (ch_staking s)) (ub_validator w) = Some vo \<longrightarrow>
          vi_last vi < bl_time block' \<longrightarrow>
          calculate_rewards ext (bl_time block') (vi_last vi) (si_apr (get_staking_info (ch_staking s)))
            (v_commission vo) (vi_stake vi) = Some rew \<longrightarrow> rew \<noteq> dec_zero \<longrightarrow>
          (\<exists>m. fst (update_rewards ext block' (ub_validator w) (ch_staking s')) = Panic m))"
proof -
  let ?st = "ch_staking s" and ?a = "ub_delegator w" and ?v = "ub_validator w"
  have "r = Ok default_response \<and> s' = s\<lparr>ch_staking := ?st\<lparr>st_stakes := om_remove (?a, ?v) (st_stakes ?st), st_queue := Some []\<rparr>\<rparr>"
    using assms(2-7)
    by (simp add: process_queue_def drop_empty_stake_def get_stake_def in_staking_def zoom_def
        bindM_def thenM_def unstake_def ret_def checked_add_def or_panic_def)
  then have r: "is_ok r" and s': "ch_staking s' = ?st\<lparr>st_stakes := om_remove (?a, ?v) (st_stakes ?st), st_queue := Some []\<rparr>"
    by simp_all
  have "has_stake ?st ?a ?v" using assms(5) by (simp add: has_stake_def)
  with assms(1) have "lists_staker ?st ?v ?a" by (simp add: staking_wf_def)
  then have l: "lists_staker (ch_staking s') ?v ?a" by (simp add: s' lists_staker_def)
  have h: "\<not> has_stake (ch_staking s') ?a ?v" by (simp add: s' has_stake_def)
  have "\<exists>m. fst (update_rewards ext block' ?v (ch_staking s')) = Panic m"
    if vi: "om_get (st_validator_info ?st) ?v = Some vi" and vo: "om_get (st_validator_map ?st) ?v = Some vo"
      and lt: "vi_last vi < bl_time block'"
      and rew: "calculate_rewards ext (bl_time block') (vi_last vi) (si_apr (get_staking_info ?st))
            (v_commission vo) (vi_stake vi) = Some rew" "rew \<noteq> dec_zero"
    for block' vi vo rew
  proof -
    have addr: "v_address vo = ?v" using assms(1) vo by (simp add: staking_wf_def validators_wf_def)
    have mem: "?a \<in> set (vi_stakers vi)" using l vi by (simp add: s' lists_staker_def)
    have loop: "\<exists>m. fst (for_each (credit_rewards ext ?v i rew) as st) = Panic m"
      if "?a \<in> set as" "\<not> has_stake st ?a ?v" for as st i
      using that
    proof (induction as arbitrary: st)
      case (Cons b as)
      obtain q st1 where 1: "credit_rewards ext ?v i rew b st = (q, st1)" by fastforce
      have "rewards_only st st1" using credit_rewards_only 1 by (rule all_runsD)
      then have n: "\<not> has_stake st1 ?a ?v" using Cons.prems(2) by (simp add: has_stake_view rewards_only_def)
      have p: "(\<exists>m. q = Panic m) \<or> (q = Ok () \<and> b \<noteq> ?a)"
        using 1 Cons.prems(2) by (auto simp: credit_rewards_def run_eqs has_stake_def split: option.splits)
      with Cons.IH [OF _ n] Cons.prems(1) 1 show ?case by (auto simp: thenM_def bindM_def)
    qed simp
    let ?s1 = "ch_staking s'\<lparr>st_validator_info := om_insert ?v (vi\<lparr>vi_last := bl_time block'\<rparr>) (st_validator_info (ch_staking s'))\<rparr>"
    have "\<not> has_stake ?s1 ?a ?v" using h by (simp add: has_stake_def)
    from loop [OF mem this] show ?thesis
      using vi vo lt rew addr by (auto simp: update_rewards_run s' get_staking_info_def)
  qed
  with r l h show ?thesis by blast
qed

theorem process_queue_breaks_listing_witness:
  "\<exists>s' m. process_queue demo_ext mock_router (demo_block (60 * 10 ^ 9)) (empty_chain\<lparr>ch_staking := demo_staking\<rparr>)
       = (Ok default_response, s')
     \<and> fst (update_rewards demo_ext (demo_block (120 * 10 ^ 9)) ''val'' (ch_staking s')) = Panic m"
proof -
  let ?s = "empty_chain\<lparr>ch_staking := demo_staking\<rparr>"
  let ?w = "\<lparr>ub_delegator = Addr ''alice'', ub_validator = ''val'', ub_amount = 0, ub_payout_at = 60 * 10 ^ 9\<rparr>"
  let ?sh = "\<lparr>sh_stake = Decimal (5 * 10 ^ 17), sh_rewards = dec_zero\<rparr>"
  obtain r s' where run: "process_queue demo_ext mock_router (demo_block (60 * 10 ^ 9)) ?s = (r, s')" by fastforce
  have ok: "r = Ok default_response"
    using run by (auto simp: process_queue_def the_queue_def in_staking_def zoom_def bindM_def thenM_def ret_def
        demo_staking_def drop_empty_stake_def get_stake_def demo_block_def demo_ext_def fits_def or_panic_def
        unstake_def checked_add_def)
  have q: "the_queue (ch_staking ?s) = [?w]" by (simp add: the_queue_def demo_staking_def)
  have pay: "ub_payout_at ?w \<le> bl_time (demo_block (60 * 10 ^ 9))" by (simp add: demo_block_def)
  have amt: "ub_amount ?w = 0" by simp
  have sh: "om_get (st_stakes (ch_staking ?s)) (ub_delegator ?w, ub_validator ?w) = Some ?sh"
    by (simp add: demo_staking_def)
  have fl: "x_mul_floor demo_ext 1 (sh_stake ?sh) = Some 0" by (simp add: demo_ext_def fits_def)
  have wf: "staking_wf (ch_staking ?s)" using demo_staking_wf by simp
  note T = process_queue_breaks_listing [OF wf q pay amt sh fl run]
  let ?vi = "\<lparr>vi_stakers = [Addr ''alice'', Addr ''bob''], vi_stake = 5, vi_last = 0\<rparr>"
  have c: "calculate_rewards demo_ext (bl_time (demo_block (120 * 10 ^ 9))) (vi_last ?vi)
      (si_apr (get_staking_info (ch_staking ?s))) (v_commission demo_validator) (vi_stake ?vi)
      = Some (Decimal 1902587519025)"
    by (simp add: calculate_rewards_def demo_ext_def demo_block_def fits_def fits_dec_def get_staking_info_def
        demo_staking_def default_staking_info_def demo_validator_def dec_zero_def YEAR_def dec_sub_def checked_sub_def)
  have "\<exists>m. fst (update_rewards demo_ext (demo_block (120 * 10 ^ 9)) (ub_validator ?w) (ch_staking s')) = Panic m"
    using T c by (auto simp: demo_staking_def demo_block_def dec_zero_def)
  with run ok show ?thesis by simp
qed

text \<open>
  C38. Slashing is exact and local. A slash by at most 100 percent multiplies the validator's total,
  every delegator's stake at it and every pending unbonding from it by the remaining fraction,
  rounding down; when nothing is left of the total, all its delegations are removed. Stakes and
  totals at other validators, and unbondings from them, are unchanged. A larger percentage is
  rejected and changes nothing.
\<close>
theorem slash_exact:
  assumes "dec_laws ext" "staking_wf (ch_staking s)"
    and "staking_sudo ext block (Slash v p) s = (res, s')"
  shows "(dec_one < p \<longrightarrow> res = Err (StdMsg ''expected percentage'') \<and> s' = s)
     \<and> (is_ok res \<longrightarrow> (\<exists>r. dec_sub dec_one p = Some r
         \<and> (\<forall>w. validator_stake (ch_staking s') w =
               (if w = v then scaled_by r (validator_stake (ch_staking s) v) else validator_stake (ch_staking s) w))
         \<and> (\<forall>a w. stake_at (ch_staking s') a w =
               (if w \<noteq> v then stake_at (ch_staking s) a w
                else if scaled_by r (validator_stake (ch_staking s) v) = 0 then 0
                else scaled_by r (stake_at (ch_staking s) a v)))
         \<and> map (\<lambda>u. (ub_delegator u, ub_validator u, ub_payout_at u, unat (ub_amount u))) (the_queue (ch_staking s'))
           = map (\<lambda>u. (ub_delegator u, ub_validator u, ub_payout_at u,
               if ub_validator u = v then scaled_by r (unat (ub_amount u)) else unat (ub_amount u)))
               (the_queue (ch_staking s))
         \<and> s' = s\<lparr>ch_staking := ch_staking s'\<rparr>))"
proof (rule conjI; rule impI)
  show "res = Err (StdMsg ''expected percentage'') \<and> s' = s" if "dec_one < p"
    using assms(3) that [folded not_le] by (auto simp: staking_sudo_def in_staking_def zoom_def validate_percentage_def
        thenM_def bindM_def guard_def fail_def)
next
  assume "is_ok res"
  then have "p \<le> dec_one" and "\<exists>st'. slash ext block v p (ch_staking s) = (Ok (), st') \<and> s' = s\<lparr>ch_staking := st'\<rparr>"
    using assms(3) by (auto simp: is_ok_iff staking_sudo_def in_staking_def ok_iffs validate_percentage_def)
  then obtain st' where p: "p \<le> dec_one" and sl: "slash ext block v p (ch_staking s) = (Ok (), st')"
      and s': "s' = s\<lparr>ch_staking := st'\<rparr>" by blast
  obtain r where r: "dec_sub dec_one p = Some r" using slash_Ok [OF sl] by blast
  note E = slash_effect(2-4) [OF assms(1,2) sl p r]
  show "\<exists>r. dec_sub dec_one p = Some r
         \<and> (\<forall>w. validator_stake (ch_staking s') w =
               (if w = v then scaled_by r (validator_stake (ch_staking s) v) else validator_stake (ch_staking s) w))
         \<and> (\<forall>a w. stake_at (ch_staking s') a w =
               (if w \<noteq> v then stake_at (ch_staking s) a w
                else if scaled_by r (validator_stake (ch_staking s) v) = 0 then 0
                else scaled_by r (stake_at (ch_staking s) a v)))
         \<and> map (\<lambda>u. (ub_delegator u, ub_validator u, ub_payout_at u, unat (ub_amount u))) (the_queue (ch_staking s'))
           = map (\<lambda>u. (ub_delegator u, ub_validator u, ub_payout_at u,
               if ub_validator u = v then scaled_by r (unat (ub_amount u)) else unat (ub_amount u)))
               (the_queue (ch_staking s))
         \<and> s' = s\<lparr>ch_staking := ch_staking s'\<rparr>"
    by (rule exI [of _ r]) (simp add: r s' E)
qed

theorem slash_exact_witness:
  "\<exists>s'. staking_sudo demo_ext (demo_block 0) (Slash ''val'' (Decimal (5 * 10 ^ 17))) (empty_chain\<lparr>ch_staking := demo_staking\<rparr>)
       = (Ok default_response, s')
     \<and> validator_stake (ch_staking s') ''val'' = 2 \<and> stake_at (ch_staking s') (Addr ''bob'') ''val'' = 25 * 10 ^ 17"
proof -
  let ?s = "empty_chain\<lparr>ch_staking := demo_staking\<rparr>" and ?p = "Decimal (5 * 10 ^ 17)"
  obtain r s' where run: "staking_sudo demo_ext (demo_block 0) (Slash ''val'' ?p) ?s = (r, s')" by fastforce
  have ok: "r = Ok default_response"
    using run by (auto simp: staking_sudo_def in_staking_def zoom_def validate_percentage_def dec_one_def
        less_eq_decimal_def slash_def update_rewards_run demo_staking_def demo_block_def thenM_def bindM_def
        ret_def dec_sub_def checked_sub_def demo_ext_def fits_def fits_dec_def or_panic_def slash_staker_def
        the_queue_def)
  have wf: "staking_wf (ch_staking ?s)" using demo_staking_wf by simp
  have rem: "dec_sub dec_one ?p = Some (Decimal (5 * 10 ^ 17))"
    by (simp add: dec_sub_def dec_one_def checked_sub_def)
  note T = slash_exact [OF dec_laws_demo wf run, THEN conjunct2, rule_format, unfolded ok rem, simplified]
  have "validator_stake demo_staking ''val'' = 5" "stake_at demo_staking (Addr ''bob'') ''val'' = 5 * 10 ^ 18"
    by (simp_all add: validator_stake_def stake_at_def demo_staking_def)
  with T run ok show ?thesis by (simp add: scaled_by_def)
qed

text \<open>
  Undelegating queues the tokens. When \<open>StakingMsg::Undelegate\<close> succeeds: the stake is reduced by
  the amount, one entry for exactly that amount is appended to the unbonding queue, payable one
  unbonding period later, no coins move, and a queue in payout order stays in payout order as
  long as block time does not run backwards.
\<close>
theorem undelegate_queues:
  assumes "dec_laws ext" "time_laws ext" "staking_wf (ch_staking s)"
    and "staking_execute ext router block sender (Undelegate v c) s = (Ok res, s')"
  shows "stake_at (ch_staking s') sender v + unat (c_amount c) * 10 ^ 18 = stake_at (ch_staking s) sender v
     \<and> (\<exists>t. x_plus_seconds ext (bl_time block) (si_unbonding_time (get_staking_info (ch_staking s))) = Some t
         \<and> the_queue (ch_staking s') = the_queue (ch_staking s) @
             [\<lparr>ub_delegator = sender, ub_validator = v, ub_amount = c_amount c, ub_payout_at = t\<rparr>])
     \<and> (queue_timely ext (bl_time block) (ch_staking s) \<longrightarrow> queue_timely ext (bl_time block) (ch_staking s'))
     \<and> s' = s\<lparr>ch_staking := ch_staking s'\<rparr>"
proof -
  obtain st1 t where rm: "remove_stake ext block sender v c (ch_staking s) = (Ok (), st1)"
      and t: "x_plus_seconds ext (bl_time block) (si_unbonding_time (get_staking_info st1)) = Some t"
      and s': "s' = s\<lparr>ch_staking := st1\<lparr>st_queue := Some (the_queue st1 @
             [\<lparr>ub_delegator = sender, ub_validator = v, ub_amount = c_amount c, ub_payout_at = t\<rparr>])\<rparr>\<rparr>"
    using assms(4) by (auto simp: staking_execute_def in_staking_def ok_iffs Let_def validate_denom_def split: if_splits)
  have u: "update_stake ext block sender v (c_amount c) True (ch_staking s) = (Ok (), st1)"
    using rm by (auto simp: remove_stake_def validate_denom_def ok_iffs)
  note E = update_stake_effect [OF assms(1,3) u]
  have info: "get_staking_info st1 = get_staking_info (ch_staking s)" "the_queue st1 = the_queue (ch_staking s)"
    using E(6) by (simp_all add: get_staking_info_def the_queue_def)
  have q: "the_queue (ch_staking s') = the_queue (ch_staking s) @
             [\<lparr>ub_delegator = sender, ub_validator = v, ub_amount = c_amount c, ub_payout_at = t\<rparr>]"
    and i: "get_staking_info (ch_staking s') = get_staking_info (ch_staking s)"
    using info by (simp_all add: s' the_queue_def get_staking_info_def)
  have "ub_payout_at x \<le> t"
    if "queue_timely ext (bl_time block) (ch_staking s)" "x \<in> set (the_queue (ch_staking s))" for x
    using that assms(2) t info unfolding queue_timely_def time_laws_def by fastforce
  then have "queue_timely ext (bl_time block) (ch_staking s')" if "queue_timely ext (bl_time block) (ch_staking s)"
    using that t info by (auto simp: queue_timely_def q i sorted_append)
  moreover have "stake_at (ch_staking s') sender v + unat (c_amount c) * 10 ^ 18 = stake_at (ch_staking s) sender v"
  proof -
    have "stake_at (ch_staking s') sender v = stake_at st1 sender v" by (simp add: s' stake_at_def)
    with E(2) [of sender v] E(4) show ?thesis by simp
  qed
  ultimately show ?thesis using t info q s' by auto
qed

theorem undelegate_queues_witness:
  "\<exists>res s'. staking_execute demo_ext mock_router (demo_block 0) (Addr ''bob'') (Undelegate ''val'' \<lparr>c_denom = ''TOKEN'', c_amount = 2\<rparr>)
       (empty_chain\<lparr>ch_staking := demo_staking\<rparr>) = (Ok res, s')
     \<and> stake_at (ch_staking s') (Addr ''bob'') ''val'' = 3 * 10 ^ 18 \<and> length (the_queue (ch_staking s')) = 2"
proof -
  let ?s = "empty_chain\<lparr>ch_staking := demo_staking\<rparr>" and ?m = "Undelegate ''val'' \<lparr>c_denom = ''TOKEN'', c_amount = 2\<rparr>"
  obtain r s' where run: "staking_execute demo_ext mock_router (demo_block 0) (Addr ''bob'') ?m ?s = (r, s')" by fastforce
  have "is_ok r"
    using run by (auto simp: staking_execute_def in_staking_def zoom_def remove_stake_def validate_denom_def
        update_stake_def run_eqs update_rewards_run thenM_def bindM_def demo_staking_def demo_block_def
        get_staking_info_def default_staking_info_def BONDED_DENOM_def demo_ext_def fits_dec_def fits_def
        dec_sub_def checked_sub_def less_decimal_def ret_def Let_def guard_def dec_zero_def the_queue_def or_panic_def)
  then obtain res where ok: "r = Ok res" by (auto simp: is_ok_iff)
  have wf: "staking_wf (ch_staking ?s)" using demo_staking_wf by simp
  note T = undelegate_queues [OF dec_laws_demo time_laws_demo wf run [unfolded ok]]
  have "stake_at demo_staking (Addr ''bob'') ''val'' = 5 * 10 ^ 18" "length (the_queue demo_staking) = 1"
    by (simp_all add: stake_at_def demo_staking_def the_queue_def)
  with T run ok show ?thesis by auto
qed

text \<open>
  Processing the queue takes exactly the due entries. When the end-of-block processing succeeds,
  whatever the router did on the way, the queue that remains is the old one without its longest
  prefix of due entries; if the queue was in payout order, no due entry remains and no entry that
  is not yet due is lost.
\<close>
theorem process_queue_takes_due:
  assumes "process_queue ext router block s = (Ok res, s')"
  shows "the_queue (ch_staking s') = dropWhile (\<lambda>u. ub_payout_at u \<le> bl_time block) (the_queue (ch_staking s))
     \<and> (sorted (map ub_payout_at (the_queue (ch_staking s))) \<longrightarrow>
          the_queue (ch_staking s') = filter (\<lambda>u. bl_time block < ub_payout_at u) (the_queue (ch_staking s)))"
proof -
  have 1: "the_queue (ch_staking s') = dropWhile (\<lambda>u. ub_payout_at u \<le> bl_time block) (the_queue (ch_staking s))"
    using process_queue_Ok [OF assms] by (simp add: the_queue_def [of "ch_staking s'"])
  have "dropWhile (\<lambda>u. ub_payout_at u \<le> bl_time block) q = filter (\<lambda>u. bl_time block < ub_payout_at u) q"
    if "sorted (map ub_payout_at q)" for q :: "unbonding list"
    using that
  proof (induction q)
    case (Cons u q)
    have "filter (\<lambda>w. bl_time block < ub_payout_at w) q = q" if "bl_time block < ub_payout_at u"
      using Cons.prems that by (intro filter_True) (auto intro: less_le_trans)
    with Cons show ?case by (auto simp: not_less)
  qed simp
  with 1 show ?thesis by simp
qed

theorem process_queue_takes_due_witness:
  "\<exists>s'. process_queue demo_ext mock_router (demo_block (60 * 10 ^ 9)) (empty_chain\<lparr>ch_staking := demo_staking\<rparr>)
       = (Ok default_response, s') \<and> the_queue (ch_staking s') = []"
proof -
  let ?s = "empty_chain\<lparr>ch_staking := demo_staking\<rparr>"
  obtain r s' where run: "process_queue demo_ext mock_router (demo_block (60 * 10 ^ 9)) ?s = (r, s')" by fastforce
  have ok: "r = Ok default_response"
    using run by (auto simp: process_queue_def the_queue_def in_staking_def zoom_def bindM_def thenM_def ret_def
        demo_staking_def drop_empty_stake_def get_stake_def demo_block_def demo_ext_def fits_def or_panic_def
        unstake_def checked_add_def)
  have q: "the_queue demo_staking = [\<lparr>ub_delegator = Addr ''alice'', ub_validator = ''val'', ub_amount = 0,
      ub_payout_at = 60 * 10 ^ 9\<rparr>]"
    by (simp add: the_queue_def demo_staking_def)
  have "the_queue (ch_staking s') = []"
    using conjunct1 [OF process_queue_takes_due [OF run [unfolded ok]]] by (simp add: q demo_block_def)
  with run ok show ?thesis by simp
qed

text \<open>
  The withdraw address is a map with a default. After setting it, rewards of the delegator go
  to the given address and nobody else's address changes; setting it to the delegator itself
  erases the entry.
\<close>
theorem withdraw_address_set_get:
  assumes "set_withdraw_address a b d = (r, d')"
  shows "r = Ok () \<and> get_withdraw_address d' a = b
     \<and> (\<forall>x. x \<noteq> a \<longrightarrow> get_withdraw_address d' x = get_withdraw_address d x)
     \<and> (om_has (d_withdraw d') a \<longleftrightarrow> a \<noteq> b)"
  using assms by (auto simp: set_withdraw_address_def get_withdraw_address_def om_has_def)

theorem withdraw_address_set_get_witness:
  "get_withdraw_address (snd (set_withdraw_address (Addr ''a'') (Addr ''b'') \<lparr>d_withdraw = []\<rparr>)) (Addr ''a'') = Addr ''b''"
  using withdraw_address_set_get [OF prod.collapse [symmetric], of "Addr ''a''" "Addr ''b''" "\<lparr>d_withdraw = []\<rparr>"]
  by simp

end
