(* ===== verification/Router.thy ===== *)
theory Router
  imports Wasm Ibc Staking
begin

text \<open>
  The router of the application (\<open>Router\<close> in \<open>src/app.rs\<close>) and the stub modules it can be built
  with (\<open>src/module.rs\<close>, \<open>src/gov.rs\<close>, \<open>src/stargate.rs\<close>).

  A module receives the router it runs under and calls back into it, so router and modules are
  mutually recursive and a chain of calls need not end (two contracts can call each other for
  ever). The model cuts the recursion with fuel: \<open>router_at n\<close> is the router below which \<open>n\<close>
  nested router calls may follow, and the router without fuel answers \<open>NoFuel\<close>, which no handler
  turns into anything else.
\<close>

section \<open>Stub modules\<close>

text \<open>\<open>FailingModule\<close> and \<open>AcceptingModule\<close>, and the \<open>Stargate\<close> handlers of the same kinds.\<close>

datatype stub = Failing | Accepting

definition failing_execute :: "addr \<Rightarrow> cosmos_msg \<Rightarrow> app_response chain_proc" where
  [simp]: "failing_execute sender msg = fail (UnexpectedExec msg sender)"

definition failing_query :: "query_request \<Rightarrow> binary chain_proc" where
  [simp]: "failing_query request = fail (UnexpectedQuery request)"

definition failing_sudo :: "app_response chain_proc" where
  [simp]: "failing_sudo = fail UnexpectedSudo"

definition accepting_execute :: "addr \<Rightarrow> cosmos_msg \<Rightarrow> app_response chain_proc" where
  [simp]: "accepting_execute sender msg = ret default_response"

definition accepting_query :: "query_request \<Rightarrow> binary chain_proc" where
  [simp]: "accepting_query request = ret []"

definition accepting_sudo :: "app_response chain_proc" where
  [simp]: "accepting_sudo = ret default_response"

definition stub_execute :: "stub \<Rightarrow> addr \<Rightarrow> cosmos_msg \<Rightarrow> app_response chain_proc" where
  "stub_execute k sender msg = (case k of
      Failing \<Rightarrow> failing_execute sender msg | Accepting \<Rightarrow> accepting_execute sender msg)"

definition stub_query :: "stub \<Rightarrow> query_request \<Rightarrow> binary chain_proc" where
  "stub_query k request = (case k of Failing \<Rightarrow> failing_query request | Accepting \<Rightarrow> accepting_query request)"

definition stub_sudo :: "stub \<Rightarrow> app_response chain_proc" where
  "stub_sudo k = (case k of Failing \<Rightarrow> failing_sudo | Accepting \<Rightarrow> accepting_sudo)"

text \<open>The defaults of the trait \<open>Stargate\<close>, which \<open>StargateFailing\<close> keeps, and \<open>StargateAccepting\<close>.\<close>

definition default_execute_stargate :: "addr \<Rightarrow> string \<Rightarrow> binary \<Rightarrow> app_response chain_proc" where
  [simp]: "default_execute_stargate sender type_url v = fail (UnexpectedExec (MStargate type_url v) sender)"

definition default_query_stargate :: "string \<Rightarrow> binary \<Rightarrow> binary chain_proc" where
  [simp]: "default_query_stargate path data = fail (UnexpectedQuery (ReqStargate path data))"

definition default_execute_any :: "addr \<Rightarrow> string \<Rightarrow> binary \<Rightarrow> app_response chain_proc" where
  [simp]: "default_execute_any sender type_url v = fail (UnexpectedExec (MAny type_url v) sender)"

definition default_query_grpc :: "string \<Rightarrow> binary \<Rightarrow> binary chain_proc" where
  [simp]: "default_query_grpc path data = fail (UnexpectedQuery (ReqGrpc path data))"

definition accepting_execute_stargate :: "addr \<Rightarrow> string \<Rightarrow> binary \<Rightarrow> app_response chain_proc" where
  [simp]: "accepting_execute_stargate sender type_url v = ret default_response"

definition accepting_query_stargate :: "ext \<Rightarrow> string \<Rightarrow> binary \<Rightarrow> binary chain_proc" where
  [simp]: "accepting_query_stargate ext path data = lift_result (x_to_json ext JEmpty)"

definition accepting_execute_any :: "addr \<Rightarrow> string \<Rightarrow> binary \<Rightarrow> app_response chain_proc" where
  [simp]: "accepting_execute_any sender type_url v = ret default_response"

definition accepting_query_grpc :: "string \<Rightarrow> binary \<Rightarrow> binary chain_proc" where
  [simp]: "accepting_query_grpc path data = ret []"

definition execute_stargate :: "stub \<Rightarrow> addr \<Rightarrow> string \<Rightarrow> binary \<Rightarrow> app_response chain_proc" where
  "execute_stargate k sender type_url v = (case k of
      Failing \<Rightarrow> default_execute_stargate sender type_url v
    | Accepting \<Rightarrow> accepting_execute_stargate sender type_url v)"

definition execute_any :: "stub \<Rightarrow> addr \<Rightarrow> string \<Rightarrow> binary \<Rightarrow> app_response chain_proc" where
  "execute_any k sender type_url v = (case k of
      Failing \<Rightarrow> default_execute_any sender type_url v
    | Accepting \<Rightarrow> accepting_execute_any sender type_url v)"

definition query_stargate :: "ext \<Rightarrow> stub \<Rightarrow> string \<Rightarrow> binary \<Rightarrow> binary chain_proc" where
  "query_stargate ext k path data = (case k of
      Failing \<Rightarrow> default_query_stargate path data
    | Accepting \<Rightarrow> accepting_query_stargate ext path data)"

definition query_grpc :: "stub \<Rightarrow> string \<Rightarrow> binary \<Rightarrow> binary chain_proc" where
  "query_grpc k path data = (case k of
      Failing \<Rightarrow> default_query_grpc path data | Accepting \<Rightarrow> accepting_query_grpc path data)"

text \<open>What a module that implements no IBC entry point of its own answers.\<close>

definition default_channel_open :: "channel_open_msg \<Rightarrow> ibc_response chain_proc" where
  "default_channel_open request = ret (RespOpen None)"

definition default_channel_connect :: "channel_connect_msg \<Rightarrow> ibc_response chain_proc" where
  "default_channel_connect request = ret (RespBasic [])"

definition default_channel_close :: "channel_close_msg \<Rightarrow> ibc_response chain_proc" where
  "default_channel_close request = ret (RespBasic [])"

definition default_packet_receive :: "packet_receive_msg \<Rightarrow> ibc_response chain_proc" where
  "default_packet_receive request = panic ''No ibc packet receive implemented''"

definition default_packet_ack :: "packet_ack_msg \<Rightarrow> ibc_response chain_proc" where
  "default_packet_ack request = panic ''No ibc packet acknowledgement implemented''"

definition default_packet_timeout :: "packet_timeout_msg \<Rightarrow> ibc_response chain_proc" where
  "default_packet_timeout request = panic ''No ibc packet timeout implemented''"

section \<open>Dispatch\<close>

text \<open>
  The modules of a router that carry state of their own or can be exchanged; bank, staking,
  distribution and IBC are the keepers of the \<open>BasicApp\<close>.
\<close>

record modules =
  md_wasm :: wasm_keeper
  md_custom :: stub
  md_gov :: stub
  md_stargate :: stub

definition router_execute ::
    "ext \<Rightarrow> modules \<Rightarrow> nat \<Rightarrow> cosmos_router \<Rightarrow> block_info \<Rightarrow> addr \<Rightarrow> cosmos_msg \<Rightarrow> app_response chain_proc" where
  "router_execute ext md n rt block sender msg = (case msg of
      MWasm m \<Rightarrow> wasm_execute ext rt (md_wasm md) n block sender m
    | MBank m \<Rightarrow> bank_execute ext sender m
    | MCustom \<Rightarrow> stub_execute (md_custom md) sender MCustom
    | MStaking m \<Rightarrow> staking_execute ext rt block sender m
    | MDistribution m \<Rightarrow> distribution_execute ext rt block sender m
    | MIbc m \<Rightarrow> ibc_execute ext rt block sender m
    | MGov m \<Rightarrow> stub_execute (md_gov md) sender (MGov m)
    | MStargate type_url v \<Rightarrow> execute_stargate (md_stargate md) sender type_url v
    | MAny type_url v \<Rightarrow> execute_any (md_stargate md) sender type_url v
    | MOther \<Rightarrow> fail (CannotExecute MOther))"

text \<open>The querier a module is given is the router over the same, read-only, storage.\<close>

definition router_query ::
    "ext \<Rightarrow> modules \<Rightarrow> cosmos_router \<Rightarrow> block_info \<Rightarrow> query_request \<Rightarrow> chain \<Rightarrow> (std_error, binary) outcome" where
  "router_query ext md rt block request s = fst ((case request of
      ReqWasm q \<Rightarrow> wasm_query ext (\<lambda>req. r_query rt block req s) (md_wasm md) block q
    | ReqBank q \<Rightarrow> bank_query ext q
    | ReqCustom \<Rightarrow> stub_query (md_custom md) ReqCustom
    | ReqStaking q \<Rightarrow> staking_query ext block q
    | ReqIbc q \<Rightarrow> ibc_query ext (QCosmWasm q)
    | ReqStargate path data \<Rightarrow> query_stargate ext (md_stargate md) path data
    | ReqGrpc path data \<Rightarrow> query_grpc (md_stargate md) path data
    | _ \<Rightarrow> panic ''not implemented'') s)"

definition router_sudo ::
    "ext \<Rightarrow> modules \<Rightarrow> nat \<Rightarrow> cosmos_router \<Rightarrow> block_info \<Rightarrow> sudo_msg \<Rightarrow> app_response chain_proc" where
  "router_sudo ext md n rt block msg = (case msg of
      SudoWasm m \<Rightarrow> wasm_sudo ext rt (md_wasm md) n block m
    | SudoBank m \<Rightarrow> bank_sudo ext m
    | SudoStaking m \<Rightarrow> staking_sudo ext block m
    | SudoIbc m \<Rightarrow> ibc_sudo ext rt block m
    | SudoCustom \<Rightarrow> panic ''not implemented'')"

definition router_ibc ::
    "ext \<Rightarrow> modules \<Rightarrow> nat \<Rightarrow> cosmos_router \<Rightarrow> block_info \<Rightarrow> ibc_module \<Rightarrow> ibc_module_msg \<Rightarrow> ibc_response chain_proc" where
  "router_ibc ext md n rt block module msg = (case module of
      IbcBank \<Rightarrow> (case msg of
          ChannelOpen m \<Rightarrow> default_channel_open m
        | ChannelConnect m \<Rightarrow> default_channel_connect m
        | ChannelClose m \<Rightarrow> default_channel_close m
        | PacketReceive m \<Rightarrow> bank_packet_receive ext rt block m
        | PacketAcknowledgement m \<Rightarrow> bank_packet_ack ext rt block m
        | PacketTimeout m \<Rightarrow> bank_packet_timeout ext rt block m)
    | IbcStaking \<Rightarrow> (case msg of
          ChannelOpen m \<Rightarrow> default_channel_open m
        | ChannelConnect m \<Rightarrow> default_channel_connect m
        | ChannelClose m \<Rightarrow> default_channel_close m
        | PacketReceive m \<Rightarrow> default_packet_receive m
        | PacketAcknowledgement m \<Rightarrow> default_packet_ack m
        | PacketTimeout m \<Rightarrow> default_packet_timeout m)
    | IbcWasm contract \<Rightarrow> (case msg of
          ChannelOpen m \<Rightarrow> wasm_channel_open rt (md_wasm md) block contract m
        | ChannelConnect m \<Rightarrow> wasm_channel_connect ext rt (md_wasm md) n block contract m
        | ChannelClose m \<Rightarrow> wasm_channel_close ext rt (md_wasm md) n block contract m
        | PacketReceive m \<Rightarrow> wasm_packet_receive ext rt (md_wasm md) n block contract m
        | PacketAcknowledgement m \<Rightarrow> wasm_packet_ack ext rt (md_wasm md) n block contract m
        | PacketTimeout m \<Rightarrow> wasm_packet_timeout ext rt (md_wasm md) n block contract m))"

definition router_source_callback ::
    "ext \<Rightarrow> modules \<Rightarrow> nat \<Rightarrow> cosmos_router \<Rightarrow> block_info \<Rightarrow> source_callback_msg \<Rightarrow> ibc_response chain_proc" where
  "router_source_callback ext md n rt block msg =
     (let packet = (case msg of CbAcknowledgement m \<Rightarrow> pam_packet m | CbTimeout m \<Rightarrow> ptm_packet m)
      in bindM (lift_result (parse_port (ep_port (pk_src packet)))) (\<lambda>port.
         case module_of_port port of
           IbcWasm contract \<Rightarrow> fail (StdMsg ''No callback middleware for wasm in cw-multi-test'')
         | IbcBank \<Rightarrow> bindM (lift_result (x_parse_ics20 ext (pk_data packet))) (\<lambda>packet_data.
             wasm_source_callback ext rt (md_wasm md) n block (Addr (ics_sender packet_data)) msg)
         | IbcStaking \<Rightarrow> fail (StdMsg ''No callback middleware for staking in cw-multi-test'')))"

section \<open>The router and its fuel\<close>

definition idle_router :: cosmos_router where
  "idle_router = \<lparr>r_execute = (\<lambda>block sender msg. no_fuel), r_query = (\<lambda>block request s. NoFuel),
     r_sudo = (\<lambda>block msg. no_fuel), r_ibc = (\<lambda>block module msg. no_fuel),
     r_source_callback = (\<lambda>block msg. no_fuel)\<rparr>"

definition router_over :: "ext \<Rightarrow> modules \<Rightarrow> nat \<Rightarrow> cosmos_router \<Rightarrow> cosmos_router" where
  "router_over ext md n rt = \<lparr>r_execute = router_execute ext md n rt, r_query = router_query ext md rt,
     r_sudo = router_sudo ext md n rt, r_ibc = router_ibc ext md n rt,
     r_source_callback = router_source_callback ext md n rt\<rparr>"

primrec router_at :: "ext \<Rightarrow> modules \<Rightarrow> nat \<Rightarrow> cosmos_router" where
  "router_at ext md 0 = idle_router"
| "router_at ext md (Suc n) = router_over ext md n (router_at ext md n)"

lemma router_over_simps [simp]:
  "r_execute (router_over ext md n rt) = router_execute ext md n rt"
  "r_query (router_over ext md n rt) = router_query ext md rt"
  "r_sudo (router_over ext md n rt) = router_sudo ext md n rt"
  "r_ibc (router_over ext md n rt) = router_ibc ext md n rt"
  "r_source_callback (router_over ext md n rt) = router_source_callback ext md n rt"
  by (simp_all add: router_over_def)

end
