(* ===== verification/Fuel.thy ===== *)
theory Fuel
  imports Router
begin

text \<open>
  The fuel of the router changes nothing but \<open>NoFuel\<close>: a run that returns with some fuel returns
  the same result in the same state with more. So the outcome of a message is a property of the
  message and the chain, and the theorems that quantify over the fuel speak about the code.
\<close>

section \<open>Procedures that agree where the first has fuel\<close>

named_theorems fuel_intro \<open>introduction rules for extends\<close>

definition extends :: "('s, 'e, 'a) proc \<Rightarrow> ('s, 'e, 'a) proc \<Rightarrow> bool" where
  "extends m m' \<longleftrightarrow> (\<forall>s. fst (m s) = NoFuel \<or> m' s = m s)"

lemma extendsI: "(\<And>s. fst (m s) = NoFuel \<or> m' s = m s) \<Longrightarrow> extends m m'"
  by (simp add: extends_def)

lemma extends_cases:
  assumes "extends m m'"
  obtains "fst (m s) = NoFuel" | "m' s = m s"
  using assms by (auto simp: extends_def)

lemma extends_refl [fuel_intro, simp]: "extends m m"
  by (simp add: extends_def)

lemma extends_no_fuel [fuel_intro]: "extends no_fuel m"
  by (simp add: extends_def)

lemma extends_bindM [fuel_intro]:
  assumes "extends m m'" "\<And>a. extends (f a) (f' a)"
  shows "extends (bindM m f) (bindM m' f')"
proof (rule extendsI)
  fix s
  obtain r t where m: "m s = (r, t)" by fastforce
  show "fst (bindM m f s) = NoFuel \<or> bindM m' f' s = bindM m f s"
  proof (rule extends_cases [OF assms(1), of s])
    assume "m' s = m s"
    then show ?thesis
    proof (cases r)
      case (Ok a)
      with m \<open>m' s = m s\<close> assms(2) [of a] show ?thesis by (simp add: bindM_def extends_def)
    qed (use m in \<open>simp_all add: bindM_def\<close>)
  qed (use m in \<open>simp add: bindM_def\<close>)
qed

lemma extends_thenM [fuel_intro]: "extends m m' \<Longrightarrow> extends k k' \<Longrightarrow> extends (thenM m k) (thenM m' k')"
  by (simp add: thenM_def extends_bindM)

text \<open>The combinators that inspect the outcome of a procedure all pass \<open>NoFuel\<close> on.\<close>

lemma extends_transform:
  assumes "extends m m'" "\<And>x s. fst x = NoFuel \<Longrightarrow> fst (H x s) = NoFuel"
  shows "extends (\<lambda>s. H (m (g s)) s) (\<lambda>s. H (m' (g s)) s)"
proof (rule extendsI)
  fix s
  have "fst (m (g s)) = NoFuel \<or> m' (g s) = m (g s)" using assms(1) by (simp add: extends_def)
  with assms(2) [of "m (g s)" s] show "fst (H (m (g s)) s) = NoFuel \<or> H (m' (g s)) s = H (m (g s)) s" by metis
qed

lemma extends_map_errM [fuel_intro]: "extends m m' \<Longrightarrow> extends (map_errM h m) (map_errM h m')"
  unfolding map_errM_def [abs_def] by (erule extends_transform [where g = "\<lambda>s. s"]) (auto split: prod.split)

lemma extends_mapM_ok [fuel_intro]: "extends m m' \<Longrightarrow> extends (mapM_ok h m) (mapM_ok h m')"
  unfolding mapM_ok_def [abs_def] by (erule extends_transform [where g = "\<lambda>s. s"]) (auto split: prod.split)

lemma extends_zoom [fuel_intro]: "extends m m' \<Longrightarrow> extends (zoom sel upd m) (zoom sel upd m')"
  unfolding zoom_def [abs_def] by (erule extends_transform) (auto split: prod.split)

lemma extends_atomically [fuel_intro]: "extends m m' \<Longrightarrow> extends (atomically m) (atomically m')"
  unfolding atomically_def [abs_def] by (erule extends_transform [where g = "\<lambda>s. s"]) (auto split: prod.split)

lemma extends_attempt [fuel_intro]: "extends m m' \<Longrightarrow> extends (attempt m) (attempt m')"
  unfolding attempt_def [abs_def] by (erule extends_transform [where g = "\<lambda>s. s"]) (auto split: prod.split)

lemma extends_try_fold [fuel_intro]:
  assumes "\<And>acc x. extends (f acc x) (f' acc x)"
  shows "extends (try_fold f acc xs) (try_fold f' acc xs)"
  by (induction xs arbitrary: acc) (auto intro: extends_bindM assms)

lemma extends_collectM [fuel_intro]:
  assumes "\<And>x. extends (f x) (f' x)"
  shows "extends (collectM f xs) (collectM f' xs)"
  by (induction xs) (auto intro!: extends_bindM assms)

lemma extends_if [fuel_intro]:
    "extends m m' \<Longrightarrow> extends k k' \<Longrightarrow> extends (if b then m else k) (if b then m' else k')"
  and extends_case_prod [fuel_intro]:
    "(\<And>a b. extends (f a b) (f' a b)) \<Longrightarrow> extends (case_prod f p) (case_prod f' p)"
  and extends_case_option [fuel_intro]:
    "extends m m' \<Longrightarrow> (\<And>a. extends (g a) (g' a)) \<Longrightarrow> extends (case_option m g v) (case_option m' g' v)"
  and extends_case_sum [fuel_intro]:
    "(\<And>e. extends (h e) (h' e)) \<Longrightarrow> (\<And>a. extends (g a) (g' a)) \<Longrightarrow> extends (case_sum h g x) (case_sum h' g' x)"
  and extends_case_response [fuel_intro]:
    "(\<And>v. extends (f1 v) (f1' v)) \<Longrightarrow> (\<And>es. extends (f2 es) (f2' es)) \<Longrightarrow>
     (\<And>es a. extends (f3 es a) (f3' es a)) \<Longrightarrow>
     extends (case_ibc_response f1 f2 f3 r) (case_ibc_response f1' f2' f3' r)"
  by (simp_all split: prod.split option.split sum.split ibc_response.split)

lemma extends_zoomed [fuel_intro]:
  "extends m m' \<Longrightarrow> extends (in_bank m) (in_bank m')"
  "extends k k' \<Longrightarrow> extends (in_staking k) (in_staking k')"
  "extends d d' \<Longrightarrow> extends (in_distribution d) (in_distribution d')"
  "extends i i' \<Longrightarrow> extends (in_ibc i) (in_ibc i')"
  by (simp_all add: in_defs extends_zoom)

section \<open>Routers\<close>

text \<open>\<open>router_extends rt rt'\<close>: \<open>rt'\<close> answers what \<open>rt\<close> answers, and may answer more.\<close>

definition outcome_extends :: "('e, 'a) outcome \<Rightarrow> ('e, 'a) outcome \<Rightarrow> bool" where
  "outcome_extends r r' \<longleftrightarrow> r = NoFuel \<or> r' = r"

definition router_extends :: "cosmos_router \<Rightarrow> cosmos_router \<Rightarrow> bool" where
  "router_extends rt rt' \<longleftrightarrow>
     (\<forall>b a m. extends (r_execute rt b a m) (r_execute rt' b a m))
     \<and> (\<forall>b q s. outcome_extends (r_query rt b q s) (r_query rt' b q s))
     \<and> (\<forall>b m. extends (r_sudo rt b m) (r_sudo rt' b m))
     \<and> (\<forall>b i m. extends (r_ibc rt b i m) (r_ibc rt' b i m))
     \<and> (\<forall>b m. extends (r_source_callback rt b m) (r_source_callback rt' b m))"

lemma router_extends_refl: "router_extends rt rt"
  by (simp add: router_extends_def outcome_extends_def)

lemma router_extendsD [fuel_intro]:
  assumes "router_extends rt rt'"
  shows "extends (r_execute rt b a m) (r_execute rt' b a m)"
    and "extends (r_sudo rt b u) (r_sudo rt' b u)"
    and "extends (r_ibc rt b i im) (r_ibc rt' b i im)"
    and "extends (r_source_callback rt b c) (r_source_callback rt' b c)"
  using assms by (simp_all add: router_extends_def)

lemma run_cprog_extends:
  assumes "\<And>req. outcome_extends (q req) (q' req)"
  shows "extends (run_cprog q p) (run_cprog q' p)"
proof (induction p)
  case (CQuery req f)
  have "q req = NoFuel \<or> q' req = q req" using assms [of req] by (simp add: outcome_extends_def)
  then show ?case
  proof
    assume "q' req = q req"
    with CQuery show ?thesis by (cases "q req") (auto simp: extends_def)
  qed (simp add: extends_def)
next
  case (CRange lo hi ord f)
  then show ?case by (auto simp: extends_def split: option.split)
qed (simp_all add: extends_def)

lemma with_storage_extends [fuel_intro]:
  assumes "router_extends rt rt'"
  shows "extends (with_storage rt wk block a action) (with_storage rt' wk block a action)"
proof -
  have "extends (\<lambda>s. contract_storage_mut a (run_cprog (\<lambda>req. r_query rt block req s) (action h e)) s)
      (\<lambda>s. contract_storage_mut a (run_cprog (\<lambda>req. r_query rt' block req s) (action h e)) s)" for h e
  proof (rule extendsI)
    fix s
    have "outcome_extends (r_query rt block req s) (r_query rt' block req s)" for req
      using assms by (simp add: router_extends_def)
    then have "extends (contract_storage_mut a (run_cprog (\<lambda>req. r_query rt block req s) (action h e)))
        (contract_storage_mut a (run_cprog (\<lambda>req. r_query rt' block req s) (action h e)))"
      unfolding contract_storage_mut_def by (intro extends_zoom run_cprog_extends)
    then show "fst (contract_storage_mut a (run_cprog (\<lambda>req. r_query rt block req s) (action h e)) s) = NoFuel
        \<or> contract_storage_mut a (run_cprog (\<lambda>req. r_query rt' block req s) (action h e)) s
          = contract_storage_mut a (run_cprog (\<lambda>req. r_query rt block req s) (action h e)) s"
      by (simp add: extends_def)
  qed
  then show ?thesis unfolding with_storage_def by (intro fuel_intro)
qed

lemma calls_extend [fuel_intro]:
  assumes "router_extends rt rt'"
  shows "extends (call_execute rt wk block a info msg) (call_execute rt' wk block a info msg)"
    and "extends (call_instantiate rt wk block a info msg) (call_instantiate rt' wk block a info msg)"
    and "extends (call_reply rt wk block a rp) (call_reply rt' wk block a rp)"
    and "extends (call_sudo rt wk block a msg) (call_sudo rt' wk block a msg)"
    and "extends (call_migrate rt wk block a msg mi) (call_migrate rt' wk block a msg mi)"
  unfolding call_execute_def call_instantiate_def call_reply_def call_sudo_def call_migrate_def
  by (intro fuel_intro assms)+

lemma execute_submsg_extends:
  assumes "router_extends rt rt'" "\<And>a rp. extends (reply a rp) (reply' a rp)"
  shows "extends (execute_submsg ext rt reply block c m) (execute_submsg ext rt' reply' block c m)"
  unfolding execute_submsg_def by (intro fuel_intro assms)

lemma process_response_extends [fuel_intro]:
  assumes "router_extends rt rt'" "\<And>a rp. extends (reply a rp) (reply' a rp)"
  shows "extends (process_response ext rt reply block c r ms) (process_response ext rt' reply' block c r ms)"
  unfolding process_response_def by (intro fuel_intro execute_submsg_extends assms)

lemma reply_at_extends:
  assumes "router_extends rt rt'"
  shows "n \<le> n' \<Longrightarrow> extends (reply_at ext rt wk block n a rp) (reply_at ext rt' wk block n' a rp)"
proof (induction n arbitrary: n' a rp)
  case 0
  have "reply_at ext rt wk block 0 a rp = no_fuel" by (rule ext) simp
  then show ?case by (simp add: extends_no_fuel)
next
  case (Suc n)
  then obtain k where k: "n' = Suc k" "n \<le> k" by (cases n') auto
  have "extends (reply_at ext rt wk block n b q) (reply_at ext rt' wk block k b q)" for b q
    using Suc.IH k(2) .
  then have "extends (\<lambda>s. reply_at ext rt wk block (Suc n) a rp s) (\<lambda>s. reply_at ext rt' wk block (Suc k) a rp s)"
    unfolding reply_at.simps Let_def by (intro fuel_intro assms)
  then show ?case by (simp add: k(1))
qed

section \<open>Module handlers\<close>

lemma process_at_extends [fuel_intro]:
  assumes "router_extends rt rt'" "n \<le> n'"
  shows "extends (process_at ext rt wk n block c rm) (process_at ext rt' wk n' block c rm)"
  unfolding process_at_def by (intro fuel_intro assms reply_at_extends)

lemma wasm_execute_extends:
  assumes "router_extends rt rt'" "n \<le> n'"
  shows "extends (wasm_execute ext rt wk n block sender m) (wasm_execute ext rt' wk n' block sender m)"
  unfolding wasm_execute_def
proof (rule extends_map_errM)
  show "extends (execute_wasm ext rt wk n block sender m) (execute_wasm ext rt' wk n' block sender m)"
    by (cases m; simp only: execute_wasm_def process_wasm_msg_instantiate_def wasm_send_def wasm_msg.case;
        intro fuel_intro assms)
qed

lemma wasm_entries_extend:
  assumes "router_extends rt rt'" "n \<le> n'"
  shows "extends (wasm_sudo ext rt wk n block u) (wasm_sudo ext rt' wk n' block u)"
    and "extends (wasm_channel_open rt wk block a o1) (wasm_channel_open rt' wk block a o1)"
    and "extends (wasm_channel_connect ext rt wk n block a o2) (wasm_channel_connect ext rt' wk n' block a o2)"
    and "extends (wasm_channel_close ext rt wk n block a o3) (wasm_channel_close ext rt' wk n' block a o3)"
    and "extends (wasm_packet_receive ext rt wk n block a o4) (wasm_packet_receive ext rt' wk n' block a o4)"
    and "extends (wasm_packet_ack ext rt wk n block a o5) (wasm_packet_ack ext rt' wk n' block a o5)"
    and "extends (wasm_packet_timeout ext rt wk n block a o6) (wasm_packet_timeout ext rt' wk n' block a o6)"
    and "extends (wasm_source_callback ext rt wk n block a o7) (wasm_source_callback ext rt' wk n' block a o7)"
  unfolding wasm_sudo_def wasm_channel_open_def wasm_channel_connect_def wasm_channel_close_def
    wasm_packet_receive_def wasm_packet_ack_def wasm_packet_timeout_def wasm_source_callback_def
    ibc_basic_entry_def process_ibc_response_def [abs_def] process_ibc_receive_response_def [abs_def]
  by (intro fuel_intro assms)+

lemma bank_packets_extend:
  assumes "router_extends rt rt'"
  shows "extends (bank_packet_receive ext rt block m1) (bank_packet_receive ext rt' block m1)"
    and "extends (bank_packet_ack ext rt block m2) (bank_packet_ack ext rt' block m2)"
    and "extends (bank_packet_timeout ext rt block m3) (bank_packet_timeout ext rt' block m3)"
  unfolding bank_packet_receive_def bank_packet_ack_def bank_packet_timeout_def hooks_callback_def Let_def
  by (intro fuel_intro assms)+

lemma staking_extends:
  assumes "router_extends rt rt'"
  shows "extends (staking_execute ext rt block sender m) (staking_execute ext rt' block sender m)"
    and "extends (distribution_execute ext rt block sender d) (distribution_execute ext rt' block sender d)"
  by (cases m; simp only: staking_execute_def staking_msg.case Let_def; intro fuel_intro assms)
    (cases d; simp only: distribution_execute_def distribution_msg.case Let_def; intro fuel_intro assms)

lemma ibc_extends:
  assumes "router_extends rt rt'"
  shows "extends (ibc_execute ext rt block sender m) (ibc_execute ext rt' block sender m)"
    and "extends (ibc_sudo ext rt block u) (ibc_sudo ext rt' block u)"
proof -
  have close: "extends (close_channel rt block p c i) (close_channel rt' block p c i)" for p c i
    unfolding close_channel_def Let_def by (cases i; simp; intro fuel_intro assms)
  show "extends (ibc_execute ext rt block sender m) (ibc_execute ext rt' block sender m)"
    by (cases m; simp only: ibc_execute_def ibc_msg.case transfer_def; intro fuel_intro assms close)
  show "extends (ibc_sudo ext rt block u) (ibc_sudo ext rt' block u)"
    by (cases u; simp only: ibc_sudo_def relaying_msg.case open_channel_def connect_channel_def receive_packet_def
        acknowledge_packet_def timeout_packet_def Let_def; intro fuel_intro assms close)
qed

section \<open>More fuel, same answer\<close>

lemma router_over_extends:
  assumes rt: "router_extends rt rt'" and n: "n \<le> n'"
  shows "router_extends (router_over ext md n rt) (router_over ext md n' rt')"
  unfolding router_extends_def
proof (intro conjI allI)
  note step = wasm_execute_extends [OF assms] wasm_entries_extend [OF assms] bank_packets_extend [OF rt]
    staking_extends [OF rt] ibc_extends [OF rt]
  show "extends (r_execute (router_over ext md n rt) b a m) (r_execute (router_over ext md n' rt') b a m)" for b a m
    by (cases m; simp add: router_execute_def step)
  show "extends (r_sudo (router_over ext md n rt) b m) (r_sudo (router_over ext md n' rt') b m)" for b m
    by (cases m; simp add: router_sudo_def step)
  show "extends (r_ibc (router_over ext md n rt) b i m) (r_ibc (router_over ext md n' rt') b i m)" for b i m
    by (cases i; cases m; simp add: router_ibc_def step)
  show "extends (r_source_callback (router_over ext md n rt) b m) (r_source_callback (router_over ext md n' rt') b m)" for b m
    unfolding router_over_simps router_source_callback_def Let_def
    by (intro fuel_intro; simp split: ibc_module.split; intro allI impI fuel_intro step)
  show "outcome_extends (r_query (router_over ext md n rt) b q s) (r_query (router_over ext md n' rt') b q s)" for b q s
  proof -
    have q: "extends (wasm_query ext (\<lambda>req. r_query rt b req t) wk b w)
        (wasm_query ext (\<lambda>req. r_query rt' b req t) wk b w)" for t wk w
    proof -
      have "outcome_extends (r_query rt b req t) (r_query rt' b req t)" for req
        using rt by (simp add: router_extends_def)
      then have "extends (run_cprog (\<lambda>req. r_query rt b req t) p) (run_cprog (\<lambda>req. r_query rt' b req t) p)"
        for p :: "binary cprog" by (rule run_cprog_extends)
      then have "fst (run_cprog (\<lambda>req. r_query rt b req t) p mm) = NoFuel \<or>
          run_cprog (\<lambda>req. r_query rt' b req t) p mm = run_cprog (\<lambda>req. r_query rt b req t) p mm"
        for p :: "binary cprog" and mm by (simp add: extends_def)
      then have "extends (lift_outcome (fst (run_cprog (\<lambda>req. r_query rt b req t) p mm)))
          (lift_outcome (fst (run_cprog (\<lambda>req. r_query rt' b req t) p mm)))" for p :: "binary cprog" and mm
        by (metis (no_types, lifting) extends_def lift_outcome_def fst_conv)
      then show ?thesis
        by (cases w; simp only: wasm_query_def wasm_query.case query_smart_def with_storage_readonly_def; intro fuel_intro)
    qed
    then show ?thesis
      by (cases q; simp add: router_query_def outcome_extends_def; simp add: extends_def; metis)
  qed
qed

lemma router_at_extends: "n \<le> n' \<Longrightarrow> router_extends (router_at ext md n) (router_at ext md n')"
proof (induction n arbitrary: n')
  case 0
  then show ?case by (simp add: router_extends_def idle_router_def outcome_extends_def extends_no_fuel)
next
  case (Suc n)
  then obtain k where "n' = Suc k" "n \<le> k" by (cases n') auto
  with Suc.IH show ?case by (simp add: router_over_extends)
qed

end
