(* ===== verification/Prefixed_Storage.thy ===== *)
theory Prefixed_Storage
  imports Transactions
begin

text \<open>
  \<open>src/src/prefixed_storage/\<close>: length-prefixed namespaces (\<open>length_prefixed.rs\<close>), the
  accessors below a prefix (\<open>namespace_helpers.rs\<close>) and the mutable storage view built from them
  (\<open>PrefixedStorage\<close> in \<open>mod.rs\<close>; the other views are in theory \<open>Storage_Views\<close>). Panics (a namespace longer than 0xFFFF bytes, a
  slice out of range in \<open>trim\<close>) are the value \<open>None\<close>. The lemmas show that namespaces are
  prefix-free, that the upper bound of a namespace encloses exactly its keys (among the keys
  at least as long as the prefix), and that a prefixed view of a lawful storage is a lawful
  storage.
\<close>

section \<open>Length prefixes\<close>

text \<open>\<open>u32::to_be_bytes\<close>.\<close>

definition to_be_bytes32 :: "32 word \<Rightarrow> bytes" where
  "to_be_bytes32 w = [ucast (drop_bit 24 w), ucast (drop_bit 16 w), ucast (drop_bit 8 w), ucast w]"

definition encode_length :: "bytes \<Rightarrow> bytes option" where
  "encode_length namespace = (
     if length namespace > 0xFFFF then None
     else let length_bytes = to_be_bytes32 (of_nat (length namespace))
          in Some [length_bytes ! 2, length_bytes ! 3])"

definition to_length_prefixed :: "bytes \<Rightarrow> bytes option" where
  "to_length_prefixed namespace = (case encode_length namespace of
      None \<Rightarrow> None
    | Some l \<Rightarrow> Some (l @ namespace))"

fun nested_loop :: "bytes \<Rightarrow> bytes list \<Rightarrow> bytes option" where
  "nested_loop out [] = Some out"
| "nested_loop out (namespace # rest) = (case encode_length namespace of
      None \<Rightarrow> None
    | Some l \<Rightarrow> nested_loop (out @ l @ namespace) rest)"

definition to_length_prefixed_nested :: "bytes list \<Rightarrow> bytes option" where
  "to_length_prefixed_nested namespaces = nested_loop [] namespaces"

text \<open>The two bytes are the big-endian length.\<close>

definition len_val :: "bytes \<Rightarrow> nat" where
  "len_val l = 256 * unat (l ! 0) + unat (l ! 1)"

lemma encode_length_val:
  assumes "encode_length ns = Some l"
  shows "length l = 2 \<and> len_val l = length ns"
proof -
  from assms have n: "length ns < 65536" and
    l: "l = [ucast (drop_bit 8 (of_nat (length ns) :: 32 word)), ucast (of_nat (length ns) :: 32 word)]"
    by (auto simp: encode_length_def to_be_bytes32_def Let_def split: if_splits)
  let ?w = "of_nat (length ns) :: 32 word"
  have w: "unat ?w = length ns" using n by (simp add: unat_of_nat)
  have d: "unat (drop_bit 8 ?w) = length ns div 256"
    using unat_drop_bit_eq [of 8 ?w] w by (simp add: drop_bit_eq_div)
  have "unat (ucast (drop_bit 8 ?w) :: byte) = length ns div 256"
    by (simp only: unsigned_ucast_eq d take_bit_eq_mod) (use n in simp)
  then have "unat (l ! 0) = length ns div 256" by (simp only: l nth_Cons_0)
  moreover have "unat (l ! 1) = length ns mod 256"
    using l w by (simp add: unsigned_ucast_eq take_bit_eq_mod)
  ultimately show ?thesis using l by (simp add: len_val_def)
qed

lemma encode_length_None: "encode_length ns = None \<longleftrightarrow> length ns > 0xFFFF"
  by (simp add: encode_length_def Let_def)

lemma encode_length_prefix_free:
  assumes "encode_length a = Some l" "encode_length b = Some m" "l @ a @ x = m @ b @ y"
  shows "a = b \<and> x = y"
proof -
  from assms(1,2) have "length l = 2" "length m = 2" "len_val l = length a" "len_val m = length b"
    by (simp_all add: encode_length_val)
  with assms(3) have "l = m" "a @ x = b @ y" by auto
  with \<open>len_val l = length a\<close> \<open>len_val m = length b\<close> show ?thesis by simp
qed

lemma nested_loop_acc: "nested_loop out nss = map_option (\<lambda>r. out @ r) (nested_loop [] nss)"
proof (induction nss arbitrary: out)
  case (Cons ns nss)
  show ?case
  proof (cases "encode_length ns")
    case (Some l)
    then show ?thesis
      using Cons [of "out @ l @ ns"] Cons [of "l @ ns"] by (simp add: option.map_comp comp_def)
  qed simp
qed simp

lemma nested_Cons:
  "to_length_prefixed_nested (ns # nss) = (case encode_length ns of
      None \<Rightarrow> None | Some l \<Rightarrow> map_option (\<lambda>r. l @ ns @ r) (to_length_prefixed_nested nss))"
  by (simp add: to_length_prefixed_nested_def nested_loop_acc [of "_ @ _"] split: option.splits)

lemma nested_single: "to_length_prefixed_nested [ns] = to_length_prefixed ns"
  by (auto simp: nested_Cons to_length_prefixed_def to_length_prefixed_nested_def split: option.splits)

lemma nested_prefix_free:
  "length nss = length mss \<Longrightarrow> to_length_prefixed_nested nss = Some p \<Longrightarrow>
   to_length_prefixed_nested mss = Some q \<Longrightarrow> p @ x = q @ y \<Longrightarrow> nss = mss \<and> x = y"
proof (induction nss mss arbitrary: p q rule: list_induct2)
  case Nil
  then show ?case by (simp add: to_length_prefixed_nested_def)
next
  case (Cons n nss m mss)
  from Cons.prems(1) obtain l p' where l: "encode_length n = Some l"
      "to_length_prefixed_nested nss = Some p'" "p = l @ n @ p'"
    by (auto simp: nested_Cons split: option.splits)
  from Cons.prems(2) obtain k q' where k: "encode_length m = Some k"
      "to_length_prefixed_nested mss = Some q'" "q = k @ m @ q'"
    by (auto simp: nested_Cons split: option.splits)
  have "l @ n @ (p' @ x) = k @ m @ (q' @ y)" using Cons.prems(3) l k by simp
  then have "n = m" "p' @ x = q' @ y"
    using encode_length_prefix_free [OF l(1) k(1)] by blast+
  then show ?case using Cons.IH l k by simp
qed

section \<open>Access below a prefix\<close>

definition concat_key :: "bytes \<Rightarrow> bytes \<Rightarrow> bytes" where
  "concat_key namespace key = namespace @ key"

definition get_with_prefix :: "'s storage_ops \<Rightarrow> 's \<Rightarrow> bytes \<Rightarrow> bytes \<Rightarrow> bytes option" where
  "get_with_prefix ops s namespace key = s_get ops s (concat_key namespace key)"

definition set_with_prefix :: "'s storage_ops \<Rightarrow> 's \<Rightarrow> bytes \<Rightarrow> bytes \<Rightarrow> bytes \<Rightarrow> 's" where
  "set_with_prefix ops s namespace key value = s_set ops s (concat_key namespace key) value"

definition remove_with_prefix :: "'s storage_ops \<Rightarrow> 's \<Rightarrow> bytes \<Rightarrow> bytes \<Rightarrow> 's" where
  "remove_with_prefix ops s namespace key = s_remove ops s (concat_key namespace key)"

text \<open>The loop \<open>for i in (0..input.len()).rev()\<close> with its \<open>break\<close>.\<close>

fun upper_bound_loop :: "nat \<Rightarrow> bytes \<Rightarrow> bytes" where
  "upper_bound_loop 0 copy = copy"
| "upper_bound_loop (Suc i) copy =
     (if copy ! i = 255 then upper_bound_loop i (copy[i := 0])
      else copy[i := copy ! i + 1])"

definition namespace_upper_bound :: "bytes \<Rightarrow> bytes" where
  "namespace_upper_bound input = upper_bound_loop (length input) input"

text \<open>The slice \<open>key[namespace.len()..]\<close> panics on a shorter key.\<close>

definition trim_key :: "bytes \<Rightarrow> bytes \<Rightarrow> bytes option" where
  "trim_key namespace key =
     (if length namespace \<le> length key then Some (drop (length namespace) key) else None)"

text \<open>
  The code trims the entries one at a time, as its iterator is advanced. The model runs the iterator to its
  end: \<open>None\<close> says that an iteration which is carried on panics at some entry, though the entries before it
  can be read in the code.
\<close>

fun trim_all :: "bytes \<Rightarrow> rec list \<Rightarrow> rec list option" where
  "trim_all namespace [] = Some []"
| "trim_all namespace ((k, v) # rest) =
     (case (trim_key namespace k, trim_all namespace rest) of
        (Some k', Some rest') \<Rightarrow> Some ((k', v) # rest') | _ \<Rightarrow> None)"

definition range_with_prefix ::
    "'s storage_ops \<Rightarrow> 's \<Rightarrow> bytes \<Rightarrow> bytes option \<Rightarrow> bytes option \<Rightarrow> order \<Rightarrow> rec list option" where
  "range_with_prefix ops s namespace start stop ord = (
     let start' = (case start of Some a \<Rightarrow> concat_key namespace a | None \<Rightarrow> namespace);
         stop' = (case stop of Some e \<Rightarrow> concat_key namespace e | None \<Rightarrow> namespace_upper_bound namespace)
     in case s_range ops s (Some start') (Some stop') ord of
          None \<Rightarrow> None
        | Some base \<Rightarrow> trim_all namespace base)"

section \<open>The prefixed storages\<close>

record 's prefixed_storage =
  pfs_storage :: 's
  pfs_prefix :: bytes

definition prefixed_new :: "'s \<Rightarrow> bytes \<Rightarrow> 's prefixed_storage option" where
  "prefixed_new s namespace = map_option (\<lambda>p. \<lparr>pfs_storage = s, pfs_prefix = p\<rparr>) (to_length_prefixed namespace)"

definition prefixed_multilevel :: "'s \<Rightarrow> bytes list \<Rightarrow> 's prefixed_storage option" where
  "prefixed_multilevel s namespaces =
     map_option (\<lambda>p. \<lparr>pfs_storage = s, pfs_prefix = p\<rparr>) (to_length_prefixed_nested namespaces)"

definition pfs_get :: "'s storage_ops \<Rightarrow> 's prefixed_storage \<Rightarrow> bytes \<Rightarrow> bytes option" where
  "pfs_get ops t key = get_with_prefix ops (pfs_storage t) (pfs_prefix t) key"

definition pfs_range :: "'s storage_ops \<Rightarrow> 's prefixed_storage \<Rightarrow> bytes option \<Rightarrow> bytes option \<Rightarrow> order \<Rightarrow> rec list option" where
  "pfs_range ops t start stop ord = range_with_prefix ops (pfs_storage t) (pfs_prefix t) start stop ord"

definition pfs_set :: "'s storage_ops \<Rightarrow> 's prefixed_storage \<Rightarrow> bytes \<Rightarrow> bytes \<Rightarrow> 's prefixed_storage" where
  "pfs_set ops t key value = t\<lparr>pfs_storage := set_with_prefix ops (pfs_storage t) (pfs_prefix t) key value\<rparr>"

definition pfs_remove :: "'s storage_ops \<Rightarrow> 's prefixed_storage \<Rightarrow> bytes \<Rightarrow> 's prefixed_storage" where
  "pfs_remove ops t key = t\<lparr>pfs_storage := remove_with_prefix ops (pfs_storage t) (pfs_prefix t) key\<rparr>"

definition pfs_ops :: "'s storage_ops \<Rightarrow> 's prefixed_storage storage_ops" where
  "pfs_ops ops = \<lparr>s_get = pfs_get ops, s_range = pfs_range ops, s_set = pfs_set ops, s_remove = pfs_remove ops\<rparr>"

section \<open>Order facts about keys below a prefix\<close>

lemma append_le_append [simp]: "(p :: bytes) @ a \<le> p @ b \<longleftrightarrow> a \<le> b"
  by (induction p) auto

lemma append_less_append [simp]: "(p :: bytes) @ a < p @ b \<longleftrightarrow> a < b"
  by (induction p) auto

lemma le_append_self [simp]: "(p :: bytes) \<le> p @ a"
  using append_le_append [of p "[]" a] by simp

lemma between_prefix: "(p :: bytes) @ a \<le> k \<Longrightarrow> k < p @ b \<Longrightarrow> \<exists>c. k = p @ c"
proof (induction p arbitrary: k)
  case (Cons x p)
  then obtain y k' where k: "k = y # k'" by (cases k) auto
  with Cons.prems have "y = x" "p @ a \<le> k'" "k' < p @ b" by auto
  with Cons.IH k show ?case by fastforce
qed simp

lemma byte_inc: "(x :: byte) \<noteq> 255 \<Longrightarrow> x < x + 1"
  and byte_inc_le: "(x :: byte) \<noteq> 255 \<Longrightarrow> y < x + 1 \<longleftrightarrow> y \<le> x"
proof -
  assume "x \<noteq> 255"
  then have "unat x \<noteq> unat (255 :: byte)" by (simp add: word_unat_eq_iff)
  moreover have "unat x < 256" using unsigned_less [of x] by simp
  ultimately have "unat (x + 1) = unat x + 1" by (simp add: unat_word_ariths)
  then show "x < x + 1" "y < x + 1 \<longleftrightarrow> y \<le> x"
    by (simp_all add: word_less_nat_alt word_le_nat_alt less_Suc_eq_le)
qed

text \<open>A namespace that is not all 255 splits at its last byte below 255.\<close>

lemma split_last_small:
  assumes "\<exists>b \<in> set p. b \<noteq> (255 :: byte)"
  shows "\<exists>q x n. p = q @ x # replicate n 255 \<and> x \<noteq> 255"
  using assms
proof (induction p rule: rev_induct)
  case (snoc y p)
  show ?case
  proof (cases "y = 255")
    case True
    with snoc.prems have "\<exists>b \<in> set p. b \<noteq> 255" by auto
    then obtain q x n where "p = q @ x # replicate n 255" "x \<noteq> 255" using snoc.IH by blast
    with True have "p @ [y] = q @ x # replicate (Suc n) 255" "x \<noteq> 255"
      by (simp_all add: replicate_append_same)
    then show ?thesis by blast
  next
    case False
    then have "p @ [y] = p @ y # replicate 0 255" "y \<noteq> 255" by simp_all
    then show ?thesis by blast
  qed
qed simp

lemma upper_bound_loop_255:
  "upper_bound_loop (length q + n) (q @ replicate n 255 @ r)
     = upper_bound_loop (length q) (q @ replicate n 0 @ r)"
proof (induction n arbitrary: r)
  case (Suc n)
  have "replicate (Suc n) (255 :: byte) = replicate n 255 @ [255]"
    by (simp add: replicate_append_same)
  then have "upper_bound_loop (length q + Suc n) (q @ replicate (Suc n) 255 @ r)
      = upper_bound_loop (length q + n) (q @ replicate n 255 @ 0 # r)"
    by (simp add: nth_append list_update_append del: replicate_Suc)
  also have "\<dots> = upper_bound_loop (length q) (q @ replicate n 0 @ 0 # r)" by (rule Suc.IH)
  finally show ?case by (simp add: replicate_app_Cons_same)
qed simp

lemma namespace_upper_bound_eq:
  assumes "x \<noteq> 255"
  shows "namespace_upper_bound (q @ x # replicate n 255) = q @ (x + 1) # replicate n 0"
proof -
  have "namespace_upper_bound (q @ x # replicate n 255)
      = upper_bound_loop (length (q @ [x]) + n) ((q @ [x]) @ replicate n 255 @ [])"
    by (simp add: namespace_upper_bound_def)
  also have "\<dots> = upper_bound_loop (length (q @ [x])) ((q @ [x]) @ replicate n 0 @ [])"
    by (rule upper_bound_loop_255)
  also have "\<dots> = q @ (x + 1) # replicate n 0"
    using assms by (simp add: nth_append)
  finally show ?thesis .
qed

lemma replicate_255_max: "length d \<ge> n \<Longrightarrow> replicate n (255 :: byte) \<le> d \<Longrightarrow> \<exists>e. d = replicate n 255 @ e"
proof (induction n arbitrary: d)
  case (Suc n)
  then obtain y d' where d: "d = y # d'" by (cases d) auto
  have "unat y < 256" using unsigned_less [of y] by simp
  then have "y \<le> 255" by (simp add: word_le_nat_alt)
  with Suc d show ?case by fastforce
qed simp

lemma less_replicate_0: "d < replicate n (0 :: byte) \<Longrightarrow> length d < n"
proof (induction n arbitrary: d)
  case (Suc n)
  then show ?case by (cases d) auto
qed simp

lemma upper_bound_includes:
  assumes "\<exists>b \<in> set p. b \<noteq> (255 :: byte)"
  shows "p \<le> p @ k \<and> p @ k < namespace_upper_bound p"
proof -
  obtain q x n where p: "p = q @ x # replicate n 255" and x: "x \<noteq> 255"
    using split_last_small [OF assms] by blast
  show ?thesis using byte_inc [OF x] by (simp add: p namespace_upper_bound_eq [OF x])
qed

lemma upper_bound_excludes:
  assumes "\<exists>b \<in> set p. b \<noteq> (255 :: byte)" "p \<le> k" "k < namespace_upper_bound p" "length p \<le> length k"
  shows "\<exists>c. k = p @ c"
proof -
  obtain q x n where p: "p = q @ x # replicate n 255" and x: "x \<noteq> 255"
    using split_last_small [OF assms(1)] by blast
  have ub: "namespace_upper_bound p = q @ (x + 1) # replicate n 0"
    by (simp add: p namespace_upper_bound_eq [OF x])
  have "q @ (x # replicate n 255) \<le> k" "k < q @ ((x + 1) # replicate n 0)"
    using assms(2,3) by (simp_all add: p namespace_upper_bound_eq [OF x])
  then obtain c where k: "k = q @ c" and c: "x # replicate n 255 \<le> c" "c < (x + 1) # replicate n 0"
    using between_prefix by (metis append_le_append append_less_append)
  from c obtain y d where yd: "c = y # d" by (cases c) auto
  have len: "n \<le> length d" using assms(4) by (simp add: p k yd)
  then have "\<not> d < replicate n 0" using less_replicate_0 [of d n] by linarith
  with c yd byte_inc_le [OF x, of y] have "y = x" "replicate n 255 \<le> d" by auto
  with replicate_255_max [OF len] show ?thesis by (auto simp: p k yd)
qed

text \<open>Trimming keys that all carry the prefix.\<close>

lemma trim_all_prefixed: "trim_all p (map (\<lambda>(k, v). (p @ k, v)) xs) = Some xs"
  by (induction xs) (auto simp: trim_key_def)

lemma map_of_prefixed: "map_of (map (\<lambda>(k, v). (p @ k, v)) xs) (p @ k) = map_of xs k"
  by (induction xs) auto

lemma all_prefixed: "\<forall>k \<in> fst ` set xs. \<exists>c. k = p @ c \<Longrightarrow> \<exists>ys. xs = map (\<lambda>(k, v). (p @ k, v)) ys"
proof (induction xs)
  case (Cons x xs)
  then obtain ys c where "xs = map (\<lambda>(k, v). (p @ k, v)) ys" "fst x = p @ c" by auto
  then have "x # xs = map (\<lambda>(k, v). (p @ k, v)) ((c, snd x) # ys)" by (cases x) simp
  then show ?case by (rule exI)
qed simp

lemma sorted_prefixed:
  "sorted_wrt (key_lt ord) (map fst (map (\<lambda>(k, v). (p @ k, v)) xs))
     = sorted_wrt (key_lt ord) (map fst xs)"
proof -
  have "key_lt ord (p @ a) (p @ b) = key_lt ord a b" for a b
    by (cases ord) (simp_all add: key_lt_def)
  then show ?thesis by (simp add: sorted_wrt_map case_prod_beta)
qed

text \<open>
  A listing of the range of a prefix that only meets prefixed keys is, once trimmed, a
  listing of the prefixed view.
\<close>

lemma lists_view_prefixed:
  assumes l: "lists_view v (Some a) (Some b) ord xs"
    and pre: "\<And>k. v k \<noteq> None \<Longrightarrow> a \<le> k \<Longrightarrow> k < b \<Longrightarrow> \<exists>c. k = p @ c"
    and rng: "\<And>c. in_range (Some a) (Some b) (p @ c) = in_range lo hi c"
  shows "\<exists>ys. trim_all p xs = Some ys \<and> lists_view (\<lambda>k. v (p @ k)) lo hi ord ys"
proof -
  have "\<exists>c. k = p @ c" if "k \<in> fst ` set xs" for k
  proof -
    from that have "map_of xs k \<noteq> None" by (simp add: map_of_eq_None_iff)
    with l have "v k \<noteq> None" "in_range (Some a) (Some b) k"
      by (auto simp: lists_view_def split: if_splits)
    with pre show ?thesis by (simp add: in_range_def)
  qed
  then obtain ys where ys: "xs = map (\<lambda>(k, v). (p @ k, v)) ys" using all_prefixed by blast
  have "lists_view (\<lambda>k. v (p @ k)) lo hi ord ys"
    using l rng map_of_prefixed [of p ys] sorted_prefixed [of ord p ys]
    by (simp add: lists_view_def ys)
  then show ?thesis by (simp add: ys trim_all_prefixed)
qed

section \<open>A prefixed view of a lawful storage is a lawful storage\<close>

locale prefix_view = storage ops view ok
  for ops :: "'s storage_ops" and view :: "'s \<Rightarrow> bytes \<rightharpoonup> bytes" and ok :: "'s \<Rightarrow> bool" +
  fixes p :: bytes
  assumes nonempty: "p \<noteq> []" and last_small: "last p \<noteq> 255"
begin

lemma range_lists:
  assumes "ok s"
  shows "\<exists>ys. range_with_prefix ops s p lo hi ord = Some ys
           \<and> lists_view (\<lambda>k. view s (p @ k)) lo hi ord ys"
proof -
  let ?a = "case lo of Some a \<Rightarrow> p @ a | None \<Rightarrow> p"
  let ?b = "case hi of Some e \<Rightarrow> p @ e | None \<Rightarrow> namespace_upper_bound p"
  have small: "\<exists>b \<in> set p. b \<noteq> 255" using nonempty last_small last_in_set by blast
  obtain xs where xs: "s_range ops s (Some ?a) (Some ?b) ord = Some xs"
      and l: "lists_view (view s) (Some ?a) (Some ?b) ord xs"
    using range [OF assms] by blast
  have lo_le: "p \<le> ?a" by (simp split: option.splits)
  have pre: "\<exists>c. k = p @ c" if "?a \<le> k" "k < ?b" for k
  proof (cases hi)
    case (Some e)
    with that lo_le have "p @ [] \<le> k" "k < p @ e" by auto
    then show ?thesis by (rule between_prefix)
  next
    case None
    define q x where "q = butlast p" and "x = last p"
    have p: "p = q @ x # replicate 0 255" and x: "x \<noteq> 255"
      using nonempty last_small by (simp_all add: q_def x_def)
    have "q @ [x] \<le> k" "k < q @ [x + 1]"
      using that None lo_le namespace_upper_bound_eq [OF x, of q 0] p by simp_all
    then obtain c where c: "k = q @ c" using between_prefix by blast
    with \<open>q @ [x] \<le> k\<close> have "[x] \<le> c" by (simp only: append_le_append)
    then have "length p \<le> length k" by (cases c) (simp_all add: p c)
    moreover have "p \<le> k" using lo_le that(1) by (rule order_trans)
    ultimately show ?thesis using upper_bound_excludes [OF small] that(2) None by simp
  qed
  have rng: "in_range (Some ?a) (Some ?b) (p @ c) = in_range lo hi c" for c
    using upper_bound_includes [OF small, of c] by (auto simp: in_range_def split: option.splits)
  from lists_view_prefixed [OF l pre rng] xs show ?thesis
    unfolding range_with_prefix_def concat_key_def Let_def by auto
qed

sublocale pfs: storage "pfs_ops ops" "\<lambda>(t :: 's prefixed_storage) k. view (pfs_storage t) (p @ k)"
    "\<lambda>t. ok (pfs_storage t) \<and> pfs_prefix t = p"
proof unfold_locales
  fix t :: "'s prefixed_storage" and lo hi ord
  assume "ok (pfs_storage t) \<and> pfs_prefix t = p"
  then show "\<exists>xs. s_range (pfs_ops ops) t lo hi ord = Some xs
        \<and> lists_view (\<lambda>k. view (pfs_storage t) (p @ k)) lo hi ord xs"
    using range_lists by (auto simp: pfs_ops_def pfs_range_def)
qed (auto simp: pfs_ops_def pfs_get_def pfs_set_def pfs_remove_def get_with_prefix_def
      set_with_prefix_def remove_with_prefix_def concat_key_def get set_view set_ok remove_view
      remove_ok fun_eq_iff)

end

text \<open>The namespaces of the modules, and their views of the root storage.\<close>

definition NAMESPACE_BANK :: bytes where "NAMESPACE_BANK = as_bytes ''bank''"
definition NAMESPACE_STAKING :: bytes where "NAMESPACE_STAKING = as_bytes ''staking''"
definition NAMESPACE_DISTRIBUTION :: bytes where "NAMESPACE_DISTRIBUTION = as_bytes ''distribution''"
definition NAMESPACE_WASM :: bytes where "NAMESPACE_WASM = as_bytes ''wasm''"
definition NAMESPACE_IBC :: bytes where "NAMESPACE_IBC = as_bytes ''ibc-namespace''"

lemmas namespace_defs = NAMESPACE_BANK_def NAMESPACE_STAKING_def NAMESPACE_DISTRIBUTION_def
  NAMESPACE_WASM_def NAMESPACE_IBC_def

definition bank_prefix :: bytes where
  "bank_prefix = the (to_length_prefixed NAMESPACE_BANK)"

lemma bank_prefix_eq: "bank_prefix = [0, 4, 98, 97, 110, 107]"
  by (simp add: bank_prefix_def namespace_defs as_bytes_def to_length_prefixed_def
      encode_length_def to_be_bytes32_def of_char_def)

interpretation bank_view: prefix_view mem_ops om_get om_wf bank_prefix
  by unfold_locales (simp_all add: bank_prefix_eq)

text \<open>The bank's view of a write cache over the root storage.\<close>

interpretation bank_tx_view: prefix_view "stx_ops mem_ops" "stx_view om_get" "stx_ok om_wf" bank_prefix
  by unfold_locales (simp_all add: bank_prefix_eq)

section \<open>Properties\<close>

text \<open>
  C36. Namespaces are isolated. Below two different namespace paths of the same depth, over any
  lawful storage, a write through one prefixed storage is what that storage reads back and
  changes nothing the other one reads, even when one namespace is a prefix of the other.
\<close>
theorem namespaces_isolated:
  assumes "storage ops view ok" "ok s" "v \<noteq> []"
    and "length nss = length mss" "nss \<noteq> mss"
    and "prefixed_multilevel s nss = Some a"
    and "prefixed_multilevel (pfs_storage (pfs_set ops a k v)) mss = Some b"
    and "prefixed_multilevel s mss = Some b0"
  shows "pfs_get ops (pfs_set ops a k v) k = Some v \<and> pfs_get ops b k' = pfs_get ops b0 k'"
proof -
  note st = assms(1)
  obtain p q where p: "to_length_prefixed_nested nss = Some p" "a = \<lparr>pfs_storage = s, pfs_prefix = p\<rparr>"
    and q: "to_length_prefixed_nested mss = Some q" "b0 = \<lparr>pfs_storage = s, pfs_prefix = q\<rparr>"
    using assms(6,8) by (auto simp: prefixed_multilevel_def)
  have "q @ k' \<noteq> p @ k"
    using nested_prefix_free [OF assms(4) p(1) q(1), of k k'] assms(5) by metis
  then show ?thesis
    using assms(2,3,7) p q
    by (auto simp: prefixed_multilevel_def pfs_get_def pfs_set_def get_with_prefix_def
        set_with_prefix_def concat_key_def storage.get [OF st] storage.set_view [OF st]
        storage.set_ok [OF st])
qed

theorem namespaces_isolated_witness:
  "let a = the (prefixed_multilevel [] [ [102, 111, 111], [1] ]);
       b = the (prefixed_multilevel (pfs_storage (pfs_set mem_ops a [9] [5])) [ [102, 111], [1] ])
   in pfs_get mem_ops (pfs_set mem_ops a [9] [5]) [9] = Some [5] \<and> pfs_get mem_ops b [9] = None"
proof -
  let ?n = "[ [102, 111, 111], [1] ] :: bytes list" and ?m = "[ [102, 111], [1] ] :: bytes list"
  have e: "encode_length [102, 111, 111] = Some [0, 3]" "encode_length [102, 111] = Some [0, 2]"
      "encode_length [1] = Some [0, 1]"
    by (simp_all add: encode_length_def to_be_bytes32_def)
  obtain a where a: "prefixed_multilevel ([] :: mem) ?n = Some a"
    by (simp add: prefixed_multilevel_def to_length_prefixed_nested_def e)
  obtain b where b: "prefixed_multilevel (pfs_storage (pfs_set mem_ops a [9] [5])) ?m = Some b"
    by (simp add: prefixed_multilevel_def to_length_prefixed_nested_def e)
  obtain b0 where b0: "prefixed_multilevel ([] :: mem) ?m = Some b0"
    by (simp add: prefixed_multilevel_def to_length_prefixed_nested_def e)
  have "pfs_get mem_ops b0 [9] = None"
    using b0 by (auto simp: prefixed_multilevel_def pfs_get_def get_with_prefix_def mem_ops_def)
  with namespaces_isolated [OF mem.storage_axioms, of "[]" "[5]" ?n ?m a "[9]" b b0 "[9]"] a b b0
  show ?thesis by simp
qed

text \<open>
  Iterating a prefixed storage is exact. Over any lawful storage, for a prefix whose last
  byte is below 255 (the case of every namespace that is a non-empty UTF-8 string), \<open>range\<close>
  yields exactly the entries stored below the prefix within the bounds, with the prefix
  removed, in order, and never panics.
\<close>
theorem prefixed_range_exact:
  assumes "storage ops view ok" "ok (pfs_storage t)" "pfs_prefix t \<noteq> []" "last (pfs_prefix t) \<noteq> 255"
  shows "\<exists>ys. pfs_range ops t lo hi ord = Some ys
           \<and> sorted_wrt (key_lt ord) (map fst ys)
           \<and> (\<forall>k. map_of ys k =
                 (if in_range lo hi k then view (pfs_storage t) (pfs_prefix t @ k) else None))"
proof -
  have "prefix_view ops view ok (pfs_prefix t)"
    using assms by (simp add: prefix_view_def prefix_view_axioms_def)
  from prefix_view.range_lists [OF this assms(2), of lo hi ord] show ?thesis
    by (simp add: pfs_range_def lists_view_def)
qed

theorem prefixed_range_exact_witness:
  "let t = \<lparr>pfs_storage = [([0, 1, 7, 1], [5]), ([0, 1, 7, 2], [6]), ([0, 1, 8], [9])], pfs_prefix = [0, 1, 7]\<rparr>
   in \<exists>ys. pfs_range mem_ops t None None Ascending = Some ys
        \<and> map_of ys [1] = Some [5] \<and> map_of ys [2] = Some [6] \<and> map_of ys [] = None"
proof -
  let ?t = "\<lparr>pfs_storage = [([0, 1, 7, 1], [5]), ([0, 1, 7, 2], [6]), ([0, 1, 8], [9])] :: mem,
             pfs_prefix = [0, 1, 7]\<rparr>"
  have w: "om_wf (pfs_storage ?t)" by (simp add: om_wf_def)
  from prefixed_range_exact [OF mem.storage_axioms, OF w, of None None Ascending]
  show ?thesis by (auto simp: in_range_def)
qed

text \<open>
  \<open>namespace_upper_bound\<close> encloses a namespace. For a prefix with some byte below 255,
  every key below the prefix lies in [prefix, bound), and every key in that interval that is at
  least as long as the prefix is below the prefix.
\<close>
theorem upper_bound_encloses:
  assumes "\<exists>b \<in> set p. b \<noteq> (255 :: byte)"
  shows "p \<le> p @ k \<and> p @ k < namespace_upper_bound p
       \<and> (p \<le> k' \<and> k' < namespace_upper_bound p \<and> length p \<le> length k' \<longrightarrow> take (length p) k' = p)"
  using upper_bound_includes [OF assms, of k] upper_bound_excludes [OF assms, of k'] by auto

theorem upper_bound_encloses_witness:
  "[102, 255] \<le> [102, 255] @ [3 :: byte] \<and> [102, 255] @ [3] < namespace_upper_bound [102, 255]"
proof -
  have "\<exists>b \<in> set [102, 255 :: byte]. b \<noteq> 255" by (rule bexI [of _ 102]) simp_all
  from upper_bound_encloses [OF this, of "[3]" "[102, 255, 9]"] show ?thesis by (elim conjE) (rule conjI)
qed

text \<open>
  The bound of a namespace that ends in byte 255 is padded with zeros instead of cut, so it
  also lets through keys that are \<^emph>\<open>shorter\<close> than the prefix: with the two-byte key [0, 2] in
  the root storage, iterating the namespace [255] (prefix [0, 1, 255], bound [0, 2, 0]) slices
  that key out of range and panics, although the storage itself is lawful.
\<close>
theorem range_with_prefix_short_key_panics:
  "to_length_prefixed [255] = Some [0, 1, 255]
   \<and> namespace_upper_bound [0, 1, 255] = [0, 2, 0]
   \<and> range_with_prefix mem_ops [([0, 2], [1])] [0, 1, 255] None None Ascending = None"
proof -
  have "to_length_prefixed [255] = Some [0, 1, 255]"
    by (simp add: to_length_prefixed_def encode_length_def to_be_bytes32_def)
  moreover have ub: "namespace_upper_bound [0, 1, 255] = [0, 2, 0]"
    by (simp add: namespace_upper_bound_def)
  moreover have "range_with_prefix mem_ops [([0, 2], [1])] [0, 1, 255] None None Ascending = None"
    by (simp add: range_with_prefix_def ub mem_ops_def mem_range_def om_range_def in_range_def trim_key_def)
  ultimately show ?thesis by simp
qed

text \<open>
  A multilevel storage with no namespaces has the empty prefix: it reads and writes the
  underlying storage directly, but its \<open>range\<close> without bounds is always empty, whatever the
  storage holds, because the upper bound of the empty prefix is the empty key.
\<close>
theorem empty_multilevel_range_is_empty:
  assumes "storage ops view ok" "ok s" "prefixed_multilevel s [] = Some t"
  shows "pfs_get ops t k = view s k \<and> pfs_range ops t None None ord = Some []"
proof -
  have t: "t = \<lparr>pfs_storage = s, pfs_prefix = []\<rparr>"
    using assms(3) by (simp add: prefixed_multilevel_def to_length_prefixed_nested_def)
  obtain xs where xs: "s_range ops s (Some []) (Some []) ord = Some xs"
      "lists_view (view s) (Some []) (Some []) ord xs"
    using storage.range [OF assms(1,2)] by blast
  have "map_of xs k' = None" for k'
    using xs(2) by (simp add: lists_view_def in_range_def)
  then have "xs = []" by (cases xs) (auto split: if_splits, metis option.distinct(1))
  with xs(1) t show ?thesis
    by (simp add: pfs_get_def get_with_prefix_def concat_key_def pfs_range_def range_with_prefix_def
        namespace_upper_bound_def storage.get [OF assms(1,2)])
qed

theorem empty_multilevel_range_is_empty_witness:
  "let t = the (prefixed_multilevel [([1], [5])] [])
   in pfs_get mem_ops t [1] = Some [5] \<and> pfs_range mem_ops t None None Ascending = Some []"
  using empty_multilevel_range_is_empty [OF mem.storage_axioms, of "[([1], [5])]" _ "[1]" Ascending]
  by (simp add: om_wf_def prefixed_multilevel_def to_length_prefixed_nested_def)

end
