(* ===== verification/Storage_Views.thy ===== *)
theory Storage_Views
  imports Prefixed_Storage
begin

text \<open>
  The other views of \<open>src/src/prefixed_storage/\<close>: the read-only \<open>ReadonlyPrefixedStorage\<close> and the
  aliases of \<open>mod.rs\<close>, the typed views of \<open>typed_prefixed_storage.rs\<close>, and the storage the wasm
  module hands to a contract (\<open>contract_namespace\<close>, \<open>contract_storage\<close> and \<open>contract_storage_mut\<close> of
  \<open>wasm.rs\<close>), byte for byte. \<open>contract_storage_refines\<close> justifies the storage of the chain model, a
  map of its own for every contract: on its view a contract program behaves as on such a map, and
  touches nothing outside of it. A view is \<open>None\<close> where its construction panics.
\<close>

section \<open>Aliases of the mutable view\<close>

definition prefixed :: "'s \<Rightarrow> bytes \<Rightarrow> 's prefixed_storage option" where
  "prefixed s namespace = prefixed_new s namespace"

definition prefixed_multi :: "'s \<Rightarrow> bytes list \<Rightarrow> 's prefixed_storage option" where
  "prefixed_multi s namespaces = prefixed_multilevel s namespaces"

section \<open>The read-only view\<close>

record 's readonly_prefixed_storage =
  rps_storage :: 's
  rps_prefix :: bytes

definition readonly_new :: "'s \<Rightarrow> bytes \<Rightarrow> 's readonly_prefixed_storage option" where
  "readonly_new s namespace = map_option (\<lambda>p. \<lparr>rps_storage = s, rps_prefix = p\<rparr>) (to_length_prefixed namespace)"

definition readonly_multilevel :: "'s \<Rightarrow> bytes list \<Rightarrow> 's readonly_prefixed_storage option" where
  "readonly_multilevel s namespaces =
     map_option (\<lambda>p. \<lparr>rps_storage = s, rps_prefix = p\<rparr>) (to_length_prefixed_nested namespaces)"

definition prefixed_read :: "'s \<Rightarrow> bytes \<Rightarrow> 's readonly_prefixed_storage option" where
  "prefixed_read s namespace = readonly_new s namespace"

definition prefixed_multi_read :: "'s \<Rightarrow> bytes list \<Rightarrow> 's readonly_prefixed_storage option" where
  "prefixed_multi_read s namespaces = readonly_multilevel s namespaces"

definition rps_get :: "'s storage_ops \<Rightarrow> 's readonly_prefixed_storage \<Rightarrow> bytes \<Rightarrow> bytes option" where
  "rps_get ops t key = get_with_prefix ops (rps_storage t) (rps_prefix t) key"

definition rps_range ::
    "'s storage_ops \<Rightarrow> 's readonly_prefixed_storage \<Rightarrow> bytes option \<Rightarrow> bytes option \<Rightarrow> order \<Rightarrow> rec list option" where
  "rps_range ops t start stop ord = range_with_prefix ops (rps_storage t) (rps_prefix t) start stop ord"

text \<open>Its writers are \<open>unimplemented!()\<close>.\<close>

definition readonly_set :: "bytes \<Rightarrow> bytes \<Rightarrow> ('s readonly_prefixed_storage, 'e, unit) proc" where
  "readonly_set key value = panic ''not implemented''"

definition readonly_remove :: "bytes \<Rightarrow> ('s readonly_prefixed_storage, 'e, unit) proc" where
  "readonly_remove key = panic ''not implemented''"

section \<open>The typed views\<close>

text \<open>
  The type parameter of a typed view only selects the namespace of the module that owns it
  (\<open>StoragePrefix::NAMESPACE\<close>), the first argument here.
\<close>

record 's typed_prefixed_storage =
  tps_storage :: 's
  tps_prefix :: bytes

definition typed_new :: "bytes \<Rightarrow> 's \<Rightarrow> 's typed_prefixed_storage option" where
  "typed_new NAMESPACE s = map_option (\<lambda>p. \<lparr>tps_storage = s, tps_prefix = p\<rparr>) (to_length_prefixed NAMESPACE)"

definition typed_multilevel :: "bytes \<Rightarrow> 's \<Rightarrow> bytes \<Rightarrow> 's typed_prefixed_storage option" where
  "typed_multilevel NAMESPACE s namespace =
     map_option (\<lambda>p. \<lparr>tps_storage = s, tps_prefix = p\<rparr>) (to_length_prefixed_nested [NAMESPACE, namespace])"

definition tps_get :: "'s storage_ops \<Rightarrow> 's typed_prefixed_storage \<Rightarrow> bytes \<Rightarrow> bytes option" where
  "tps_get ops t key = get_with_prefix ops (tps_storage t) (tps_prefix t) key"

definition tps_range ::
    "'s storage_ops \<Rightarrow> 's typed_prefixed_storage \<Rightarrow> bytes option \<Rightarrow> bytes option \<Rightarrow> order \<Rightarrow> rec list option" where
  "tps_range ops t start stop ord = range_with_prefix ops (tps_storage t) (tps_prefix t) start stop ord"

definition tps_set :: "bytes \<Rightarrow> bytes \<Rightarrow> ('s typed_prefixed_storage, 'e, unit) proc" where
  "tps_set key value = panic ''internal error: entered unreachable code''"

definition tps_remove :: "bytes \<Rightarrow> ('s typed_prefixed_storage, 'e, unit) proc" where
  "tps_remove key = panic ''internal error: entered unreachable code''"

definition readonly_of_typed :: "'s typed_prefixed_storage \<Rightarrow> 's readonly_prefixed_storage" where
  "readonly_of_typed t = \<lparr>rps_storage = tps_storage t, rps_prefix = tps_prefix t\<rparr>"

record 's typed_prefixed_storage_mut =
  tpm_storage :: 's
  tpm_prefix :: bytes

definition typed_mut_new :: "bytes \<Rightarrow> 's \<Rightarrow> 's typed_prefixed_storage_mut option" where
  "typed_mut_new NAMESPACE s = map_option (\<lambda>p. \<lparr>tpm_storage = s, tpm_prefix = p\<rparr>) (to_length_prefixed NAMESPACE)"

definition typed_mut_multilevel :: "bytes \<Rightarrow> 's \<Rightarrow> bytes \<Rightarrow> 's typed_prefixed_storage_mut option" where
  "typed_mut_multilevel NAMESPACE s namespace =
     map_option (\<lambda>p. \<lparr>tpm_storage = s, tpm_prefix = p\<rparr>) (to_length_prefixed_nested [NAMESPACE, namespace])"

definition tpm_get :: "'s storage_ops \<Rightarrow> 's typed_prefixed_storage_mut \<Rightarrow> bytes \<Rightarrow> bytes option" where
  "tpm_get ops t key = get_with_prefix ops (tpm_storage t) (tpm_prefix t) key"

definition tpm_range ::
    "'s storage_ops \<Rightarrow> 's typed_prefixed_storage_mut \<Rightarrow> bytes option \<Rightarrow> bytes option \<Rightarrow> order \<Rightarrow> rec list option" where
  "tpm_range ops t start stop ord = range_with_prefix ops (tpm_storage t) (tpm_prefix t) start stop ord"

definition tpm_set :: "'s storage_ops \<Rightarrow> 's typed_prefixed_storage_mut \<Rightarrow> bytes \<Rightarrow> bytes \<Rightarrow> 's typed_prefixed_storage_mut" where
  "tpm_set ops t key value = t\<lparr>tpm_storage := set_with_prefix ops (tpm_storage t) (tpm_prefix t) key value\<rparr>"

definition tpm_remove :: "'s storage_ops \<Rightarrow> 's typed_prefixed_storage_mut \<Rightarrow> bytes \<Rightarrow> 's typed_prefixed_storage_mut" where
  "tpm_remove ops t key = t\<lparr>tpm_storage := remove_with_prefix ops (tpm_storage t) (tpm_prefix t) key\<rparr>"

definition prefixed_of_typed :: "'s typed_prefixed_storage_mut \<Rightarrow> 's prefixed_storage" where
  "prefixed_of_typed t = \<lparr>pfs_storage = tpm_storage t, pfs_prefix = tpm_prefix t\<rparr>"

definition typed_borrow :: "'s typed_prefixed_storage_mut \<Rightarrow> 's typed_prefixed_storage" where
  "typed_borrow t = \<lparr>tps_storage = tpm_storage t, tps_prefix = tpm_prefix t\<rparr>"

section \<open>The storage of a contract\<close>

definition contract_namespace_bytes :: "string \<Rightarrow> bytes" where
  "contract_namespace_bytes contract = as_bytes ''contract_data/'' @ as_bytes contract"

definition contract_storage_bytes :: "'s \<Rightarrow> string \<Rightarrow> 's readonly_prefixed_storage option" where
  "contract_storage_bytes s address = readonly_multilevel s [NAMESPACE_WASM, contract_namespace_bytes address]"

definition contract_storage_mut_bytes :: "'s \<Rightarrow> string \<Rightarrow> 's prefixed_storage option" where
  "contract_storage_mut_bytes s address =
     map_option prefixed_of_typed (typed_mut_multilevel NAMESPACE_WASM s (contract_namespace_bytes address))"

text \<open>The prefix of a contract: not empty, and its last byte is below 255, as in every UTF-8 string.\<close>

lemma of_char_255: "of_char c = (255 :: byte) \<longleftrightarrow> c = CHR 0xFF"
  using as_bytes_inject [of "[c]" "[CHR 0xFF]"] by (simp add: as_bytes_def of_char_def)

lemma contract_namespace_inject [simp]: "contract_namespace_bytes a = contract_namespace_bytes b \<longleftrightarrow> a = b"
  by (simp add: contract_namespace_bytes_def)

definition contract_prefix :: "string \<Rightarrow> bytes option" where
  "contract_prefix address = to_length_prefixed_nested [NAMESPACE_WASM, contract_namespace_bytes address]"

lemma contract_prefix_last:
  assumes "contract_prefix address = Some p" "CHR 0xFF \<notin> set address"
  shows "p \<noteq> [] \<and> last p \<noteq> 255"
proof -
  obtain l m where p: "p = l @ NAMESPACE_WASM @ m @ contract_namespace_bytes address"
    using assms(1) by (auto simp: contract_prefix_def nested_Cons to_length_prefixed_nested_def split: option.splits)
  have "last (contract_namespace_bytes address) \<noteq> 255"
  proof (cases "address = []")
    case True
    then show ?thesis by (simp add: contract_namespace_bytes_def as_bytes_def of_char_255)
  next
    case False
    then have "last (contract_namespace_bytes address) = of_char (last address)"
      by (simp add: contract_namespace_bytes_def as_bytes_def last_map)
    moreover have "last address \<noteq> CHR 0xFF" using False assms(2) last_in_set by metis
    ultimately show ?thesis by (simp add: of_char_255)
  qed
  moreover have "contract_namespace_bytes address \<noteq> []" by (simp add: contract_namespace_bytes_def as_bytes_def)
  ultimately show ?thesis by (simp add: p)
qed

lemma contract_prefixes_differ:
  assumes "contract_prefix a = Some p" "contract_prefix b = Some q" "a \<noteq> b"
  shows "q @ k' \<noteq> p @ k"
proof
  assume "q @ k' = p @ k"
  then have "[NAMESPACE_WASM, contract_namespace_bytes b] = [NAMESPACE_WASM, contract_namespace_bytes a] \<and> k' = k"
    using nested_prefix_free [OF _ assms(2,1) [unfolded contract_prefix_def], of k' k] by simp
  with assms(3) show False by simp
qed

context prefix_view begin

text \<open>A program on the view reaches only the keys below the prefix.\<close>

lemma run_keeps_outside:
  assumes "ok (pfs_storage t)" "pfs_prefix t = p" "writes_ok prog" "\<nexists>c. k = p @ c"
  shows "view (pfs_storage (snd (run_sprog (pfs_ops ops) prog t))) k = view (pfs_storage t) k"
  using assms
proof (induction prog arbitrary: t)
  case (SRange lo hi ord f)
  then show ?case by (auto simp: pfs_ops_def split: option.split)
next
  case (SSet key v prog)
  have k: "k \<noteq> p @ key" using SSet.prems(4) by blast
  have t: "s_set (pfs_ops ops) t key v = t\<lparr>pfs_storage := s_set ops (pfs_storage t) (p @ key) v\<rparr>"
    using SSet.prems(2) by (simp add: pfs_ops_def pfs_set_def set_with_prefix_def concat_key_def)
  have "view (pfs_storage (snd (run_sprog (pfs_ops ops) prog (s_set (pfs_ops ops) t key v)))) k
      = view (pfs_storage (s_set (pfs_ops ops) t key v)) k"
    by (rule SSet.IH) (use SSet.prems in \<open>simp_all add: t set_ok\<close>)
  also have "\<dots> = view (pfs_storage t) k" using SSet.prems k by (simp add: t set_view)
  finally show ?case by simp
next
  case (SRemove key prog)
  have k: "k \<noteq> p @ key" using SRemove.prems(4) by blast
  have t: "s_remove (pfs_ops ops) t key = t\<lparr>pfs_storage := s_remove ops (pfs_storage t) (p @ key)\<rparr>"
    using SRemove.prems(2) by (simp add: pfs_ops_def pfs_remove_def remove_with_prefix_def concat_key_def)
  have "view (pfs_storage (snd (run_sprog (pfs_ops ops) prog (s_remove (pfs_ops ops) t key)))) k
      = view (pfs_storage (s_remove (pfs_ops ops) t key)) k"
    by (rule SRemove.IH) (use SRemove.prems in \<open>simp_all add: t remove_ok\<close>)
  also have "\<dots> = view (pfs_storage t) k" using SRemove.prems k by (simp add: t remove_view)
  finally show ?case by simp
qed auto

text \<open>It cannot tell the view from a map of its own.\<close>

lemma run_as_map:
  assumes "ok (pfs_storage t)" "pfs_prefix t = p" "om_wf m" "om_get m = (\<lambda>k. view (pfs_storage t) (p @ k))"
    and "writes_ok prog" "run_sprog (pfs_ops ops) prog t = (r, t')" "run_sprog mem_ops prog m = (r', m')"
  shows "r' = r" "om_get m' = (\<lambda>k. view (pfs_storage t') (p @ k))" "ok (pfs_storage t')" "pfs_prefix t' = p"
  using storage_pair.run_sprog_sim [OF storage_pair.intro [OF pfs.storage_axioms mem.storage_axioms],
      of t m prog] pfs.run_sprog_ok [of t prog] assms by auto

end

section \<open>Properties\<close>

text \<open>
  C4. A contract's storage is a map of its own. Over any lawful storage, whatever program a contract
  runs on the storage the wasm module hands it: the program returns what it returns on a separate map
  with the same entries, and leaves the same entries; what another contract reads afterwards is what it
  read before; and no key outside the contract's namespace changes.
\<close>
theorem contract_storage_refines:
  assumes "storage ops view ok" "ok s" "writes_ok prog" "CHR 0xFF \<notin> set a"
    and "contract_storage_mut_bytes s a = Some t" "contract_prefix a = Some p"
    and "om_wf m" "om_get m = (\<lambda>k. view s (p @ k))"
    and "run_sprog (pfs_ops ops) prog t = (r, t')" "run_sprog mem_ops prog m = (r', m')"
    and "a \<noteq> b" "contract_storage_bytes s b = Some before" "contract_storage_bytes (pfs_storage t') b = Some after"
  shows "r' = r \<and> om_get m' = (\<lambda>k. view (pfs_storage t') (p @ k))
    \<and> rps_get ops after k = rps_get ops before k
    \<and> (take (length p) k' \<noteq> p \<longrightarrow> view (pfs_storage t') k' = view s k')"
proof -
  have t: "t = \<lparr>pfs_storage = s, pfs_prefix = p\<rparr>"
    using assms(5,6) by (auto simp: contract_storage_mut_bytes_def typed_mut_multilevel_def prefixed_of_typed_def contract_prefix_def)
  have view: "prefix_view ops view ok p"
    using assms(1) contract_prefix_last [OF assms(6,4)] by (simp add: prefix_view_def prefix_view_axioms_def)
  have ok: "ok (pfs_storage t)" "pfs_prefix t = p" and m: "om_get m = (\<lambda>k. view (pfs_storage t) (p @ k))"
    using assms(2,8) by (simp_all add: t)
  note as_map = prefix_view.run_as_map [OF view ok assms(7) m assms(3,9,10)]
  have outside: "view (pfs_storage t') x = view s x" if "\<nexists>c. x = p @ c" for x
    using prefix_view.run_keeps_outside [OF view ok assms(3) that] assms(9) by (simp add: t)
  obtain q where q: "contract_prefix b = Some q" "before = \<lparr>rps_storage = s, rps_prefix = q\<rparr>"
      "after = \<lparr>rps_storage = pfs_storage t', rps_prefix = q\<rparr>"
    using assms(12,13) by (auto simp: contract_storage_bytes_def readonly_multilevel_def contract_prefix_def)
  have "\<nexists>c. q @ k = p @ c" using contract_prefixes_differ [OF assms(6) q(1) assms(11)] by blast
  then have "rps_get ops after k = rps_get ops before k"
    using outside as_map(3) assms(2)
    by (simp add: q(2,3) rps_get_def get_with_prefix_def concat_key_def storage.get [OF assms(1)])
  moreover have "view (pfs_storage t') k' = view s k'" if "take (length p) k' \<noteq> p"
    using that by (intro outside) auto
  ultimately show ?thesis using as_map(1,2) by blast
qed

text \<open>Contract \<open>one\<close> writes next to an entry of contract \<open>two\<close>.\<close>

definition demo_write :: "nat sprog" where
  "demo_write = SSet [1] [7] (SRange None None Ascending (\<lambda>xs. SDone (length xs)))"

lemma demo_prefixes:
  "contract_prefix ''one'' = Some ([0, 4] @ NAMESPACE_WASM @ [0, 17] @ contract_namespace_bytes ''one'')"
  "contract_prefix ''two'' = Some ([0, 4] @ NAMESPACE_WASM @ [0, 17] @ contract_namespace_bytes ''two'')"
  by (simp_all add: contract_prefix_def nested_Cons to_length_prefixed_nested_def encode_length_def
      to_be_bytes32_def NAMESPACE_WASM_def contract_namespace_bytes_def as_bytes_def)

theorem contract_storage_refines_witness:
  "let s = [([0, 4] @ NAMESPACE_WASM @ [0, 17] @ contract_namespace_bytes ''two'' @ [1], [9])];
       t' = snd (run_sprog (pfs_ops mem_ops) demo_write (the (contract_storage_mut_bytes s ''one'')))
   in fst (run_sprog (pfs_ops mem_ops) demo_write (the (contract_storage_mut_bytes s ''one''))) = Some 1
     \<and> rps_get mem_ops (the (contract_storage_bytes (pfs_storage t') ''two'')) [1] = Some [9]"
proof -
  let ?q = "[0, 4] @ NAMESPACE_WASM @ [0, 17] @ contract_namespace_bytes ''two''"
  let ?s = "[(?q @ [1], [9])] :: mem"
  obtain t where t: "contract_storage_mut_bytes ?s ''one'' = Some t"
    using demo_prefixes(1) by (simp add: contract_storage_mut_bytes_def typed_mut_multilevel_def contract_prefix_def)
  obtain before where before: "contract_storage_bytes ?s ''two'' = Some before"
      "before = \<lparr>rps_storage = ?s, rps_prefix = ?q\<rparr>"
    using demo_prefixes(2) by (simp add: contract_storage_bytes_def readonly_multilevel_def contract_prefix_def)
  obtain r t' where run: "run_sprog (pfs_ops mem_ops) demo_write t = (r, t')" by fastforce
  obtain after where after: "contract_storage_bytes (pfs_storage t') ''two'' = Some after"
    using demo_prefixes(2) by (simp add: contract_storage_bytes_def readonly_multilevel_def contract_prefix_def)
  have empty: "om_get ([] :: mem) = (\<lambda>k. om_get ?s (([0, 4] @ NAMESPACE_WASM @ [0, 17] @ contract_namespace_bytes ''one'') @ k))"
    by (rule ext) (simp add: contract_namespace_bytes_def as_bytes_def)
  have own: "run_sprog mem_ops demo_write [] = (Some 1, [([1], [7])])"
    by (simp add: demo_write_def mem_ops_def mem_range_def om_range_def in_range_def)
  have wf: "om_wf ?s" "om_wf ([] :: mem)" "writes_ok demo_write" "CHR 0xFF \<notin> set ''one''" "''one'' \<noteq> ''two''"
    by (simp_all add: om_wf_def demo_write_def)
  note main = contract_storage_refines [OF mem.storage_axioms wf(1,3,4) t demo_prefixes(1) wf(2) empty run own
      wf(5) before(1) after]
  have "rps_get mem_ops before [1] = Some [9]"
    by (simp add: before(2) rps_get_def get_with_prefix_def concat_key_def mem_ops_def)
  with main t run after show ?thesis by (simp add: Let_def)
qed

end
