(* ===== verification/Builder.thy ===== *)
theory Builder
  imports Router Storage_Views
begin

text \<open>
  \<open>AppBuilder\<close> (\<open>src/app_builder.rs\<close>) and the structure it builds (\<open>App\<close> and \<open>Router\<close> in \<open>src/app.rs\<close>), generic
  in the types of all ten parts as in the code: a method \<open>with_x\<close> (\<open>builder_with_x\<close> here) replaces one part by a value of any
  type and keeps the other ten. \<open>BasicAppBuilder\<close> is the instance with the keepers of the crate.
\<close>

section \<open>The builder\<close>

record ('bank, 'api, 'storage, 'custom, 'wasm, 'staking, 'distr, 'ibc, 'gov, 'stargate) app_builder =
  ab_api :: 'api
  ab_block :: block_info
  ab_storage :: 'storage
  ab_bank :: 'bank
  ab_wasm :: 'wasm
  ab_custom :: 'custom
  ab_staking :: 'staking
  ab_distribution :: 'distr
  ab_ibc :: 'ibc
  ab_gov :: 'gov
  ab_stargate :: 'stargate

definition builder_with_wasm ::
    "'new \<Rightarrow> ('bank, 'api, 'storage, 'custom, 'wasm, 'staking, 'distr, 'ibc, 'gov, 'stargate) app_builder
      \<Rightarrow> ('bank, 'api, 'storage, 'custom, 'new, 'staking, 'distr, 'ibc, 'gov, 'stargate) app_builder" where
  "builder_with_wasm part b =
     \<lparr>ab_api = ab_api b, ab_block = ab_block b, ab_storage = ab_storage b,
      ab_bank = ab_bank b, ab_wasm = part,
      ab_custom = ab_custom b, ab_staking = ab_staking b, ab_distribution = ab_distribution b,
      ab_ibc = ab_ibc b, ab_gov = ab_gov b, ab_stargate = ab_stargate b\<rparr>"

definition builder_with_bank ::
    "'new \<Rightarrow> ('bank, 'api, 'storage, 'custom, 'wasm, 'staking, 'distr, 'ibc, 'gov, 'stargate) app_builder
      \<Rightarrow> ('new, 'api, 'storage, 'custom, 'wasm, 'staking, 'distr, 'ibc, 'gov, 'stargate) app_builder" where
  "builder_with_bank part b =
     \<lparr>ab_api = ab_api b, ab_block = ab_block b, ab_storage = ab_storage b,
      ab_bank = part, ab_wasm = ab_wasm b,
      ab_custom = ab_custom b, ab_staking = ab_staking b, ab_distribution = ab_distribution b,
      ab_ibc = ab_ibc b, ab_gov = ab_gov b, ab_stargate = ab_stargate b\<rparr>"

definition builder_with_api ::
    "'new \<Rightarrow> ('bank, 'api, 'storage, 'custom, 'wasm, 'staking, 'distr, 'ibc, 'gov, 'stargate) app_builder
      \<Rightarrow> ('bank, 'new, 'storage, 'custom, 'wasm, 'staking, 'distr, 'ibc, 'gov, 'stargate) app_builder" where
  "builder_with_api part b =
     \<lparr>ab_api = part, ab_block = ab_block b, ab_storage = ab_storage b,
      ab_bank = ab_bank b, ab_wasm = ab_wasm b,
      ab_custom = ab_custom b, ab_staking = ab_staking b, ab_distribution = ab_distribution b,
      ab_ibc = ab_ibc b, ab_gov = ab_gov b, ab_stargate = ab_stargate b\<rparr>"

definition builder_with_storage ::
    "'new \<Rightarrow> ('bank, 'api, 'storage, 'custom, 'wasm, 'staking, 'distr, 'ibc, 'gov, 'stargate) app_builder
      \<Rightarrow> ('bank, 'api, 'new, 'custom, 'wasm, 'staking, 'distr, 'ibc, 'gov, 'stargate) app_builder" where
  "builder_with_storage part b =
     \<lparr>ab_api = ab_api b, ab_block = ab_block b, ab_storage = part,
      ab_bank = ab_bank b, ab_wasm = ab_wasm b,
      ab_custom = ab_custom b, ab_staking = ab_staking b, ab_distribution = ab_distribution b,
      ab_ibc = ab_ibc b, ab_gov = ab_gov b, ab_stargate = ab_stargate b\<rparr>"

definition builder_with_custom ::
    "'new \<Rightarrow> ('bank, 'api, 'storage, 'custom, 'wasm, 'staking, 'distr, 'ibc, 'gov, 'stargate) app_builder
      \<Rightarrow> ('bank, 'api, 'storage, 'new, 'wasm, 'staking, 'distr, 'ibc, 'gov, 'stargate) app_builder" where
  "builder_with_custom part b =
     \<lparr>ab_api = ab_api b, ab_block = ab_block b, ab_storage = ab_storage b,
      ab_bank = ab_bank b, ab_wasm = ab_wasm b,
      ab_custom = part, ab_staking = ab_staking b, ab_distribution = ab_distribution b,
      ab_ibc = ab_ibc b, ab_gov = ab_gov b, ab_stargate = ab_stargate b\<rparr>"

definition builder_with_staking ::
    "'new \<Rightarrow> ('bank, 'api, 'storage, 'custom, 'wasm, 'staking, 'distr, 'ibc, 'gov, 'stargate) app_builder
      \<Rightarrow> ('bank, 'api, 'storage, 'custom, 'wasm, 'new, 'distr, 'ibc, 'gov, 'stargate) app_builder" where
  "builder_with_staking part b =
     \<lparr>ab_api = ab_api b, ab_block = ab_block b, ab_storage = ab_storage b,
      ab_bank = ab_bank b, ab_wasm = ab_wasm b,
      ab_custom = ab_custom b, ab_staking = part, ab_distribution = ab_distribution b,
      ab_ibc = ab_ibc b, ab_gov = ab_gov b, ab_stargate = ab_stargate b\<rparr>"

definition builder_with_distribution ::
    "'new \<Rightarrow> ('bank, 'api, 'storage, 'custom, 'wasm, 'staking, 'distr, 'ibc, 'gov, 'stargate) app_builder
      \<Rightarrow> ('bank, 'api, 'storage, 'custom, 'wasm, 'staking, 'new, 'ibc, 'gov, 'stargate) app_builder" where
  "builder_with_distribution part b =
     \<lparr>ab_api = ab_api b, ab_block = ab_block b, ab_storage = ab_storage b,
      ab_bank = ab_bank b, ab_wasm = ab_wasm b,
      ab_custom = ab_custom b, ab_staking = ab_staking b, ab_distribution = part,
      ab_ibc = ab_ibc b, ab_gov = ab_gov b, ab_stargate = ab_stargate b\<rparr>"

definition builder_with_ibc ::
    "'new \<Rightarrow> ('bank, 'api, 'storage, 'custom, 'wasm, 'staking, 'distr, 'ibc, 'gov, 'stargate) app_builder
      \<Rightarrow> ('bank, 'api, 'storage, 'custom, 'wasm, 'staking, 'distr, 'new, 'gov, 'stargate) app_builder" where
  "builder_with_ibc part b =
     \<lparr>ab_api = ab_api b, ab_block = ab_block b, ab_storage = ab_storage b,
      ab_bank = ab_bank b, ab_wasm = ab_wasm b,
      ab_custom = ab_custom b, ab_staking = ab_staking b, ab_distribution = ab_distribution b,
      ab_ibc = part, ab_gov = ab_gov b, ab_stargate = ab_stargate b\<rparr>"

definition builder_with_gov ::
    "'new \<Rightarrow> ('bank, 'api, 'storage, 'custom, 'wasm, 'staking, 'distr, 'ibc, 'gov, 'stargate) app_builder
      \<Rightarrow> ('bank, 'api, 'storage, 'custom, 'wasm, 'staking, 'distr, 'ibc, 'new, 'stargate) app_builder" where
  "builder_with_gov part b =
     \<lparr>ab_api = ab_api b, ab_block = ab_block b, ab_storage = ab_storage b,
      ab_bank = ab_bank b, ab_wasm = ab_wasm b,
      ab_custom = ab_custom b, ab_staking = ab_staking b, ab_distribution = ab_distribution b,
      ab_ibc = ab_ibc b, ab_gov = part, ab_stargate = ab_stargate b\<rparr>"

definition builder_with_stargate ::
    "'new \<Rightarrow> ('bank, 'api, 'storage, 'custom, 'wasm, 'staking, 'distr, 'ibc, 'gov, 'stargate) app_builder
      \<Rightarrow> ('bank, 'api, 'storage, 'custom, 'wasm, 'staking, 'distr, 'ibc, 'gov, 'new) app_builder" where
  "builder_with_stargate part b =
     \<lparr>ab_api = ab_api b, ab_block = ab_block b, ab_storage = ab_storage b,
      ab_bank = ab_bank b, ab_wasm = ab_wasm b,
      ab_custom = ab_custom b, ab_staking = ab_staking b, ab_distribution = ab_distribution b,
      ab_ibc = ab_ibc b, ab_gov = ab_gov b, ab_stargate = part\<rparr>"

definition builder_with_block ::
    "block_info \<Rightarrow> ('bank, 'api, 'storage, 'custom, 'wasm, 'staking, 'distr, 'ibc, 'gov, 'stargate) app_builder
      \<Rightarrow> ('bank, 'api, 'storage, 'custom, 'wasm, 'staking, 'distr, 'ibc, 'gov, 'stargate) app_builder" where
  "builder_with_block block b = b\<lparr>ab_block := block\<rparr>"

text \<open>What a method replaces, and what it keeps.\<close>

lemma builder_with_wasm_parts [simp]:
  "ab_api (builder_with_wasm part b) = ab_api b"
  "ab_block (builder_with_wasm part b) = ab_block b"
  "ab_storage (builder_with_wasm part b) = ab_storage b"
  "ab_bank (builder_with_wasm part b) = ab_bank b"
  "ab_wasm (builder_with_wasm part b) = part"
  "ab_custom (builder_with_wasm part b) = ab_custom b"
  "ab_staking (builder_with_wasm part b) = ab_staking b"
  "ab_distribution (builder_with_wasm part b) = ab_distribution b"
  "ab_ibc (builder_with_wasm part b) = ab_ibc b"
  "ab_gov (builder_with_wasm part b) = ab_gov b"
  "ab_stargate (builder_with_wasm part b) = ab_stargate b"
  by (simp_all add: builder_with_wasm_def)

lemma builder_with_bank_parts [simp]:
  "ab_api (builder_with_bank part b) = ab_api b"
  "ab_block (builder_with_bank part b) = ab_block b"
  "ab_storage (builder_with_bank part b) = ab_storage b"
  "ab_bank (builder_with_bank part b) = part"
  "ab_wasm (builder_with_bank part b) = ab_wasm b"
  "ab_custom (builder_with_bank part b) = ab_custom b"
  "ab_staking (builder_with_bank part b) = ab_staking b"
  "ab_distribution (builder_with_bank part b) = ab_distribution b"
  "ab_ibc (builder_with_bank part b) = ab_ibc b"
  "ab_gov (builder_with_bank part b) = ab_gov b"
  "ab_stargate (builder_with_bank part b) = ab_stargate b"
  by (simp_all add: builder_with_bank_def)

lemma builder_with_api_parts [simp]:
  "ab_api (builder_with_api part b) = part"
  "ab_block (builder_with_api part b) = ab_block b"
  "ab_storage (builder_with_api part b) = ab_storage b"
  "ab_bank (builder_with_api part b) = ab_bank b"
  "ab_wasm (builder_with_api part b) = ab_wasm b"
  "ab_custom (builder_with_api part b) = ab_custom b"
  "ab_staking (builder_with_api part b) = ab_staking b"
  "ab_distribution (builder_with_api part b) = ab_distribution b"
  "ab_ibc (builder_with_api part b) = ab_ibc b"
  "ab_gov (builder_with_api part b) = ab_gov b"
  "ab_stargate (builder_with_api part b) = ab_stargate b"
  by (simp_all add: builder_with_api_def)

lemma builder_with_storage_parts [simp]:
  "ab_api (builder_with_storage part b) = ab_api b"
  "ab_block (builder_with_storage part b) = ab_block b"
  "ab_storage (builder_with_storage part b) = part"
  "ab_bank (builder_with_storage part b) = ab_bank b"
  "ab_wasm (builder_with_storage part b) = ab_wasm b"
  "ab_custom (builder_with_storage part b) = ab_custom b"
  "ab_staking (builder_with_storage part b) = ab_staking b"
  "ab_distribution (builder_with_storage part b) = ab_distribution b"
  "ab_ibc (builder_with_storage part b) = ab_ibc b"
  "ab_gov (builder_with_storage part b) = ab_gov b"
  "ab_stargate (builder_with_storage part b) = ab_stargate b"
  by (simp_all add: builder_with_storage_def)

lemma builder_with_custom_parts [simp]:
  "ab_api (builder_with_custom part b) = ab_api b"
  "ab_block (builder_with_custom part b) = ab_block b"
  "ab_storage (builder_with_custom part b) = ab_storage b"
  "ab_bank (builder_with_custom part b) = ab_bank b"
  "ab_wasm (builder_with_custom part b) = ab_wasm b"
  "ab_custom (builder_with_custom part b) = part"
  "ab_staking (builder_with_custom part b) = ab_staking b"
  "ab_distribution (builder_with_custom part b) = ab_distribution b"
  "ab_ibc (builder_with_custom part b) = ab_ibc b"
  "ab_gov (builder_with_custom part b) = ab_gov b"
  "ab_stargate (builder_with_custom part b) = ab_stargate b"
  by (simp_all add: builder_with_custom_def)

lemma builder_with_staking_parts [simp]:
  "ab_api (builder_with_staking part b) = ab_api b"
  "ab_block (builder_with_staking part b) = ab_block b"
  "ab_storage (builder_with_staking part b) = ab_storage b"
  "ab_bank (builder_with_staking part b) = ab_bank b"
  "ab_wasm (builder_with_staking part b) = ab_wasm b"
  "ab_custom (builder_with_staking part b) = ab_custom b"
  "ab_staking (builder_with_staking part b) = part"
  "ab_distribution (builder_with_staking part b) = ab_distribution b"
  "ab_ibc (builder_with_staking part b) = ab_ibc b"
  "ab_gov (builder_with_staking part b) = ab_gov b"
  "ab_stargate (builder_with_staking part b) = ab_stargate b"
  by (simp_all add: builder_with_staking_def)

lemma builder_with_distribution_parts [simp]:
  "ab_api (builder_with_distribution part b) = ab_api b"
  "ab_block (builder_with_distribution part b) = ab_block b"
  "ab_storage (builder_with_distribution part b) = ab_storage b"
  "ab_bank (builder_with_distribution part b) = ab_bank b"
  "ab_wasm (builder_with_distribution part b) = ab_wasm b"
  "ab_custom (builder_with_distribution part b) = ab_custom b"
  "ab_staking (builder_with_distribution part b) = ab_staking b"
  "ab_distribution (builder_with_distribution part b) = part"
  "ab_ibc (builder_with_distribution part b) = ab_ibc b"
  "ab_gov (builder_with_distribution part b) = ab_gov b"
  "ab_stargate (builder_with_distribution part b) = ab_stargate b"
  by (simp_all add: builder_with_distribution_def)

lemma builder_with_ibc_parts [simp]:
  "ab_api (builder_with_ibc part b) = ab_api b"
  "ab_block (builder_with_ibc part b) = ab_block b"
  "ab_storage (builder_with_ibc part b) = ab_storage b"
  "ab_bank (builder_with_ibc part b) = ab_bank b"
  "ab_wasm (builder_with_ibc part b) = ab_wasm b"
  "ab_custom (builder_with_ibc part b) = ab_custom b"
  "ab_staking (builder_with_ibc part b) = ab_staking b"
  "ab_distribution (builder_with_ibc part b) = ab_distribution b"
  "ab_ibc (builder_with_ibc part b) = part"
  "ab_gov (builder_with_ibc part b) = ab_gov b"
  "ab_stargate (builder_with_ibc part b) = ab_stargate b"
  by (simp_all add: builder_with_ibc_def)

lemma builder_with_gov_parts [simp]:
  "ab_api (builder_with_gov part b) = ab_api b"
  "ab_block (builder_with_gov part b) = ab_block b"
  "ab_storage (builder_with_gov part b) = ab_storage b"
  "ab_bank (builder_with_gov part b) = ab_bank b"
  "ab_wasm (builder_with_gov part b) = ab_wasm b"
  "ab_custom (builder_with_gov part b) = ab_custom b"
  "ab_staking (builder_with_gov part b) = ab_staking b"
  "ab_distribution (builder_with_gov part b) = ab_distribution b"
  "ab_ibc (builder_with_gov part b) = ab_ibc b"
  "ab_gov (builder_with_gov part b) = part"
  "ab_stargate (builder_with_gov part b) = ab_stargate b"
  by (simp_all add: builder_with_gov_def)

lemma builder_with_stargate_parts [simp]:
  "ab_api (builder_with_stargate part b) = ab_api b"
  "ab_block (builder_with_stargate part b) = ab_block b"
  "ab_storage (builder_with_stargate part b) = ab_storage b"
  "ab_bank (builder_with_stargate part b) = ab_bank b"
  "ab_wasm (builder_with_stargate part b) = ab_wasm b"
  "ab_custom (builder_with_stargate part b) = ab_custom b"
  "ab_staking (builder_with_stargate part b) = ab_staking b"
  "ab_distribution (builder_with_stargate part b) = ab_distribution b"
  "ab_ibc (builder_with_stargate part b) = ab_ibc b"
  "ab_gov (builder_with_stargate part b) = ab_gov b"
  "ab_stargate (builder_with_stargate part b) = part"
  by (simp_all add: builder_with_stargate_def)

section \<open>The application it builds\<close>

record ('bank, 'custom, 'wasm, 'staking, 'distr, 'ibc, 'gov, 'stargate) router_parts =
  rp_wasm :: 'wasm
  rp_bank :: 'bank
  rp_custom :: 'custom
  rp_staking :: 'staking
  rp_distribution :: 'distr
  rp_ibc :: 'ibc
  rp_gov :: 'gov
  rp_stargate :: 'stargate

record ('bank, 'api, 'storage, 'custom, 'wasm, 'staking, 'distr, 'ibc, 'gov, 'stargate) app_parts =
  gp_router :: "('bank, 'custom, 'wasm, 'staking, 'distr, 'ibc, 'gov, 'stargate) router_parts"
  gp_api :: 'api
  gp_storage :: 'storage
  gp_block :: block_info

text \<open>An initialization function may change the router and the storage and reads the api.\<close>

definition init_parts ::
    "(('bank, 'custom, 'wasm, 'staking, 'distr, 'ibc, 'gov, 'stargate) router_parts \<Rightarrow> 'api \<Rightarrow> 'storage \<Rightarrow>
        'a \<times> ('bank, 'custom, 'wasm, 'staking, 'distr, 'ibc, 'gov, 'stargate) router_parts \<times> 'storage)
      \<Rightarrow> ('bank, 'api, 'storage, 'custom, 'wasm, 'staking, 'distr, 'ibc, 'gov, 'stargate) app_parts
      \<Rightarrow> 'a \<times> ('bank, 'api, 'storage, 'custom, 'wasm, 'staking, 'distr, 'ibc, 'gov, 'stargate) app_parts" where
  "init_parts init_fn a = (case init_fn (gp_router a) (gp_api a) (gp_storage a) of
     (x, r, s) \<Rightarrow> (x, a\<lparr>gp_router := r, gp_storage := s\<rparr>))"

definition read_parts ::
    "(('bank, 'custom, 'wasm, 'staking, 'distr, 'ibc, 'gov, 'stargate) router_parts \<Rightarrow> 'api \<Rightarrow> 'storage \<Rightarrow> 'a)
      \<Rightarrow> ('bank, 'api, 'storage, 'custom, 'wasm, 'staking, 'distr, 'ibc, 'gov, 'stargate) app_parts \<Rightarrow> 'a" where
  "read_parts query_fn a = query_fn (gp_router a) (gp_api a) (gp_storage a)"

definition build ::
    "(('bank, 'custom, 'wasm, 'staking, 'distr, 'ibc, 'gov, 'stargate) router_parts \<Rightarrow> 'api \<Rightarrow> 'storage \<Rightarrow>
        unit \<times> ('bank, 'custom, 'wasm, 'staking, 'distr, 'ibc, 'gov, 'stargate) router_parts \<times> 'storage)
      \<Rightarrow> ('bank, 'api, 'storage, 'custom, 'wasm, 'staking, 'distr, 'ibc, 'gov, 'stargate) app_builder
      \<Rightarrow> ('bank, 'api, 'storage, 'custom, 'wasm, 'staking, 'distr, 'ibc, 'gov, 'stargate) app_parts" where
  "build init_fn b =
     (let app = \<lparr>gp_router = \<lparr>rp_wasm = ab_wasm b, rp_bank = ab_bank b, rp_custom = ab_custom b,
              rp_staking = ab_staking b, rp_distribution = ab_distribution b, rp_ibc = ab_ibc b,
              rp_gov = ab_gov b, rp_stargate = ab_stargate b\<rparr>,
            gp_api = ab_api b, gp_storage = ab_storage b, gp_block = ab_block b\<rparr>
      in snd (init_parts init_fn app))"

text \<open>The byte-level accessors of an application over a storage with operations \<open>ops\<close>.\<close>

definition app_prefixed_storage ::
    "('bank, 'api, 'storage, 'custom, 'wasm, 'staking, 'distr, 'ibc, 'gov, 'stargate) app_parts \<Rightarrow> bytes
      \<Rightarrow> 'storage readonly_prefixed_storage option" where
  "app_prefixed_storage a namespace = prefixed_read (gp_storage a) namespace"

definition app_prefixed_storage_mut ::
    "('bank, 'api, 'storage, 'custom, 'wasm, 'staking, 'distr, 'ibc, 'gov, 'stargate) app_parts \<Rightarrow> bytes
      \<Rightarrow> 'storage prefixed_storage option" where
  "app_prefixed_storage_mut a namespace = prefixed (gp_storage a) namespace"

definition app_prefixed_multilevel_storage ::
    "('bank, 'api, 'storage, 'custom, 'wasm, 'staking, 'distr, 'ibc, 'gov, 'stargate) app_parts \<Rightarrow> bytes list
      \<Rightarrow> 'storage readonly_prefixed_storage option" where
  "app_prefixed_multilevel_storage a namespaces = prefixed_multi_read (gp_storage a) namespaces"

definition app_prefixed_multilevel_storage_mut ::
    "('bank, 'api, 'storage, 'custom, 'wasm, 'staking, 'distr, 'ibc, 'gov, 'stargate) app_parts \<Rightarrow> bytes list
      \<Rightarrow> 'storage prefixed_storage option" where
  "app_prefixed_multilevel_storage_mut a namespaces = prefixed_multi (gp_storage a) namespaces"

section \<open>The keepers of the crate\<close>

text \<open>Keepers without state of their own; \<open>MockApi\<close> is part of \<open>ext\<close>.\<close>

datatype bank_keeper = BankKeeper
datatype stake_keeper = StakeKeeper
datatype distribution_keeper = DistributionKeeper
datatype ibc_simple_module = IbcSimpleModule

type_synonym basic_builder =
  "(bank_keeper, ext, chain, stub, wasm_keeper, stake_keeper, distribution_keeper, ibc_simple_module, stub, stub)
     app_builder"

text \<open>\<open>block\<close> is \<open>mock_env().block\<close>.\<close>

definition builder_new :: "ext \<Rightarrow> block_info \<Rightarrow> basic_builder" where
  "builder_new api block = \<lparr>ab_api = api, ab_block = block, ab_storage = empty_chain,
     ab_bank = BankKeeper, ab_wasm = default_wasm_keeper api, ab_custom = Failing,
     ab_staking = StakeKeeper, ab_distribution = DistributionKeeper, ab_ibc = IbcSimpleModule,
     ab_gov = Failing, ab_stargate = Failing\<rparr>"

definition builder_new_custom :: "ext \<Rightarrow> block_info \<Rightarrow> basic_builder" where
  "builder_new_custom api block = \<lparr>ab_api = api, ab_block = block, ab_storage = empty_chain,
     ab_bank = BankKeeper, ab_wasm = default_wasm_keeper api, ab_custom = Failing,
     ab_staking = StakeKeeper, ab_distribution = DistributionKeeper, ab_ibc = IbcSimpleModule,
     ab_gov = Failing, ab_stargate = Failing\<rparr>"

end
