(* ===== verification/App.thy ===== *)
theory App
  imports Fuel Builder
begin

text \<open>
  The application (\<open>App\<close> in \<open>src/app.rs\<close>) over the state of the chain model, and the helpers of
  the \<open>Executor\<close> trait (\<open>src/executor.rs\<close>).

  An application owns the modules, the chain's storage and the current block. Every entry point
  that may write runs in one transaction on the storage. The fuel \<open>n\<close> of an entry point bounds the
  nesting of router calls (theory \<open>Fuel\<close>); a value of the caller's own type is serialized before it
  gets here, so it is an argument of type \<open>binary std_result\<close>.
\<close>

section \<open>State\<close>

record app =
  ap_modules :: modules
  ap_chain :: chain
  ap_block :: block_info

type_synonym 'a app_proc = "(app, std_error, 'a) proc"

text \<open>Running a module on the storage of the application.\<close>

definition on_chain :: "(modules \<Rightarrow> block_info \<Rightarrow> 'a chain_proc) \<Rightarrow> 'a app_proc" where
  "on_chain m a = zoom ap_chain (\<lambda>s a. a\<lparr>ap_chain := s\<rparr>) (m (ap_modules a) (ap_block a)) a"

definition on_keeper :: "(wasm_keeper, std_error, 'a) proc \<Rightarrow> 'a app_proc" where
  "on_keeper = zoom (\<lambda>a. md_wasm (ap_modules a)) (\<lambda>w a. a\<lparr>ap_modules := (ap_modules a)\<lparr>md_wasm := w\<rparr>\<rparr>)"

text \<open>\<open>Result::unwrap\<close>.\<close>

definition unwrapM :: "('s, 'e, 'a) proc \<Rightarrow> ('s, 'f, 'a) proc" where
  "unwrapM m s = (case m s of
      (Ok a, s') \<Rightarrow> (Ok a, s')
    | (Err e, s') \<Rightarrow> (Panic ''called Result::unwrap() on an Err value'', s')
    | (Panic p, s') \<Rightarrow> (Panic p, s')
    | (NoFuel, s') \<Rightarrow> (NoFuel, s'))"

section \<open>The block\<close>

definition next_block :: "ext \<Rightarrow> block_info \<Rightarrow> block_info option" where
  "next_block ext block = (case (x_plus_seconds ext (bl_time block) 5, checked_add (bl_height block) 1) of
      (Some t, Some h) \<Rightarrow> Some (block\<lparr>bl_time := t, bl_height := h\<rparr>)
    | _ \<Rightarrow> None)"

definition process_app_queue :: "ext \<Rightarrow> nat \<Rightarrow> app_response app_proc" where
  "process_app_queue ext n =
     unwrapM (on_chain (\<lambda>md block. process_queue ext (router_at ext md n) block))"

definition set_block :: "ext \<Rightarrow> nat \<Rightarrow> block_info \<Rightarrow> unit app_proc" where
  "set_block ext n block =
     thenM (modifies (\<lambda>a. a\<lparr>ap_block := block\<rparr>)) (thenM (process_app_queue ext n) (ret ()))"

text \<open>\<open>action\<close> changes the block; \<open>None\<close> is a panic of the action.\<close>

definition update_block :: "ext \<Rightarrow> nat \<Rightarrow> (block_info \<Rightarrow> block_info option) \<Rightarrow> unit app_proc" where
  "update_block ext n action =
     bindM (reads (\<lambda>a. action (ap_block a))) (\<lambda>b.
     bindM (or_panic ''block action'' b) (\<lambda>block.
     thenM (modifies (\<lambda>a. a\<lparr>ap_block := block\<rparr>)) (thenM (process_app_queue ext n) (ret ()))))"

definition app_block_info :: "app \<Rightarrow> block_info" where
  "app_block_info a = ap_block a"

section \<open>Entry points\<close>

definition execute_multi :: "ext \<Rightarrow> nat \<Rightarrow> addr \<Rightarrow> cosmos_msg list \<Rightarrow> app_response list app_proc" where
  "execute_multi ext n sender msgs = on_chain (\<lambda>md block.
     atomically (collectM (\<lambda>msg. r_execute (router_at ext md n) block sender msg) msgs))"

definition app_execute :: "ext \<Rightarrow> nat \<Rightarrow> addr \<Rightarrow> cosmos_msg \<Rightarrow> app_response app_proc" where
  "app_execute ext n sender msg =
     bindM (execute_multi ext n sender [msg]) (\<lambda>all.
       or_panic ''called Option::unwrap() on a None value'' (if all = [] then None else Some (last all)))"

definition app_wasm_sudo :: "ext \<Rightarrow> nat \<Rightarrow> addr \<Rightarrow> binary std_result \<Rightarrow> app_response app_proc" where
  "app_wasm_sudo ext n contract_addr msg =
     bindM (lift_result msg) (\<lambda>message. on_chain (\<lambda>md block.
       atomically (wasm_sudo ext (router_at ext md n) (md_wasm md) n block
         \<lparr>ws_contract = contract_addr, ws_message = message\<rparr>)))"

definition app_sudo :: "ext \<Rightarrow> nat \<Rightarrow> sudo_msg \<Rightarrow> app_response app_proc" where
  "app_sudo ext n msg = on_chain (\<lambda>md block. atomically (r_sudo (router_at ext md n) block msg))"

definition app_ibc_query :: "ext \<Rightarrow> mock_ibc_query \<Rightarrow> binary app_proc" where
  "app_ibc_query ext query = bindM (reads ap_chain) (\<lambda>s. lift_outcome (fst (ibc_query ext query s)))"

definition app_query :: "ext \<Rightarrow> nat \<Rightarrow> query_request \<Rightarrow> binary app_proc" where
  "app_query ext n request = bindM (reads (\<lambda>a. r_query (router_at ext (ap_modules a) n) (ap_block a) request (ap_chain a)))
     lift_outcome"

text \<open>
  \<open>Querier::raw_query\<close> (of \<open>App\<close> and of \<open>RouterQuerier\<close>): the request is parsed by \<open>parse\<close> (serde) and errors are
  rendered by \<open>display\<close>.
\<close>

datatype contract_result = ContractOk binary | ContractErr string

datatype querier_result = SystemOk contract_result | InvalidRequest string bytes

definition contract_result_of :: "(std_error \<Rightarrow> string) \<Rightarrow> binary std_result \<Rightarrow> contract_result" where
  "contract_result_of display r = (case r of Inl e \<Rightarrow> ContractErr (display e) | Inr b \<Rightarrow> ContractOk b)"

definition router_raw_query ::
    "(bytes \<Rightarrow> query_request std_result) \<Rightarrow> (std_error \<Rightarrow> string) \<Rightarrow> cosmos_router \<Rightarrow> block_info \<Rightarrow> chain \<Rightarrow> bytes
       \<Rightarrow> (std_error, querier_result) outcome" where
  "router_raw_query parse display router block s bin_request = (case parse bin_request of
      Inl e \<Rightarrow> Ok (InvalidRequest (''Parsing query request: '' @ display e) bin_request)
    | Inr request \<Rightarrow> (case r_query router block request s of
        Ok b \<Rightarrow> Ok (SystemOk (contract_result_of display (Inr b)))
      | Err e \<Rightarrow> Ok (SystemOk (contract_result_of display (Inl e)))
      | Panic p \<Rightarrow> Panic p
      | NoFuel \<Rightarrow> NoFuel))"

definition app_raw_query ::
    "ext \<Rightarrow> nat \<Rightarrow> (bytes \<Rightarrow> query_request std_result) \<Rightarrow> (std_error \<Rightarrow> string) \<Rightarrow> app \<Rightarrow> bytes
       \<Rightarrow> (std_error, querier_result) outcome" where
  "app_raw_query ext n parse display a bin_request =
     router_raw_query parse display (router_at ext (ap_modules a) n) (ap_block a) (ap_chain a) bin_request"

text \<open>Arbitrary access of a test to the modules and the storage.\<close>

definition init_modules :: "(modules \<Rightarrow> chain \<Rightarrow> 'a \<times> modules \<times> chain) \<Rightarrow> app \<Rightarrow> 'a \<times> app" where
  "init_modules f a = (case f (ap_modules a) (ap_chain a) of
     (x, md, s) \<Rightarrow> (x, a\<lparr>ap_modules := md, ap_chain := s\<rparr>))"

definition read_module :: "(modules \<Rightarrow> chain \<Rightarrow> 'a) \<Rightarrow> app \<Rightarrow> 'a" where
  "read_module f a = f (ap_modules a) (ap_chain a)"

section \<open>Contract code and storage\<close>

text \<open>\<open>creator\<close> is \<open>MockApi::default().addr_make("creator")\<close>.\<close>

definition app_store_code :: "addr \<Rightarrow> contract \<Rightarrow> u64 app_proc" where
  "app_store_code creator code = on_keeper (store_code creator code)"

definition app_store_code_with_creator :: "addr \<Rightarrow> contract \<Rightarrow> u64 app_proc" where
  "app_store_code_with_creator creator code = on_keeper (store_code creator code)"

definition app_store_code_with_id :: "addr \<Rightarrow> u64 \<Rightarrow> contract \<Rightarrow> u64 app_proc" where
  "app_store_code_with_id creator code_id code = on_keeper (store_code_with_id creator code_id code)"

definition app_duplicate_code :: "u64 \<Rightarrow> u64 app_proc" where
  "app_duplicate_code code_id = on_keeper (duplicate_code code_id)"

definition app_contract_data :: "addr \<Rightarrow> contract_data app_proc" where
  "app_contract_data address = on_chain (\<lambda>md block. contract_data address)"

definition app_dump_wasm_raw :: "app \<Rightarrow> addr \<Rightarrow> rec list option" where
  "app_dump_wasm_raw a address = dump_wasm_raw (ap_chain a) address"

definition app_contract_storage :: "app \<Rightarrow> addr \<Rightarrow> mem" where
  "app_contract_storage a address = contract_storage (ap_chain a) address"

definition app_contract_storage_mut :: "addr \<Rightarrow> (mem, std_error, 'a) proc \<Rightarrow> 'a app_proc" where
  "app_contract_storage_mut address m = on_chain (\<lambda>md block. contract_storage_mut address m)"

text \<open>The bank's view of IBC denominations (\<open>impl App\<close> in \<open>bank.rs\<close>).\<close>

definition app_wrap_ibc_denom :: "ext \<Rightarrow> string \<Rightarrow> string \<Rightarrow> string" where
  "app_wrap_ibc_denom ext channel_id dnm = wrap_ibc_denom_query ext channel_id dnm"

definition app_unwrap_ibc_denom :: "string \<Rightarrow> ibc_denom app_proc" where
  "app_unwrap_ibc_denom dnm = on_chain (\<lambda>md block. load ''IbcDenom'' ch_ibc_denoms dnm)"

section \<open>Executor helpers\<close>

definition custom_attrs :: "app_response \<Rightarrow> nat \<Rightarrow> attribute list option" where
  "custom_attrs r idx =
     (if idx < length (ar_events r) \<and> ev_ty (ar_events r ! idx) = ''wasm'' \<and> ev_attributes (ar_events r ! idx) \<noteq> []
      then Some (tl (ev_attributes (ar_events r ! idx))) else None)"

definition has_event :: "app_response \<Rightarrow> event \<Rightarrow> bool" where
  "has_event r expected = list_ex (\<lambda>ev. ev_ty expected = ev_ty ev
     \<and> list_all (\<lambda>at. at \<in> set (ev_attributes ev)) (ev_attributes expected)) (ar_events r)"

definition assert_event :: "app_response \<Rightarrow> event \<Rightarrow> unit option" where
  "assert_event r expected = (if has_event r expected then Some () else None)"

definition of_sub_msg_response :: "sub_msg_response \<Rightarrow> app_response" where
  "of_sub_msg_response r = \<lparr>ar_events = sr_events r, ar_data = sr_data r\<rparr>"

text \<open>The address an instantiation returns in its data.\<close>

definition instantiated_address :: "ext \<Rightarrow> app_response \<Rightarrow> addr app_proc" where
  "instantiated_address ext res = mapM_ok Addr (lift_result (x_parse_instantiate ext (bytes_or_default (ar_data res))))"

definition instantiate_contract ::
    "ext \<Rightarrow> nat \<Rightarrow> u64 \<Rightarrow> addr \<Rightarrow> binary std_result \<Rightarrow> coin list \<Rightarrow> string \<Rightarrow> string option \<Rightarrow> addr app_proc" where
  "instantiate_contract ext n code_id sender init_msg send_funds label admin =
     bindM (lift_result init_msg) (\<lambda>msg.
     bindM (app_execute ext n sender (MWasm (WasmInstantiate admin code_id msg send_funds label)))
       (instantiated_address ext))"

definition instantiate2_contract ::
    "ext \<Rightarrow> nat \<Rightarrow> u64 \<Rightarrow> addr \<Rightarrow> binary std_result \<Rightarrow> coin list \<Rightarrow> string \<Rightarrow> string option \<Rightarrow> binary \<Rightarrow> addr app_proc" where
  "instantiate2_contract ext n code_id sender init_msg funds label admin salt =
     bindM (lift_result init_msg) (\<lambda>msg.
     bindM (app_execute ext n sender (MWasm (WasmInstantiate2 admin code_id msg funds label salt)))
       (instantiated_address ext))"

definition execute_contract ::
    "ext \<Rightarrow> nat \<Rightarrow> addr \<Rightarrow> addr \<Rightarrow> binary std_result \<Rightarrow> coin list \<Rightarrow> app_response app_proc" where
  "execute_contract ext n sender contract_addr msg send_funds =
     bindM (lift_result msg) (\<lambda>binary_msg.
     bindM (app_execute ext n sender (MWasm (WasmExecute (addr_str contract_addr) binary_msg send_funds))) (\<lambda>res.
       case ar_data res of
         None \<Rightarrow> ret res
       | Some d \<Rightarrow> bindM (unwrapM (lift_result (x_parse_execute ext d))) (\<lambda>inner. ret (res\<lparr>ar_data := inner\<rparr>))))"

definition migrate_contract ::
    "ext \<Rightarrow> nat \<Rightarrow> addr \<Rightarrow> addr \<Rightarrow> binary std_result \<Rightarrow> u64 \<Rightarrow> app_response app_proc" where
  "migrate_contract ext n sender contract_addr msg new_code_id =
     bindM (lift_result msg) (\<lambda>m.
       app_execute ext n sender (MWasm (WasmMigrate (addr_str contract_addr) new_code_id m)))"

definition send_tokens :: "ext \<Rightarrow> nat \<Rightarrow> addr \<Rightarrow> addr \<Rightarrow> coin list \<Rightarrow> app_response app_proc" where
  "send_tokens ext n sender recipient amt = app_execute ext n sender (MBank (BankSend (addr_str recipient) amt))"

section \<open>Building an application\<close>

text \<open>
  The application of the model is the one the generic builder of theory \<open>Builder\<close> makes from the
  keepers of the crate; the api of the builder is the \<open>ext\<close> it runs with.
\<close>

type_synonym basic_router =
  "(bank_keeper, stub, wasm_keeper, stake_keeper, distribution_keeper, ibc_simple_module, stub, stub) router_parts"

type_synonym basic_app =
  "(bank_keeper, ext, chain, stub, wasm_keeper, stake_keeper, distribution_keeper, ibc_simple_module, stub, stub) app_parts"

definition app_of :: "basic_app \<Rightarrow> app" where
  "app_of a = (let r = gp_router a in
     \<lparr>ap_modules = \<lparr>md_wasm = rp_wasm r, md_custom = rp_custom r, md_gov = rp_gov r, md_stargate = rp_stargate r\<rparr>,
      ap_chain = gp_storage a, ap_block = gp_block a\<rparr>)"

definition no_init :: "'router \<Rightarrow> 'api \<Rightarrow> 'storage \<Rightarrow> unit \<times> 'router \<times> 'storage" where
  "no_init router api s = ((), router, s)"

definition default_app :: "ext \<Rightarrow> block_info \<Rightarrow> app" where
  "default_app ext block = app_of (build no_init (builder_new ext block))"

definition custom_app :: "(basic_router \<Rightarrow> ext \<Rightarrow> chain \<Rightarrow> unit \<times> basic_router \<times> chain) \<Rightarrow> ext \<Rightarrow> block_info \<Rightarrow> app" where
  "custom_app init_fn ext block = app_of (build init_fn (builder_new_custom ext block))"

lemmas build_defs = app_of_def build_def init_parts_def no_init_def builder_new_def

section \<open>The caching custom handler\<close>

text \<open>
  \<open>CachingCustomHandler\<close> (\<open>src/custom_handler.rs\<close>): the two shared cells are explicit state. Its
  messages are of any type, so it is not one of the stubs of the router.
\<close>

record ('e, 'q) custom_cache =
  cc_execs :: "'e list"
  cc_queries :: "'q list"

definition custom_cache_new :: "('e, 'q) custom_cache" where
  "custom_cache_new = \<lparr>cc_execs = [], cc_queries = []\<rparr>"

definition custom_cache_reset :: "(('e, 'q) custom_cache, std_error, unit) proc" where
  "custom_cache_reset = modifies (\<lambda>c. c\<lparr>cc_execs := [], cc_queries := []\<rparr>)"

definition custom_handler_execute :: "'e \<Rightarrow> (('e, 'q) custom_cache, std_error, app_response) proc" where
  "custom_handler_execute msg =
     thenM (modifies (\<lambda>c. c\<lparr>cc_execs := cc_execs c @ [msg]\<rparr>)) (ret default_response)"

definition custom_handler_query :: "'q \<Rightarrow> (('e, 'q) custom_cache, std_error, binary) proc" where
  "custom_handler_query request =
     thenM (modifies (\<lambda>c. c\<lparr>cc_queries := cc_queries c @ [request]\<rparr>)) (ret [])"

definition custom_handler_sudo :: "(('e, 'q) custom_cache, std_error, app_response) proc" where
  "custom_handler_sudo = fail UnexpectedSudo"

end
