(* ===== verification/Chain_Steps.thy ===== *)
theory Chain_Steps
  imports App
begin

text \<open>
  How a property of the chain survives an arbitrary execution. A relation between the state before
  and the state after that the primitive writes of the modules keep (the locale \<open>chain_moves\<close>) is
  kept by every successful run of the router, whatever contracts are stored, however deeply messages,
  replies, queries and IBC callbacks nest; with the writes of the unbonding queue as well (the locale
  \<open>block_moves\<close>), by every operation of the application, successful or not. For a write to the storage of a contract the
  relation may rely on where it comes from: a run of an entry point of the contract's own code, its
  instantiation, or a migration of a contract that has an administrator. \<open>chain_steps\<close> and
  \<open>block_steps\<close> are the cases that allow every privileged message.
\<close>

section \<open>Routers that keep a relation\<close>

text \<open>\<open>M\<close> says which privileged messages are meant; \<open>router_ok\<close> is about all of them.\<close>

definition router_keeps :: "(sudo_msg \<Rightarrow> bool) \<Rightarrow> (chain \<Rightarrow> chain \<Rightarrow> bool) \<Rightarrow> cosmos_router \<Rightarrow> bool" where
  "router_keeps M R rt \<longleftrightarrow> (\<forall>b a m. ok_runs R (r_execute rt b a m)) \<and> (\<forall>b m. M m \<longrightarrow> ok_runs R (r_sudo rt b m))
     \<and> (\<forall>b i m. ok_runs R (r_ibc rt b i m)) \<and> (\<forall>b m. ok_runs R (r_source_callback rt b m))"

abbreviation router_ok :: "(chain \<Rightarrow> chain \<Rightarrow> bool) \<Rightarrow> cosmos_router \<Rightarrow> bool" where
  "router_ok \<equiv> router_keeps (\<lambda>_. True)"

lemma router_keepsD:
  assumes "router_keeps M R rt"
  shows "ok_runs R (r_execute rt b a m)" "M u \<Longrightarrow> ok_runs R (r_sudo rt b u)" "ok_runs R (r_ibc rt b i im)"
    "ok_runs R (r_source_callback rt b c)"
  using assms by (simp_all add: router_keeps_def)

lemma router_okD:
  assumes "router_ok R rt"
  shows "ok_runs R (r_execute rt b a m)" "ok_runs R (r_sudo rt b u)" "ok_runs R (r_ibc rt b i im)"
    "ok_runs R (r_source_callback rt b c)"
  using router_keepsD [OF assms] by simp_all

lemma ok_runs_if [ok_intro]: "ok_runs R m \<Longrightarrow> ok_runs R k \<Longrightarrow> ok_runs R (if b then m else k)"
  and ok_runs_case_prod [ok_intro]: "(\<And>a b. ok_runs R (f a b)) \<Longrightarrow> ok_runs R (case_prod f p)"
  and ok_runs_case_option [ok_intro]: "ok_runs R m \<Longrightarrow> (\<And>a. ok_runs R (g a)) \<Longrightarrow> ok_runs R (case_option m g v)"
  and ok_runs_case_sum [ok_intro]:
    "(\<And>e. ok_runs R (h e)) \<Longrightarrow> (\<And>a. ok_runs R (g a)) \<Longrightarrow> ok_runs R (case_sum h g x)"
  and ok_runs_case_response [ok_intro]:
    "(\<And>v. ok_runs R (f1 v)) \<Longrightarrow> (\<And>es. ok_runs R (f2 es)) \<Longrightarrow> (\<And>es a. ok_runs R (f3 es a)) \<Longrightarrow>
     ok_runs R (case_ibc_response f1 f2 f3 r)"
  by (simp_all split: prod.split option.split sum.split ibc_response.split)

text \<open>Reading a part of the chain keeps everything.\<close>

lemma ok_runs_zoom_pure:
  assumes "reflp R" "all_runs (=) m" "\<And>s. upd (sel s) s = s"
  shows "ok_runs R (zoom sel upd m)"
  using assms by (fastforce simp: ok_runs_def zoom_Ok_iff reflp_def dest: all_runs_eqD)

lemma all_runs_eq_reads: "all_runs (=) (reads f)" "all_runs (=) (load ty sel k)" "all_runs (=) (lift_result r)"
    "all_runs (=) (lift_outcome z)"
  by (auto intro: runs_intro)

lemma pure_reads [ok_intro]:
  assumes "reflp R"
  shows "ok_runs R (in_bank (reads f1))" "ok_runs R (in_staking (reads f2))" "ok_runs R (in_distribution (reads f3))"
    "ok_runs R (in_ibc (reads f4))" "ok_runs R (in_ibc (load ty f5 k))" "ok_runs R (contract_data a)"
    "ok_runs R (in_staking (validate_denom c))" "ok_runs R (in_staking (validate_percentage d))"
proof -
  have v: "all_runs (=) (validate_denom c)" "all_runs (=) (validate_percentage d)"
    unfolding validate_denom_def validate_percentage_def by (auto intro!: runs_intro)
  show "ok_runs R (in_bank (reads f1))" "ok_runs R (in_staking (reads f2))" "ok_runs R (in_distribution (reads f3))"
    "ok_runs R (in_ibc (reads f4))" "ok_runs R (in_ibc (load ty f5 k))" "ok_runs R (contract_data a)"
    "ok_runs R (in_staking (validate_denom c))" "ok_runs R (in_staking (validate_percentage d))"
    unfolding in_defs contract_data_def
    by (rule ok_runs_zoom_pure, rule assms, simp_all add: all_runs_eq_reads v)+
qed

text \<open>The parts of a procedure that only verify or decode.\<close>

lemma pure_ok: "reflp R \<Longrightarrow> all_runs (=) m \<Longrightarrow> ok_runs R m"
  by (auto simp: ok_runs_def reflp_def dest: all_runs_eqD)

lemma pure_wasm [ok_intro]:
  assumes "reflp R"
  shows "ok_runs R (contract_code wk k)" "ok_runs R (verify_response r)" "ok_runs R (verify_ibc_response r2)"
    "ok_runs R (verify_packet_response r3)" "ok_runs R (new_address ext wk k i a sa)"
  using assms
  by (auto intro!: pure_ok new_address_pure verify_pure runs_intro simp: contract_code_def)

section \<open>The contract between the modules and a relation\<close>

text \<open>
  What an instantiation or a migration that goes through has checked of the keeper it ran with: the
  code it registers exists, and a new instance lives at an address one of the generators made.
\<close>

definition code_known :: "wasm_keeper \<Rightarrow> u64 \<Rightarrow> bool" where
  "code_known wk code_id \<longleftrightarrow> (\<exists>d. code_data wk code_id = Inr d)"

definition code_at :: "wasm_keeper \<Rightarrow> u64 \<Rightarrow> contract option" where
  "code_at wk code_id = (case code_data wk code_id of
      Inl e \<Rightarrow> None
    | Inr d \<Rightarrow> (if ce_source_id d < length (wk_code_base wk) then Some (wk_code_base wk ! ce_source_id d) else None))"

lemma contract_code_Ok_iff: "contract_code wk k s = (Ok code, s') \<longleftrightarrow> s' = s \<and> code_at wk k = Some code"
  by (auto simp: contract_code_def code_at_def ok_iffs or_panic_def split: option.splits if_splits sum.splits)

lemma code_at_known: "code_at wk k = Some code \<Longrightarrow> code_known wk k"
  by (auto simp: code_at_def code_known_def split: sum.splits)

text \<open>
  The entry points that can run at any time in the life of a contract: all but \<open>instantiate\<close>, which
  runs once, and \<open>migrate\<close>, which an administrator has to ask for.
\<close>

inductive entry_run :: "contract \<Rightarrow> mem \<Rightarrow> mem \<Rightarrow> bool" for code where
  via_execute: "run_cprog q (ct_execute code env info msg) m = (Ok r, m') \<Longrightarrow> entry_run code m m'"
| via_sudo: "run_cprog q (ct_sudo code env msg) m = (Ok r, m') \<Longrightarrow> entry_run code m m'"
| via_reply: "run_cprog q (ct_reply code env rp) m = (Ok r, m') \<Longrightarrow> entry_run code m m'"
| via_channel_open: "run_cprog q (ct_channel_open code env o1) m = (Ok r1, m') \<Longrightarrow> entry_run code m m'"
| via_channel_connect: "run_cprog q (ct_channel_connect code env o2) m = (Ok r2, m') \<Longrightarrow> entry_run code m m'"
| via_channel_close: "run_cprog q (ct_channel_close code env o3) m = (Ok r2, m') \<Longrightarrow> entry_run code m m'"
| via_packet_receive: "run_cprog q (ct_packet_receive code env o4) m = (Ok r4, m') \<Longrightarrow> entry_run code m m'"
| via_packet_ack: "run_cprog q (ct_packet_ack code env o5) m = (Ok r2, m') \<Longrightarrow> entry_run code m m'"
| via_packet_timeout: "run_cprog q (ct_packet_timeout code env o6) m = (Ok r2, m') \<Longrightarrow> entry_run code m m'"
| via_source_callback: "run_cprog q (ct_source_callback code env o7) m = (Ok r2, m') \<Longrightarrow> entry_run code m m'"

text \<open>A successful entry point: the code that ran, and what it did to the storage of its contract.\<close>

lemma with_storage_Ok:
  assumes "with_storage rt wk b a action s = (Ok r, s')"
  obtains c code m where "om_get (w_contracts (ch_wasm s)) a = Some c" "code_at wk (cd_code_id c) = Some code"
    "run_cprog (\<lambda>req. r_query rt b req s) (action code (get_env a b)) (contract_storage s a) = (Ok r, m)"
    "s' = put_contract_storage a m s"
proof -
  obtain c code where c: "om_get (w_contracts (ch_wasm s)) a = Some c"
      and code: "contract_code wk (cd_code_id c) s = (Ok code, s)"
    using assms by (auto simp: with_storage_def ok_iffs contract_data_Ok_iff contract_code_Ok_iff)
  from assms obtain m where
      "run_cprog (\<lambda>req. r_query rt b req s) (action code (get_env a b)) (contract_storage s a) = (Ok r, m)"
      "s' = put_contract_storage a m s"
    by (auto simp: with_storage_run [OF c code] contract_storage_mut_def zoom_Ok_iff)
  with c code that show thesis by (simp add: contract_code_Ok_iff)
qed

definition generated :: "wasm_keeper \<Rightarrow> addr \<Rightarrow> bool" where
  "generated wk a \<longleftrightarrow> (\<exists>code_id instance_id. wk_address wk code_id instance_id = Inr a)
     \<or> (\<exists>code_id instance_id checksum creator salt. wk_predictable wk code_id instance_id checksum creator salt = Inr a)"

text \<open>A successful registration, up to the record it saves.\<close>

lemma register_saves:
  assumes "register_contract ext wk k creator admin label created salt s = (Ok a, s')"
  shows "om_get (w_contracts (ch_wasm s)) a = None" "generated wk a"
    "\<exists>c. s' = s\<lparr>ch_wasm := (ch_wasm s)\<lparr>w_contracts := om_insert a c (w_contracts (ch_wasm s))\<rparr>\<rparr>"
proof -
  obtain address where na: "new_address ext wk k (word_of_nat (instance_count s)) creator salt s = (Ok address, s)"
    and rest: "bindM (attempt (contract_data address)) (\<lambda>existing. case existing of
            Inr _ \<Rightarrow> fail (StdMsg (duplicated_contract_address address))
          | Inl _ \<Rightarrow> thenM (save_contract address \<lparr>cd_code_id = k, cd_creator = creator, cd_admin = admin,
                cd_label = label, cd_created = created\<rparr>) (ret address)) s = (Ok a, s')"
    using assms by (auto simp: register_contract_def ok_iffs split: if_splits dest: all_runs_eqD [OF new_address_pure])
  have "generated wk address"
    using na by (cases salt) (auto simp: new_address_def generated_def ok_iffs)
  moreover have "om_get (w_contracts (ch_wasm s)) address = None"
    using rest by (cases "om_get (w_contracts (ch_wasm s)) address") (simp_all add: bindM_attempt_data fail_def)
  ultimately show "om_get (w_contracts (ch_wasm s)) a = None" "generated wk a"
    "\<exists>c. s' = s\<lparr>ch_wasm := (ch_wasm s)\<lparr>w_contracts := om_insert a c (w_contracts (ch_wasm s))\<rparr>\<rparr>"
    using rest by (auto simp: bindM_attempt_data thenM_save_contract ret_def)
qed

text \<open>
  The keeper \<open>wk\<close> stays the same while a message is executed. Between the registration of an instance
  and the first run of its code the relation may be broken for it; \<open>register_step\<close> spans the two.
\<close>

text \<open>
  Not every privileged message has to be allowed: \<open>M\<close> holds of those that are, among them the calls of
  contracts and of the IBC module. Coins are moved, burned, or minted as vouchers.
\<close>

locale chain_moves =
  fixes ext :: ext and wk :: wasm_keeper and M :: "sudo_msg \<Rightarrow> bool" and R :: "chain \<Rightarrow> chain \<Rightarrow> bool"
  assumes refl: "reflp R" and trans: "transp R"
    and call_allowed: "M (SudoWasm u)" "M (SudoIbc ir)"
    and move_step: "ok_runs R (in_bank (send ext a dst coins))"
    and burn_step: "ok_runs R (in_bank (burn ext a coins))"
    and voucher_step: "ok_runs R (in_bank (mint ext a [\<lparr>c_denom = wrap_ibc_denom_query ext ch dnm, c_amount = n\<rparr>]))"
    and bank_sudo_step: "M (SudoBank bu) \<Longrightarrow> ok_runs R (bank_sudo ext bu)"
    and denom_step: "R s (s\<lparr>ch_ibc_denoms := d\<rparr>)"
    and add_stake_step: "ok_runs R (in_staking (add_stake ext b a v c))"
    and remove_stake_step: "ok_runs R (in_staking (remove_stake ext b a v c))"
    and slash_step: "percentage \<le> dec_one \<Longrightarrow> ok_runs R (in_staking (slash ext b v percentage))"
    and queue_step: "R s (s\<lparr>ch_staking := (ch_staking s)\<lparr>st_queue := q\<rparr>\<rparr>)"
    and withdraw_step: "R s (s\<lparr>ch_distribution := w\<rparr>)"
    and storage_step: "om_get (w_contracts (ch_wasm s)) a = Some c1 \<Longrightarrow>
      cd_admin c1 \<noteq> None \<or> (\<exists>code. code_at wk (cd_code_id c1) = Some code \<and> entry_run code (contract_storage s a) m) \<Longrightarrow>
      R s (put_contract_storage a m s)"
    and register_step: "om_get (w_contracts (ch_wasm s)) a = None \<Longrightarrow> generated wk a \<Longrightarrow>
      R (s\<lparr>ch_wasm := (ch_wasm s)\<lparr>w_contracts := om_insert a c' (w_contracts (ch_wasm s))\<rparr>\<rparr>) t \<Longrightarrow>
      om_get (w_contracts (ch_wasm t)) a = Some c3 \<Longrightarrow> code_at wk (cd_code_id c3) = Some code \<Longrightarrow>
      run_cprog answer (ct_instantiate code env info msg) (contract_storage t a) = (Ok res, m) \<Longrightarrow>
      R s (put_contract_storage a m t)"
    and update_step: "om_get (w_contracts (ch_wasm s)) a = Some c1 \<Longrightarrow> cd_admin c1 \<noteq> None \<Longrightarrow>
      cd_creator c2 = cd_creator c1 \<Longrightarrow>
      cd_label c2 = cd_label c1 \<Longrightarrow> cd_created c2 = cd_created c1 \<Longrightarrow>
      cd_code_id c2 = cd_code_id c1 \<or> code_known wk (cd_code_id c2) \<Longrightarrow>
      R s (s\<lparr>ch_wasm := (ch_wasm s)\<lparr>w_contracts := om_insert a c2 (w_contracts (ch_wasm s))\<rparr>\<rparr>)"
    and distribution_step: "router_keeps M R rt \<Longrightarrow> ok_runs R (distribution_execute ext rt b a dm)"
    and ibc_execute_step: "router_keeps M R rt \<Longrightarrow> ok_runs R (ibc_execute ext rt b a im)"
    and ibc_sudo_step: "router_keeps M R rt \<Longrightarrow> ok_runs R (ibc_sudo ext rt b ir)"
begin

lemmas steps [ok_intro] = refl trans move_step burn_step add_stake_step remove_stake_step distribution_step call_allowed

lemmas router_steps [ok_intro] = router_keepsD [where M = M]

lemma bank_ok [ok_intro]: "ok_runs R (bank_execute ext a m)"
  by (cases m; simp add: bank_execute_def Let_def; intro ok_intro)

lemma wrap_ok [ok_intro]: "ok_runs R (wrap_ibc_denom ext ch d)"
  unfolding wrap_ibc_denom_def Let_def by (intro ok_intro denom_step)

lemma wrapped_ok: "ok_runs R (k (wrap_ibc_denom_query ext ch d)) \<Longrightarrow> ok_runs R (bindM (wrap_ibc_denom ext ch d) k)"
  by (auto simp: ok_runs_def wrap_ibc_denom_def Let_def ok_iffs intro: transpD [OF trans denom_step])

lemma release_ok [ok_intro]: "ok_runs R (release_or_mint ext locked ch packet)"
proof (cases locked)
  case None
  show ?thesis
    unfolding None release_or_mint_def option.case Let_def
    by (rule ok_runs_bind, rule trans, intro ok_intro, rule wrapped_ok, intro ok_intro voucher_step)
next
  case (Some c)
  show ?thesis unfolding Some release_or_mint_def option.case Let_def by (intro ok_intro)
qed

lemma bank_ibc_ok [ok_intro]:
  assumes "router_keeps M R rt"
  shows "ok_runs R (bank_packet_receive ext rt b m1)" "ok_runs R (bank_packet_ack ext rt b m2)"
    "ok_runs R (bank_packet_timeout ext rt b m3)"
  unfolding bank_packet_receive_def bank_packet_ack_def bank_packet_timeout_def hooks_callback_def Let_def
  by (intro ok_intro assms)+

lemma queue_ok [ok_intro]: "ok_runs R (in_staking (modifies (\<lambda>st. st\<lparr>st_queue := f st\<rparr>)))"
  by (auto simp: ok_runs_def in_staking_def zoom_Ok_iff queue_step)

lemma withdraw_ok [ok_intro]: "ok_runs R (in_distribution m)"
  by (auto simp: ok_runs_def in_distribution_def zoom_Ok_iff withdraw_step)

lemma staking_ok [ok_intro]: "router_keeps M R rt \<Longrightarrow> ok_runs R (staking_execute ext rt b a m)"
  by (cases m; simp only: staking_execute_def staking_msg.case Let_def; intro ok_intro)

lemma staking_sudo_ok [ok_intro]: "ok_runs R (staking_sudo ext b u)"
proof (cases u)
  case (Slash v percentage)
  show ?thesis
  proof (cases "percentage \<le> dec_one")
    case True
    then show ?thesis unfolding Slash staking_sudo_def by (simp; intro ok_intro slash_step)
  next
    case False
    then have "\<exists>e. validate_percentage percentage = fail e"
      by (auto simp: validate_percentage_def guard_def)
    then have "ok_runs R (in_staking (validate_percentage percentage))"
      and "\<And>s x. in_staking (validate_percentage percentage) s \<noteq> (Ok (), x)"
      by (auto simp: ok_runs_def in_staking_def zoom_Ok_iff)
    then show ?thesis by (auto simp: Slash staking_sudo_def ok_runs_def thenM_Ok_iff)
  qed
qed

subsection \<open>The wasm module\<close>

lemma with_storage_ok:
  assumes "\<And>q code m r m'. run_cprog q (action code (get_env a b)) m = (Ok r, m') \<Longrightarrow> entry_run code m m'"
  shows "ok_runs R (with_storage rt wk b a action)"
  unfolding ok_runs_def by (auto elim!: with_storage_Ok intro!: storage_step dest: assms)

lemma entries_ok [ok_intro]:
  "ok_runs R (with_storage rt wk b a (\<lambda>c env. ct_execute c env info msg))"
  "ok_runs R (with_storage rt wk b a (\<lambda>c env. ct_sudo c env msg))"
  "ok_runs R (with_storage rt wk b a (\<lambda>c env. ct_reply c env rp))"
  "ok_runs R (with_storage rt wk b a (\<lambda>c env. ct_channel_open c env o1))"
  "ok_runs R (with_storage rt wk b a (\<lambda>c env. ct_channel_connect c env o2))"
  "ok_runs R (with_storage rt wk b a (\<lambda>c env. ct_channel_close c env o3))"
  "ok_runs R (with_storage rt wk b a (\<lambda>c env. ct_packet_receive c env o4))"
  "ok_runs R (with_storage rt wk b a (\<lambda>c env. ct_packet_ack c env o5))"
  "ok_runs R (with_storage rt wk b a (\<lambda>c env. ct_packet_timeout c env o6))"
  "ok_runs R (with_storage rt wk b a (\<lambda>c env. ct_source_callback c env o7))"
  by (rule with_storage_ok, erule entry_run.intros)+

lemma save_ok:
  assumes "contract_data a s = (Ok c, s1)" "save_contract a c' s1 = (r, s')" "cd_creator c' = cd_creator c"
    "cd_label c' = cd_label c" "cd_created c' = cd_created c"
    "cd_code_id c' = cd_code_id c \<or> code_known wk (cd_code_id c')" "cd_admin c \<noteq> None"
  shows "R s s'"
proof -
  have c: "om_get (w_contracts (ch_wasm s)) a = Some c" and s1: "s1 = s"
    using assms(1) by (simp_all add: contract_data_Ok_iff)
  show ?thesis using update_step [OF c assms(7,3-6)] assms(2) s1 by (simp add: save_contract_eq)
qed

lemma update_admin_ok [ok_intro]: "ok_runs R (update_admin ext sender a admin)"
  unfolding ok_runs_def
proof (intro allI impI)
  fix s r s'
  assume "update_admin ext sender a admin s = (Ok r, s')"
  then obtain address c admin' where run: "contract_data address s = (Ok c, s)"
      "save_contract address (c\<lparr>cd_admin := admin'\<rparr>) s = (Ok (), s')" and "cd_admin c = Some sender"
    by (cases admin) (auto simp: update_admin_def ok_iffs contract_data_Ok_iff split: if_splits)
  then show "R s s'" by (intro save_ok [OF run]) simp_all
qed

lemma calls_ok [ok_intro]:
  "ok_runs R (call_execute rt wk b a info m1)" "ok_runs R (call_reply rt wk b a rp)" "ok_runs R (call_sudo rt wk b a m3)"
  unfolding call_execute_def call_reply_def call_sudo_def
  by (intro ok_intro)+

lemma process_response_ok:
  assumes "router_keeps M R rt" "\<And>a rp. ok_runs R (reply a rp)"
  shows "ok_runs R (process_response ext rt reply b c r ms)"
  unfolding process_response_def execute_submsg_def by (intro ok_intro assms)

lemma reply_at_ok:
  assumes "router_keeps M R rt"
  shows "ok_runs R (reply_at ext rt wk b n a rp)"
proof (induction n arbitrary: a rp)
  case 0
  have "reply_at ext rt wk b 0 a rp = no_fuel" by (rule ext) simp
  then show ?case by (simp add: ok_runs_no_fuel)
next
  case (Suc n)
  have "ok_runs R (\<lambda>s. reply_at ext rt wk b (Suc n) a rp s)"
    unfolding reply_at.simps Let_def by (intro ok_intro process_response_ok assms Suc)
  then show ?case by simp
qed

lemma process_at_ok [ok_intro]: "router_keeps M R rt \<Longrightarrow> ok_runs R (process_at ext rt wk n b c rm)"
  unfolding process_at_def by (intro process_response_ok reply_at_ok)

text \<open>
  An instantiation: the registration, the funds, and the first run of the code, which goes through
  only if the code exists.
\<close>

lemma instantiate_ok:
  assumes "router_keeps M R rt"
  shows "ok_runs R (process_wasm_msg_instantiate ext rt wk n b sender admin k m funds label salt)"
  unfolding ok_runs_def
proof (intro allI impI)
  fix s r s'
  let ?info = "\<lparr>mi_sender = sender, mi_funds = funds\<rparr>"
  assume "process_wasm_msg_instantiate ext rt wk n b sender admin k m funds label salt s = (Ok r, s')"
  then obtain a s1 x s2 s3 res e r0 where
      reg: "register_contract ext wk k sender (map_option Addr admin) label (bl_height b) salt s = (Ok a, s1)"
    and send: "wasm_send rt b sender (addr_str a) funds s1 = (Ok x, s2)"
    and call: "call_instantiate rt wk b a ?info m s2 = (Ok res, s3)"
    and proc: "process_at ext rt wk n b a (build_app_response a e res) s3 = (Ok r0, s')"
    by (auto simp: process_wasm_msg_instantiate_def ok_iffs split: if_splits)
  have "ok_runs R (wasm_send rt b sender (addr_str a) funds)"
    unfolding wasm_send_def by (intro ok_intro assms)
  then have s12: "R s1 s2" using send by (rule ok_runsD)
  from register_saves(3) [OF reg] obtain c' where
    s1: "s1 = s\<lparr>ch_wasm := (ch_wasm s)\<lparr>w_contracts := om_insert a c' (w_contracts (ch_wasm s))\<rparr>\<rparr>" by blast
  from call obtain y where "with_storage rt wk b a (\<lambda>contract env. ct_instantiate contract env ?info m) s2 = (Ok y, s3)"
    by (auto simp: call_instantiate_def ok_iffs dest!: all_runs_eqD [OF verify_pure(3)])
  then have "R s s3"
    by (elim with_storage_Ok) (use register_step [OF register_saves(1,2) [OF reg]] s12 s1 in auto)
  moreover have "R s3 s'" using process_at_ok [OF assms] proc by (rule ok_runsD)
  ultimately show "R s s'" using trans by (meson transpD)
qed

text \<open>A migration: the new code is called at once.\<close>

lemma migrate_ok:
  assumes "\<And>res. ok_runs R (k c res)"
    and "contract_data address s = (Ok c, s)" "save_contract address (c\<lparr>cd_code_id := new\<rparr>) s = (Ok (), s1)"
    and "cd_admin c \<noteq> None" "bindM (call_migrate rt wk b address m mi) (k c) s1 = (Ok r, s')"
  shows "R s s'"
proof -
  from assms(5) obtain res s2 where call: "call_migrate rt wk b address m mi s1 = (Ok res, s2)"
      and rest: "k c res s2 = (Ok r, s')" by (auto simp: ok_iffs)
  have c1: "om_get (w_contracts (ch_wasm s1)) address = Some (c\<lparr>cd_code_id := new\<rparr>)"
    using assms(2,3) by (auto simp: save_contract_eq contract_data_Ok_iff)
  from call obtain y where "with_storage rt wk b address (\<lambda>contract env. ct_migrate contract env m mi) s1 = (Ok y, s2)"
    by (auto simp: call_migrate_def ok_iffs dest!: all_runs_eqD [OF verify_pure(3)])
  then obtain code x where new: "code_at wk new = Some code" and s2: "s2 = put_contract_storage address x s1"
    using c1 by (elim with_storage_Ok) auto
  from code_at_known [OF new] have "R s s1" by (intro save_ok [OF assms(2,3)]) (simp_all add: assms(4))
  moreover have "R s1 s2" unfolding s2 by (rule storage_step [OF c1]) (simp add: assms(4))
  moreover have "R s2 s'" using assms(1) rest by (rule ok_runsD)
  ultimately show ?thesis using trans by (meson transpD)
qed

lemma wasm_execute_ok [ok_intro]:
  assumes "router_keeps M R rt"
  shows "ok_runs R (wasm_execute ext rt wk n b sender m)"
  unfolding wasm_execute_def
proof (rule ok_runs_map_err)
  show "ok_runs R (execute_wasm ext rt wk n b sender m)"
  proof (cases m)
    case (WasmMigrate contract_addr new_code_id msg)
    show ?thesis
      unfolding WasmMigrate execute_wasm_def wasm_msg.case
    proof (rule ok_runs_bind [OF trans ok_runs_lift_result [OF refl]], rule ok_runs_if, rule ok_runs_fail)
      fix address
      let ?k = "\<lambda>c res. bindM (process_at ext rt wk n b address (build_app_response address (new_event ''migrate''
          [(CONTRACT_ATTR, addr_str address), (''code_id'', show_word new_code_id)]) res))
        (\<lambda>r. ret (r\<lparr>ar_data := encode_response_data ext (ar_data r)\<rparr>))"
      have k: "ok_runs R (?k c res)" for c :: contract_data and res by (intro ok_intro assms)
      show "ok_runs R (bindM (contract_data address) (\<lambda>c.
          if cd_admin c \<noteq> Some sender then fail (OnlyAdminMigrates (cd_admin c))
          else thenM (save_contract address (c\<lparr>cd_code_id := new_code_id\<rparr>))
            (bindM (call_migrate rt wk b address msg
                \<lparr>mg_sender = sender, mg_old_version = Some (cd_code_id c)\<rparr>) (?k c))))"
        unfolding ok_runs_def
      proof (intro allI impI)
        fix s r s'
        assume "bindM (contract_data address) (\<lambda>c.
          if cd_admin c \<noteq> Some sender then fail (OnlyAdminMigrates (cd_admin c))
          else thenM (save_contract address (c\<lparr>cd_code_id := new_code_id\<rparr>))
            (bindM (call_migrate rt wk b address msg
                \<lparr>mg_sender = sender, mg_old_version = Some (cd_code_id c)\<rparr>) (?k c))) s = (Ok r, s')"
        then obtain c t where c: "contract_data address s = (Ok c, t)" and "(if cd_admin c \<noteq> Some sender then fail (OnlyAdminMigrates (cd_admin c))
          else thenM (save_contract address (c\<lparr>cd_code_id := new_code_id\<rparr>))
            (bindM (call_migrate rt wk b address msg
                \<lparr>mg_sender = sender, mg_old_version = Some (cd_code_id c)\<rparr>) (?k c))) t = (Ok r, s')"
          unfolding bindM_Ok_iff [of "contract_data address"] by blast
        from c have t: "t = s" by (simp add: contract_data_Ok_iff)
        note \<open>(if _ then _ else _) t = (Ok r, s')\<close>
        then obtain t1 where admin: "cd_admin c \<noteq> None" and save: "save_contract address (c\<lparr>cd_code_id := new_code_id\<rparr>) s = (Ok (), t1)"
            and call: "bindM (call_migrate rt wk b address msg
                \<lparr>mg_sender = sender, mg_old_version = Some (cd_code_id c)\<rparr>) (?k c) t1 = (Ok r, s')"
          unfolding t by (auto simp add: thenM_Ok_iff fail_def simp del: bindM_Ok_iff split: if_splits)
        show "R s s'" by (rule migrate_ok [OF k c [unfolded t] save admin call])
      qed
    qed
  qed (simp_all only: execute_wasm_def wasm_send_def wasm_msg.case,
      (intro ok_intro instantiate_ok assms)+)
qed

lemma wasm_entries_ok [ok_intro]:
  assumes "router_keeps M R rt"
  shows "ok_runs R (wasm_sudo ext rt wk n b u)" "ok_runs R (wasm_channel_open rt wk b a o1)"
    "ok_runs R (wasm_channel_connect ext rt wk n b a o2)" "ok_runs R (wasm_channel_close ext rt wk n b a o3)"
    "ok_runs R (wasm_packet_receive ext rt wk n b a o4)" "ok_runs R (wasm_packet_ack ext rt wk n b a o5)"
    "ok_runs R (wasm_packet_timeout ext rt wk n b a o6)" "ok_runs R (wasm_source_callback ext rt wk n b a o7)"
  unfolding wasm_sudo_def wasm_channel_open_def wasm_channel_connect_def wasm_channel_close_def
    wasm_packet_receive_def wasm_packet_ack_def wasm_packet_timeout_def wasm_source_callback_def
    ibc_basic_entry_def process_ibc_response_def [abs_def] process_ibc_receive_response_def [abs_def]
  by (intro ok_intro assms)+

subsection \<open>The router\<close>

lemma stubs_ok [ok_intro]:
  "ok_runs R (stub_execute k a m)" "ok_runs R (execute_stargate k a url v)" "ok_runs R (execute_any k a url v)"
  "ok_runs R (default_channel_open o1)" "ok_runs R (default_channel_connect o2)" "ok_runs R (default_channel_close o3)"
  "ok_runs R (default_packet_receive o4)" "ok_runs R (default_packet_ack o5)" "ok_runs R (default_packet_timeout o6)"
  unfolding stub_execute_def execute_stargate_def execute_any_def default_channel_open_def
    default_channel_connect_def default_channel_close_def default_packet_receive_def default_packet_ack_def
    default_packet_timeout_def
  by (simp_all split: stub.split) (intro conjI impI ok_intro)+

lemma router_over_ok:
  assumes "router_keeps M R rt" "md_wasm md = wk"
  shows "router_keeps M R (router_over ext md n rt)"
  unfolding router_keeps_def router_over_simps
proof (intro conjI allI)
  show "ok_runs R (router_execute ext md n rt b a m)" for b a m
    by (cases m; simp only: router_execute_def cosmos_msg.case assms(2); intro ok_intro ibc_execute_step assms)
  show "M m \<longrightarrow> ok_runs R (router_sudo ext md n rt b m)" for b m
    by (cases m; simp only: router_sudo_def sudo_msg.case assms(2); intro impI ok_intro ibc_sudo_step bank_sudo_step assms; assumption?)
  show "ok_runs R (router_ibc ext md n rt b i m)" for b i m
    by (cases i; cases m; simp only: router_ibc_def ibc_module.case ibc_module_msg.case assms(2); intro ok_intro assms)
  show "ok_runs R (router_source_callback ext md n rt b m)" for b m
    unfolding router_source_callback_def Let_def assms(2)
    by (intro ok_intro; simp split: ibc_module.split; intro conjI allI impI ok_intro assms)
qed

lemma router_at_ok: "md_wasm md = wk \<Longrightarrow> router_keeps M R (router_at ext md n)"
proof (induction n)
  case 0
  show ?case by (auto simp: router_keeps_def idle_router_def intro: ok_runs_no_fuel)
next
  case (Suc n)
  then show ?case by (simp add: router_over_ok)
qed

end

section \<open>Whole applications\<close>

text \<open>
  One operation of the application, whatever its outcome: a message, a block, new contract code, or a
  test that writes the storage of a contract from outside (\<open>App::contract_storage_mut\<close>). \<open>E\<close> is the set of
  the addresses at which the last one happens, so that a theorem can be about contracts a test leaves
  alone. Arbitrary access to the whole storage or to the keepers (\<open>App::storage_mut\<close>,
  \<open>App::prefixed_storage_mut\<close>, \<open>App::init_modules\<close>) is no operation of a history: nothing survives it.
\<close>

inductive message_step :: "ext \<Rightarrow> app \<Rightarrow> app \<Rightarrow> bool" for ext where
  run_messages: "execute_multi ext n sender msgs a = (r, a') \<Longrightarrow> message_step ext a a'"
| run_sudo: "app_sudo ext n msg a = (r, a') \<Longrightarrow> message_step ext a a'"
| run_wasm_sudo: "app_wasm_sudo ext n contract m a = (r, a') \<Longrightarrow> message_step ext a a'"

inductive app_step :: "ext \<Rightarrow> addr set \<Rightarrow> app \<Rightarrow> app \<Rightarrow> bool" for ext E where
  messages: "message_step ext a a' \<Longrightarrow> app_step ext E a a'"
| new_block: "set_block ext n block a = (r, a') \<Longrightarrow> app_step ext E a a'"
| changed_block: "update_block ext n action a = (r, a') \<Longrightarrow> app_step ext E a a'"
| new_code: "app_store_code_with_creator creator code a = (k, a') \<Longrightarrow> app_step ext E a a'"
| new_code_id: "app_store_code_with_id creator code_id code a = (k, a') \<Longrightarrow> app_step ext E a a'"
| code_copy: "app_duplicate_code code_id a = (k, a') \<Longrightarrow> app_step ext E a a'"
| storage_access: "app_contract_storage_mut address m a = (r :: (std_error, unit) outcome, a') \<Longrightarrow> address \<in> E \<Longrightarrow>
    app_step ext E a a'"

lemma on_keeper_chain: "on_keeper m a = (r, a') \<Longrightarrow> ap_chain a' = ap_chain a \<and> ap_block a' = ap_block a"
  by (auto simp: on_keeper_def zoom_def split: prod.splits)

lemma on_chain_modules: "on_chain m a = (r, a') \<Longrightarrow> ap_modules a' = ap_modules a \<and> ap_block a' = ap_block a"
  by (auto simp: on_chain_def zoom_def split: prod.splits)

lemma message_step_modules: "message_step ext a a' \<Longrightarrow> ap_modules a' = ap_modules a"
proof (induction rule: message_step.induct)
  case (run_wasm_sudo n contract m a r a')
  then show ?case by (cases m) (auto simp: app_wasm_sudo_def dest!: on_chain_modules)
qed (auto simp: execute_multi_def app_sudo_def dest!: on_chain_modules)

context chain_moves begin

lemma on_chain_rel:
  assumes "on_chain (\<lambda>md b. atomically (m md b)) a = (r, a')" "\<And>b. ok_runs R (m (ap_modules a) b)"
  shows "R (ap_chain a) (ap_chain a')"
proof -
  have "all_runs R (atomically (m (ap_modules a) (ap_block a)))"
    by (rule all_runs_atomically [OF refl assms(2)])
  with assms(1) show ?thesis
    by (auto simp: on_chain_def zoom_def dest: all_runsD split: prod.splits)
qed

lemma execute_multi_rel:
  assumes "execute_multi ext n sender msgs a = (r, a')" "md_wasm (ap_modules a) = wk"
  shows "R (ap_chain a) (ap_chain a')"
  using assms(1) [unfolded execute_multi_def] by (rule on_chain_rel) (intro ok_intro router_at_ok assms(2))

lemma app_sudo_rel:
  assumes "app_sudo ext n msg a = (r, a')" "md_wasm (ap_modules a) = wk" "M msg"
  shows "R (ap_chain a) (ap_chain a')"
  using assms(1) [unfolded app_sudo_def] by (rule on_chain_rel) (intro ok_intro router_at_ok assms(2,3))

lemma app_wasm_sudo_rel:
  assumes "app_wasm_sudo ext n contract m a = (r, a')" "md_wasm (ap_modules a) = wk"
  shows "R (ap_chain a) (ap_chain a')"
proof (cases m)
  case (Inl e)
  with assms refl show ?thesis by (simp add: app_wasm_sudo_def reflp_def)
next
  case (Inr x)
  have "on_chain (\<lambda>md b. atomically (wasm_sudo ext (router_at ext md n) (md_wasm md) n b
      \<lparr>ws_contract = contract, ws_message = x\<rparr>)) a = (r, a')"
    using assms Inr by (simp add: app_wasm_sudo_def)
  then show ?thesis
    by (rule on_chain_rel) (unfold assms(2), intro ok_intro router_at_ok assms(2))
qed

end

lemma process_app_queue_modules: "process_app_queue ext n a = (r, a') \<Longrightarrow> ap_modules a' = ap_modules a"
  by (auto simp: process_app_queue_def unwrapM_def split: prod.splits outcome.splits dest!: on_chain_modules)

lemma set_block_state:
  assumes "set_block ext n block a = (r, a')"
  obtains r1 where "process_app_queue ext n (a\<lparr>ap_block := block\<rparr>) = (r1, a')"
  using assms by (auto simp: set_block_def thenM_def bindM_def split: outcome.splits prod.splits)

lemma set_block_modules: "set_block ext n block a = (r, a') \<Longrightarrow> ap_modules a' = ap_modules a"
  by (erule set_block_state) (auto dest!: process_app_queue_modules)

lemma update_block_None: "action (ap_block a) = None \<Longrightarrow> update_block ext n action a = (r, a') \<Longrightarrow> a' = a"
  by (auto simp: update_block_def run_eqs)

lemma update_block_Some:
  "action (ap_block a) = Some block \<Longrightarrow> update_block ext n action a = set_block ext n block a"
  by (simp add: update_block_def set_block_def run_eqs)

text \<open>
  The end of a block writes outside a transaction, so there the relation has to survive failures
  too; \<open>process_queue\<close> removes shares and pays out of the bank.
\<close>

locale block_moves = chain_moves +
  assumes move_all: "all_runs R (in_bank (send ext a dst coins))"
    and unstake_step: "R s (s\<lparr>ch_staking := (ch_staking s)\<lparr>st_stakes := om_remove k (st_stakes (ch_staking s))\<rparr>\<rparr>)"
begin

lemma all_runs_in_staking: "(\<And>s r t. m (ch_staking s) = (r, t) \<Longrightarrow> R s (s\<lparr>ch_staking := t\<rparr>)) \<Longrightarrow> all_runs R (in_staking m)"
  by (auto simp: all_runs_def in_staking_def zoom_def split: prod.splits)

lemma unchanged_staking: "R s (s\<lparr>ch_staking := ch_staking s\<rparr>)" for s :: chain
  using refl by (simp add: reflp_def)

lemma drop_empty_stake_all: "all_runs R (in_staking (drop_empty_stake ext u rest))"
proof (rule all_runs_in_staking)
  fix s :: chain and r t
  assume run: "drop_empty_stake ext u rest (ch_staking s) = (r, t)"
  have g: "all_runs (=) (get_stake ext d v)" for d v
    unfolding get_stake_def by (auto intro!: runs_intro split: option.split)
  have "t = ch_staking s \<or> t = (ch_staking s)\<lparr>st_stakes := om_remove (ub_delegator u, ub_validator u) (st_stakes (ch_staking s))\<rparr>"
    using run
    by (auto simp: drop_empty_stake_def bindM_def unstake_def or_panic_def
        dest!: all_runs_eqD [OF g] split: prod.splits outcome.splits option.splits if_splits)
  then show "R s (s\<lparr>ch_staking := t\<rparr>)" using unstake_step unchanged_staking by auto
qed

lemma pay_out_all: "all_runs R (r_execute (router_at ext md n) b a (MBank (BankSend x coins)))"
proof (cases n)
  case 0
  then show ?thesis by (simp add: idle_router_def all_runs_no_fuel refl)
next
  case (Suc k)
  then show ?thesis
    by (simp add: move_all router_execute_def bank_execute_def all_runs_then all_runs_ret refl trans)
qed

lemma process_queue_all: "all_runs R (process_queue ext (router_at ext md n) b)"
proof -
  have reads: "all_runs R (in_staking (reads f))" for f :: "staking_state \<Rightarrow> 'x"
    by (rule all_runs_in_staking) (use refl in \<open>auto simp: reflp_def\<close>)
  have loop: "all_runs R (queue_loop ext (router_at ext md n) b q)" for q
    by (induction q)
      (auto intro!: all_runs_ret all_runs_then all_runs_bind refl trans drop_empty_stake_all pay_out_all reads)
  have "all_runs R (in_staking (modifies (\<lambda>st. st\<lparr>st_queue := Some q\<rparr>)))" for q
    by (rule all_runs_in_staking) (auto simp: queue_step)
  then show ?thesis
    unfolding process_queue_def
    by (intro all_runs_bind all_runs_then all_runs_ret refl trans reads loop)
qed

lemma process_app_queue_rel: "process_app_queue ext n a = (r, a') \<Longrightarrow> R (ap_chain a) (ap_chain a')"
  by (auto simp: process_app_queue_def unwrapM_def on_chain_def zoom_def
      dest!: all_runsD [OF process_queue_all] split: prod.splits outcome.splits)

lemma set_block_rel: "set_block ext n block a = (r, a') \<Longrightarrow> R (ap_chain a) (ap_chain a')"
  by (erule set_block_state) (auto dest!: process_app_queue_rel)

end

section \<open>Relations that allow every privileged message\<close>

lemma zoom_then: "zoom sel upd (thenM m k) = thenM (zoom sel upd m) (zoom sel upd k)"
  if "\<And>t s. sel (upd t s) = t" "\<And>t u s. upd t (upd u s) = upd t s"
  by (rule ext) (simp add: that thenM_def bindM_def zoom_def split: prod.split outcome.split)

lemma in_bank_send: "in_bank (send ext a b coins) = thenM (in_bank (burn ext a coins)) (in_bank (mint ext b coins))"
  unfolding send_def in_bank_def by (rule zoom_then) simp_all

text \<open>A relation that minting keeps as well allows them all.\<close>

locale chain_steps =
  fixes ext :: ext and wk :: wasm_keeper and R :: "chain \<Rightarrow> chain \<Rightarrow> bool"
  assumes refl: "reflp R" and trans: "transp R"
    and mint_step: "ok_runs R (in_bank (mint ext a coins))"
    and burn_step: "ok_runs R (in_bank (burn ext a coins))"
    and denom_step: "R s (s\<lparr>ch_ibc_denoms := d\<rparr>)"
    and add_stake_step: "ok_runs R (in_staking (add_stake ext b a v c))"
    and remove_stake_step: "ok_runs R (in_staking (remove_stake ext b a v c))"
    and slash_step: "percentage \<le> dec_one \<Longrightarrow> ok_runs R (in_staking (slash ext b v percentage))"
    and remove_rewards_step: "ok_runs R (in_staking (remove_rewards ext b a v))"
    and queue_step: "R s (s\<lparr>ch_staking := (ch_staking s)\<lparr>st_queue := q\<rparr>\<rparr>)"
    and withdraw_step: "R s (s\<lparr>ch_distribution := w\<rparr>)"
    and storage_step: "om_get (w_contracts (ch_wasm s)) a = Some c1 \<Longrightarrow>
      cd_admin c1 \<noteq> None \<or> (\<exists>code. code_at wk (cd_code_id c1) = Some code \<and> entry_run code (contract_storage s a) m) \<Longrightarrow>
      R s (put_contract_storage a m s)"
    and register_step: "om_get (w_contracts (ch_wasm s)) a = None \<Longrightarrow> generated wk a \<Longrightarrow>
      R (s\<lparr>ch_wasm := (ch_wasm s)\<lparr>w_contracts := om_insert a c' (w_contracts (ch_wasm s))\<rparr>\<rparr>) t \<Longrightarrow>
      om_get (w_contracts (ch_wasm t)) a = Some c3 \<Longrightarrow> code_at wk (cd_code_id c3) = Some code \<Longrightarrow>
      run_cprog answer (ct_instantiate code env info msg) (contract_storage t a) = (Ok res, m) \<Longrightarrow>
      R s (put_contract_storage a m t)"
    and update_step: "om_get (w_contracts (ch_wasm s)) a = Some c1 \<Longrightarrow> cd_admin c1 \<noteq> None \<Longrightarrow>
      cd_creator c2 = cd_creator c1 \<Longrightarrow>
      cd_label c2 = cd_label c1 \<Longrightarrow> cd_created c2 = cd_created c1 \<Longrightarrow>
      cd_code_id c2 = cd_code_id c1 \<or> code_known wk (cd_code_id c2) \<Longrightarrow>
      R s (s\<lparr>ch_wasm := (ch_wasm s)\<lparr>w_contracts := om_insert a c2 (w_contracts (ch_wasm s))\<rparr>\<rparr>)"
    and ibc_execute_step: "router_ok R rt \<Longrightarrow> ok_runs R (ibc_execute ext rt b a im)"
    and ibc_sudo_step: "router_ok R rt \<Longrightarrow> ok_runs R (ibc_sudo ext rt b ir)"

sublocale chain_steps \<subseteq> moves?: chain_moves ext wk "\<lambda>_. True" R
proof
  show "reflp R" "transp R" by (fact refl trans)+
  show "ok_runs R (in_bank (send ext a b coins))" for a b coins
    by (simp add: in_bank_send ok_runs_then trans burn_step mint_step)
  show "ok_runs R (in_bank (mint ext a [\<lparr>c_denom = wrap_ibc_denom_query ext ch dnm, c_amount = n\<rparr>]))" for a ch dnm n
    by (rule mint_step)
  show "ok_runs R (bank_sudo ext bu)" for bu
    by (cases bu; simp add: bank_sudo_def; intro ok_intro refl trans mint_step)
  have free: "ok_runs R (in_distribution m)" for m :: "(distribution_state, std_error, 'b) proc"
    by (auto simp: ok_runs_def in_distribution_def zoom_Ok_iff withdraw_step)
  show "ok_runs R (distribution_execute ext rt b a dm)" if "router_ok R rt" for rt b a dm
    by (cases dm; simp only: distribution_execute_def distribution_msg.case Let_def;
      intro ok_intro router_okD that refl trans free remove_rewards_step)
qed (rule TrueI burn_step denom_step add_stake_step remove_stake_step slash_step queue_step withdraw_step storage_step
    register_step update_step ibc_execute_step ibc_sudo_step; assumption)+

context chain_steps begin

lemma message_step_rel:
  assumes "message_step ext a a'" "md_wasm (ap_modules a) = wk"
  shows "R (ap_chain a) (ap_chain a')"
  using assms
  by (induction rule: message_step.induct) (auto intro: execute_multi_rel app_sudo_rel app_wasm_sudo_rel)

lemma message_steps_rel:
  "(message_step ext)\<^sup>*\<^sup>* a a' \<Longrightarrow> md_wasm (ap_modules a) = wk \<Longrightarrow>
   R (ap_chain a) (ap_chain a') \<and> md_wasm (ap_modules a') = wk"
proof (induction rule: rtranclp_induct)
  case base
  then show ?case using refl by (simp add: reflp_def)
next
  case (step b c)
  with message_step_rel [of b c] message_step_modules [of ext b c] trans show ?case by (metis transpD)
qed

end

locale block_steps = chain_steps +
  assumes mint_all: "all_runs R (in_bank (mint ext a coins))"
    and burn_all: "all_runs R (in_bank (burn ext a coins))"
    and unstake_step: "R s (s\<lparr>ch_staking := (ch_staking s)\<lparr>st_stakes := om_remove k (st_stakes (ch_staking s))\<rparr>\<rparr>)"

sublocale block_steps \<subseteq> moves?: block_moves ext wk "\<lambda>_. True" R
proof
  show "all_runs R (in_bank (send ext a b coins))" for a b coins
    by (simp add: in_bank_send all_runs_then trans burn_all mint_all)
qed (rule unstake_step)

context block_steps begin

lemmas block_rel = set_block_rel

end

text \<open>
  A history of the application changes the keeper as well, but only ever adds code to it. A family of
  relations, one per keeper, that a larger keeper weakens is kept by all of it. The keepers may be
  restricted to some \<open>W\<close> that growing keeps.
\<close>

definition keeper_grows :: "wasm_keeper \<Rightarrow> wasm_keeper \<Rightarrow> bool" where
  "keeper_grows wk wk' \<longleftrightarrow> (\<forall>k. code_known wk k \<longrightarrow> code_known wk' k)
     \<and> (keeper_wf wk \<longrightarrow> keeper_wf wk' \<and> (\<forall>k code. code_at wk k = Some code \<longrightarrow> code_at wk' k = Some code))
     \<and> wk_address wk' = wk_address wk \<and> wk_predictable wk' = wk_predictable wk"

lemma keeper_grows_refl [simp]: "keeper_grows wk wk"
  by (simp add: keeper_grows_def)

lemma keeper_grows_trans: "keeper_grows u v \<Longrightarrow> keeper_grows v w \<Longrightarrow> keeper_grows u w"
  by (simp add: keeper_grows_def)

lemma keeper_grows_generated: "keeper_grows wk wk' \<Longrightarrow> generated wk' a = generated wk a"
  by (simp add: keeper_grows_def generated_def)

lemma code_known_iff: "code_known wk k \<longleftrightarrow> k \<noteq> 0 \<and> om_get (wk_code_data wk) k \<noteq> None"
  by (auto simp: code_known_def code_data_def word_less_1 split: option.splits)

lemma code_at_registered: "code_at wk k = Some code \<Longrightarrow> k \<noteq> 0 \<and> om_get (wk_code_data wk) k \<noteq> None"
  by (drule code_at_known) (simp add: code_known_iff)

lemma save_code_grows:
  assumes "k \<noteq> 0" "keeper_wf wk \<Longrightarrow> om_get (wk_code_data wk) k = None"
  shows "keeper_grows wk (save_code k creator code wk)"
proof -
  have "code_at (save_code k creator code wk) j = Some c" if wf: "keeper_wf wk" and j: "code_at wk j = Some c" for j c
  proof -
    from code_at_registered [OF j] obtain d where "om_get (wk_code_data wk) j = Some d" by auto
    from save_code_lookup(2) [OF wf assms(2) [OF wf] assms(1) this, of creator code "()"] j
    show ?thesis by (metis contract_code_Ok_iff)
  qed
  then show ?thesis
    using assms(1) by (auto simp: keeper_grows_def code_known_iff save_code_wf) (auto simp: save_code_def Let_def)
qed

lemma keeper_ops_grow:
  "store_code creator code wk = (r1, w1) \<Longrightarrow> keeper_grows wk w1"
  "store_code_with_id creator k code wk = (r2, w2) \<Longrightarrow> keeper_grows wk w2"
  "duplicate_code k wk = (r3, w3) \<Longrightarrow> keeper_grows wk w3"
proof -
  show "store_code creator code wk = (r1, w1) \<Longrightarrow> keeper_grows wk w1"
    by (cases "next_code_id wk")
      (auto simp: store_code_def run_eqs ret_def intro!: save_code_grows dest: next_code_id_nonzero
        next_code_id_fresh)
  show "store_code_with_id creator k code wk = (r2, w2) \<Longrightarrow> keeper_grows wk w2"
    by (auto simp: store_code_with_id_def run_eqs ret_def fail_def om_has_def intro!: save_code_grows split: if_splits)
  assume dup: "duplicate_code k wk = (r3, w3)"
  show "keeper_grows wk w3"
  proof (cases "code_data wk k")
    case (Inl e)
    with dup show ?thesis by (auto simp: duplicate_code_def run_eqs)
  next
    case (Inr d)
    show ?thesis
    proof (cases "next_code_id wk")
      case None
      with dup Inr show ?thesis by (auto simp: duplicate_code_def run_eqs)
    next
      case (Some n)
      then have w3: "w3 = wk\<lparr>wk_code_data := om_insert n d (wk_code_data wk)\<rparr>" and n: "n \<noteq> 0"
        using dup Inr by (auto simp: duplicate_code_def run_eqs ret_def code_entry_eta dest: next_code_id_nonzero)
      have "keeper_wf w3" if "keeper_wf wk"
        using that Inr n by (auto simp: w3 keeper_wf_def)
      moreover have "code_at w3 j = Some c" if "keeper_wf wk" "code_at wk j = Some c" for j c
        using code_at_registered [OF that(2)] next_code_id_fresh [OF that(1) Some] that(2)
        by (auto simp: w3 code_at_def code_data_def split: if_splits)
      moreover note n
      ultimately show ?thesis by (auto simp: w3 keeper_grows_def code_known_iff)
    qed
  qed
qed

lemma on_keeper_grows:
  assumes "on_keeper m a = (r, a')" "\<And>r w. m (md_wasm (ap_modules a)) = (r, w) \<Longrightarrow> keeper_grows (md_wasm (ap_modules a)) w"
  shows "keeper_grows (md_wasm (ap_modules a)) (md_wasm (ap_modules a'))"
  using assms by (auto simp: on_keeper_def zoom_def split: prod.splits)

lemma storage_access_state:
  assumes "app_contract_storage_mut address m a = (r, a')"
  obtains st where "a' = a\<lparr>ap_chain := put_contract_storage address st (ap_chain a)\<rparr>"
  using assms by (auto simp: app_contract_storage_mut_def on_chain_def contract_storage_mut_def zoom_def split: prod.splits)

lemma app_step_keeper: "app_step ext E a a' \<Longrightarrow> keeper_grows (md_wasm (ap_modules a)) (md_wasm (ap_modules a'))"
proof (induction rule: app_step.induct)
  case (new_block n block a r a')
  then show ?case by (simp add: set_block_modules)
next
  case (changed_block n action a r a')
  then show ?case by (cases "action (ap_block a)") (auto simp: update_block_Some dest: update_block_None set_block_modules)
next
  case (storage_access address m a r a')
  then show ?case by (elim storage_access_state) simp
qed (auto simp: message_step_modules app_store_code_with_creator_def app_store_code_with_id_def app_duplicate_code_def
      elim!: on_keeper_grows dest: keeper_ops_grow)

locale app_history =
  fixes ext :: ext and E :: "addr set" and W :: "wasm_keeper \<Rightarrow> bool"
    and Q :: "wasm_keeper \<Rightarrow> chain \<Rightarrow> chain \<Rightarrow> bool"
  assumes blocks: "block_steps ext wk (Q wk)"
    and keepers: "W wk \<Longrightarrow> keeper_grows wk wk' \<Longrightarrow> W wk'"
    and accesses: "address \<in> E \<Longrightarrow> Q wk s (put_contract_storage address st s)"
    and weaker: "W wk \<Longrightarrow> Q wk s t \<Longrightarrow> keeper_grows wk wk' \<Longrightarrow> Q wk' s t"
begin

lemmas messages_kept = block_steps.axioms(1) [OF blocks]
lemmas refl = chain_steps.refl [OF messages_kept] and trans = chain_steps.trans [OF messages_kept]

lemma app_step_rel: "app_step ext E a a' \<Longrightarrow> Q (md_wasm (ap_modules a)) (ap_chain a) (ap_chain a')"
proof (induction rule: app_step.induct)
  case (messages a a')
  then show ?case by (rule chain_steps.message_step_rel [OF messages_kept]) simp
next
  case (new_block n block a r a')
  then show ?case by (rule block_steps.block_rel [OF blocks])
next
  case (changed_block n action a r a')
  then show ?case
    using reflpD [OF refl] by (cases "action (ap_block a)")
      (auto dest: update_block_None simp: update_block_Some intro: block_steps.block_rel [OF blocks])
next
  case (storage_access address m a r a')
  then show ?case using accesses by (elim storage_access_state) simp
qed (use reflpD [OF refl] in
      \<open>auto simp: app_store_code_with_creator_def app_store_code_with_id_def app_duplicate_code_def
      dest!: on_keeper_chain\<close>)

lemma app_steps_rel:
  assumes "(app_step ext E)\<^sup>*\<^sup>* a a'" "W (md_wasm (ap_modules a))"
  shows "Q (md_wasm (ap_modules a')) (ap_chain a) (ap_chain a')
    \<and> keeper_grows (md_wasm (ap_modules a)) (md_wasm (ap_modules a'))"
  using assms(1)
proof (induction rule: rtranclp_induct)
  case base
  show ?case using reflpD [OF refl] by simp
next
  case (step b c)
  note grow = app_step_keeper [OF step(2)]
  have "W (md_wasm (ap_modules b))" using keepers [OF assms(2)] step.IH by blast
  then have "Q (md_wasm (ap_modules c)) (ap_chain a) (ap_chain b)" "Q (md_wasm (ap_modules c)) (ap_chain b) (ap_chain c)"
    using weaker [OF _ _ grow] step.IH app_step_rel [OF step(2)] by blast+
  then have "Q (md_wasm (ap_modules c)) (ap_chain a) (ap_chain c)"
    using trans by (meson transpD)
  with grow step.IH keeper_grows_trans show ?case by blast
qed

end

end
