(* ===== verification/Ibc_Ledger.thy ===== *)
theory Ibc_Ledger
  imports Chain_Steps
begin

text \<open>
  What the IBC module records is permanent: a packet that was sent, received, acknowledged or timed
  out stays so, with the same data; the acknowledgement written for a received packet stays, and none
  is written for it later; a handshake stays as it is until it becomes the channel it was for; a channel
  keeps its endpoints and never reopens; a connection keeps its chain; sequence numbers and channel
  numbers only grow, so none is used twice. \<open>ibc_step\<close> states this as a relation
  between two states, and the lemmas below show it for every operation of the module, provided the
  modules behind the router keep it too.
\<close>

section \<open>The invariant and the ledger\<close>

definition next_id :: "ibc_state \<Rightarrow> string \<Rightarrow> nat" where
  "next_id i p = unat (load_port_info p i)"

definition chan_name :: "nat \<Rightarrow> string" where
  "chan_name k = ''channel-'' @ show_nat k"

definition conn_name :: "nat \<Rightarrow> string" where
  "conn_name k = ''connection-'' @ show_nat k"

lemma names_inject [simp]: "chan_name j = chan_name k \<longleftrightarrow> j = k" "conn_name j = conn_name k \<longleftrightarrow> j = k"
  by (simp_all add: chan_name_def conn_name_def)

definition unused :: "ibc_state \<Rightarrow> string \<times> string \<Rightarrow> bool" where
  "unused i k \<longleftrightarrow> om_get (i_handshakes i) k = None \<and> om_get (i_channels i) k = None"

text \<open>
  A channel key is either in the handshake or open for packets, and carries a number its port has
  given out; a packet has been sent on an existing channel below its next sequence number; a packet
  that is acknowledged or timed out has been sent, and it is not both.
\<close>

definition ids_issued :: "ibc_state \<Rightarrow> bool" where
  "ids_issued i \<longleftrightarrow> (\<forall>p c. \<not> unused i (p, c) \<longrightarrow> (\<exists>k < next_id i p. c = chan_name k))"

definition handshakes_apart :: "ibc_state \<Rightarrow> bool" where
  "handshakes_apart i \<longleftrightarrow> (\<forall>x. om_get (i_handshakes i) x = None \<or> om_get (i_channels i) x = None)"

definition sends_numbered :: "ibc_state \<Rightarrow> bool" where
  "sends_numbered i \<longleftrightarrow> (\<forall>p c q. om_get (i_send i) (p, c, q) \<noteq> None \<longrightarrow>
     (\<exists>ch. om_get (i_channels i) (p, c) = Some ch \<and> q < ci_next_packet ch))"

definition fates_exclusive :: "ibc_state \<Rightarrow> bool" where
  "fates_exclusive i \<longleftrightarrow> (\<forall>x. om_get (i_send_ack i) x \<noteq> None \<longrightarrow> om_get (i_send i) x \<noteq> None \<and> om_get (i_timeout i) x = None)
     \<and> (\<forall>x. om_get (i_timeout i) x \<noteq> None \<longrightarrow> om_get (i_send i) x \<noteq> None)"

definition connections_numbered :: "ibc_state \<Rightarrow> bool" where
  "connections_numbered i \<longleftrightarrow> om_wf (i_connections i)
     \<and> (\<forall>c. om_get (i_connections i) c \<noteq> None \<longrightarrow> (\<exists>k < length (i_connections i). c = conn_name k))"

text \<open>Only packets that were received in time are answered.\<close>

definition answers_received :: "ibc_state \<Rightarrow> bool" where
  "answers_received i \<longleftrightarrow> (\<forall>x. om_get (i_receive_ack i) x \<noteq> None \<longrightarrow>
     (\<exists>r. om_get (i_receive i) x = Some r \<and> \<not> pr_timeout r))"

lemma answers_receivedD:
  "answers_received i \<Longrightarrow> om_get (i_receive i) x = None \<Longrightarrow> om_get (i_receive_ack i) x = None"
  by (cases "om_get (i_receive_ack i) x") (auto simp: answers_received_def simp del: split_paired_All)

text \<open>Channels and packets know the key they are stored under.\<close>

definition endpoints_named :: "ibc_state \<Rightarrow> bool" where
  "endpoints_named i \<longleftrightarrow> (\<forall>x c. om_get (i_channels i) x = Some c \<longrightarrow>
       ic_endpoint (ci_info c) = \<lparr>ep_port = fst x, ep_channel = snd x\<rparr>)
     \<and> (\<forall>x packet. om_get (i_send i) x = Some packet \<longrightarrow> src_key packet = x)"

definition ibc_wf :: "ibc_state \<Rightarrow> bool" where
  "ibc_wf i \<longleftrightarrow> ids_issued i \<and> handshakes_apart i \<and> sends_numbered i \<and> fates_exclusive i
     \<and> connections_numbered i \<and> answers_received i \<and> endpoints_named i"

definition keeps :: "('k, 'v) omap \<Rightarrow> ('k, 'v) omap \<Rightarrow> bool" where
  "keeps m m' \<longleftrightarrow> (\<forall>k v. om_get m k = Some v \<longrightarrow> om_get m' k = Some v)"

definition channel_evolves :: "channel_info \<Rightarrow> channel_info \<Rightarrow> bool" where
  "channel_evolves c c' \<longleftrightarrow> ci_info c' = ci_info c \<and> ci_next_packet c \<le> ci_next_packet c'
     \<and> ci_last_relayed c' = ci_last_relayed c \<and> (ci_open c' \<longrightarrow> ci_open c)"

definition channels_evolve :: "ibc_state \<Rightarrow> ibc_state \<Rightarrow> bool" where
  "channels_evolve i j \<longleftrightarrow> (\<forall>k c. om_get (i_channels i) k = Some c \<longrightarrow>
     (\<exists>c'. om_get (i_channels j) k = Some c' \<and> channel_evolves c c'))"

definition connections_evolve :: "ibc_state \<Rightarrow> ibc_state \<Rightarrow> bool" where
  "connections_evolve i j \<longleftrightarrow> (\<forall>k c. om_get (i_connections i) k = Some c \<longrightarrow>
     (\<exists>c'. om_get (i_connections j) k = Some c' \<and> cn_chain c' = cn_chain c
        \<and> (cn_counterparty c \<noteq> None \<longrightarrow> cn_counterparty c' \<noteq> None)))"

text \<open>The channel a handshake becomes has its order and its connection.\<close>

definition channel_from :: "handshake_info \<Rightarrow> channel_info \<Rightarrow> bool" where
  "channel_from h c \<longleftrightarrow> ic_order (ci_info c) = hs_order h \<and> ic_connection (ci_info c) = hs_connection h"

definition handshakes_evolve :: "ibc_state \<Rightarrow> ibc_state \<Rightarrow> bool" where
  "handshakes_evolve i j \<longleftrightarrow> (\<forall>k h. om_get (i_handshakes i) k = Some h \<longrightarrow>
     om_get (i_handshakes j) k = Some h \<or> (\<exists>c. om_get (i_channels j) k = Some c \<and> channel_from h c))"

text \<open>What was answered when a packet was received is the answer for ever.\<close>

definition answers_fixed :: "ibc_state \<Rightarrow> ibc_state \<Rightarrow> bool" where
  "answers_fixed i j \<longleftrightarrow> (\<forall>x. om_get (i_receive i) x \<noteq> None \<longrightarrow>
     om_get (i_receive_ack j) x = om_get (i_receive_ack i) x)"

definition ids_evolve :: "ibc_state \<Rightarrow> ibc_state \<Rightarrow> bool" where
  "ids_evolve i j \<longleftrightarrow> (\<forall>p. next_id i p \<le> next_id j p)
     \<and> (\<forall>p k. k < next_id i p \<longrightarrow> unused i (p, chan_name k) \<longrightarrow> unused j (p, chan_name k))"

definition ledger_grows :: "ibc_state \<Rightarrow> ibc_state \<Rightarrow> bool" where
  "ledger_grows i j \<longleftrightarrow> keeps (i_send i) (i_send j) \<and> keeps (i_receive i) (i_receive j)
     \<and> keeps (i_send_ack i) (i_send_ack j) \<and> keeps (i_timeout i) (i_timeout j)
     \<and> keeps (i_receive_ack i) (i_receive_ack j) \<and> answers_fixed i j
     \<and> channels_evolve i j \<and> handshakes_evolve i j \<and> connections_evolve i j \<and> ids_evolve i j"

definition ibc_step :: "ibc_state \<Rightarrow> ibc_state \<Rightarrow> bool" where
  "ibc_step i j \<longleftrightarrow> (ibc_wf i \<longrightarrow> ibc_wf j \<and> ledger_grows i j)"

lemma keeps_refl [simp]: "keeps m m"
  and keeps_trans: "keeps m m' \<Longrightarrow> keeps m' m'' \<Longrightarrow> keeps m m''"
  and keeps_insert [simp]: "om_get m k = None \<Longrightarrow> keeps m (om_insert k v m)"
  by (auto simp: keeps_def)

lemma channel_evolves_refl [simp]: "channel_evolves c c"
  and channel_evolves_trans: "channel_evolves c c' \<Longrightarrow> channel_evolves c' c'' \<Longrightarrow> channel_evolves c c''"
  by (auto simp: channel_evolves_def)

lemma channels_evolve_refl: "channels_evolve i i"
  and channels_evolve_trans: "channels_evolve i j \<Longrightarrow> channels_evolve j k \<Longrightarrow> channels_evolve i k"
  by (simp add: channels_evolve_def) (unfold channels_evolve_def, meson channel_evolves_trans)

lemma connections_evolve_refl: "connections_evolve i i"
  and connections_evolve_trans: "connections_evolve i j \<Longrightarrow> connections_evolve j k \<Longrightarrow> connections_evolve i k"
  by (simp add: connections_evolve_def) (unfold connections_evolve_def, metis)

lemma ids_evolve_refl: "ids_evolve i i"
  and ids_evolve_trans: "ids_evolve i j \<Longrightarrow> ids_evolve j k \<Longrightarrow> ids_evolve i k"
  by (simp add: ids_evolve_def) (unfold ids_evolve_def, meson le_trans less_le_trans)

lemma handshakes_evolve_refl: "handshakes_evolve i i"
  by (simp add: handshakes_evolve_def)

lemma handshakes_evolve_trans:
  assumes "handshakes_evolve i j" "handshakes_evolve j k" "channels_evolve j k"
  shows "handshakes_evolve i k"
  unfolding handshakes_evolve_def
proof (intro allI impI)
  fix x h
  assume "om_get (i_handshakes i) x = Some h"
  with assms(1) consider "om_get (i_handshakes j) x = Some h"
    | c where "om_get (i_channels j) x = Some c" "channel_from h c"
    unfolding handshakes_evolve_def by blast
  then show "om_get (i_handshakes k) x = Some h \<or> (\<exists>c. om_get (i_channels k) x = Some c \<and> channel_from h c)"
  proof cases
    case 1
    with assms(2) show ?thesis unfolding handshakes_evolve_def by blast
  next
    case 2
    with assms(3) obtain c' where "om_get (i_channels k) x = Some c'" "channel_evolves c c'"
      unfolding channels_evolve_def by blast
    with 2 show ?thesis by (auto simp: channel_evolves_def channel_from_def)
  qed
qed

lemma keepsD: "keeps m m' \<Longrightarrow> om_get m k = Some v \<Longrightarrow> om_get m' k = Some v"
  and answers_fixedD: "answers_fixed i j \<Longrightarrow> om_get (i_receive i) x = Some r \<Longrightarrow>
    om_get (i_receive_ack j) x = om_get (i_receive_ack i) x"
  by (simp add: keeps_def) (unfold answers_fixed_def, metis option.distinct(1))

lemma answers_fixed_refl: "answers_fixed i i"
  and answers_fixed_trans:
    "answers_fixed i j \<Longrightarrow> answers_fixed j k \<Longrightarrow> keeps (i_receive i) (i_receive j) \<Longrightarrow> answers_fixed i k"
  by (auto simp: answers_fixed_def keeps_def)

lemma ledger_grows_refl [simp]: "ledger_grows i i"
  by (simp add: ledger_grows_def channels_evolve_refl connections_evolve_refl ids_evolve_refl
      handshakes_evolve_refl answers_fixed_refl)

lemma ledger_grows_trans: "ledger_grows i j \<Longrightarrow> ledger_grows j k \<Longrightarrow> ledger_grows i k"
  unfolding ledger_grows_def
  by (meson keeps_trans channels_evolve_trans connections_evolve_trans ids_evolve_trans
      handshakes_evolve_trans answers_fixed_trans)

lemma reflp_ibc_step [simp, runs_intro]: "reflp ibc_step"
  by (simp add: reflp_def ibc_step_def)

lemma transp_ibc_step [simp, runs_intro]: "transp ibc_step"
  unfolding transp_def ibc_step_def by (meson ledger_grows_trans)

section \<open>Single updates\<close>

lemmas evolve_defs = channels_evolve_def connections_evolve_def ids_evolve_def handshakes_evolve_def answers_fixed_def

lemmas ledger_defs = ledger_grows_def evolve_defs

lemmas wf_defs = ibc_wf_def ids_issued_def handshakes_apart_def sends_numbered_def fates_exclusive_def
  connections_numbered_def answers_received_def endpoints_named_def unused_def next_id_def load_port_info_def

lemma step_receive:
  assumes "om_get (i_receive i) x = None"
  shows "ibc_step i (i\<lparr>i_receive := om_insert x v (i_receive i)\<rparr>)"
  unfolding ibc_step_def
proof
  assume wf: "ibc_wf i"
  have "om_get (i_receive_ack i) x = None"
    using wf assms by (simp add: ibc_wf_def answers_receivedD)
  with wf assms show "ibc_wf (i\<lparr>i_receive := om_insert x v (i_receive i)\<rparr>)
      \<and> ledger_grows i (i\<lparr>i_receive := om_insert x v (i_receive i)\<rparr>)"
    by (simp add: ledger_defs wf_defs)
qed

text \<open>
  The answer to a packet is recorded after the application has been called, so its step is taken from
  before the packet was recorded.
\<close>

lemma step_answer:
  assumes "ibc_wf j" "ledger_grows i j" "om_get (i_receive i) x = None"
    and "om_get (i_receive j) x = Some r" "\<not> pr_timeout r" "om_get (i_receive_ack j) x = None"
  shows "ibc_wf (j\<lparr>i_receive_ack := om_insert x v (i_receive_ack j)\<rparr>)
    \<and> ledger_grows i (j\<lparr>i_receive_ack := om_insert x v (i_receive_ack j)\<rparr>)"
proof -
  have "keeps (i_receive_ack i) (om_insert x v (i_receive_ack j))"
    using assms(2,6) by (meson keeps_insert keeps_trans ledger_grows_def)
  then show ?thesis using assms by (auto simp: ledger_defs wf_defs)
qed

lemma step_ack:
  "om_get (i_send i) x \<noteq> None \<Longrightarrow> om_get (i_send_ack i) x = None \<Longrightarrow> om_get (i_timeout i) x = None \<Longrightarrow>
   ibc_step i (i\<lparr>i_send_ack := om_insert x a (i_send_ack i)\<rparr>)"
  by (simp add: ibc_step_def ledger_defs wf_defs)

lemma step_timeout:
  "om_get (i_send i) x \<noteq> None \<Longrightarrow> om_get (i_send_ack i) x = None \<Longrightarrow> om_get (i_timeout i) x = None \<Longrightarrow>
   ibc_step i (i\<lparr>i_timeout := om_insert x a (i_timeout i)\<rparr>)"
  by (simp add: ibc_step_def ledger_defs wf_defs)

text \<open>The invariant, as it is used.\<close>

lemma issued: "ibc_wf i \<Longrightarrow> \<not> unused i (p, c) \<Longrightarrow> \<exists>k < next_id i p. c = chan_name k"
  and sent_channel: "ibc_wf i \<Longrightarrow> om_get (i_send i) (p, c, q) = Some pk \<Longrightarrow>
    \<exists>d. om_get (i_channels i) (p, c) = Some d \<and> q < ci_next_packet d"
  and handshake_apart: "ibc_wf i \<Longrightarrow> om_get (i_handshakes i) x = Some h \<Longrightarrow> om_get (i_channels i) x = None"
  and named: "ibc_wf i \<Longrightarrow> om_get (i_channels i) x = Some d' \<Longrightarrow>
    ic_endpoint (ci_info d') = \<lparr>ep_port = fst x, ep_channel = snd x\<rparr>"
  and sent_named: "ibc_wf i \<Longrightarrow> om_get (i_send i) y = Some pk' \<Longrightarrow> src_key pk' = y"
proof -
  assume wf: "ibc_wf i"
  show "\<exists>k < next_id i p. c = chan_name k" if "\<not> unused i (p, c)"
    using wf that by (simp add: ibc_wf_def ids_issued_def)
  show "\<exists>d. om_get (i_channels i) (p, c) = Some d \<and> q < ci_next_packet d" if "om_get (i_send i) (p, c, q) = Some pk"
    using wf that by (simp add: ibc_wf_def sends_numbered_def)
  show "om_get (i_channels i) x = None" if "om_get (i_handshakes i) x = Some h"
    using wf that by (metis ibc_wf_def handshakes_apart_def option.distinct(1))
  show "ic_endpoint (ci_info d') = \<lparr>ep_port = fst x, ep_channel = snd x\<rparr>" if "om_get (i_channels i) x = Some d'"
    using wf that unfolding ibc_wf_def endpoints_named_def by blast
  show "src_key pk' = y" if "om_get (i_send i) y = Some pk'"
    using wf that unfolding ibc_wf_def endpoints_named_def by blast
qed

lemma step_port:
  assumes "next_id i p < unat n"
  shows "ibc_step i (i\<lparr>i_ports := om_insert p n (i_ports i)\<rparr>)"
  unfolding ibc_step_def
proof
  let ?j = "i\<lparr>i_ports := om_insert p n (i_ports i)\<rparr>"
  assume wf: "ibc_wf i"
  have n: "next_id i q \<le> next_id ?j q" for q
    using assms by (simp add: next_id_def load_port_info_def)
  have u: "unused ?j = unused i" by (simp add: unused_def fun_eq_iff)
  have "ids_issued ?j"
    unfolding ids_issued_def u using issued [OF wf] n by (meson less_le_trans)
  then have "ibc_wf ?j"
    using wf by (simp add: ibc_wf_def handshakes_apart_def sends_numbered_def fates_exclusive_def connections_numbered_def
      answers_received_def endpoints_named_def)
  moreover have "ledger_grows i ?j"
    using n by (simp add: ledger_defs u)
  ultimately show "ibc_wf ?j \<and> ledger_grows i ?j" ..
qed

text \<open>Replacing the record of an existing channel.\<close>

lemma step_channel:
  assumes c: "om_get (i_channels i) x = Some c" and e: "channel_evolves c c'"
  shows "ibc_step i (i\<lparr>i_channels := om_insert x c' (i_channels i)\<rparr>)"
  unfolding ibc_step_def
proof
  let ?j = "i\<lparr>i_channels := om_insert x c' (i_channels i)\<rparr>"
  assume wf: "ibc_wf i"
  have get: "om_get (i_channels ?j) y = (if y = x then Some c' else om_get (i_channels i) y)" for y by simp
  have u: "unused ?j y = unused i y" for y
    using c by (auto simp: unused_def)
  have n: "next_id ?j = next_id i" by (simp add: next_id_def load_port_info_def fun_eq_iff)
  have "sends_numbered ?j"
    unfolding sends_numbered_def
  proof (intro allI impI)
    fix p ch q
    assume "om_get (i_send ?j) (p, ch, q) \<noteq> None"
    then obtain d where "om_get (i_channels i) (p, ch) = Some d" "q < ci_next_packet d"
      using sent_channel [OF wf] by fastforce
    then show "\<exists>d. om_get (i_channels ?j) (p, ch) = Some d \<and> q < ci_next_packet d"
      using c e by (cases "(p, ch) = x") (auto simp: channel_evolves_def)
  qed
  moreover have "om_get (i_handshakes i) x = None"
    using handshake_apart [OF wf] c by (cases "om_get (i_handshakes i) x") auto
  then have "handshakes_apart ?j"
    using wf by (simp add: ibc_wf_def handshakes_apart_def)
  moreover have "endpoints_named ?j"
    using named [OF wf] sent_named [OF wf] c e by (auto simp: endpoints_named_def channel_evolves_def)
  ultimately have "ibc_wf ?j"
    using wf by (simp add: ibc_wf_def ids_issued_def u n fates_exclusive_def connections_numbered_def
      answers_received_def)
  moreover have "ledger_grows i ?j"
    using c e by (simp add: ledger_defs u n)
  ultimately show "ibc_wf ?j \<and> ledger_grows i ?j" ..
qed

lemma step_send_packet:
  assumes "om_get (i_channels i) (p, c) = Some d" "q < ci_next_packet d" "om_get (i_send i) (p, c, q) = None"
    "src_key pk = (p, c, q)"
  shows "ibc_step i (i\<lparr>i_send := om_insert (p, c, q) pk (i_send i)\<rparr>)"
  using assms by (simp add: ibc_step_def ledger_defs wf_defs)

text \<open>The second handshake step turns a handshake into a channel.\<close>

lemma step_connect:
  assumes h: "om_get (i_handshakes i) x = Some h" "channel_from h c" and c: "ic_endpoint (ci_info c) = \<lparr>ep_port = fst x, ep_channel = snd x\<rparr>"
  shows "ibc_step i (i\<lparr>i_handshakes := om_remove x (i_handshakes i), i_channels := om_insert x c (i_channels i)\<rparr>)"
  unfolding ibc_step_def
proof
  let ?j = "i\<lparr>i_handshakes := om_remove x (i_handshakes i), i_channels := om_insert x c (i_channels i)\<rparr>"
  assume wf: "ibc_wf i"
  note apart = handshake_apart [OF wf]
  have u: "unused ?j = unused i"
    using h(1) by (auto simp: unused_def fun_eq_iff)
  have n: "next_id ?j = next_id i" by (simp add: next_id_def load_port_info_def fun_eq_iff)
  have g: "om_get (i_channels ?j) y = Some d" if "om_get (i_channels i) y = Some d" for y d
    using that apart [OF h(1)] by (cases "y = x") auto
  have "sends_numbered ?j"
    unfolding sends_numbered_def
  proof (intro allI impI)
    fix p ch q
    assume "om_get (i_send ?j) (p, ch, q) \<noteq> None"
    then obtain d where "om_get (i_channels i) (p, ch) = Some d" "q < ci_next_packet d"
      using sent_channel [OF wf] by fastforce
    with g show "\<exists>d. om_get (i_channels ?j) (p, ch) = Some d \<and> q < ci_next_packet d" by blast
  qed
  moreover have "handshakes_apart ?j"
    using wf by (auto simp: ibc_wf_def handshakes_apart_def)
  moreover have "endpoints_named ?j"
    using named [OF wf] sent_named [OF wf] c by (auto simp: endpoints_named_def)
  ultimately have "ibc_wf ?j"
    using wf by (simp add: ibc_wf_def ids_issued_def u n fates_exclusive_def connections_numbered_def
      answers_received_def)
  moreover have "handshakes_evolve i ?j" using h by (auto simp: handshakes_evolve_def)
  moreover have "channels_evolve i ?j"
    unfolding channels_evolve_def using g channel_evolves_refl by blast
  ultimately have "ibc_wf ?j" "ledger_grows i ?j"
    by (simp_all add: ledger_grows_def connections_evolve_def ids_evolve_def answers_fixed_def u n)
  then show "ibc_wf ?j \<and> ledger_grows i ?j" ..
qed

text \<open>
  The handshake of a new channel is recorded after the application behind the port has answered, so
  its step is taken from before the number was given out.
\<close>

lemma step_handshake:
  assumes wf: "ibc_wf j" and g: "ledger_grows i j"
    and k: "next_id i p \<le> k" "k < next_id j p" "unused j (p, chan_name k)"
  shows "ibc_wf (j\<lparr>i_handshakes := om_insert (p, chan_name k) h (i_handshakes j)\<rparr>)
    \<and> ledger_grows i (j\<lparr>i_handshakes := om_insert (p, chan_name k) h (i_handshakes j)\<rparr>)"
proof -
  let ?l = "j\<lparr>i_handshakes := om_insert (p, chan_name k) h (i_handshakes j)\<rparr>"
  have u: "unused ?l y \<longleftrightarrow> y \<noteq> (p, chan_name k) \<and> unused j y" for y by (auto simp: unused_def)
  have n: "next_id ?l = next_id j" by (simp add: next_id_def load_port_info_def fun_eq_iff)
  have "ids_issued ?l"
    unfolding ids_issued_def u n using issued [OF wf] k(2) by blast
  moreover have "handshakes_apart ?l"
    using wf k(3) by (auto simp: ibc_wf_def handshakes_apart_def unused_def)
  ultimately have "ibc_wf ?l"
    using wf by (simp add: ibc_wf_def sends_numbered_def fates_exclusive_def connections_numbered_def
      answers_received_def endpoints_named_def)
  moreover have "ids_evolve i ?l"
    using g k(1) by (auto simp: ledger_grows_def ids_evolve_def u n)
  moreover have "handshakes_evolve i ?l"
    unfolding handshakes_evolve_def
  proof (intro allI impI)
    fix y h'
    assume "om_get (i_handshakes i) y = Some h'"
    then have "om_get (i_handshakes j) y = Some h' \<or> (\<exists>c. om_get (i_channels j) y = Some c \<and> channel_from h' c)"
      using g unfolding ledger_grows_def handshakes_evolve_def by blast
    with k(3) show "om_get (i_handshakes ?l) y = Some h' \<or> (\<exists>c. om_get (i_channels ?l) y = Some c \<and> channel_from h' c)"
      by (cases "y = (p, chan_name k)") (auto simp: unused_def)
  qed
  ultimately have "ibc_wf ?l" "ledger_grows i ?l"
    using g by (simp_all add: ledger_grows_def channels_evolve_def connections_evolve_def answers_fixed_def)
  then show ?thesis ..
qed

lemma step_connection:
  assumes "om_get (i_connections i) x = Some d \<and> cn_chain d' = cn_chain d
      \<and> (cn_counterparty d \<noteq> None \<longrightarrow> cn_counterparty d' \<noteq> None) \<or> x = conn_name (length (i_connections i))"
  shows "ibc_step i (i\<lparr>i_connections := om_insert x d' (i_connections i)\<rparr>)"
  unfolding ibc_step_def
proof
  let ?m = "om_insert x d' (i_connections i)" and ?j = "i\<lparr>i_connections := om_insert x d' (i_connections i)\<rparr>"
  assume wf: "ibc_wf i"
  have u: "unused ?j = unused i" and n: "next_id ?j = next_id i"
    by (simp_all add: unused_def next_id_def load_port_info_def fun_eq_iff)
  have names: "\<exists>k < length (i_connections i). c = conn_name k" if "om_get (i_connections i) c = Some v" for c v
    using wf that by (simp add: ibc_wf_def connections_numbered_def)
  have mono: "connections_evolve i ?j"
    unfolding connections_evolve_def
  proof (intro allI impI)
    fix k c
    assume c: "om_get (i_connections i) k = Some c"
    show "\<exists>c'. om_get (i_connections ?j) k = Some c' \<and> cn_chain c' = cn_chain c
        \<and> (cn_counterparty c \<noteq> None \<longrightarrow> cn_counterparty c' \<noteq> None)"
    proof (cases "k = x")
      case True
      with names [OF c] have "x \<noteq> conn_name (length (i_connections i))" by auto
      with assms c True show ?thesis by simp
    qed (simp add: c)
  qed
  have "\<exists>k < length ?m. c = conn_name k" if "om_get ?m c \<noteq> None" for c
  proof (cases "om_get (i_connections i) x")
    case None
    then have l: "length ?m = Suc (length (i_connections i))" by (rule length_om_insert_fresh)
    from None assms have "x = conn_name (length (i_connections i))" by simp
    with that l names [of c] show ?thesis by (cases "c = x") (auto intro: less_SucI)
  next
    case (Some v)
    have "length (i_connections i) \<le> length ?m" by (rule length_om_insert)
    moreover have "\<exists>w. om_get (i_connections i) c = Some w"
      using that Some by (cases "c = x") auto
    ultimately show ?thesis using names less_le_trans by meson
  qed
  then have "connections_numbered ?j"
    using wf by (simp add: ibc_wf_def connections_numbered_def)
  then have "ibc_wf ?j"
    using wf by (simp add: ibc_wf_def ids_issued_def handshakes_apart_def sends_numbered_def fates_exclusive_def
        answers_received_def endpoints_named_def u n)
  moreover have "ledger_grows i ?j"
    using mono by (simp add: ledger_grows_def channels_evolve_def ids_evolve_def handshakes_evolve_def answers_fixed_def u n)
  ultimately show "ibc_wf ?j \<and> ledger_grows i ?j" ..
qed

section \<open>Operations\<close>

lemma ibc_step_trans: "ibc_step i j \<Longrightarrow> ibc_step j l \<Longrightarrow> ibc_step i l"
  by (rule transpD [OF transp_ibc_step])

lemma record_receive_step: "ok_runs ibc_step (record_receive block packet)"
  by (auto simp: ok_runs_def record_receive_def Let_def ok_iffs om_has_def intro: step_receive)

lemma record_ack_step: "ok_runs ibc_step (record_ack packet ack)"
  by (auto simp: ok_runs_def record_ack_def ok_iffs om_has_def intro: step_ack)

lemma record_timeout_step: "ok_runs ibc_step (record_timeout packet)"
  by (auto simp: ok_runs_def record_timeout_def ok_iffs intro: step_timeout)

lemma checked_inc: "checked_add (n :: u64) 1 = Some m \<Longrightarrow> unat m = Suc (unat n)"
  by (auto dest: checked_add_Some)

lemma new_channel_id_run:
  assumes "new_channel_id block cid port i = (Ok (p, c), j)"
  shows "ibc_step i j \<and> c = chan_name (next_id i port) \<and> next_id j port = Suc (next_id i port)
     \<and> (ibc_wf i \<longrightarrow> unused j (port, c))"
proof -
  from assms obtain n where n: "checked_add (load_port_info port i) 1 = Some n"
      "c = ''channel-'' @ show_word (load_port_info port i)" "j = i\<lparr>i_ports := om_insert port n (i_ports i)\<rparr>"
    by (auto simp: new_channel_id_def ok_iffs)
  have inc: "unat n = Suc (next_id i port)" using checked_inc [OF n(1)] by (simp add: next_id_def)
  have c: "c = chan_name (next_id i port)" by (simp add: n(2) chan_name_def next_id_def show_word_def)
  have "unused i (port, c)" if "ibc_wf i"
    using issued [OF that, of port c] c by auto
  then have "ibc_wf i \<longrightarrow> unused j (port, c)" by (simp add: n(3) unused_def)
  moreover have "next_id j port = Suc (next_id i port)" using inc by (simp add: n(3) next_id_def load_port_info_def)
  moreover have "ibc_step i j" using step_port inc n(3) by simp
  ultimately show ?thesis using c by simp
qed

lemma send_packet_raw_run:
  assumes "send_packet_raw ext port channel data timeout s = (Ok (q, r), s')"
  shows "ibc_step (ch_ibc s) (ch_ibc s')"
proof -
  let ?i = "ch_ibc s" and ?x = "(port, channel)"
  from assms obtain d n pk where d: "om_get (i_channels ?i) ?x = Some d" "checked_add (ci_next_packet d) 1 = Some n"
      and j: "ch_ibc s' = ?i\<lparr>i_send := om_insert (port, channel, ci_next_packet d) pk (i_send ?i),
         i_channels := om_insert ?x (d\<lparr>ci_next_packet := n\<rparr>) (i_channels ?i)\<rparr>"
      and pk: "src_key pk = (ep_port (ic_endpoint (ci_info d)), channel, ci_next_packet d)"
    by (auto simp: send_packet_raw_def src_key_def Let_def ok_iffs in_ibc_def)
  let ?j = "?i\<lparr>i_channels := om_insert ?x (d\<lparr>ci_next_packet := n\<rparr>) (i_channels ?i)\<rparr>"
  have lt: "ci_next_packet d < n" using checked_inc [OF d(2)] by (simp add: word_less_nat_alt)
  have 1: "ibc_step ?i ?j"
    by (rule step_channel [OF d(1)]) (use lt in \<open>simp add: channel_evolves_def\<close>)
  have "ibc_step ?i (ch_ibc s')" unfolding ibc_step_def
  proof
    assume wf: "ibc_wf ?i"
    have "om_get (i_send ?i) (port, channel, ci_next_packet d) = None"
    proof (cases "om_get (i_send ?i) (port, channel, ci_next_packet d)")
      case (Some y)
      from sent_channel [OF wf Some] d(1) show ?thesis by simp
    qed
    then have "ibc_step ?j (?j\<lparr>i_send := om_insert (port, channel, ci_next_packet d) pk (i_send ?j)\<rparr>)"
      using lt pk named [OF wf d(1)] by (intro step_send_packet) auto
    moreover have "?j\<lparr>i_send := om_insert (port, channel, ci_next_packet d) pk (i_send ?j)\<rparr> = ch_ibc s'"
      by (rule ibc_state.equality) (simp_all add: j)
    ultimately have "ibc_step ?j (ch_ibc s')" by simp
    with 1 have "ibc_step ?i (ch_ibc s')" by (rule ibc_step_trans)
    with wf show "ibc_wf (ch_ibc s') \<and> ledger_grows ?i (ch_ibc s')" by (simp add: ibc_step_def)
  qed
  then show ?thesis .
qed

lemma create_connection_run:
  assumes "create_connection remote cid counterparty s = (Ok r, s')"
  shows "ibc_step (ch_ibc s) (ch_ibc s')"
  using assms
  by (cases cid; cases counterparty)
    (auto simp: create_connection_def Let_def ok_iffs in_ibc_def conn_name_def intro!: step_connection)

section \<open>The module on the chain\<close>

definition ledger_rel :: "chain \<Rightarrow> chain \<Rightarrow> bool" where
  "ledger_rel s t \<longleftrightarrow> ibc_step (ch_ibc s) (ch_ibc t)"

lemma ledger_rel_order [ok_intro]: "reflp ledger_rel" "transp ledger_rel"
  by (auto simp: reflp_def transp_def ledger_rel_def reflpD [OF reflp_ibc_step] intro: ibc_step_trans)

lemma ledger_rel_trans: "ledger_rel s t \<Longrightarrow> ledger_rel t u \<Longrightarrow> ledger_rel s u"
  using ledger_rel_order(2) by (rule transpD)

lemma ledger_in_ibc: "ok_runs ibc_step m \<Longrightarrow> ok_runs ledger_rel (in_ibc m)"
  unfolding in_ibc_def by (erule ok_runs_zoom) (simp add: ledger_rel_def)

lemma ledger_send [ok_intro]: "ok_runs ledger_rel (send_packet_raw ext port channel data timeout)"
  by (auto simp: ok_runs_def ledger_rel_def dest: send_packet_raw_run)

lemma ledger_create [ok_intro]: "ok_runs ledger_rel (create_connection remote cid counterparty)"
  by (auto simp: ok_runs_def ledger_rel_def dest: create_connection_run)

lemmas ledger_records [ok_intro] = record_receive_step [THEN ledger_in_ibc] record_ack_step [THEN ledger_in_ibc]
  record_timeout_step [THEN ledger_in_ibc]

lemma record_close_step: "ok_runs ibc_step (record_close port channel)"
  by (auto simp: ok_runs_def record_close_def Let_def ok_iffs channel_evolves_def intro!: step_channel)

lemma record_connect_step: "ok_runs ibc_step (record_connect port channel remote version)"
proof -
  have pure: "all_runs (=) (connect_request h c version)" for h and c :: ibc_channel
    by (auto simp: connect_request_def intro!: runs_intro)
  show ?thesis
    by (auto simp: ok_runs_def record_connect_def Let_def ok_iffs channel_from_def
        dest!: all_runs_eqD [OF pure] intro!: step_connect)
qed

lemmas ledger_calls [ok_intro] = router_okD [where R = ledger_rel]

lemmas ledger_channels [ok_intro] = record_close_step [THEN ledger_in_ibc] record_connect_step [THEN ledger_in_ibc]

lemma ledger_close [ok_intro]:
  "router_ok ledger_rel rt \<Longrightarrow> ok_runs ledger_rel (close_channel rt block port channel init)"
  unfolding close_channel_def by (cases init; simp only: Let_def if_True if_False prod.case; intro ok_intro)

lemma ledger_connect [ok_intro]:
  "router_ok ledger_rel rt \<Longrightarrow> ok_runs ledger_rel (connect_channel rt block port channel remote version)"
  unfolding connect_channel_def by (intro ok_intro)

lemma open_response_Ok:
  "(case z of RespOpen v \<Rightarrow> f v | RespBasic es \<Rightarrow> panic p | RespReceive es a \<Rightarrow> panic p) s = (Ok r, s') \<longleftrightarrow>
     (\<exists>v. z = RespOpen v \<and> f v s = (Ok r, s'))"
  by (cases z) auto

lemma receive_response_Ok:
  "(case z of RespReceive es a \<Rightarrow> f es a | RespOpen v \<Rightarrow> panic p | RespBasic es \<Rightarrow> panic p) s = (Ok r, s') \<longleftrightarrow>
     (\<exists>es a. z = RespReceive es a \<and> f es a s = (Ok r, s'))"
  by (cases z) auto

lemma ledger_open [ok_intro]:
  assumes "router_ok ledger_rel rt"
  shows "ok_runs ledger_rel (open_channel rt block cid port version order remote remote_version)"
  unfolding ok_runs_def
proof (intro allI impI)
  fix s r s'
  assume "open_channel rt block cid port version order remote remote_version s = (Ok r, s')"
  then obtain p c s1 m msg z s2 h where
      call: "r_ibc rt block m msg s1 = (Ok z, s2)" and
      new: "new_channel_id block cid port (ch_ibc s) = (Ok (p, c), ch_ibc s1)" and
      hs: "ch_ibc s' = (ch_ibc s2)\<lparr>i_handshakes := om_insert (port, c) h (i_handshakes (ch_ibc s2))\<rparr>"
    by (cases remote_version)
      (auto simp: open_channel_def record_handshake_def Let_def ok_iffs in_ibc_def open_response_Ok)
  note n = new_channel_id_run [OF new]
  have call_step: "ibc_step (ch_ibc s1) (ch_ibc s2)"
    using ok_runsD [OF router_okD(3) [OF assms] call] by (simp add: ledger_rel_def)
  show "ledger_rel s s'"
    unfolding ledger_rel_def ibc_step_def
  proof
    assume wf: "ibc_wf (ch_ibc s)"
    then have 1: "ibc_wf (ch_ibc s1)" "ledger_grows (ch_ibc s) (ch_ibc s1)" "unused (ch_ibc s1) (port, c)"
      using n by (auto simp: ibc_step_def)
    then have 2: "ibc_wf (ch_ibc s2)" "ledger_grows (ch_ibc s1) (ch_ibc s2)"
      using call_step by (auto simp: ibc_step_def)
    let ?k = "next_id (ch_ibc s) port"
    have k: "c = chan_name ?k" "?k < next_id (ch_ibc s1) port" using n by simp_all
    then have "unused (ch_ibc s2) (port, chan_name ?k)" "?k < next_id (ch_ibc s2) port"
      using 1(3) 2(2) by (auto simp: ledger_grows_def ids_evolve_def intro: less_le_trans)
    with step_handshake [OF 2(1) ledger_grows_trans [OF 1(2) 2(2)] le_refl]
    show "ibc_wf (ch_ibc s') \<and> ledger_grows (ch_ibc s) (ch_ibc s')"
      by (simp add: hs k(1))
  qed
qed

lemma receive_packet_run:
  assumes "router_ok ledger_rel rt" "ibc_wf (ch_ibc s)" "receive_packet ext rt block p s = (Ok r, s')"
  shows "ibc_wf (ch_ibc s')" "ledger_grows (ch_ibc s) (ch_ibc s')"
    "om_get (i_receive (ch_ibc s')) (dest_key p) = Some \<lparr>pr_data = p, pr_timeout = timed_out block (pk_timeout p)\<rparr>"
    "\<exists>c. om_get (i_channels (ch_ibc s)) (ep_port (pk_dest p), ep_channel (pk_dest p)) = Some c"
proof -
  let ?x = "dest_key p" and ?i = "ch_ibc s" and ?late = "timed_out block (pk_timeout p)"
  let ?j = "?i\<lparr>i_receive := om_insert ?x \<lparr>pr_data = p, pr_timeout = ?late\<rparr> (i_receive ?i)\<rparr>"
  let ?s1 = "s\<lparr>ch_ibc := ?j\<rparr>"
  have fresh: "om_get (i_receive ?i) ?x = None"
    and channel: "\<exists>c. om_get (i_channels ?i) (ep_port (pk_dest p), ep_channel (pk_dest p)) = Some c"
    using assms(3) by (auto simp: receive_packet_def record_receive_def ok_iffs in_ibc_def om_has_def Let_def)
  obtain c where rec: "in_ibc (record_receive block p) s = (Ok (c, ?late), ?s1)"
    using channel fresh
    by (auto simp: in_ibc_def zoom_def record_receive_def bindM_def load_def thenM_def guard_def om_has_def Let_def
        reads_def modifies_def ret_def of_option_def)
  have wf1: "ibc_wf ?j" "ledger_grows ?i ?j"
    using step_receive [OF fresh] assms(2) by (simp_all add: ibc_step_def)
  have "om_get (i_receive_ack ?i) ?x = None"
    using assms(2) fresh by (simp add: ibc_wf_def answers_receivedD)
  then have unanswered: "om_get (i_receive_ack ?j) ?x = None" by simp
  have *: "ibc_wf (ch_ibc s') \<and> ledger_grows ?i (ch_ibc s') \<and> keeps (i_receive ?j) (i_receive (ch_ibc s'))"
  proof (cases ?late)
    case True
    have "ok_runs ledger_rel
        (bindM (if ic_order (ci_info c) = Ordered
             then atomically (r_sudo rt block (SudoIbc (RCloseChannel (ep_port (pk_dest p)) (ep_channel (pk_dest p)) True)))
             else ret default_response) (\<lambda>res. ret (f res)))" for f :: "app_response \<Rightarrow> app_response"
      by (intro ok_intro assms(1))
    from ok_runsD [OF this] have "ledger_rel ?s1 s'"
      using assms(3) True
      by (simp add: receive_packet_def bindM_eq [where m = "in_ibc (record_receive block p)", OF rec])
    then have "ibc_wf (ch_ibc s')" "ledger_grows ?j (ch_ibc s')"
      using wf1 by (simp_all add: ledger_rel_def ibc_step_def)
    then show ?thesis using wf1(2) by (auto simp: ledger_grows_def [of ?j] intro: ledger_grows_trans)
  next
    case False
    with assms(3) [unfolded receive_packet_def bindM_eq [where m = "in_ibc (record_receive block p)", OF rec]]
    obtain port res s2 where call: "atomically (r_ibc rt block (module_of_port port)
          (PacketReceive \<lparr>prm_packet = p, prm_relayer = RELAYER_ADDR\<rparr>)) ?s1 = (Ok res, s2)"
        and s': "\<exists>ack. ch_ibc s' = (ch_ibc s2)\<lparr>i_receive_ack := om_insert ?x ack (i_receive_ack (ch_ibc s2))\<rparr>"
      by (fastforce simp: bindM_Ok_iff receive_response_Ok thenM_Ok_iff in_ibc_def zoom_Ok_iff)
    have "ok_runs ledger_rel (atomically (r_ibc rt block (module_of_port port)
          (PacketReceive \<lparr>prm_packet = p, prm_relayer = RELAYER_ADDR\<rparr>)))"
      by (intro ok_intro assms(1))
    from ok_runsD [OF this call] have 2: "ibc_wf (ch_ibc s2)" "ledger_grows ?j (ch_ibc s2)"
      using wf1 by (simp_all add: ledger_rel_def ibc_step_def)
    have rj: "om_get (i_receive ?j) ?x = Some \<lparr>pr_data = p, pr_timeout = ?late\<rparr>" by simp
    have k: "keeps (i_receive ?j) (i_receive (ch_ibc s2))" "answers_fixed ?j (ch_ibc s2)"
      using 2(2) by (simp_all add: ledger_grows_def)
    from k(1) keepsD [OF k(1) rj] answers_fixedD [OF k(2) rj] unanswered
    have "om_get (i_receive (ch_ibc s2)) ?x = Some \<lparr>pr_data = p, pr_timeout = ?late\<rparr>"
        "om_get (i_receive_ack (ch_ibc s2)) ?x = None" "keeps (i_receive ?j) (i_receive (ch_ibc s2))"
      by simp_all
    with step_answer [OF 2(1) ledger_grows_trans [OF wf1(2) 2(2)] fresh] False s' show ?thesis by auto
  qed
  then show "ibc_wf (ch_ibc s')" "ledger_grows ?i (ch_ibc s')" by simp_all
  show "om_get (i_receive (ch_ibc s')) ?x = Some \<lparr>pr_data = p, pr_timeout = ?late\<rparr>"
    by (rule keepsD [OF conjunct2 [OF conjunct2 [OF *]]]) simp
qed (use assms(3) in \<open>auto simp: receive_packet_def record_receive_def ok_iffs in_ibc_def\<close>)

lemma ledger_receive [ok_intro]:
  assumes "router_ok ledger_rel rt"
  shows "ok_runs ledger_rel (receive_packet ext rt block p)"
  unfolding ok_runs_def
proof (intro allI impI)
  fix s r s'
  assume "receive_packet ext rt block p s = (Ok r, s')"
  from receive_packet_run(1,2) [OF assms _ this] show "ledger_rel s s'" by (simp add: ledger_rel_def ibc_step_def)
qed

lemma ledger_packets [ok_intro]:
  assumes "router_ok ledger_rel rt"
  shows "ok_runs ledger_rel (acknowledge_packet ext rt block packet ack)"
    "ok_runs ledger_rel (timeout_packet ext rt block packet)"
  unfolding acknowledge_packet_def timeout_packet_def Let_def by (intro ok_intro assms)+

lemma ledger_ibc:
  assumes "router_ok ledger_rel rt"
  shows "ok_runs ledger_rel (ibc_execute ext rt block a m)" "ok_runs ledger_rel (ibc_sudo ext rt block u)"
  by (cases m; simp only: ibc_execute_def transfer_def send_packet_def ibc_msg.case; intro ok_intro assms)
    (cases u; simp only: ibc_sudo_def send_packet_def relaying_msg.case; intro ok_intro assms)

text \<open>No other module writes to the storage of the IBC module.\<close>

lemma ledger_elsewhere [simp]:
  "ok_runs ledger_rel (in_bank m)" "ok_runs ledger_rel (in_staking k)"
  "all_runs ledger_rel (in_bank m)"
  by (auto simp: ok_runs_def all_runs_def in_defs zoom_def ledger_rel_def reflpD [OF reflp_ibc_step] split: prod.splits)

interpretation ledger: block_steps ext wk ledger_rel for ext wk
proof
  show "reflp ledger_rel" "transp ledger_rel" by (rule ledger_rel_order)+
qed (auto simp: ledger_rel_def put_contract_storage_def reflpD [OF reflp_ibc_step] ledger_ibc)

interpretation ledger_history: app_history ext E "\<lambda>_. True" "\<lambda>_. ledger_rel" for ext E
  by unfold_locales (auto simp: ledger_rel_def reflpD [OF reflp_ibc_step])

end
