(* ===== verification/Chain_Facts.thy ===== *)
theory Chain_Facts
  imports Ibc_Ledger
begin

text \<open>
  Four more relations that every run keeps, each an instance of the locales of \<open>Chain_Steps\<close>: the
  identity of a contract instance is fixed at its instantiation, its code is in the code registry, the
  balances stay well formed, and (for messages, not for the end of a block) so does the bookkeeping of
  the stakers.
\<close>

text \<open>A relation that ignores the storage of the IBC module is kept by that module.\<close>

lemma ibc_free:
  assumes "reflp R" "transp R" "\<And>s i. R s (s\<lparr>ch_ibc := i\<rparr>)" "router_keeps M R rt" "\<And>im. M (SudoIbc im)"
  shows "ok_runs R (ibc_execute ext rt block a m)" "ok_runs R (ibc_sudo ext rt block u)"
proof -
  note assms = assms router_keepsD [OF assms(4)]
  have free: "ok_runs R (in_ibc f)" for f :: "(ibc_state, std_error, 'b) proc"
    using assms(3) by (auto simp: ok_runs_def in_ibc_def zoom_Ok_iff)
  have send: "ok_runs R (send_packet_raw ext p c d t)" for p c d t
    unfolding send_packet_raw_def by (rule free)
  have close: "ok_runs R (close_channel rt block p c i)" for p c i
    unfolding close_channel_def by (cases i; simp only: Let_def if_True if_False prod.case; intro ok_intro free assms)
  show "ok_runs R (ibc_execute ext rt block a m)"
    by (cases m; simp only: ibc_execute_def transfer_def send_packet_def ibc_msg.case; intro ok_intro send close assms)
  show "ok_runs R (ibc_sudo ext rt block u)"
    by (cases u; simp only: ibc_sudo_def send_packet_def relaying_msg.case create_connection_def open_channel_def
        connect_channel_def receive_packet_def acknowledge_packet_def timeout_packet_def Let_def;
        intro ok_intro send close free assms)
qed

section \<open>Contract instances\<close>

definition same_instance :: "contract_data \<Rightarrow> contract_data \<Rightarrow> bool" where
  "same_instance c c' \<longleftrightarrow> cd_creator c' = cd_creator c \<and> cd_label c' = cd_label c \<and> cd_created c' = cd_created c"

definition instances_rel :: "chain \<Rightarrow> chain \<Rightarrow> bool" where
  "instances_rel s t \<longleftrightarrow> (\<forall>a c. om_get (w_contracts (ch_wasm s)) a = Some c \<longrightarrow>
     (\<exists>c'. om_get (w_contracts (ch_wasm t)) a = Some c' \<and> same_instance c c'))"

lemma instances_order: "reflp instances_rel" "transp instances_rel"
  by (simp add: reflp_def instances_rel_def same_instance_def)
    (unfold transp_def instances_rel_def same_instance_def, metis)

lemma instances_elsewhere [simp]:
  "ok_runs instances_rel (in_bank m)" "ok_runs instances_rel (in_staking k)" "all_runs instances_rel (in_bank m)"
  by (auto simp: ok_runs_def all_runs_def in_defs zoom_def instances_rel_def same_instance_def split: prod.splits)

interpretation instances: block_steps ext wk instances_rel for ext wk
proof
  show "reflp instances_rel" "transp instances_rel" by (rule instances_order)+
  show "ok_runs instances_rel (ibc_execute ext rt b a im)" if "router_ok instances_rel rt" for rt b a im
    by (rule ibc_free(1) [OF instances_order _ that]) (simp_all add: instances_rel_def same_instance_def)
  show "ok_runs instances_rel (ibc_sudo ext rt b ir)" if "router_ok instances_rel rt" for rt b ir
    by (rule ibc_free(2) [OF instances_order _ that]) (simp_all add: instances_rel_def same_instance_def)
  show "instances_rel s (put_contract_storage a m t)" if "om_get (w_contracts (ch_wasm s)) a = None" and
      "instances_rel (s\<lparr>ch_wasm := (ch_wasm s)\<lparr>w_contracts := om_insert a c' (w_contracts (ch_wasm s))\<rparr>\<rparr>) t" for s a c' t m
    unfolding instances_rel_def
  proof (intro allI impI)
    fix b c
    assume c: "om_get (w_contracts (ch_wasm s)) b = Some c"
    with that(1) have "b \<noteq> a" by auto
    with that(2) c show "\<exists>c'. om_get (w_contracts (ch_wasm (put_contract_storage a m t))) b = Some c' \<and> same_instance c c'"
      by (auto simp: instances_rel_def)
  qed
qed (auto simp: instances_rel_def same_instance_def put_contract_storage_def)

interpretation instances_history: app_history ext E "\<lambda>_. True" "\<lambda>_. instances_rel" for ext E
  by unfold_locales (auto simp: instances_rel_def same_instance_def)

section \<open>Balances\<close>

definition balances_rel :: "ext \<Rightarrow> chain \<Rightarrow> chain \<Rightarrow> bool" where
  "balances_rel ext s t \<longleftrightarrow> (nb_laws ext \<longrightarrow> bank_wf (ch_bank s) \<longrightarrow> bank_wf (ch_bank t))"

lemma balances_order: "reflp (balances_rel ext)" "transp (balances_rel ext)"
  by (auto simp: reflp_def transp_def balances_rel_def)

lemma balances_all:
  "all_runs (balances_rel ext) (in_bank (mint ext a coins))" "all_runs (balances_rel ext) (in_bank (burn ext a coins))"
proof -
  have mint: "bank_wf b" if "nb_laws ext" "bank_wf (ch_bank s)" "mint ext a coins (ch_bank s) = (r, b)" for s :: chain and r b
  proof (cases "is_ok r")
    case True
    then show ?thesis using that mint_Ok(2) by (cases r) auto
  next
    case False
    then show ?thesis using mint_not_Ok [OF that(3)] that(2) by simp
  qed
  then show "all_runs (balances_rel ext) (in_bank (mint ext a coins))"
    by (auto simp: all_runs_def in_bank_def zoom_def balances_rel_def split: prod.splits)
  have burn: "bank_wf b" if "nb_laws ext" "bank_wf (ch_bank s)" "burn ext a coins (ch_bank s) = (r, b)" for s :: chain and r b
  proof (cases "is_ok r")
    case True
    then show ?thesis using that burn_Ok(3) by (cases r) auto
  next
    case False
    then show ?thesis using burn_not_Ok [OF that(3)] that(2) by simp
  qed
  then show "all_runs (balances_rel ext) (in_bank (burn ext a coins))"
    by (auto simp: all_runs_def in_bank_def zoom_def balances_rel_def split: prod.splits)
qed

lemma balances_staking [simp]: "ok_runs (balances_rel ext) (in_staking k)"
  by (auto simp: ok_runs_def in_defs zoom_Ok_iff balances_rel_def)

interpretation balances: block_steps ext wk "balances_rel ext" for ext wk
proof
  show "reflp (balances_rel ext)" "transp (balances_rel ext)" by (rule balances_order)+
  show "ok_runs (balances_rel ext) (ibc_execute ext rt b a im)" if "router_ok (balances_rel ext) rt" for rt b a im
    by (rule ibc_free(1) [OF balances_order _ that]) (simp_all add: balances_rel_def)
  show "ok_runs (balances_rel ext) (ibc_sudo ext rt b ir)" if "router_ok (balances_rel ext) rt" for rt b ir
    by (rule ibc_free(2) [OF balances_order _ that]) (simp_all add: balances_rel_def)
qed (simp_all add: balances_all all_runs_ok balances_rel_def put_contract_storage_def)

interpretation balances_history: app_history ext E "\<lambda>_. True" "\<lambda>_. balances_rel ext" for ext E
  by unfold_locales (simp_all add: balances_rel_def)

section \<open>Stakers\<close>

definition stakers_rel :: "ext \<Rightarrow> chain \<Rightarrow> chain \<Rightarrow> bool" where
  "stakers_rel ext s t \<longleftrightarrow> (dec_laws ext \<longrightarrow> staking_wf (ch_staking s) \<longrightarrow> staking_wf (ch_staking t))"

lemma stakers_order: "reflp (stakers_rel ext)" "transp (stakers_rel ext)"
  by (auto simp: reflp_def transp_def stakers_rel_def)

lemma stakers_in_staking:
  "(\<And>st a st'. dec_laws ext \<Longrightarrow> staking_wf st \<Longrightarrow> m st = (Ok a, st') \<Longrightarrow> staking_wf st') \<Longrightarrow>
   ok_runs (stakers_rel ext) (in_staking m)"
  by (auto simp: ok_runs_def in_staking_def zoom_Ok_iff stakers_rel_def)

lemma stake_change_wf:
  assumes "dec_laws ext" "staking_wf st"
  shows "add_stake ext b a v c st = (Ok x, st') \<Longrightarrow> staking_wf st'"
    and "remove_stake ext b a v c st = (Ok y, st') \<Longrightarrow> staking_wf st'"
proof -
  have "update_stake ext b a v (c_amount c) False st = (Ok x, st')" if "add_stake ext b a v c st = (Ok x, st')"
    using that by (auto simp: add_stake_def validate_denom_def ok_iffs split: if_splits)
  then show "add_stake ext b a v c st = (Ok x, st') \<Longrightarrow> staking_wf st'"
    using update_stake_effect(1) [OF assms] by blast
  have "update_stake ext b a v (c_amount c) True st = (Ok y, st')" if "remove_stake ext b a v c st = (Ok y, st')"
    using that by (auto simp: remove_stake_def validate_denom_def ok_iffs split: if_splits)
  then show "remove_stake ext b a v c st = (Ok y, st') \<Longrightarrow> staking_wf st'"
    using update_stake_effect(1) [OF assms] by blast
qed

lemma staking_wf_queue [simp]: "staking_wf (st\<lparr>st_queue := q\<rparr>) = staking_wf st"
  by (simp add: staking_wf_def validators_wf_def has_stake_def lists_staker_def)

interpretation stakers: chain_steps ext wk "stakers_rel ext" for ext wk
proof
  show "reflp (stakers_rel ext)" "transp (stakers_rel ext)" by (rule stakers_order)+
  show "ok_runs (stakers_rel ext) (in_bank (mint ext a coins))" "ok_runs (stakers_rel ext) (in_bank (burn ext a coins))"
    for a coins by (auto simp: ok_runs_def in_bank_def zoom_Ok_iff stakers_rel_def)
  show "ok_runs (stakers_rel ext) (in_staking (add_stake ext b a v c))" for b a v c
    by (rule stakers_in_staking) (rule stake_change_wf(1))
  show "ok_runs (stakers_rel ext) (in_staking (remove_stake ext b a v c))" for b a v c
    by (rule stakers_in_staking) (rule stake_change_wf(2))
  show "ok_runs (stakers_rel ext) (in_staking (slash ext b v p))" if "p \<le> dec_one" for b v p
    by (rule stakers_in_staking) (rule slash_effect(1) [OF _ _ _ that]; assumption)
  show "ok_runs (stakers_rel ext) (in_staking (remove_rewards ext b a v))" for b a v
    by (rule stakers_in_staking) (rule rewards_only_wf [OF remove_rewards_only]; assumption)
  show "ok_runs (stakers_rel ext) (ibc_execute ext rt b a im)" if "router_ok (stakers_rel ext) rt" for rt b a im
    by (rule ibc_free(1) [OF stakers_order _ that]) (simp_all add: stakers_rel_def)
  show "ok_runs (stakers_rel ext) (ibc_sudo ext rt b ir)" if "router_ok (stakers_rel ext) rt" for rt b ir
    by (rule ibc_free(2) [OF stakers_order _ that]) (simp_all add: stakers_rel_def)
qed (simp_all add: stakers_rel_def put_contract_storage_def)

section \<open>The code of contracts\<close>

text \<open>
  A contract on the chain has code in the keeper and an address one of the keeper's generators made.
  The relation speaks of the new and changed instances only, since an arbitrary chain may hold
  instances that were not made by the keeper.
\<close>

definition codes_rel :: "wasm_keeper \<Rightarrow> chain \<Rightarrow> chain \<Rightarrow> bool" where
  "codes_rel wk s t \<longleftrightarrow> (\<forall>a c'. om_get (w_contracts (ch_wasm t)) a = Some c' \<longrightarrow>
     (code_known wk (cd_code_id c') \<or>
       (\<exists>c. om_get (w_contracts (ch_wasm s)) a = Some c \<and> cd_code_id c = cd_code_id c'))
     \<and> (generated wk a \<or> om_get (w_contracts (ch_wasm s)) a \<noteq> None))"

lemma codes_same: "w_contracts (ch_wasm t) = w_contracts (ch_wasm s) \<Longrightarrow> codes_rel wk s t"
  by (auto simp: codes_rel_def)

lemma codes_order: "reflp (codes_rel wk)" "transp (codes_rel wk)"
proof -
  show "reflp (codes_rel wk)" by (simp add: reflp_def codes_same)
  show "transp (codes_rel wk)"
    unfolding transp_def
  proof (intro allI impI)
    fix s t u
    assume st: "codes_rel wk s t" and tu: "codes_rel wk t u"
    show "codes_rel wk s u"
      unfolding codes_rel_def
    proof (intro allI impI)
      fix a c
      assume "om_get (w_contracts (ch_wasm u)) a = Some c"
      with tu have u: "code_known wk (cd_code_id c) \<or>
          (\<exists>d. om_get (w_contracts (ch_wasm t)) a = Some d \<and> cd_code_id d = cd_code_id c)"
        and g: "generated wk a \<or> om_get (w_contracts (ch_wasm t)) a \<noteq> None"
        by (auto simp: codes_rel_def)
      from st have t: "code_known wk (cd_code_id d) \<or>
          (\<exists>e. om_get (w_contracts (ch_wasm s)) a = Some e \<and> cd_code_id e = cd_code_id d)"
        and g': "generated wk a \<or> om_get (w_contracts (ch_wasm s)) a \<noteq> None"
        if "om_get (w_contracts (ch_wasm t)) a = Some d" for d
        using that by (auto simp: codes_rel_def)
      have "code_known wk (cd_code_id c) \<or>
          (\<exists>e. om_get (w_contracts (ch_wasm s)) a = Some e \<and> cd_code_id e = cd_code_id c)"
        using u t by fastforce
      moreover have "generated wk a \<or> om_get (w_contracts (ch_wasm s)) a \<noteq> None"
        using g g' by blast
      ultimately show "(code_known wk (cd_code_id c) \<or>
          (\<exists>e. om_get (w_contracts (ch_wasm s)) a = Some e \<and> cd_code_id e = cd_code_id c))
        \<and> (generated wk a \<or> om_get (w_contracts (ch_wasm s)) a \<noteq> None)" ..
    qed
  qed
qed

lemma codes_elsewhere [simp]:
  "ok_runs (codes_rel wk) (in_bank m)" "ok_runs (codes_rel wk) (in_staking k)" "all_runs (codes_rel wk) (in_bank m)"
  by (auto simp: ok_runs_def all_runs_def in_defs zoom_def codes_same split: prod.splits)

interpretation codes: block_steps ext wk "codes_rel wk" for ext wk
proof
  show "reflp (codes_rel wk)" "transp (codes_rel wk)" by (rule codes_order)+
  show "ok_runs (codes_rel wk) (ibc_execute ext rt b a im)" if "router_ok (codes_rel wk) rt" for rt b a im
    by (rule ibc_free(1) [OF codes_order _ that]) (simp_all add: codes_same)
  show "ok_runs (codes_rel wk) (ibc_sudo ext rt b ir)" if "router_ok (codes_rel wk) rt" for rt b ir
    by (rule ibc_free(2) [OF codes_order _ that]) (simp_all add: codes_same)
  show "codes_rel wk s (put_contract_storage a m t)" if "om_get (w_contracts (ch_wasm s)) a = None" "generated wk a" and
      r: "codes_rel wk (s\<lparr>ch_wasm := (ch_wasm s)\<lparr>w_contracts := om_insert a c' (w_contracts (ch_wasm s))\<rparr>\<rparr>) t" and
      "om_get (w_contracts (ch_wasm t)) a = Some c3" and "code_at wk (cd_code_id c3) = Some code" for s a c' t c3 m code
    unfolding codes_rel_def
  proof (intro allI impI)
    fix b c
    assume "om_get (w_contracts (ch_wasm (put_contract_storage a m t))) b = Some c"
    then have "om_get (w_contracts (ch_wasm t)) b = Some c" by simp
    with that code_at_known [OF that(5)] r [unfolded codes_rel_def, rule_format, of b c] show "(code_known wk (cd_code_id c) \<or>
        (\<exists>e. om_get (w_contracts (ch_wasm s)) b = Some e \<and> cd_code_id e = cd_code_id c))
      \<and> (generated wk b \<or> om_get (w_contracts (ch_wasm s)) b \<noteq> None)"
      by (cases "b = a") simp_all
  qed
  show "codes_rel wk s (s\<lparr>ch_wasm := (ch_wasm s)\<lparr>w_contracts := om_insert a c2 (w_contracts (ch_wasm s))\<rparr>\<rparr>)"
    if "om_get (w_contracts (ch_wasm s)) a = Some c1" "cd_code_id c2 = cd_code_id c1 \<or> code_known wk (cd_code_id c2)"
    for s a c1 c2
    using that by (auto simp: codes_rel_def)
qed (simp_all add: codes_same put_contract_storage_def)

interpretation codes_history: app_history ext E "\<lambda>_. True" codes_rel for ext E
proof
  show "codes_rel wk' s t" if "codes_rel wk s t" "keeper_grows wk wk'" for wk wk' s t
    using that unfolding codes_rel_def keeper_grows_generated [OF that(2)] keeper_grows_def by metis
qed (unfold_locales, simp_all add: codes_same)

definition contracts_typed :: "app \<Rightarrow> bool" where
  "contracts_typed a \<longleftrightarrow> keeper_wf (md_wasm (ap_modules a)) \<and>
     (\<forall>address c. om_get (w_contracts (ch_wasm (ap_chain a))) address = Some c \<longrightarrow>
        code_known (md_wasm (ap_modules a)) (cd_code_id c) \<and> generated (md_wasm (ap_modules a)) address)"

lemma contracts_typed_kept: "(app_step ext E)\<^sup>*\<^sup>* a a' \<Longrightarrow> contracts_typed a \<Longrightarrow> contracts_typed a'"
  using codes_history.app_steps_rel [OF _ TrueI, of ext E a a'] keeper_grows_generated
  unfolding contracts_typed_def codes_rel_def keeper_grows_def by (metis not_None_eq)

lemma contracts_typed_code:
  assumes "contracts_typed a" "om_get (w_contracts (ch_wasm (ap_chain a))) address = Some c"
  shows "generated (md_wasm (ap_modules a)) address"
    "\<exists>code. contract_code (md_wasm (ap_modules a)) (cd_code_id c) (ap_chain a) = (Ok code, ap_chain a)"
proof -
  from assms obtain d where d: "keeper_wf (md_wasm (ap_modules a))" "generated (md_wasm (ap_modules a)) address"
      "om_get (wk_code_data (md_wasm (ap_modules a))) (cd_code_id c) = Some d"
    by (auto simp: contracts_typed_def code_known_iff)
  from contract_code_eq [OF d(1,3), of "ap_chain a"] d(2) show "generated (md_wasm (ap_modules a)) address"
    "\<exists>code. contract_code (md_wasm (ap_modules a)) (cd_code_id c) (ap_chain a) = (Ok code, ap_chain a)" by auto
qed

end
