(* ===== verification/Relayer.thy ===== *)
theory Relayer
  imports App
begin

text \<open>
  The relayer between two applications (\<open>src/ibc/relayer\<close>): it opens connections and channels and
  carries packets from the chain they were sent on to the other one, and their acknowledgements or
  timeouts back. Its state is the pair of applications, the sending one first; each step is a
  transaction on one of them, so an error leaves the steps before it in place on both chains.
\<close>

type_synonym 'a relay_proc = "(app \<times> app, std_error, 'a) proc"

definition on_src :: "'a app_proc \<Rightarrow> 'a relay_proc" where
  "on_src = zoom fst (\<lambda>a p. (a, snd p))"

definition on_dst :: "'a app_proc \<Rightarrow> 'a relay_proc" where
  "on_dst = zoom snd (\<lambda>a p. (fst p, a))"

section \<open>Reading events\<close>

definition event_attrs :: "app_response \<Rightarrow> string \<Rightarrow> string \<Rightarrow> attribute list" where
  "event_attrs response ty key = concat (map (\<lambda>e. filter (\<lambda>at. a_key at = key) (ev_attributes e))
     (filter (\<lambda>e. ev_ty e = ty) (ar_events response)))"

definition get_event_attr_value :: "app_response \<Rightarrow> string \<Rightarrow> string \<Rightarrow> string std_result" where
  "get_event_attr_value response event_type attr_key = (case event_attrs response event_type attr_key of
      at # _ \<Rightarrow> Inr (a_value at)
    | [] \<Rightarrow> Inl (StdMsg (''event of type '' @ event_type @ '' does not have a value at key '' @ attr_key)))"

definition has_event_type :: "app_response \<Rightarrow> string \<Rightarrow> bool" where
  "has_event_type response event_type = list_ex (\<lambda>e. ev_ty e = event_type) (ar_events response)"

definition get_all_event_attr_value :: "app_response \<Rightarrow> string \<Rightarrow> string \<Rightarrow> string list" where
  "get_all_event_attr_value response event key = map a_value (event_attrs response event key)"

section \<open>Connections and channels\<close>

definition sudo_ibc :: "ext \<Rightarrow> nat \<Rightarrow> relaying_msg \<Rightarrow> app_response app_proc" where
  "sudo_ibc ext n msg = app_sudo ext n (SudoIbc msg)"

definition relay_connection :: "ext \<Rightarrow> nat \<Rightarrow> (string \<times> string) relay_proc" where
  "relay_connection ext n =
     bindM (on_dst (reads app_block_info)) (\<lambda>dst_block.
     bindM (on_src (reads app_block_info)) (\<lambda>src_block.
     bindM (on_src (sudo_ibc ext n (RCreateConnection (bl_chain_id dst_block) None None))) (\<lambda>src_response.
     bindM (lift_result (get_event_attr_value src_response ''connection_open'' ''connection_id'')) (\<lambda>src_connection.
     bindM (on_dst (sudo_ibc ext n (RCreateConnection (bl_chain_id src_block) None (Some src_connection))))
       (\<lambda>dst_response.
     bindM (lift_result (get_event_attr_value dst_response ''connection_open'' ''connection_id'')) (\<lambda>dst_connection.
     thenM (on_src (sudo_ibc ext n (RCreateConnection (bl_chain_id dst_block) (Some src_connection) (Some dst_connection))))
       (ret (src_connection, dst_connection))))))))"

record channel_creation =
  cr_init :: app_response
  cr_try :: app_response
  cr_ack :: app_response
  cr_confirm :: app_response
  cr_src_channel :: string
  cr_dst_channel :: string

text \<open>The steps of \<open>create_channel\<close>: init on the source, try on the destination, then ack and confirm.\<close>

definition relay_channel_init ::
    "ext \<Rightarrow> nat \<Rightarrow> string \<Rightarrow> string \<Rightarrow> string \<Rightarrow> string \<Rightarrow> ibc_order \<Rightarrow> (app_response \<times> string \<times> string) relay_proc" where
  "relay_channel_init ext n src_connection src_port dst_port version order =
     bindM (on_src (sudo_ibc ext n (ROpenChannel src_connection src_port version order None
         \<lparr>ep_port = dst_port, ep_channel = ''''\<rparr>))) (\<lambda>init.
     bindM (lift_result (get_event_attr_value init ''channel_open_init'' ''version'')) (\<lambda>new_version.
     bindM (lift_result (get_event_attr_value init ''channel_open_init'' ''channel_id'')) (\<lambda>src_channel.
       ret (init, new_version, src_channel))))"

definition relay_channel_try ::
    "ext \<Rightarrow> nat \<Rightarrow> string \<Rightarrow> string \<Rightarrow> string \<Rightarrow> string \<Rightarrow> ibc_order \<Rightarrow> string \<Rightarrow> string
       \<Rightarrow> (app_response \<times> string \<times> string) relay_proc" where
  "relay_channel_try ext n src_connection src_port dst_port version order new_version src_channel =
     bindM (on_src (app_ibc_query ext (QConnectedChain src_connection))) (\<lambda>b.
     bindM (lift_result (x_parse_connection ext b)) (\<lambda>counterparty.
     bindM (or_panic ''called Option::unwrap() on a None value'' (cn_counterparty counterparty)) (\<lambda>dst_connection.
     bindM (on_dst (sudo_ibc ext n (ROpenChannel dst_connection dst_port version order (Some new_version)
         \<lparr>ep_port = src_port, ep_channel = src_channel\<rparr>))) (\<lambda>try_response.
     bindM (lift_result (get_event_attr_value try_response ''channel_open_try'' ''version'')) (\<lambda>new_version'.
     bindM (lift_result (get_event_attr_value try_response ''channel_open_try'' ''channel_id'')) (\<lambda>dst_channel.
       ret (try_response, new_version', dst_channel)))))))"

definition create_channel ::
    "ext \<Rightarrow> nat \<Rightarrow> string \<Rightarrow> string \<Rightarrow> string \<Rightarrow> string \<Rightarrow> ibc_order \<Rightarrow> channel_creation relay_proc" where
  "create_channel ext n src_connection src_port dst_port version order =
     bindM (relay_channel_init ext n src_connection src_port dst_port version order) (\<lambda>(init, v1, src_channel).
     bindM (relay_channel_try ext n src_connection src_port dst_port version order v1 src_channel)
       (\<lambda>(try_response, v2, dst_channel).
     bindM (on_src (sudo_ibc ext n (RConnectChannel src_port src_channel (Some v2)
         \<lparr>ep_port = dst_port, ep_channel = dst_channel\<rparr>))) (\<lambda>ack.
     bindM (on_dst (sudo_ibc ext n (RConnectChannel dst_port dst_channel (Some v2)
         \<lparr>ep_port = src_port, ep_channel = src_channel\<rparr>))) (\<lambda>confirm.
       ret \<lparr>cr_init = init, cr_try = try_response, cr_ack = ack, cr_confirm = confirm,
         cr_src_channel = src_channel, cr_dst_channel = dst_channel\<rparr>))))"

section \<open>Packets\<close>

datatype relaying_result =
    RelayTimeout app_response "app_response option"
  | RelayAck app_response binary

record relay_result =
  rr_receive :: app_response
  rr_result :: relaying_result

definition relay_timeout ::
    "ext \<Rightarrow> nat \<Rightarrow> string \<Rightarrow> string \<Rightarrow> ibc_packet \<Rightarrow> app_response \<Rightarrow> relay_result relay_proc" where
  "relay_timeout ext n src_port src_channel packet receive_response =
     bindM (on_src (sudo_ibc ext n (RTimeout packet))) (\<lambda>timeout_response.
     bindM (if has_event_type receive_response ''channel_close_init''
         then mapM_ok Some (on_src (sudo_ibc ext n (RCloseChannel src_port src_channel False)))
         else ret None) (\<lambda>close.
       ret \<lparr>rr_receive = receive_response, rr_result = RelayTimeout timeout_response close\<rparr>))"

definition relay_ack :: "ext \<Rightarrow> nat \<Rightarrow> ibc_packet \<Rightarrow> app_response \<Rightarrow> relay_result relay_proc" where
  "relay_ack ext n packet receive_response =
     (case get_event_attr_value receive_response ''write_acknowledgement'' ''packet_ack_hex'' of
        Inr hex_ack \<Rightarrow>
          bindM (lift_result (x_unhex ext hex_ack)) (\<lambda>ack.
          bindM (on_src (sudo_ibc ext n (RAcknowledge packet ack))) (\<lambda>ack_response.
            ret \<lparr>rr_receive = receive_response, rr_result = RelayAck ack_response ack\<rparr>))
      | Inl _ \<Rightarrow> panic ''No ack is not handled in cw-multi-test right now'')"

definition relay_packet :: "ext \<Rightarrow> nat \<Rightarrow> string \<Rightarrow> string \<Rightarrow> u64 \<Rightarrow> relay_result relay_proc" where
  "relay_packet ext n src_port src_channel seq =
     bindM (on_src (app_ibc_query ext (QSendPacket src_channel src_port seq))) (\<lambda>b.
     bindM (lift_result (x_parse_packet ext b)) (\<lambda>packet.
     bindM (on_dst (sudo_ibc ext n (RReceive packet))) (\<lambda>receive_response.
       if has_event_type receive_response ''timeout_received_packet''
       then relay_timeout ext n src_port src_channel packet receive_response
       else relay_ack ext n packet receive_response)))"

definition relay_packets_in_tx :: "ext \<Rightarrow> nat \<Rightarrow> app_response \<Rightarrow> relay_result list relay_proc" where
  "relay_packets_in_tx ext n tx =
     (let packets = get_all_event_attr_value tx ''send_packet'' ''packet_sequence'';
          channels = get_all_event_attr_value tx ''send_packet'' ''packet_src_channel'';
          ports = get_all_event_attr_value tx ''send_packet'' ''packet_src_port''
      in collectM (\<lambda>i.
           bindM (or_panic ''index out of bounds'' (if i < length ports then Some (ports ! i) else None)) (\<lambda>port.
           bindM (or_panic ''index out of bounds'' (if i < length channels then Some (channels ! i) else None)) (\<lambda>channel.
           bindM (of_option ParseIntError (parse_word (packets ! i))) (\<lambda>seq.
             relay_packet ext n port channel seq))))
         [0..<length packets])"

end
