(* ===== verification/Ibc_Facts.thy ===== *)
theory Ibc_Facts
  imports Chain_Facts Relayer
begin

text \<open>
  What a successful packet operation leaves in the ledger of theory \<open>Ibc_Ledger\<close>, in whatever way
  the applications behind the ports answer, and what later operations on the same packet find there.
\<close>

section \<open>Entering the IBC module\<close>

lemma ledger_router [simp]: "router_ok ledger_rel (router_at ext md n)"
  by (rule ledger.router_at_ok [OF refl])

text \<open>A handler that first writes to the module's storage and then calls on.\<close>

lemma bind_ledger:
  assumes "bindM (in_ibc m) k s = (Ok r, s')" "\<And>x. ok_runs ledger_rel (k x)" "ok_runs ibc_step m"
    and wf: "ibc_wf (ch_ibc s)"
  obtains x j where "m (ch_ibc s) = (Ok x, j)" "k x (s\<lparr>ch_ibc := j\<rparr>) = (Ok r, s')"
    "ibc_wf j" "ibc_wf (ch_ibc s')" "ledger_grows (ch_ibc s) j" "ledger_grows j (ch_ibc s')"
proof -
  from assms(1) obtain x j where m: "m (ch_ibc s) = (Ok x, j)" and k: "k x (s\<lparr>ch_ibc := j\<rparr>) = (Ok r, s')"
    by (auto simp: bindM_Ok_iff in_ibc_def zoom_Ok_iff)
  have "ibc_step (ch_ibc s) j" using assms(3) m by (rule ok_runsD)
  then have j: "ibc_wf j" "ledger_grows (ch_ibc s) j" using wf by (simp_all add: ibc_step_def)
  have "ledger_rel (s\<lparr>ch_ibc := j\<rparr>) s'" using assms(2) k by (rule ok_runsD)
  then have "ibc_wf (ch_ibc s')" "ledger_grows j (ch_ibc s')" using j(1) by (simp_all add: ledger_rel_def ibc_step_def)
  with that m k j show ?thesis by blast
qed

lemma ledger_growsD:
  assumes "ledger_grows i j"
  shows "om_get (i_send i) x = Some p \<Longrightarrow> om_get (i_send j) x = Some p"
    and "om_get (i_receive i) x = Some rc \<Longrightarrow> om_get (i_receive j) x = Some rc"
    and "om_get (i_send_ack i) x = Some a \<Longrightarrow> om_get (i_send_ack j) x = Some a"
    and "om_get (i_timeout i) x = Some t \<Longrightarrow> om_get (i_timeout j) x = Some t"
    and "om_get (i_channels i) y = Some c \<Longrightarrow> \<exists>c'. om_get (i_channels j) y = Some c' \<and> channel_evolves c c'"
  using assms unfolding ledger_grows_def channels_evolve_def keeps_def by blast+

section \<open>What packet operations record\<close>

lemma receive_records:
  assumes "router_ok ledger_rel rt" "ibc_wf (ch_ibc s)" "receive_packet ext rt block p s = (Ok r, s')"
  shows "om_get (i_receive (ch_ibc s')) (dest_key p)
       = Some \<lparr>pr_data = p, pr_timeout = timed_out block (pk_timeout p)\<rparr>"
    and "om_get (i_channels (ch_ibc s')) (ep_port (pk_dest p), ep_channel (pk_dest p)) \<noteq> None"
    and "ibc_wf (ch_ibc s')"
  using receive_packet_run [OF assms] ledger_growsD(5) by (blast | metis option.distinct(1))+

lemma ack_records:
  assumes "router_ok ledger_rel rt" "ibc_wf (ch_ibc s)" "acknowledge_packet ext rt block p ack s = (Ok r, s')"
  shows "om_get (i_send_ack (ch_ibc s')) (src_key p) = Some ack"
    and "om_get (i_channels (ch_ibc s')) (ep_port (pk_src p), ep_channel (pk_src p)) \<noteq> None"
    and "ibc_wf (ch_ibc s')"
proof -
  from assms(3) obtain x j where j: "record_ack p ack (ch_ibc s) = (Ok x, j)" "ibc_wf (ch_ibc s')"
      "ledger_grows j (ch_ibc s')"
    unfolding acknowledge_packet_def Let_def
    by (rule bind_ledger [OF _ _ record_ack_step assms(2)]) (intro ok_intro assms(1))
  then show "om_get (i_send_ack (ch_ibc s')) (src_key p) = Some ack"
    by (auto simp: record_ack_def ok_iffs dest!: ledger_growsD(3))
  from j(1) have "om_get (i_channels j) (ep_port (pk_src p), ep_channel (pk_src p)) \<noteq> None"
    by (auto simp: record_ack_def ok_iffs)
  then show "om_get (i_channels (ch_ibc s')) (ep_port (pk_src p), ep_channel (pk_src p)) \<noteq> None"
    using ledger_growsD(5) [OF j(3)] by (metis option.exhaust option.distinct(1))
  show "ibc_wf (ch_ibc s')" by (fact j(2))
qed

lemma timeout_records:
  assumes "router_ok ledger_rel rt" "ibc_wf (ch_ibc s)" "timeout_packet ext rt block p s = (Ok r, s')"
  shows "om_get (i_timeout (ch_ibc s')) (src_key p) = Some True"
    and "om_get (i_channels (ch_ibc s')) (ep_port (pk_src p), ep_channel (pk_src p)) \<noteq> None"
    and "ibc_wf (ch_ibc s')"
proof -
  from assms(3) obtain x j where j: "record_timeout p (ch_ibc s) = (Ok x, j)" "ibc_wf (ch_ibc s')"
      "ledger_grows j (ch_ibc s')"
    unfolding timeout_packet_def Let_def
    by (rule bind_ledger [OF _ _ record_timeout_step assms(2)]) (intro ok_intro assms(1))
  then show "om_get (i_timeout (ch_ibc s')) (src_key p) = Some True"
    by (auto simp: record_timeout_def ok_iffs dest!: ledger_growsD(4))
  from j(1) have "om_get (i_channels j) (ep_port (pk_src p), ep_channel (pk_src p)) \<noteq> None"
    by (auto simp: record_timeout_def ok_iffs)
  then show "om_get (i_channels (ch_ibc s')) (ep_port (pk_src p), ep_channel (pk_src p)) \<noteq> None"
    using ledger_growsD(5) [OF j(3)] by (metis option.exhaust option.distinct(1))
  show "ibc_wf (ch_ibc s')" by (fact j(2))
qed

section \<open>What a repeated operation answers\<close>

lemma in_ibc_Err: "m (ch_ibc s) = (Err e, j) \<Longrightarrow> bindM (in_ibc m) k s = (Err e, s\<lparr>ch_ibc := j\<rparr>)"
  by (simp add: bindM_def in_ibc_def zoom_def)

lemma receive_again:
  assumes "om_get (i_receive (ch_ibc s)) (dest_key p) \<noteq> None"
    and "om_get (i_channels (ch_ibc s)) (ep_port (pk_dest p), ep_channel (pk_dest p)) \<noteq> None"
  shows "receive_packet ext rt block p s = (Err (StdMsg ''You can't receive the same packet twice on the chain''), s)"
  unfolding receive_packet_def
  by (rule in_ibc_Err [where j = "ch_ibc s" and s = s, simplified])
    (use assms in \<open>auto simp: record_receive_def run_eqs om_has_def thenM_def\<close>)

lemma ack_again:
  assumes "om_get (i_send (ch_ibc s)) (src_key p) \<noteq> None"
    and "om_get (i_send_ack (ch_ibc s)) (src_key p) \<noteq> None \<or> om_get (i_timeout (ch_ibc s)) (src_key p) \<noteq> None"
    and "om_get (i_channels (ch_ibc s)) (ep_port (pk_src p), ep_channel (pk_src p)) \<noteq> None"
  shows "acknowledge_packet ext rt block p ack s
    = (Err (StdMsg (if om_get (i_send_ack (ch_ibc s)) (src_key p) \<noteq> None
         then ''You can't ack the same packet twice on the chain''
         else ''Packet has timed_out, can't acknowledge'')), s)"
  unfolding acknowledge_packet_def
  by (rule in_ibc_Err [where j = "ch_ibc s" and s = s, simplified])
    (use assms in \<open>auto simp: record_ack_def run_eqs om_has_def thenM_def\<close>)

lemma timeout_again:
  assumes "om_get (i_send_ack (ch_ibc s)) (src_key p) \<noteq> None \<or> om_get (i_timeout (ch_ibc s)) (src_key p) \<noteq> None"
    and "om_get (i_channels (ch_ibc s)) (ep_port (pk_src p), ep_channel (pk_src p)) \<noteq> None"
  shows "timeout_packet ext rt block p s
    = (Err (StdMsg (if om_get (i_send_ack (ch_ibc s)) (src_key p) \<noteq> None
         then ''You can't timeout an acked packet'' else ''You can't timeout an packet twice'')), s)"
  unfolding timeout_packet_def
  by (rule in_ibc_Err [where j = "ch_ibc s" and s = s, simplified])
    (use assms in \<open>auto simp: record_timeout_def run_eqs thenM_def\<close>)

section \<open>The module behind the application\<close>

lemma app_sudo_eq: "app_sudo ext n msg a
    = (case atomically (r_sudo (router_at ext (ap_modules a) n) (ap_block a) msg) (ap_chain a) of
        (r, s) \<Rightarrow> (r, a\<lparr>ap_chain := s\<rparr>))"
  by (simp add: app_sudo_def on_chain_def zoom_def)

lemma app_sudo_ibc_Ok:
  assumes "app_sudo ext n (SudoIbc m) a = (Ok r, a')"
  obtains k s where "n = Suc k" "ibc_sudo ext (router_at ext (ap_modules a) k) (ap_block a) m (ap_chain a) = (Ok r, s)"
    "a' = a\<lparr>ap_chain := s\<rparr>"
proof (cases n)
  case 0
  with assms show ?thesis by (simp add: app_sudo_eq idle_router_def atomically_def no_fuel_def)
next
  case (Suc k)
  with assms that show ?thesis
    by (auto simp: app_sudo_eq router_sudo_def split: prod.splits)
qed

lemma app_sudo_ibc_Err:
  assumes "ibc_sudo ext (router_at ext (ap_modules a) k) (ap_block a) m (ap_chain a) = (Err e, s)"
  shows "app_sudo ext (Suc k) (SudoIbc m) a = (Err e, a)"
  using assms by (simp add: app_sudo_eq router_sudo_def atomically_def)

text \<open>The fate of a packet, as the invariant has it.\<close>

lemma fates:
  assumes "ibc_wf i"
  shows "om_get (i_send_ack i) x = Some a \<Longrightarrow> om_get (i_send i) x \<noteq> None \<and> om_get (i_timeout i) x = None"
    and "om_get (i_timeout i) x = Some t \<Longrightarrow> om_get (i_send i) x \<noteq> None \<and> om_get (i_send_ack i) x = None"
proof -
  have f: "\<And>y. om_get (i_send_ack i) y \<noteq> None \<Longrightarrow> om_get (i_send i) y \<noteq> None \<and> om_get (i_timeout i) y = None"
      "\<And>y. om_get (i_timeout i) y \<noteq> None \<Longrightarrow> om_get (i_send i) y \<noteq> None"
    using assms unfolding ibc_wf_def fates_exclusive_def by blast+
  show "om_get (i_send i) x \<noteq> None \<and> om_get (i_timeout i) x = None" if "om_get (i_send_ack i) x = Some a"
    using f(1) that by fastforce
  show "om_get (i_send i) x \<noteq> None \<and> om_get (i_send_ack i) x = None" if "om_get (i_timeout i) x = Some t"
    using f(1) [of x] f(2) [of x] that by fastforce
qed

section \<open>A chain with one channel\<close>

text \<open>For evaluating theorems: the transfer port has channel 0 and has sent packet 1 on it.\<close>

definition demo_packet :: "timeout_block option \<Rightarrow> ibc_packet" where
  "demo_packet late = \<lparr>pk_data = [], pk_src = \<lparr>ep_port = ''transfer'', ep_channel = ''channel-0''\<rparr>,
     pk_dest = \<lparr>ep_port = ''transfer'', ep_channel = ''channel-0''\<rparr>, pk_sequence = 1,
     pk_timeout = \<lparr>to_block = late, to_timestamp = None\<rparr>\<rparr>"

definition demo_channel :: channel_info where
  "demo_channel = \<lparr>ci_next_packet = 2, ci_last_relayed = 1,
     ci_info = \<lparr>ic_endpoint = \<lparr>ep_port = ''transfer'', ep_channel = ''channel-0''\<rparr>,
       ic_counterparty = \<lparr>ep_port = ''transfer'', ep_channel = ''channel-0''\<rparr>, ic_order = Unordered,
       ic_version = ''ics20-1'', ic_connection = ''connection-0''\<rparr>, ci_open = True\<rparr>"

definition demo_ibc :: ibc_state where
  "demo_ibc = \<lparr>i_connections = [(''connection-0'', \<lparr>cn_counterparty = Some ''connection-0'', cn_chain = ''other''\<rparr>)],
     i_ports = [(''transfer'', 1)], i_handshakes = [], i_channels = [((''transfer'', ''channel-0''), demo_channel)],
     i_send = [((''transfer'', ''channel-0'', 1), demo_packet None)], i_send_ack = [], i_receive = [],
     i_receive_ack = [], i_timeout = []\<rparr>"

definition demo_app :: "ext \<Rightarrow> app" where
  "demo_app ext = (default_app ext demo_time)\<lparr>ap_chain := empty_chain\<lparr>ch_ibc := demo_ibc\<rparr>\<rparr>"

lemma show_nat_0: "show_nat 0 = ''0''"
  by code_simp

lemma demo_names: "chan_name 0 = ''channel-0''" "conn_name 0 = ''connection-0''"
  by (simp_all add: chan_name_def conn_name_def show_nat_0)

lemma empty_ibc_wf: "ibc_wf (ch_ibc empty_chain)"
  by (simp add: empty_chain_def wf_defs)

lemma default_app_parts: "ap_chain (default_app ext block) = empty_chain" "ap_block (default_app ext block) = block"
  by (simp_all add: default_app_def build_defs)

lemma demo_app_parts:
  "ap_chain (demo_app ext) = empty_chain\<lparr>ch_ibc := demo_ibc\<rparr>" "ap_block (demo_app ext) = demo_time"
  by (simp_all add: demo_app_def default_app_def build_defs)

lemma demo_ibc_wf: "ibc_wf demo_ibc"
proof -
  have 1: "om_get (i_connections demo_ibc) c = (if c = ''connection-0'' then
      Some \<lparr>cn_counterparty = Some ''connection-0'', cn_chain = ''other''\<rparr> else None)" for c
    by (simp add: demo_ibc_def)
  have 2: "om_get (i_channels demo_ibc) x = (if x = (''transfer'', ''channel-0'') then Some demo_channel else None)" for x
    by (simp add: demo_ibc_def)
  have 3: "om_get (i_send demo_ibc) x = (if x = (''transfer'', ''channel-0'', 1) then Some (demo_packet None) else None)" for x
    by (simp add: demo_ibc_def)
  have 4: "next_id demo_ibc ''transfer'' = 1"
    by (simp add: next_id_def load_port_info_def demo_ibc_def)
  have "ids_issued demo_ibc"
    unfolding ids_issued_def unused_def 2 using 4 demo_names by (auto simp: demo_ibc_def)
  moreover have "handshakes_apart demo_ibc" by (simp add: handshakes_apart_def demo_ibc_def)
  moreover have "sends_numbered demo_ibc" unfolding sends_numbered_def 2 3 by (simp add: demo_channel_def)
  moreover have "fates_exclusive demo_ibc" by (simp add: fates_exclusive_def demo_ibc_def)
  moreover have "answers_received demo_ibc" by (simp add: answers_received_def demo_ibc_def)
  moreover have "connections_numbered demo_ibc"
    unfolding connections_numbered_def 1 using demo_names by (auto simp: demo_ibc_def om_wf_def)
  moreover have "endpoints_named demo_ibc"
    unfolding endpoints_named_def 2 3 by (simp add: demo_channel_def demo_packet_def src_key_def)
  ultimately show ?thesis by (simp add: ibc_wf_def)
qed

section \<open>Ports\<close>

lemma split_on_not_Nil [simp]: "split_on d s \<noteq> []"
  by (induction s) (auto split: list.split)

lemma split_on_one: "split_on d s = [a] \<longleftrightarrow> s = a \<and> d \<notin> set a"
proof (induction s arbitrary: a)
  case (Cons c cs)
  obtain x xs where x: "split_on d cs = x # xs" by (cases "split_on d cs") auto
  have ih: "x = y \<and> xs = [] \<longleftrightarrow> cs = y \<and> d \<notin> set y" for y using Cons [of y] x by simp
  show ?case
  proof (cases a)
    case (Cons e a')
    with x ih [of a'] show ?thesis by auto
  qed (simp add: x)
qed auto

lemma split_on_two: "split_on d s = [a, b] \<longleftrightarrow> s = a @ d # b \<and> d \<notin> set a \<and> d \<notin> set b"
proof (induction s arbitrary: a)
  case (Cons c cs)
  show ?case
  proof (cases "c = d")
    case True
    then show ?thesis by (cases a) (auto simp: split_on_one)
  next
    case False
    obtain x xs where x: "split_on d cs = x # xs" by (cases "split_on d cs") auto
    show ?thesis
    proof (cases a)
      case Nil
      with False x show ?thesis by simp
    next
      case (Cons e a')
      have "split_on d (c # cs) = [a, b] \<longleftrightarrow> c = e \<and> split_on d cs = [a', b]"
        using False x Cons by simp
      with Cons.IH [of a'] False Cons show ?thesis by auto
    qed
  qed
qed simp

text \<open>
  Port names are read as they are written. Parsing accepts exactly the names the module writes for
  its ports - \<open>transfer\<close> for the bank, \<open>wasm.\<close> and the address for a contract - and gives back that
  port; a contract address that itself contains a dot is refused, and no name stands for the staking
  module.
\<close>
theorem port_roundtrip:
  "parse_port s = Inr p \<longleftrightarrow>
     show_port p = Some s \<and> (case p of PortWasm c \<Rightarrow> CHR ''.'' \<notin> set c | PortBank \<Rightarrow> True | PortStaking \<Rightarrow> False)"
proof -
  have two: "length xs = 2 \<and> xs ! 0 = a \<and> xs ! 1 = b \<longleftrightarrow> xs = [a, b]" for xs :: "string list" and a b
    by (auto simp: numeral_2_eq_2 length_Suc_conv)
  define W T where "W c = ''wasm.'' @ c" and "T = BANK_MODULE_PORT" for c
  have ne: "W c \<noteq> T" for c by (simp add: W_def T_def BANK_MODULE_PORT_def)
  let ?w = "split_on CHR ''.'' s"
  have wasm: "length ?w = 2 \<and> ?w ! 0 = ''wasm'' \<and> ?w ! 1 = c \<longleftrightarrow> s = W c \<and> CHR ''.'' \<notin> set c" for c
    unfolding two split_on_two by (simp add: W_def)
  define A e where "A \<longleftrightarrow> length ?w = 2 \<and> ?w ! 0 = ''wasm''"
    and "e = StdMsg (''The ibc port '' @ s @ '' can't be linked to an mock ibc implementation'')"
  have parse: "parse_port s = (if s = T then Inr PortBank else if A then Inr (PortWasm (?w ! 1)) else Inl e)"
    by (simp add: parse_port_def T_def A_def e_def Let_def)
  have wrote: "show_port q = (case q of PortWasm c \<Rightarrow> Some (W c) | PortBank \<Rightarrow> Some T | PortStaking \<Rightarrow> None)" for q
    by (simp add: show_port_def W_def T_def split: ibc_port.split)
  show ?thesis
  proof (cases p)
    case (PortWasm c)
    have "A \<and> ?w ! 1 = c \<longleftrightarrow> s = W c \<and> CHR ''.'' \<notin> set c" using wasm [of c] by (simp add: A_def)
    then show ?thesis unfolding parse wrote PortWasm using ne [of c] by auto
  qed (auto simp: parse wrote)
qed

section \<open>Sending\<close>

lemma send_packet_eq:
  assumes "ibc_wf (ch_ibc s)" "om_get (i_channels (ch_ibc s)) (port, channel) = Some c"
  shows "if unat (ci_next_packet c) + 1 < 2 ^ 64
    then \<exists>r. send_packet_raw ext port channel data timeout s = (Ok (ci_next_packet c, r),
        s\<lparr>ch_ibc := (ch_ibc s)\<lparr>
          i_send := om_insert (port, channel, ci_next_packet c)
            \<lparr>pk_data = data, pk_src = \<lparr>ep_port = port, ep_channel = channel\<rparr>,
             pk_dest = ic_counterparty (ci_info c), pk_sequence = ci_next_packet c, pk_timeout = timeout\<rparr>
            (i_send (ch_ibc s)),
          i_channels := om_insert (port, channel) (c\<lparr>ci_next_packet := ci_next_packet c + 1\<rparr>)
            (i_channels (ch_ibc s))\<rparr>\<rparr>)
    else \<exists>msg s'. send_packet_raw ext port channel data timeout s = (Panic msg, s')"
proof -
  have "ic_endpoint (ci_info c) = \<lparr>ep_port = port, ep_channel = channel\<rparr>"
    using named [OF assms] by simp
  moreover obtain p1 c1 where "ic_counterparty (ci_info c) = \<lparr>ep_port = p1, ep_channel = c1\<rparr>"
    by (cases "ic_counterparty (ci_info c)")
  ultimately show ?thesis using assms(2)
    by (simp add: send_packet_raw_def in_ibc_def zoom_def bindM_load thenM_def checked_add_def Let_def bindM_def
        modifies_def load_apply ret_def panic_def)
qed

lemma next_packet_unsent:
  assumes "ibc_wf i" "om_get (i_channels i) (port, channel) = Some c"
  shows "om_get (i_send i) (port, channel, ci_next_packet c) = None"
proof (cases "om_get (i_send i) (port, channel, ci_next_packet c)")
  case (Some y)
  from sent_channel [OF assms(1) Some] assms(2) show ?thesis by simp
qed

text \<open>
  Sending numbers packets. On a channel that exists, a packet gets the channel's next sequence
  number, under which nothing is stored yet; exactly the packet with the given data and timeout, from
  the channel's endpoint to its counterparty, is stored under it, the next number grows by one, and
  nothing else of the chain changes - whether or not the channel has been closed. The number that does
  not fit any more is a panic, and an unknown channel an error without a trace.
\<close>
theorem send_packet_numbers:
  assumes "ibc_wf (ch_ibc s)"
  shows "case om_get (i_channels (ch_ibc s)) (port, channel) of
      None \<Rightarrow> send_packet_raw ext port channel data timeout s = (Err (NotFound ''ChannelInfo''), s)
    | Some c \<Rightarrow>
        om_get (i_send (ch_ibc s)) (port, channel, ci_next_packet c) = None
        \<and> (if unat (ci_next_packet c) + 1 < 2 ^ 64
           then \<exists>r. send_packet_raw ext port channel data timeout s = (Ok (ci_next_packet c, r),
               s\<lparr>ch_ibc := (ch_ibc s)\<lparr>
                 i_send := om_insert (port, channel, ci_next_packet c)
                   \<lparr>pk_data = data, pk_src = \<lparr>ep_port = port, ep_channel = channel\<rparr>,
                    pk_dest = ic_counterparty (ci_info c), pk_sequence = ci_next_packet c, pk_timeout = timeout\<rparr>
                   (i_send (ch_ibc s)),
                 i_channels := om_insert (port, channel) (c\<lparr>ci_next_packet := ci_next_packet c + 1\<rparr>)
                   (i_channels (ch_ibc s))\<rparr>\<rparr>)
           else \<exists>msg s'. send_packet_raw ext port channel data timeout s = (Panic msg, s'))"
proof (cases "om_get (i_channels (ch_ibc s)) (port, channel)")
  case None
  then show ?thesis by (simp add: send_packet_raw_def in_ibc_def zoom_def bindM_load)
next
  case (Some c)
  with next_packet_unsent [OF assms Some] send_packet_eq [OF assms Some] show ?thesis by simp
qed

theorem send_packet_numbers_witness:
  "\<exists>r s'. send_packet_raw demo_ext ''transfer'' ''channel-0'' [5] \<lparr>to_block = None, to_timestamp = None\<rparr>
      (ap_chain (demo_app demo_ext)) = (Ok (2, r), s')"
  using send_packet_numbers [where s = "ap_chain (demo_app demo_ext)" and port = "''transfer''" and channel = "''channel-0''"
      and ext = demo_ext and data = "[5]" and timeout = "\<lparr>to_block = None, to_timestamp = None\<rparr>"] demo_ibc_wf
  by (auto simp: demo_app_parts demo_ibc_def demo_channel_def)

section \<open>Steps of the relayer\<close>

lemma on_chain_parts:
  "on_src m (a, b) = (case m a of (r, a') \<Rightarrow> (r, (a', b)))"
  "on_dst m (a, b) = (case m b of (r, b') \<Rightarrow> (r, (a, b')))"
  by (simp_all add: on_src_def on_dst_def zoom_def)

lemma on_src_Ok: "on_src m (a, b) = (Ok x, z) \<longleftrightarrow> (\<exists>a'. m a = (Ok x, a') \<and> z = (a', b))"
  and on_dst_Ok: "on_dst m (a, b) = (Ok x, z) \<longleftrightarrow> (\<exists>b'. m b = (Ok x, b') \<and> z = (a, b'))"
  by (auto simp: on_chain_parts split: prod.splits)

lemma send_packet_query: "app_ibc_query ext (QSendPacket channel port q) a
    = (case om_get (i_send (ch_ibc (ap_chain a))) (port, channel, q) of
        None \<Rightarrow> (Err (NotFound ''IbcPacket''), a)
      | Some p \<Rightarrow> (case x_to_json ext (JPacket p) of Inl e \<Rightarrow> (Err e, a) | Inr b \<Rightarrow> (Ok b, a)))"
  by (simp add: app_ibc_query_def ibc_query_def in_ibc_def zoom_def bindM_def load_apply reads_def lift_outcome_def
      lift_result_def fail_def ret_def split: option.split sum.split)

lemma connection_query: "app_ibc_query ext (QConnectedChain c) a
    = (case om_get (i_connections (ch_ibc (ap_chain a))) c of
        None \<Rightarrow> (Err (NotFound ''Connection''), a)
      | Some d \<Rightarrow> (case x_to_json ext (JConnection d) of Inl e \<Rightarrow> (Err e, a) | Inr b \<Rightarrow> (Ok b, a)))"
  by (simp add: app_ibc_query_def ibc_query_def in_ibc_def zoom_def bindM_def load_apply reads_def lift_outcome_def
      lift_result_def fail_def ret_def split: option.split sum.split)

text \<open>\<open>serde\<close> reads back the packet or connection it has written.\<close>

definition json_laws :: "ext \<Rightarrow> bool" where
  "json_laws ext \<longleftrightarrow> (\<forall>p b. x_to_json ext (JPacket p) = Inr b \<longrightarrow> x_parse_packet ext b = Inr p)
     \<and> (\<forall>c b. x_to_json ext (JConnection c) = Inr b \<longrightarrow> x_parse_connection ext b = Inr c)"

text \<open>Successful packet operations of an application, and what they leave.\<close>

lemma app_receive_records:
  assumes "ibc_wf (ch_ibc (ap_chain a))" "app_sudo ext n (SudoIbc (RReceive p)) a = (Ok r, a')"
  shows "om_get (i_receive (ch_ibc (ap_chain a'))) (dest_key p)
      = Some \<lparr>pr_data = p, pr_timeout = timed_out (ap_block a) (pk_timeout p)\<rparr>"
    and "om_get (i_channels (ch_ibc (ap_chain a'))) (ep_port (pk_dest p), ep_channel (pk_dest p)) \<noteq> None"
    and "ibc_wf (ch_ibc (ap_chain a'))"
  using assms(2)
  by (auto elim!: app_sudo_ibc_Ok simp: ibc_sudo_def dest: receive_records [OF ledger_router assms(1)])

lemma app_ack_records:
  assumes "ibc_wf (ch_ibc (ap_chain a))" "app_sudo ext n (SudoIbc (RAcknowledge p ack)) a = (Ok r, a')"
  shows "om_get (i_send_ack (ch_ibc (ap_chain a'))) (src_key p) = Some ack" "ibc_wf (ch_ibc (ap_chain a'))"
  using assms(2)
  by (auto elim!: app_sudo_ibc_Ok simp: ibc_sudo_def dest: ack_records [OF ledger_router assms(1)])

lemma app_timeout_records:
  assumes "ibc_wf (ch_ibc (ap_chain a))" "app_sudo ext n (SudoIbc (RTimeout p)) a = (Ok r, a')"
  shows "om_get (i_timeout (ch_ibc (ap_chain a'))) (src_key p) = Some True" "ibc_wf (ch_ibc (ap_chain a'))"
  using assms(2)
  by (auto elim!: app_sudo_ibc_Ok simp: ibc_sudo_def dest: timeout_records [OF ledger_router assms(1)])

lemma app_sudo_grows:
  assumes "ibc_wf (ch_ibc (ap_chain a))" "app_sudo ext n m a = (r, a')"
  shows "ledger_grows (ch_ibc (ap_chain a)) (ch_ibc (ap_chain a'))" "ibc_wf (ch_ibc (ap_chain a'))"
  using ledger.message_step_rel [OF message_step.run_sudo [OF assms(2)] refl] assms(1)
  by (simp_all add: ledger_rel_def ibc_step_def)

lemma app_receive_again:
  assumes "om_get (i_receive (ch_ibc (ap_chain a))) (dest_key p) \<noteq> None"
    and "om_get (i_channels (ch_ibc (ap_chain a))) (ep_port (pk_dest p), ep_channel (pk_dest p)) \<noteq> None"
  shows "app_sudo ext (Suc k) (SudoIbc (RReceive p)) a
    = (Err (StdMsg ''You can't receive the same packet twice on the chain''), a)"
  by (rule app_sudo_ibc_Err [where s = "ap_chain a"]) (simp add: ibc_sudo_def receive_again [OF assms])

text \<open>The three parts of relaying a packet: look it up, deliver it, and settle it on the source.\<close>

lemma relay_packet_Ok:
  assumes "json_laws ext" "relay_packet ext n port channel q (src, dst) = (Ok res, z)"
  obtains p b rcv dst' where "om_get (i_send (ch_ibc (ap_chain src))) (port, channel, q) = Some p"
    "x_to_json ext (JPacket p) = Inr b" "x_parse_packet ext b = Inr p"
    "app_sudo ext n (SudoIbc (RReceive p)) dst = (Ok rcv, dst')"
    "(if has_event_type rcv ''timeout_received_packet'' then relay_timeout ext n port channel p rcv
      else relay_ack ext n p rcv) (src, dst') = (Ok res, z)"
proof -
  from assms(2) obtain b z1 where 1: "on_src (app_ibc_query ext (QSendPacket channel port q)) (src, dst) = (Ok b, z1)"
      and 2: "bindM (lift_result (x_parse_packet ext b)) (\<lambda>packet.
        bindM (on_dst (sudo_ibc ext n (RReceive packet))) (\<lambda>receive_response.
          if has_event_type receive_response ''timeout_received_packet''
          then relay_timeout ext n port channel packet receive_response
          else relay_ack ext n packet receive_response)) z1 = (Ok res, z)"
    unfolding relay_packet_def bindM_Ok_iff [of "on_src _"] by blast
  from 1 obtain p where p: "om_get (i_send (ch_ibc (ap_chain src))) (port, channel, q) = Some p"
      and b: "x_to_json ext (JPacket p) = Inr b" and z1: "z1 = (src, dst)"
    by (auto simp: on_src_Ok send_packet_query split: option.splits sum.splits)
  with assms(1) have parse: "x_parse_packet ext b = Inr p" by (simp add: json_laws_def)
  with 2 z1 obtain rcv z2 where "on_dst (sudo_ibc ext n (RReceive p)) (src, dst) = (Ok rcv, z2)"
      and 3: "(if has_event_type rcv ''timeout_received_packet'' then relay_timeout ext n port channel p rcv
          else relay_ack ext n p rcv) z2 = (Ok res, z)"
    by (simp only: lift_result_simps bindM_ret bindM_Ok_iff [of "on_dst _"]) blast
  then obtain dst' where rcv: "app_sudo ext n (SudoIbc (RReceive p)) dst = (Ok rcv, dst')" and z2: "z2 = (src, dst')"
    by (auto simp: on_dst_Ok sudo_ibc_def)
  from 3 z2 that p b parse rcv show ?thesis by blast
qed

lemma relay_timeout_Ok:
  assumes "ibc_wf (ch_ibc (ap_chain src))" "relay_timeout ext n port channel p rcv (src, dst) = (Ok res, (src', dst'))"
  shows "dst' = dst" "\<exists>r c. rr_result res = RelayTimeout r c"
    and "om_get (i_timeout (ch_ibc (ap_chain src'))) (src_key p) = Some True"
    and "ledger_grows (ch_ibc (ap_chain src)) (ch_ibc (ap_chain src'))"
proof -
  define closes where "closes = has_event_type rcv ''channel_close_init''"
  from assms(2) obtain r src1 c where 1: "app_sudo ext n (SudoIbc (RTimeout p)) src = (Ok r, src1)"
      and 2: "(if closes then mapM_ok Some (on_src (sudo_ibc ext n (RCloseChannel port channel False))) else ret None)
        (src1, dst) = (Ok c, (src', dst'))"
      and res: "res = \<lparr>rr_receive = rcv, rr_result = RelayTimeout r c\<rparr>"
    by (auto simp: relay_timeout_def bindM_Ok_iff on_src_Ok sudo_ibc_def closes_def)
  note T = app_timeout_records [OF assms(1) 1] app_sudo_grows [OF assms(1) 1]
  have c: "dst' = dst \<and> (src' = src1 \<or> (\<exists>x. app_sudo ext n (SudoIbc (RCloseChannel port channel False)) src1 = (Ok x, src')))"
    using 2 by (auto simp: mapM_ok_Ok_iff on_src_Ok sudo_ibc_def split: if_splits)
  then have "ledger_grows (ch_ibc (ap_chain src1)) (ch_ibc (ap_chain src'))"
    using app_sudo_grows(1) [OF T(2)] by auto
  then show "om_get (i_timeout (ch_ibc (ap_chain src'))) (src_key p) = Some True"
      "ledger_grows (ch_ibc (ap_chain src)) (ch_ibc (ap_chain src'))"
    using T(1) ledger_growsD(4) ledger_grows_trans [OF T(3)] by blast+
  show "dst' = dst" "\<exists>r c. rr_result res = RelayTimeout r c" using c res by auto
qed

lemma relay_ack_Ok:
  assumes "ibc_wf (ch_ibc (ap_chain src))" "relay_ack ext n p rcv (src, dst) = (Ok res, (src', dst'))"
  shows "dst' = dst"
    and "\<exists>r ack. rr_result res = RelayAck r ack \<and> om_get (i_send_ack (ch_ibc (ap_chain src'))) (src_key p) = Some ack"
    and "ledger_grows (ch_ibc (ap_chain src)) (ch_ibc (ap_chain src'))"
proof -
  obtain hex_ack where "get_event_attr_value rcv ''write_acknowledgement'' ''packet_ack_hex'' = Inr hex_ack"
    using assms(2) by (cases "get_event_attr_value rcv ''write_acknowledgement'' ''packet_ack_hex''") (simp_all add: relay_ack_def)
  with assms(2) obtain ack r where 1: "app_sudo ext n (SudoIbc (RAcknowledge p ack)) src = (Ok r, src')" and d: "dst' = dst"
      and res: "res = \<lparr>rr_receive = rcv, rr_result = RelayAck r ack\<rparr>"
    by (auto simp: relay_ack_def bindM_Ok_iff on_src_Ok sudo_ibc_def)
  show "dst' = dst" by (fact d)
  show "\<exists>r ack. rr_result res = RelayAck r ack \<and> om_get (i_send_ack (ch_ibc (ap_chain src'))) (src_key p) = Some ack"
      "ledger_grows (ch_ibc (ap_chain src)) (ch_ibc (ap_chain src'))"
    using app_ack_records [OF assms(1) 1] app_sudo_grows [OF assms(1) 1] res by auto
qed

definition relay_ext :: ext where
  "relay_ext = ics20_ext\<lparr>x_to_json := (\<lambda>doc. case doc of
       JPacket p \<Rightarrow> if p = demo_packet None then Inr [1] else Inl (ExternalError ''json'')
     | _ \<Rightarrow> Inl (ExternalError ''json'')), x_parse_packet := (\<lambda>b. Inr (demo_packet None))\<rparr>"

lemma json_laws_relay: "json_laws relay_ext"
  by (simp add: json_laws_def relay_ext_def)

text \<open>One packet relayed, step by step.\<close>

lemma relay_ext_fields:
  "x_parse_ics20 relay_ext = (\<lambda>b. Inr demo_ics20)" "x_addr_validate relay_ext ''bob'' = Inr (Addr ''bob'')"
  "x_nb_add relay_ext = (\<lambda>xs ys. nb_merge [] (xs @ ys))" "x_nb_normalize relay_ext = nb_merge []"
  "x_std_ack_binary relay_ext (AckOk b) = 1 # b" "x_parse_callback_memo relay_ext m = None"
  "x_parse_callback_request relay_ext m = None" "x_parse_packet relay_ext = (\<lambda>b. Inr (demo_packet None))"
  "x_to_json relay_ext (JPacket (demo_packet None)) = Inr [1]" "x_unhex relay_ext = (\<lambda>s. Inr (as_bytes s))"
  by (simp_all add: relay_ext_def ics20_ext_def demo_ext_def)

lemma demo_bank_receive:
  "\<exists>t. bank_packet_receive relay_ext rt block \<lparr>prm_packet = demo_packet None, prm_relayer = r\<rparr> (empty_chain\<lparr>ch_ibc := i\<rparr>)
     = (Ok (RespReceive [] (Some (1 # SUCCESS_BANK_ACK))), t)"
proof -
  have u: "to_u128 (4 :: uint256) = Inr 4" by (simp add: to_u128_Inr)
  show ?thesis
    by (simp add: bank_packet_receive_def release_or_mint_def bindM_def lift_result_def ret_def reads_def parse_ibc_hooks_memo_def
        locked_coin_def get_balance_def relay_ext_fields demo_ics20_def wrap_ibc_denom_def u thenM_def modifies_def empty_chain_def
        in_bank_def mint_def set_balance_def zoom_def normalize_amount_def Let_def or_panic_def)
qed

lemma demo_receives:
  "\<exists>a'. app_sudo relay_ext 2 (SudoIbc (RReceive (demo_packet None))) (demo_app relay_ext)
     = (Ok \<lparr>ar_events = [new_event ''recv_packet'' (data_attrs relay_ext (demo_packet None) @ route_attrs (demo_packet None) @ channel_attrs relay_ext (ci_info demo_channel)),
        new_event ''write_acknowledgement''
          ([(''packet_data'', x_binary_json relay_ext []), (''packet_data_hex'', x_hex relay_ext [])]
           @ route_attrs (demo_packet None)
           @ [(''packet_ack'', x_utf8_lossy relay_ext (1 # SUCCESS_BANK_ACK)),
              (''packet_ack_hex'', x_hex relay_ext (1 # SUCCESS_BANK_ACK))])], ar_data = None\<rparr>, a')"
proof -
  let ?p = "demo_packet None" and ?i = "demo_ibc\<lparr>i_receive := [(dest_key (demo_packet None), \<lparr>pr_data = demo_packet None, pr_timeout = False\<rparr>)]\<rparr>"
  have rec: "record_receive demo_time ?p demo_ibc = (Ok (demo_channel, False), ?i)"
    by (simp add: record_receive_def bindM_def load_apply reads_def thenM_def guard_def ret_def modifies_def om_has_def
        Let_def timed_out_def demo_packet_def dest_key_def demo_ibc_def)
  have port: "parse_port (ep_port (ic_endpoint (ci_info demo_channel))) = Inr PortBank"
    by (simp add: demo_channel_def parse_port_def BANK_MODULE_PORT_def)
  obtain t where bank: "bank_packet_receive relay_ext (router_at relay_ext (ap_modules (demo_app relay_ext)) 0) demo_time
      \<lparr>prm_packet = demo_packet None, prm_relayer = RELAYER_ADDR\<rparr> (empty_chain\<lparr>ch_ibc := ?i\<rparr>)
     = (Ok (RespReceive [] (Some (1 # SUCCESS_BANK_ACK))), t)"
    using demo_bank_receive by blast
  have d: "pk_data ?p = []" by (simp add: demo_packet_def)
  have "\<exists>s. receive_packet relay_ext (router_at relay_ext (ap_modules (demo_app relay_ext)) 1) demo_time ?p (empty_chain\<lparr>ch_ibc := demo_ibc\<rparr>)
     = (Ok \<lparr>ar_events = [new_event ''recv_packet'' (data_attrs relay_ext (demo_packet None) @ route_attrs (demo_packet None) @ channel_attrs relay_ext (ci_info demo_channel)),
        new_event ''write_acknowledgement''
          ([(''packet_data'', x_binary_json relay_ext []), (''packet_data_hex'', x_hex relay_ext [])]
           @ route_attrs (demo_packet None)
           @ [(''packet_ack'', x_utf8_lossy relay_ext (1 # SUCCESS_BANK_ACK)),
              (''packet_ack_hex'', x_hex relay_ext (1 # SUCCESS_BANK_ACK))])], ar_data = None\<rparr>, s)"
    using bank
    by (simp add: receive_packet_def atomically_def bindM_def in_ibc_def zoom_def rec lift_result_def port ret_def
       module_of_port_def router_ibc_def thenM_def modifies_def d One_nat_def)
  then show ?thesis
    by (fastforce simp: app_sudo_eq demo_app_parts numeral_2_eq_2 router_sudo_def ibc_sudo_def atomically_def)
qed

lemma demo_ack:
  "get_event_attr_value \<lparr>ar_events = [new_event ''recv_packet'' t, new_event ''write_acknowledgement''
          ([(''packet_data'', u1), (''packet_data_hex'', u2)] @ route_attrs p @ [(''packet_ack'', u3), (''packet_ack_hex'', u4)])], ar_data = None\<rparr>
     ''write_acknowledgement'' ''packet_ack_hex'' = Inr u4"
  "has_event_type \<lparr>ar_events = [new_event ''recv_packet'' t, new_event ''write_acknowledgement'' v], ar_data = None\<rparr> ''timeout_received_packet'' = False"
  by (simp_all add: get_event_attr_value_def event_attrs_def new_event_def route_attrs_def has_event_type_def Let_def)

lemma demo_acks:
  "\<exists>a' r. app_sudo relay_ext 2 (SudoIbc (RAcknowledge (demo_packet None) ack)) (demo_app relay_ext) = (Ok r, a')"
proof -
  have "is_ok (fst (app_sudo relay_ext 2 (SudoIbc (RAcknowledge (demo_packet None) ack)) (demo_app relay_ext)))"
    by (simp add: app_sudo_eq demo_app_parts numeral_2_eq_2 router_sudo_def ibc_sudo_def acknowledge_packet_def
        record_ack_def in_ibc_def proc_defs load_def atomically_def om_has_def lift_result_def parse_port_def
        BANK_MODULE_PORT_def module_of_port_def router_ibc_def bank_packet_ack_def parse_ibc_hooks_callback_memo_def
        parse_ics20_memo_callback_def relay_ext_fields demo_ics20_def
        Let_def demo_packet_def demo_channel_def demo_ibc_def src_key_def)
  then show ?thesis by (metis is_ok_iff prod.collapse)
qed

lemma demo_relays:
  "\<exists>res z. relay_packet relay_ext 2 ''transfer'' ''channel-0'' 1 (demo_app relay_ext, demo_app relay_ext) = (Ok res, z)"
proof -
  obtain dst where rcv: "app_sudo relay_ext 2 (SudoIbc (RReceive (demo_packet None))) (demo_app relay_ext)
     = (Ok \<lparr>ar_events = [new_event ''recv_packet'' (data_attrs relay_ext (demo_packet None) @ route_attrs (demo_packet None) @ channel_attrs relay_ext (ci_info demo_channel)), new_event ''write_acknowledgement''
          ([(''packet_data'', x_binary_json relay_ext []), (''packet_data_hex'', x_hex relay_ext [])]
           @ route_attrs (demo_packet None)
           @ [(''packet_ack'', x_utf8_lossy relay_ext (1 # SUCCESS_BANK_ACK)),
              (''packet_ack_hex'', x_hex relay_ext (1 # SUCCESS_BANK_ACK))])], ar_data = None\<rparr>, dst)"
    using demo_receives by blast
  obtain src r where ack: "app_sudo relay_ext 2 (SudoIbc (RAcknowledge (demo_packet None)
      (as_bytes (x_hex relay_ext (1 # SUCCESS_BANK_ACK))))) (demo_app relay_ext) = (Ok r, src)"
    using demo_acks by blast
  have g: "om_get (i_send (ch_ibc (ap_chain (demo_app relay_ext)))) (''transfer'', ''channel-0'', 1) = Some (demo_packet None)"
    by (simp add: demo_app_parts demo_ibc_def)
  show ?thesis
    unfolding relay_packet_def sudo_ibc_def bindM_def on_chain_parts send_packet_query g
    by (simp only: relay_ext_fields option.case sum.case prod.case outcome.case lift_result_def ret_def rcv demo_ack if_False
        relay_ack_def bindM_def sudo_ibc_def on_chain_parts ack) simp
qed

section \<open>Connections\<close>

definition connect :: "string \<Rightarrow> connection \<Rightarrow> app \<Rightarrow> app" where
  "connect c d a = a\<lparr>ap_chain := (ap_chain a)\<lparr>ch_ibc := (ch_ibc (ap_chain a))\<lparr>
     i_connections := om_insert c d (i_connections (ch_ibc (ap_chain a)))\<rparr>\<rparr>\<rparr>"

lemma connect_simps [simp]:
  "i_connections (ch_ibc (ap_chain (connect c d a))) = om_insert c d (i_connections (ch_ibc (ap_chain a)))"
  "ap_block (connect c d a) = ap_block a" "ap_modules (connect c d a) = ap_modules a"
  by (simp_all add: connect_def)

definition connection_event :: "string \<Rightarrow> app_response" where
  "connection_event c = \<lparr>ar_events = [new_event ''connection_open'' [(''connection_id'', c)]], ar_data = None\<rparr>"

lemma connection_event_id: "get_event_attr_value (connection_event c) ''connection_open'' ''connection_id'' = Inr c"
  by (simp add: get_event_attr_value_def event_attrs_def connection_event_def new_event_def)

lemma create_fresh:
  "sudo_ibc ext (Suc n) (RCreateConnection remote None other) a
    = (let c = conn_name (length (i_connections (ch_ibc (ap_chain a))))
       in (Ok (connection_event c), connect c \<lparr>cn_counterparty = other, cn_chain = remote\<rparr> a))"
  by (cases other)
    (simp_all add: sudo_ibc_def app_sudo_eq router_sudo_def ibc_sudo_def create_connection_def in_ibc_def zoom_def
      bindM_def reads_def thenM_def guard_def ret_def modifies_def atomically_def conn_name_def connect_def
      connection_event_def Let_def)

lemma create_known:
  assumes "om_get (i_connections (ch_ibc (ap_chain a))) c = Some d" "cn_chain d = remote"
  shows "sudo_ibc ext (Suc n) (RCreateConnection remote (Some c) (Some other)) a
    = (Ok (connection_event c), connect c (d\<lparr>cn_counterparty := Some other\<rparr>) a)"
  using assms
  by (simp add: sudo_ibc_def app_sudo_eq router_sudo_def ibc_sudo_def create_connection_def in_ibc_def zoom_def
      bindM_def mapM_ok_def load_apply thenM_def guard_def ret_def modifies_def atomically_def connect_def
      connection_event_def Let_def)

lemma fresh_connection:
  "ibc_wf i \<Longrightarrow> om_get (i_connections i) (conn_name (length (i_connections i))) = None"
  by (rule ccontr) (auto simp: ibc_wf_def connections_numbered_def)

end
