(* ===== verification/Channels.thy ===== *)
theory Channels
  imports Ibc_Facts
begin

text \<open>
  The channel handshake between two applications: what each of its four steps leaves behind, and what
  the relayer's \<open>create_channel\<close> establishes.
\<close>

section \<open>The steps of the handshake\<close>

definition open_type :: "string option \<Rightarrow> string" where
  "open_type cversion = (if cversion = None then ''channel_open_init'' else ''channel_open_try'')"

definition open_event :: "string \<Rightarrow> string \<Rightarrow> string \<Rightarrow> ibc_endpoint \<Rightarrow> string \<Rightarrow> string \<Rightarrow> app_response" where
  "open_event ty port channel remote con v = \<lparr>ar_events = [new_event ty ([(''port_id'', port),
     (''channel_id'', channel), (''counterparty_port_id'', ep_port remote), (''counterparty_channel_id'', ''''),
     (''connection_id'', con)] @ [(''version'', v)])], ar_data = None\<rparr>"

lemma open_event_attrs:
  "get_event_attr_value (open_event ty port channel remote con v) ty ''channel_id'' = Inr channel"
  "get_event_attr_value (open_event ty port channel remote con v) ty ''version'' = Inr v"
  by (simp_all add: get_event_attr_value_def event_attrs_def open_event_def new_event_def)

lemma open_channel_Ok:
  assumes run: "open_channel rt block con port version order remote cversion s = (Ok r, s')"
    and "router_ok ledger_rel rt" and wf: "ibc_wf (ch_ibc s)"
  obtains channel h where "unused (ch_ibc s) (port, channel)" "om_get (i_connections (ch_ibc s)) con \<noteq> None"
    "om_get (i_handshakes (ch_ibc s')) (port, channel) = Some h"
    "hs_order h = order" "hs_connection h = con"
    "r = open_event (open_type cversion) port channel remote con (hs_version h)"
    "ibc_wf (ch_ibc s')" "ledger_grows (ch_ibc s) (ch_ibc s')"
proof -
  from run obtain p c j h where new: "new_channel_id block con port (ch_ibc s) = (Ok (p, c), j)"
      and h: "om_get (i_handshakes (ch_ibc s')) (port, c) = Some h" "hs_order h = order" "hs_connection h = con"
      and r: "r = open_event (open_type cversion) port c remote con (hs_version h)"
    by (cases cversion)
      (auto simp: open_channel_def record_handshake_def Let_def ok_iffs in_ibc_def open_response_Ok open_event_def open_type_def)
  have con: "om_get (i_connections (ch_ibc s)) con \<noteq> None"
    using new by (auto simp: new_channel_id_def ok_iffs om_has_def)
  have "unused (ch_ibc s) (port, c)"
    using new new_channel_id_run [OF new] issued [OF wf, of port c] by auto
  moreover have "ledger_rel s s'" using ok_runsD [OF ledger_open [OF assms(2)] run] .
  then have "ibc_wf (ch_ibc s')" "ledger_grows (ch_ibc s) (ch_ibc s')"
    using wf by (simp_all add: ledger_rel_def ibc_step_def)
  ultimately show ?thesis using that [where channel = c] con h r by simp
qed

lemma connect_channel_Ok:
  assumes run: "connect_channel rt block port channel remote cversion s = (Ok r, s')"
    and "router_ok ledger_rel rt" "ibc_wf (ch_ibc s)"
    and h: "om_get (i_handshakes (ch_ibc s)) (port, channel) = Some h"
  obtains v c where "cversion = Some v" "om_get (i_channels (ch_ibc s')) (port, channel) = Some c"
    "ci_info c = \<lparr>ic_endpoint = \<lparr>ep_port = port, ep_channel = channel\<rparr>, ic_counterparty = remote,
       ic_order = hs_order h, ic_version = v, ic_connection = hs_connection h\<rparr>"
    "ibc_wf (ch_ibc s')" "ledger_grows (ch_ibc s) (ch_ibc s')"
proof -
  from run obtain x j where j: "record_connect port channel remote cversion (ch_ibc s) = (Ok x, j)"
      "ibc_wf (ch_ibc s')" "ledger_grows (ch_ibc s) j" "ledger_grows j (ch_ibc s')"
    unfolding connect_channel_def Let_def
    by (rule bind_ledger [OF _ _ record_connect_step assms(3)]) (intro ok_intro assms(2))
  have pure: "all_runs (=) (connect_request h c cversion)" for h and c :: ibc_channel
    by (auto simp: connect_request_def intro!: runs_intro)
  let ?info = "\<lambda>v. \<lparr>ic_endpoint = \<lparr>ep_port = port, ep_channel = channel\<rparr>, ic_counterparty = remote,
       ic_order = hs_order h, ic_version = v, ic_connection = hs_connection h\<rparr>"
  from j(1) h obtain v c where v: "cversion = Some v"
      and c: "om_get (i_channels j) (port, channel) = Some c" "ci_info c = ?info v"
    by (auto simp: record_connect_def Let_def ok_iffs dest!: all_runs_eqD [OF pure])
  from ledger_growsD(5) [OF j(4) c(1)] c(2) obtain c' where
      "om_get (i_channels (ch_ibc s')) (port, channel) = Some c'" "ci_info c' = ?info v"
    by (auto simp: channel_evolves_def)
  then show ?thesis using that v j(2) ledger_grows_trans [OF j(3,4)] by blast
qed

section \<open>Through the application\<close>

lemma app_open_Ok:
  assumes "sudo_ibc ext n (ROpenChannel con port version order cversion remote) a = (Ok r, a')"
    and "ibc_wf (ch_ibc (ap_chain a))"
  obtains channel h where "unused (ch_ibc (ap_chain a)) (port, channel)" "om_get (i_connections (ch_ibc (ap_chain a))) con \<noteq> None"
    "om_get (i_handshakes (ch_ibc (ap_chain a'))) (port, channel) = Some h"
    "hs_order h = order" "hs_connection h = con"
    "r = open_event (open_type cversion) port channel remote con (hs_version h)"
    "ibc_wf (ch_ibc (ap_chain a'))" "ledger_grows (ch_ibc (ap_chain a)) (ch_ibc (ap_chain a'))"
proof -
  from assms(1) obtain k s where run: "open_channel (router_at ext (ap_modules a) k) (ap_block a) con port version order remote cversion (ap_chain a) = (Ok r, s)"
      and a': "a' = a\<lparr>ap_chain := s\<rparr>"
    unfolding sudo_ibc_def by (rule app_sudo_ibc_Ok) (simp add: ibc_sudo_def)
  show ?thesis by (rule open_channel_Ok [OF run ledger_router assms(2)]) (rule that; simp add: a')
qed

lemma app_connect_Ok:
  assumes "sudo_ibc ext n (RConnectChannel port channel cversion remote) a = (Ok r, a')"
    and "ibc_wf (ch_ibc (ap_chain a))" "om_get (i_handshakes (ch_ibc (ap_chain a))) (port, channel) = Some h"
  obtains v c where "cversion = Some v" "om_get (i_channels (ch_ibc (ap_chain a'))) (port, channel) = Some c"
    "ci_info c = \<lparr>ic_endpoint = \<lparr>ep_port = port, ep_channel = channel\<rparr>, ic_counterparty = remote,
       ic_order = hs_order h, ic_version = v, ic_connection = hs_connection h\<rparr>"
    "ledger_grows (ch_ibc (ap_chain a)) (ch_ibc (ap_chain a'))"
proof -
  from assms(1) obtain k s where run: "connect_channel (router_at ext (ap_modules a) k) (ap_block a) port channel remote cversion (ap_chain a) = (Ok r, s)"
      and a': "a' = a\<lparr>ap_chain := s\<rparr>"
    unfolding sudo_ibc_def by (rule app_sudo_ibc_Ok) (simp add: ibc_sudo_def)
  show ?thesis by (rule connect_channel_Ok [OF run ledger_router assms(2,3)]) (rule that; simp add: a')
qed

lemma create_channel_Ok:
  assumes "create_channel ext n con sp dp version order (src, dst) = (Ok res, (src2, dst2))"
  obtains init v1 src1 conn dcon try_response v2 dst1 where
    "sudo_ibc ext n (ROpenChannel con sp version order None \<lparr>ep_port = dp, ep_channel = ''''\<rparr>) src = (Ok init, src1)"
    "get_event_attr_value init ''channel_open_init'' ''version'' = Inr v1"
    "get_event_attr_value init ''channel_open_init'' ''channel_id'' = Inr (cr_src_channel res)"
    "sudo_ibc ext n (ROpenChannel dcon dp version order (Some v1) \<lparr>ep_port = sp, ep_channel = cr_src_channel res\<rparr>) dst
       = (Ok try_response, dst1)"
    "get_event_attr_value try_response ''channel_open_try'' ''version'' = Inr v2"
    "get_event_attr_value try_response ''channel_open_try'' ''channel_id'' = Inr (cr_dst_channel res)"
    "sudo_ibc ext n (RConnectChannel sp (cr_src_channel res) (Some v2) \<lparr>ep_port = dp, ep_channel = cr_dst_channel res\<rparr>) src1
       = (Ok (cr_ack res), src2)"
    "sudo_ibc ext n (RConnectChannel dp (cr_dst_channel res) (Some v2) \<lparr>ep_port = sp, ep_channel = cr_src_channel res\<rparr>) dst1
       = (Ok (cr_confirm res), dst2)"
proof -
  from assms obtain init v1 sc a1 b1 try_response v2 dc a2 b2 where
      1: "relay_channel_init ext n con sp dp version order (src, dst) = (Ok (init, v1, sc), (a1, b1))"
    and 2: "relay_channel_try ext n con sp dp version order v1 sc (a1, b1) = (Ok (try_response, v2, dc), (a2, b2))"
    and 3: "sudo_ibc ext n (RConnectChannel sp sc (Some v2) \<lparr>ep_port = dp, ep_channel = dc\<rparr>) a2 = (Ok (cr_ack res), src2)"
      "sudo_ibc ext n (RConnectChannel dp dc (Some v2) \<lparr>ep_port = sp, ep_channel = sc\<rparr>) b2 = (Ok (cr_confirm res), dst2)"
      "cr_src_channel res = sc" "cr_dst_channel res = dc"
    by (auto simp: create_channel_def ok_iffs on_src_Ok on_dst_Ok)
  from 1 have init: "sudo_ibc ext n (ROpenChannel con sp version order None \<lparr>ep_port = dp, ep_channel = ''''\<rparr>) src = (Ok init, a1)"
    "b1 = dst" "get_event_attr_value init ''channel_open_init'' ''version'' = Inr v1"
    "get_event_attr_value init ''channel_open_init'' ''channel_id'' = Inr sc"
    by (auto simp: relay_channel_init_def ok_iffs on_src_Ok)
  from 2 obtain dcon where "sudo_ibc ext n (ROpenChannel dcon dp version order (Some v1) \<lparr>ep_port = sp, ep_channel = sc\<rparr>) b1
       = (Ok try_response, b2)" "a2 = a1"
    "get_event_attr_value try_response ''channel_open_try'' ''version'' = Inr v2"
    "get_event_attr_value try_response ''channel_open_try'' ''channel_id'' = Inr dc"
    by (auto simp: relay_channel_try_def ok_iffs on_src_Ok on_dst_Ok connection_query split: option.splits sum.splits)
  with init 3 that show ?thesis by simp
qed

section \<open>Channels of the bank\<close>

text \<open>The state after the first and after the second half of a handshake of the transfer port.\<close>

definition half_open :: "string \<Rightarrow> ibc_order \<Rightarrow> string \<Rightarrow> string option \<Rightarrow> ibc_endpoint \<Rightarrow> app \<Rightarrow> app" where
  "half_open con order version cversion remote a =
     (let i = ch_ibc (ap_chain a); c = chan_name (next_id i ''transfer'')
      in a\<lparr>ap_chain := (ap_chain a)\<lparr>ch_ibc := i\<lparr>
           i_ports := om_insert ''transfer'' (load_port_info ''transfer'' i + 1) (i_ports i),
           i_handshakes := om_insert (''transfer'', c)
             \<lparr>hs_connection = con, hs_port = PortBank, hs_local = \<lparr>ep_port = ''transfer'', ep_channel = c\<rparr>,
              hs_remote = remote, hs_state = (if cversion = None then HsInit else HsTry), hs_order = order,
              hs_version = version\<rparr> (i_handshakes i)\<rparr>\<rparr>\<rparr>)"

lemma open_bank:
  assumes "om_get (i_connections (ch_ibc (ap_chain a))) con \<noteq> None" "next_id (ch_ibc (ap_chain a)) ''transfer'' + 1 < 2 ^ 64"
  shows "sudo_ibc ext (Suc (Suc n)) (ROpenChannel con ''transfer'' version order cversion remote) a
    = (Ok (open_event (open_type cversion) ''transfer'' (chan_name (next_id (ch_ibc (ap_chain a)) ''transfer'')) remote con version),
       half_open con order version cversion remote a)"
proof -
  have p: "parse_port ''transfer'' = Inr PortBank" by (simp add: parse_port_def BANK_MODULE_PORT_def)
  have new: "new_channel_id block con ''transfer'' i
      = (Ok (PortBank, chan_name (next_id i ''transfer'')), i\<lparr>i_ports := om_insert ''transfer'' (load_port_info ''transfer'' i + 1) (i_ports i)\<rparr>)"
    if "om_get (i_connections i) con \<noteq> None" "next_id i ''transfer'' + 1 < 2 ^ 64" for block i
    using that by (auto simp: new_channel_id_def bindM_def reads_def thenM_def guard_def om_has_def lift_result_def p
        ret_def or_panic_def checked_add_def next_id_def modifies_def chan_name_def show_word_def)
  show ?thesis
    by (cases cversion)
      (simp_all add: sudo_ibc_def app_sudo_eq router_sudo_def ibc_sudo_def open_channel_def in_ibc_def zoom_def bindM_def
        new [OF assms] Let_def atomically_def module_of_port_def router_ibc_def default_channel_open_def ret_def
        thenM_def record_handshake_def modifies_def open_event_def open_type_def half_open_def)
qed

lemma connect_bank:
  assumes "om_get (i_handshakes (ch_ibc (ap_chain a))) (''transfer'', channel) = Some h" "hs_port h = PortBank"
    and "hs_state h = HsInit \<or> hs_state h = HsTry"
  shows "\<exists>r a'. sudo_ibc ext (Suc (Suc n)) (RConnectChannel ''transfer'' channel (Some v) remote) a = (Ok r, a')"
  using assms
  by (cases "hs_state h")
    (simp_all add: sudo_ibc_def app_sudo_eq router_sudo_def ibc_sudo_def connect_channel_def in_ibc_def zoom_def bindM_def
      record_connect_def load_apply Let_def connect_request_def ret_def or_panic_def thenM_def modifies_def
      atomically_def module_of_port_def router_ibc_def default_channel_connect_def)

lemma half_open_parts:
  "om_get (i_handshakes (ch_ibc (ap_chain (half_open con order version cversion remote a))))
     (''transfer'', chan_name (next_id (ch_ibc (ap_chain a)) ''transfer''))
   = Some \<lparr>hs_connection = con, hs_port = PortBank,
       hs_local = \<lparr>ep_port = ''transfer'', ep_channel = chan_name (next_id (ch_ibc (ap_chain a)) ''transfer'')\<rparr>,
       hs_remote = remote, hs_state = (if cversion = None then HsInit else HsTry), hs_order = order, hs_version = version\<rparr>"
  "i_connections (ch_ibc (ap_chain (half_open con order version cversion remote a))) = i_connections (ch_ibc (ap_chain a))"
  by (simp_all add: half_open_def Let_def)

lemma bank_channel_opens:
  assumes "json_laws ext" "x_to_json ext (JConnection c) = Inr b"
    and "om_get (i_connections (ch_ibc (ap_chain src))) con = Some c" "cn_counterparty c = Some dcon"
    and "om_get (i_connections (ch_ibc (ap_chain dst))) dcon \<noteq> None"
    and "next_id (ch_ibc (ap_chain src)) ''transfer'' + 1 < 2 ^ 64" "next_id (ch_ibc (ap_chain dst)) ''transfer'' + 1 < 2 ^ 64"
  shows "\<exists>res z. create_channel ext (Suc (Suc n)) con ''transfer'' ''transfer'' version order (src, dst) = (Ok res, z)
    \<and> cr_src_channel res = chan_name (next_id (ch_ibc (ap_chain src)) ''transfer'')
    \<and> cr_dst_channel res = chan_name (next_id (ch_ibc (ap_chain dst)) ''transfer'')"
proof -
  let ?n = "Suc (Suc n)" and ?ci = "chan_name (next_id (ch_ibc (ap_chain src)) ''transfer'')"
    and ?cd = "chan_name (next_id (ch_ibc (ap_chain dst)) ''transfer'')"
  let ?rs = "\<lparr>ep_port = ''transfer'', ep_channel = ''''\<rparr>" and ?rd = "\<lparr>ep_port = ''transfer'', ep_channel = ?ci\<rparr>"
  define src1 where "src1 = half_open con order version None ?rs src"
  define dst1 where "dst1 = half_open dcon order version (Some version) ?rd dst"
  have src_con: "om_get (i_connections (ch_ibc (ap_chain src))) con \<noteq> None" using assms(3) by simp
  have init: "sudo_ibc ext ?n (ROpenChannel con ''transfer'' version order None ?rs) src
      = (Ok (open_event ''channel_open_init'' ''transfer'' ?ci ?rs con version), src1)"
    using open_bank [OF src_con assms(6), of ext n version order None ?rs] by (simp add: open_type_def src1_def)
  have tried: "sudo_ibc ext ?n (ROpenChannel dcon ''transfer'' version order (Some version) ?rd) dst
      = (Ok (open_event ''channel_open_try'' ''transfer'' ?cd ?rd dcon version), dst1)"
    using open_bank [OF assms(5,7), of ext n version order "Some version" ?rd] by (simp add: open_type_def dst1_def)
  have query: "app_ibc_query ext (QConnectedChain con) src1 = (Ok b, src1)"
    using assms(2,3) by (simp add: connection_query src1_def half_open_parts)
  have parse: "x_parse_connection ext b = Inr c" using assms(1,2) by (simp add: json_laws_def)
  have "\<exists>r z. sudo_ibc ext ?n (RConnectChannel ''transfer'' ?ci (Some version) \<lparr>ep_port = ''transfer'', ep_channel = ?cd\<rparr>) src1 = (Ok r, z)"
    unfolding src1_def by (rule connect_bank [OF half_open_parts(1)]) simp_all
  then obtain ack src2 where ack: "sudo_ibc ext ?n (RConnectChannel ''transfer'' ?ci (Some version) \<lparr>ep_port = ''transfer'', ep_channel = ?cd\<rparr>) src1
      = (Ok ack, src2)" by (elim exE)
  have "\<exists>r z. sudo_ibc ext ?n (RConnectChannel ''transfer'' ?cd (Some version) ?rd) dst1 = (Ok r, z)"
    unfolding dst1_def by (rule connect_bank [OF half_open_parts(1)]) simp_all
  then obtain confirm dst2 where confirm: "sudo_ibc ext ?n (RConnectChannel ''transfer'' ?cd (Some version) ?rd) dst1
      = (Ok confirm, dst2)" by (elim exE)
  have "relay_channel_init ext ?n con ''transfer'' ''transfer'' version order (src, dst)
      = (Ok (open_event ''channel_open_init'' ''transfer'' ?ci ?rs con version, version, ?ci), (src1, dst))"
    by (simp add: relay_channel_init_def bindM_def on_chain_parts init open_event_attrs lift_result_def ret_def)
  moreover have "relay_channel_try ext ?n con ''transfer'' ''transfer'' version order version ?ci (src1, dst)
      = (Ok (open_event ''channel_open_try'' ''transfer'' ?cd ?rd dcon version, version, ?cd), (src1, dst1))"
    by (simp add: relay_channel_try_def bindM_def on_chain_parts query parse assms(4) or_panic_def tried open_event_attrs
        lift_result_def ret_def)
  ultimately show ?thesis
    by (simp add: create_channel_def bindM_def on_chain_parts ack confirm ret_def)
qed

section \<open>A channel that is opened\<close>

definition channel_ext :: ext where
  "channel_ext = demo_ext\<lparr>x_to_json := (\<lambda>doc. case doc of
       JConnection c \<Rightarrow> if c = \<lparr>cn_counterparty = Some ''connection-0'', cn_chain = ''other''\<rparr> then Inr [] else Inl (ExternalError ''json'')
     | _ \<Rightarrow> Inl (ExternalError ''json'')),
     x_parse_connection := (\<lambda>b. Inr \<lparr>cn_counterparty = Some ''connection-0'', cn_chain = ''other''\<rparr>)\<rparr>"

lemma json_laws_channel: "json_laws channel_ext"
  by (simp add: json_laws_def channel_ext_def split: if_splits)

lemma demo_connected:
  "om_get (i_connections (ch_ibc (ap_chain (demo_app channel_ext)))) ''connection-0''
     = Some \<lparr>cn_counterparty = Some ''connection-0'', cn_chain = ''other''\<rparr>"
  "next_id (ch_ibc (ap_chain (demo_app channel_ext))) ''transfer'' = 1"
  "x_to_json channel_ext (JConnection \<lparr>cn_counterparty = Some ''connection-0'', cn_chain = ''other''\<rparr>) = Inr []"
  by (simp_all add: demo_app_parts demo_ibc_def next_id_def load_port_info_def channel_ext_def)

lemma demo_channel_opens:
  obtains res z where "create_channel channel_ext (Suc (Suc n)) ''connection-0'' ''transfer'' ''transfer'' ''ics20-1'' Unordered
     (demo_app channel_ext, demo_app channel_ext) = (Ok res, z)"
  using bank_channel_opens [OF json_laws_channel demo_connected(3,1), of "''connection-0''" "demo_app channel_ext" n "''ics20-1''" Unordered]
  by (auto simp: demo_connected)

section \<open>Properties\<close>

text \<open>
  C26. Two connected chains can always open a channel for token transfers. When the connection on the
  source names a connection of the destination as its counterparty and the transfer ports have channel
  numbers left, \<open>create_channel\<close> between them succeeds and returns the next free channel of each.
\<close>
theorem relay_channel_opens:
  assumes "json_laws ext" "x_to_json ext (JConnection c) = Inr b"
    and "om_get (i_connections (ch_ibc (ap_chain src))) con = Some c" "cn_counterparty c = Some dcon"
    and "om_get (i_connections (ch_ibc (ap_chain dst))) dcon \<noteq> None"
    and "next_id (ch_ibc (ap_chain src)) ''transfer'' + 1 < 2 ^ 64" "next_id (ch_ibc (ap_chain dst)) ''transfer'' + 1 < 2 ^ 64"
  shows "\<exists>res z. create_channel ext (Suc (Suc n)) con ''transfer'' ''transfer'' version order (src, dst) = (Ok res, z)
    \<and> cr_src_channel res = chan_name (next_id (ch_ibc (ap_chain src)) ''transfer'')
    \<and> cr_dst_channel res = chan_name (next_id (ch_ibc (ap_chain dst)) ''transfer'')"
  using assms by (rule bank_channel_opens)

theorem relay_channel_opens_witness:
  "\<exists>res z. create_channel channel_ext (Suc (Suc 0)) ''connection-0'' ''transfer'' ''transfer'' ''ics20-1'' Unordered
       (demo_app channel_ext, demo_app channel_ext) = (Ok res, z)
     \<and> cr_src_channel res = chan_name 1 \<and> cr_dst_channel res = chan_name 1"
  using relay_channel_opens [OF json_laws_channel demo_connected(3,1), of "''connection-0''" "demo_app channel_ext" 0 "''ics20-1''" Unordered]
  by (simp add: demo_connected)

text \<open>
  A channel made by the relayer joins its two ends. When \<open>create_channel\<close> succeeds, each chain has
  a new channel on its port whose counterparty is the other chain's, both with the same version and the
  ordering that was asked for, over the given connection on the source and a known connection on the
  destination; and what either chain had recorded before is kept.
\<close>
theorem relay_channel_mutual:
  assumes "ibc_wf (ch_ibc (ap_chain src))" "ibc_wf (ch_ibc (ap_chain dst))"
    and "create_channel ext n con sp dp version order (src, dst) = (Ok res, (src', dst'))"
  shows "unused (ch_ibc (ap_chain src)) (sp, cr_src_channel res)
    \<and> unused (ch_ibc (ap_chain dst)) (dp, cr_dst_channel res)
    \<and> (\<exists>cs cd v dcon. om_get (i_channels (ch_ibc (ap_chain src'))) (sp, cr_src_channel res) = Some cs
        \<and> om_get (i_channels (ch_ibc (ap_chain dst'))) (dp, cr_dst_channel res) = Some cd
        \<and> ci_info cs = \<lparr>ic_endpoint = \<lparr>ep_port = sp, ep_channel = cr_src_channel res\<rparr>,
             ic_counterparty = \<lparr>ep_port = dp, ep_channel = cr_dst_channel res\<rparr>, ic_order = order, ic_version = v, ic_connection = con\<rparr>
        \<and> ci_info cd = \<lparr>ic_endpoint = \<lparr>ep_port = dp, ep_channel = cr_dst_channel res\<rparr>,
             ic_counterparty = \<lparr>ep_port = sp, ep_channel = cr_src_channel res\<rparr>, ic_order = order, ic_version = v, ic_connection = dcon\<rparr>
        \<and> om_get (i_connections (ch_ibc (ap_chain src))) con \<noteq> None
        \<and> om_get (i_connections (ch_ibc (ap_chain dst))) dcon \<noteq> None)
    \<and> ledger_grows (ch_ibc (ap_chain src)) (ch_ibc (ap_chain src')) \<and> ledger_grows (ch_ibc (ap_chain dst)) (ch_ibc (ap_chain dst'))"
proof -
  let ?s = "\<lambda>a. ch_ibc (ap_chain a)"
  from assms(3) obtain init v1 src1 dcon try_response v2 dst1 where
      init: "sudo_ibc ext n (ROpenChannel con sp version order None \<lparr>ep_port = dp, ep_channel = ''''\<rparr>) src = (Ok init, src1)"
        "get_event_attr_value init ''channel_open_init'' ''channel_id'' = Inr (cr_src_channel res)"
    and tried: "sudo_ibc ext n (ROpenChannel dcon dp version order (Some v1) \<lparr>ep_port = sp, ep_channel = cr_src_channel res\<rparr>) dst
         = (Ok try_response, dst1)"
        "get_event_attr_value try_response ''channel_open_try'' ''channel_id'' = Inr (cr_dst_channel res)"
    and ack: "sudo_ibc ext n (RConnectChannel sp (cr_src_channel res) (Some v2) \<lparr>ep_port = dp, ep_channel = cr_dst_channel res\<rparr>) src1
         = (Ok (cr_ack res), src')"
    and confirm: "sudo_ibc ext n (RConnectChannel dp (cr_dst_channel res) (Some v2) \<lparr>ep_port = sp, ep_channel = cr_src_channel res\<rparr>) dst1
         = (Ok (cr_confirm res), dst')"
    by (rule create_channel_Ok)
  obtain c1 h1 where s: "unused (?s src) (sp, c1)" "om_get (i_connections (?s src)) con \<noteq> None"
      "om_get (i_handshakes (?s src1)) (sp, c1) = Some h1" "hs_order h1 = order" "hs_connection h1 = con"
      "init = open_event (open_type None) sp c1 \<lparr>ep_port = dp, ep_channel = ''''\<rparr> con (hs_version h1)"
      "ibc_wf (?s src1)" "ledger_grows (?s src) (?s src1)"
    by (rule app_open_Ok [OF init(1) assms(1)])
  obtain c2 h2 where d: "unused (?s dst) (dp, c2)" "om_get (i_connections (?s dst)) dcon \<noteq> None"
      "om_get (i_handshakes (?s dst1)) (dp, c2) = Some h2" "hs_order h2 = order" "hs_connection h2 = dcon"
      "try_response = open_event (open_type (Some v1)) dp c2 \<lparr>ep_port = sp, ep_channel = cr_src_channel res\<rparr> dcon (hs_version h2)"
      "ibc_wf (?s dst1)" "ledger_grows (?s dst) (?s dst1)"
    by (rule app_open_Ok [OF tried(1) assms(2)])
  have ids: "c1 = cr_src_channel res" "c2 = cr_dst_channel res"
    using init(2) tried(2) s(6) d(6) by (simp_all add: open_event_attrs open_type_def)
  obtain cs where cs: "om_get (i_channels (?s src')) (sp, cr_src_channel res) = Some cs"
      "ci_info cs = \<lparr>ic_endpoint = \<lparr>ep_port = sp, ep_channel = cr_src_channel res\<rparr>,
         ic_counterparty = \<lparr>ep_port = dp, ep_channel = cr_dst_channel res\<rparr>, ic_order = order, ic_version = v2, ic_connection = con\<rparr>"
      "ledger_grows (?s src1) (?s src')"
    by (rule app_connect_Ok [OF ack s(7) s(3) [unfolded ids]]) (simp add: s(4,5))
  obtain cd where cd: "om_get (i_channels (?s dst')) (dp, cr_dst_channel res) = Some cd"
      "ci_info cd = \<lparr>ic_endpoint = \<lparr>ep_port = dp, ep_channel = cr_dst_channel res\<rparr>,
         ic_counterparty = \<lparr>ep_port = sp, ep_channel = cr_src_channel res\<rparr>, ic_order = order, ic_version = v2, ic_connection = dcon\<rparr>"
      "ledger_grows (?s dst1) (?s dst')"
    by (rule app_connect_Ok [OF confirm d(7) d(3) [unfolded ids]]) (simp add: d(4,5))
  have "ledger_grows (?s src) (?s src')" "ledger_grows (?s dst) (?s dst')"
    using ledger_grows_trans s(8) d(8) cs(3) cd(3) by blast+
  with s(1,2) d(1,2) cs cd ids show ?thesis by blast
qed

theorem relay_channel_mutual_witness:
  "\<exists>res src' dst'. create_channel channel_ext (Suc (Suc 0)) ''connection-0'' ''transfer'' ''transfer'' ''ics20-1'' Unordered
       (demo_app channel_ext, demo_app channel_ext) = (Ok res, (src', dst'))
     \<and> om_get (i_channels (ch_ibc (ap_chain dst'))) (''transfer'', cr_dst_channel res) \<noteq> None"
proof -
  obtain res src' dst' where run: "create_channel channel_ext (Suc (Suc 0)) ''connection-0'' ''transfer'' ''transfer'' ''ics20-1'' Unordered
       (demo_app channel_ext, demo_app channel_ext) = (Ok res, (src', dst'))"
    using demo_channel_opens by (metis surj_pair)
  have wf: "ibc_wf (ch_ibc (ap_chain (demo_app channel_ext)))" by (simp add: demo_app_parts demo_ibc_wf)
  from relay_channel_mutual [OF wf wf run] run show ?thesis by blast
qed

end
