(* ===== verification/Own_Code.thy ===== *)
theory Own_Code
  imports Chain_Facts
begin

text \<open>
  Whose code writes the storage of a contract. A contract without an administrator keeps its code for
  ever, and whatever happens on the chain - other contracts, sub-messages, replies, packets, blocks,
  new code - its storage changes only by runs of its own entry points, unless a test writes into it
  from outside. What every entry point of a code keeps is therefore an invariant of the chain for the
  contracts outside the set \<open>E\<close> of those a test writes to: the locale \<open>contract_promise\<close>.
\<close>

definition own_step :: "wasm_keeper \<Rightarrow> u64 \<Rightarrow> mem \<Rightarrow> mem \<Rightarrow> bool" where
  "own_step wk k m m' \<longleftrightarrow> (\<exists>code. code_at wk k = Some code \<and> entry_run code m m')"

definition own_outside :: "addr set \<Rightarrow> wasm_keeper \<Rightarrow> chain \<Rightarrow> chain \<Rightarrow> bool" where
  "own_outside E wk s t \<longleftrightarrow> (\<forall>b c. om_get (w_contracts (ch_wasm s)) b = Some c \<longrightarrow> cd_admin c = None \<longrightarrow>
     om_get (w_contracts (ch_wasm t)) b = Some c
     \<and> (b \<notin> E \<longrightarrow> (own_step wk (cd_code_id c))\<^sup>*\<^sup>* (contract_storage s b) (contract_storage t b)))"

abbreviation own_rel :: "wasm_keeper \<Rightarrow> chain \<Rightarrow> chain \<Rightarrow> bool" where
  "own_rel \<equiv> own_outside {}"

lemma own_outsideD:
  assumes "own_outside E wk s t" "om_get (w_contracts (ch_wasm s)) b = Some c" "cd_admin c = None"
  shows "om_get (w_contracts (ch_wasm t)) b = Some c"
    "b \<notin> E \<Longrightarrow> (own_step wk (cd_code_id c))\<^sup>*\<^sup>* (contract_storage s b) (contract_storage t b)"
  using assms by (simp_all add: own_outside_def)

lemmas own_relD = own_outsideD [where E = "{}", simplified]

lemma own_same: "ch_wasm t = ch_wasm s \<Longrightarrow> own_outside E wk s t"
  by (simp add: own_outside_def contract_storage_def)

lemma own_order: "reflp (own_outside E wk)" "transp (own_outside E wk)"
  by (simp add: reflp_def own_same) (unfold transp_def own_outside_def, meson rtranclp_trans)

lemma own_elsewhere [simp]:
  "ok_runs (own_outside E wk) (in_bank m)" "ok_runs (own_outside E wk) (in_staking k)" "all_runs (own_outside E wk) (in_bank m)"
  by (auto simp: ok_runs_def all_runs_def in_defs zoom_def own_same split: prod.splits)

interpretation own: block_steps ext wk "own_outside E wk" for ext wk E
proof
  show "reflp (own_outside E wk)" "transp (own_outside E wk)" by (rule own_order)+
  show "ok_runs (own_outside E wk) (ibc_execute ext rt b a im)" if "router_ok (own_outside E wk) rt" for rt b a im
    by (rule ibc_free(1) [OF own_order _ that]) (simp_all add: own_same)
  show "ok_runs (own_outside E wk) (ibc_sudo ext rt b ir)" if "router_ok (own_outside E wk) rt" for rt b ir
    by (rule ibc_free(2) [OF own_order _ that]) (simp_all add: own_same)
  show "own_outside E wk s (put_contract_storage a m s)" if "om_get (w_contracts (ch_wasm s)) a = Some c"
      "cd_admin c \<noteq> None \<or> (\<exists>code. code_at wk (cd_code_id c) = Some code \<and> entry_run code (contract_storage s a) m)"
    for s a c m
    using that by (auto simp: own_outside_def own_step_def intro!: r_into_rtranclp)
  have storage: "contract_storage (s\<lparr>ch_wasm := (ch_wasm s)\<lparr>w_contracts := x\<rparr>\<rparr>) b = contract_storage s b" for s :: chain and x b
    by (simp add: contract_storage_def)
  show "own_outside E wk s (put_contract_storage a m t)" if "om_get (w_contracts (ch_wasm s)) a = None" and
      r: "own_outside E wk (s\<lparr>ch_wasm := (ch_wasm s)\<lparr>w_contracts := om_insert a c' (w_contracts (ch_wasm s))\<rparr>\<rparr>) t" for s a c' t m
    unfolding own_outside_def
  proof (intro allI impI)
    fix b c
    assume c: "om_get (w_contracts (ch_wasm s)) b = Some c" "cd_admin c = None"
    with that(1) have "b \<noteq> a" by auto
    with own_outsideD [OF r, of b c] c storage show "om_get (w_contracts (ch_wasm (put_contract_storage a m t))) b = Some c
        \<and> (b \<notin> E \<longrightarrow> (own_step wk (cd_code_id c))\<^sup>*\<^sup>* (contract_storage s b) (contract_storage (put_contract_storage a m t) b))"
      by simp
  qed
  show "own_outside E wk s (s\<lparr>ch_wasm := (ch_wasm s)\<lparr>w_contracts := om_insert a c2 (w_contracts (ch_wasm s))\<rparr>\<rparr>)"
    if "om_get (w_contracts (ch_wasm s)) a = Some c1" "cd_admin c1 \<noteq> None" for s a c1 c2
    using that by (auto simp: own_outside_def contract_storage_def)
qed (simp_all add: own_same)

lemma own_step_grows: "keeper_wf wk \<Longrightarrow> keeper_grows wk wk' \<Longrightarrow> own_step wk k \<le> own_step wk' k"
  by (auto simp: own_step_def keeper_grows_def)

interpretation own_history: app_history ext E keeper_wf "own_outside E" for ext E
proof
  show "own_outside E wk' s t" if "keeper_wf wk" "own_outside E wk s t" "keeper_grows wk wk'" for wk wk' s t
    using that(2) rtranclp_mono [OF own_step_grows [OF that(1,3)]] unfolding own_outside_def by blast
  show "own_outside E wk s (put_contract_storage address st s)" if "address \<in> E" for address wk s st
    using that by (auto simp: own_outside_def)
qed (unfold_locales, auto simp: keeper_grows_def)

text \<open>The same, for one code; the storage is that of a contract no test writes to.\<close>

lemma own_code_runs:
  assumes "(app_step ext E)\<^sup>*\<^sup>* a a'" "keeper_wf (md_wasm (ap_modules a))"
    and c: "om_get (w_contracts (ch_wasm (ap_chain a))) address = Some c" "cd_admin c = None"
    and code: "code_at (md_wasm (ap_modules a)) (cd_code_id c) = Some code"
  shows "om_get (w_contracts (ch_wasm (ap_chain a'))) address = Some c"
    "code_at (md_wasm (ap_modules a')) (cd_code_id c) = Some code"
    "address \<notin> E \<Longrightarrow> (entry_run code)\<^sup>*\<^sup>* (contract_storage (ap_chain a) address) (contract_storage (ap_chain a') address)"
proof -
  note h = own_history.app_steps_rel [OF assms(1,2)]
  then show "om_get (w_contracts (ch_wasm (ap_chain a'))) address = Some c" using own_outsideD(1) c by blast
  show code': "code_at (md_wasm (ap_modules a')) (cd_code_id c) = Some code"
    using h code assms(2) by (simp add: keeper_grows_def)
  then have "own_step (md_wasm (ap_modules a')) (cd_code_id c) = entry_run code"
    by (auto simp: own_step_def fun_eq_iff)
  with h own_outsideD(2) c
  show "(entry_run code)\<^sup>*\<^sup>* (contract_storage (ap_chain a) address) (contract_storage (ap_chain a') address)"
    if "address \<notin> E" using that by metis
qed

section \<open>What a code promises\<close>

text \<open>
  A relation between the storage before and after that every entry point of a code keeps holds between
  any two moments of the life of a contract with this code and no administrator that no test writes to.
\<close>

locale contract_promise =
  fixes code :: contract and P :: "mem \<Rightarrow> mem \<Rightarrow> bool"
  assumes P_refl: "P m m" and P_trans: "P m1 m2 \<Longrightarrow> P m2 m3 \<Longrightarrow> P m1 m3"
    and P_entry: "entry_run code m m' \<Longrightarrow> P m m'"
begin

lemma P_runs: "(entry_run code)\<^sup>*\<^sup>* m m' \<Longrightarrow> P m m'"
  by (induction rule: rtranclp_induct) (auto intro: P_refl P_trans P_entry)

lemma promise_kept:
  assumes "(app_step ext E)\<^sup>*\<^sup>* a a'" "keeper_wf (md_wasm (ap_modules a))"
    and "om_get (w_contracts (ch_wasm (ap_chain a))) address = Some c" "cd_admin c = None"
    and "code_at (md_wasm (ap_modules a)) (cd_code_id c) = Some code" "address \<notin> E"
  shows "P (contract_storage (ap_chain a) address) (contract_storage (ap_chain a') address)"
  by (rule P_runs) (rule own_code_runs(3) [OF assms])

end

text \<open>The weakest promise: the storage is what runs of the own entry points made of it.\<close>

interpretation own_code: contract_promise code "(entry_run code)\<^sup>*\<^sup>*" for code
  by unfold_locales auto

end
