(* ===== verification/Lifecycle.thy ===== *)
theory Lifecycle
  imports Own_Code
begin

text \<open>
  The life of a contract as an application sees it: its instantiation, the calls of it, and what the
  code it runs promises from the first call on.
\<close>

section \<open>Operations read backwards\<close>

lemma app_execute_eq: "app_execute ext n sender msg a =
    (case atomically (r_execute (router_at ext (ap_modules a) n) (ap_block a) sender msg) (ap_chain a) of
       (r, s) \<Rightarrow> (r, a\<lparr>ap_chain := s\<rparr>))"
  by (auto simp: app_execute_def execute_multi_def on_chain_def zoom_def atomically_def bindM_def or_panic_def ret_def
      split: prod.split outcome.split)

lemma app_execute_Ok:
  assumes "app_execute ext n sender msg a = (Ok r, a')"
  obtains k s where "n = Suc k" "a' = a\<lparr>ap_chain := s\<rparr>"
    "router_execute ext (ap_modules a) k (router_at ext (ap_modules a) k) (ap_block a) sender msg (ap_chain a) = (Ok r, s)"
proof (cases n)
  case 0
  with assms show ?thesis
    by (auto simp: app_execute_def execute_multi_def on_chain_def zoom_def atomically_def idle_router_def proc_defs
        split: prod.splits outcome.splits)
next
  case (Suc k)
  with assms that show ?thesis
    by (auto simp: app_execute_def execute_multi_def on_chain_def zoom_def atomically_def ok_iffs
        split: prod.splits outcome.splits)
qed

lemma bank_send_via_router:
  assumes "r_execute (router_at ext md k) block sender (MBank (BankSend to amt)) s = (Ok r, s')"
  obtains b where "send ext sender (Addr to) amt (ch_bank s) = (Ok (), b)" "s' = s\<lparr>ch_bank := b\<rparr>"
proof (cases k)
  case 0
  with assms show ?thesis by (simp add: idle_router_def no_fuel_def)
next
  case (Suc j)
  with assms that show ?thesis
    by (auto simp: router_execute_def bank_execute_def Let_def ok_iffs in_bank_def)
qed

text \<open>The bank after the funds of a message have been paid.\<close>

definition funds_paid :: "ext \<Rightarrow> addr \<Rightarrow> addr \<Rightarrow> coin list \<Rightarrow> bank_state \<Rightarrow> bank_state \<Rightarrow> bool" where
  "funds_paid ext sender recipient funds b b' \<longleftrightarrow>
     (if funds = [] then b' = b else send ext sender recipient funds b = (Ok (), b'))"

lemma wasm_send_paid:
  assumes "wasm_send (router_at ext md k) block sender (addr_str address) funds s = (Ok r, s')"
  obtains b where "funds_paid ext sender address funds (ch_bank s) b" "s' = s\<lparr>ch_bank := b\<rparr>"
proof (cases "funds = []")
  case True
  with assms have "s' = s" by (simp add: wasm_send_def ret_def)
  with True that [of "ch_bank s"] show ?thesis by (simp add: funds_paid_def)
next
  case False
  with assms have "r_execute (router_at ext md k) block sender (MBank (BankSend (addr_str address) funds)) s = (Ok r, s')"
    by (simp add: wasm_send_def)
  then show ?thesis by (rule bank_send_via_router) (use False that in \<open>simp add: funds_paid_def\<close>)
qed

text \<open>The address in the response of an instantiation is the address of the new instance.\<close>

definition instantiate_codec :: "ext \<Rightarrow> bool" where
  "instantiate_codec ext \<longleftrightarrow> (\<forall>a d. x_parse_instantiate ext (x_encode_instantiate ext a d) = Inr a)"

lemma instantiate_contract_Ok:
  assumes "instantiate_codec ext" "instantiate_contract ext n code_id sender msg funds label admin a = (Ok address, a')"
  defines "c \<equiv> \<lparr>cd_code_id = code_id, cd_creator = sender, cd_admin = map_option Addr admin, cd_label = label,
    cd_created = bl_height (ap_block a)\<rparr>"
  obtains m k b s2 s' code q res st e r0 where "msg = Inr m" "om_get (w_contracts (ch_wasm (ap_chain a))) address = None"
    "label \<noteq> []" "unat code_id \<le> length (wk_code_data (md_wasm (ap_modules a)))"
    "s2 = (ap_chain a)\<lparr>ch_bank := b, ch_wasm := (ch_wasm (ap_chain a))
       \<lparr>w_contracts := om_insert address c (w_contracts (ch_wasm (ap_chain a)))\<rparr>\<rparr>"
    "funds_paid ext sender address funds (ch_bank (ap_chain a)) b"
    "code_at (md_wasm (ap_modules a)) code_id = Some code"
    "run_cprog q (ct_instantiate code (get_env address (ap_block a)) \<lparr>mi_sender = sender, mi_funds = funds\<rparr> m)
       (contract_storage (ap_chain a) address) = (Ok res, st)"
    "process_at ext (router_at ext (ap_modules a) k) (md_wasm (ap_modules a)) k (ap_block a) address
       (build_app_response address e res) (put_contract_storage address st s2) = (Ok r0, s')"
    "a' = a\<lparr>ap_chain := s'\<rparr>"
proof -
  let ?wk = "md_wasm (ap_modules a)" and ?b = "ap_block a" and ?info = "\<lparr>mi_sender = sender, mi_funds = funds\<rparr>"
  from assms(2) obtain m r where m: "msg = Inr m"
      and run: "app_execute ext n sender (MWasm (WasmInstantiate admin code_id m funds label)) a = (Ok r, a')"
      and addr: "x_parse_instantiate ext (bytes_or_default (ar_data r)) = Inr (addr_str address)"
    by (auto simp: instantiate_contract_def instantiated_address_def ok_iffs)
  from run obtain k s' where a': "a' = a\<lparr>ap_chain := s'\<rparr>" and
      "process_wasm_msg_instantiate ext (router_at ext (ap_modules a) k) ?wk k ?b sender admin code_id m funds label None (ap_chain a) = (Ok r, s')"
    by (rule app_execute_Ok) (auto simp: router_execute_def wasm_execute_def execute_wasm_def map_errM_Ok_iff)
  then obtain x s1 y s2 s3 res e r0 where
      reg: "register_contract ext ?wk code_id sender (map_option Addr admin) label (bl_height ?b) None (ap_chain a) = (Ok x, s1)"
    and send: "wasm_send (router_at ext (ap_modules a) k) ?b sender (addr_str x) funds s1 = (Ok y, s2)"
    and call: "call_instantiate (router_at ext (ap_modules a) k) ?wk ?b x ?info m s2 = (Ok res, s3)"
    and proc: "process_at ext (router_at ext (ap_modules a) k) ?wk k ?b x (build_app_response x e res) s3 = (Ok r0, s')"
    and r: "r = r0\<lparr>ar_data := Some (instantiate_response ext (ar_data r0) x)\<rparr>" and label: "label \<noteq> []"
    by (auto simp: process_wasm_msg_instantiate_def ok_iffs split: if_splits)
  have x: "x = address"
    using addr assms(1) r
    by (cases x, cases address) (simp add: instantiate_response_def bytes_or_default_def instantiate_codec_def)
  have new: "om_get (w_contracts (ch_wasm (ap_chain a))) address = None" "unat code_id \<le> length (wk_code_data ?wk)"
      "om_get (w_contracts (ch_wasm s1)) address = Some c"
    using register_contract_cases [where ext = ext and wk = ?wk and code_id = code_id and creator = sender
        and admin = "map_option Addr admin" and label = label and created = "bl_height ?b" and salt = None and s = "ap_chain a"]
    by (auto simp: reg x c_def)
  with register_saves(3) [OF reg] have s1: "s1 = (ap_chain a)\<lparr>ch_wasm := (ch_wasm (ap_chain a))
       \<lparr>w_contracts := om_insert address c (w_contracts (ch_wasm (ap_chain a)))\<rparr>\<rparr>"
    by (auto simp: x)
  from send obtain b where b: "funds_paid ext sender address funds (ch_bank (ap_chain a)) b" "s2 = s1\<lparr>ch_bank := b\<rparr>"
    by (rule wasm_send_paid) (simp add: s1 x)
  have c2: "om_get (w_contracts (ch_wasm s2)) address = Some c" and st2: "contract_storage s2 = contract_storage (ap_chain a)"
    using b s1 by (simp_all add: contract_storage_def fun_eq_iff)
  from call obtain y t where y: "with_storage (router_at ext (ap_modules a) k) ?wk ?b address
      (\<lambda>contract env. ct_instantiate contract env ?info m) s2 = (Ok y, t)" and v: "verify_response y t = (Ok res, s3)"
    by (auto simp: x call_instantiate_def ok_iffs)
  from y verify_response_Ok(1,2) [OF v] have "with_storage (router_at ext (ap_modules a) k) ?wk ?b address
      (\<lambda>contract env. ct_instantiate contract env ?info m) s2 = (Ok res, s3)" by simp
  then obtain code q st where "code_at ?wk code_id = Some code" "s3 = put_contract_storage address st s2"
      "run_cprog q (ct_instantiate code (get_env address ?b) ?info m) (contract_storage (ap_chain a) address) = (Ok res, st)"
    using c2 st2 by (elim with_storage_Ok) (auto simp: c_def)
  moreover have "s2 = (ap_chain a)\<lparr>ch_bank := b, ch_wasm := (ch_wasm (ap_chain a))
       \<lparr>w_contracts := om_insert address c (w_contracts (ch_wasm (ap_chain a)))\<rparr>\<rparr>"
    using b s1 by simp
  ultimately show thesis using that [OF m new(1) label new(2) _ b(1)] proc a' by (simp add: x)
qed

text \<open>An instantiation that goes through: a fresh address, registered code, and a response without messages.\<close>

lemma instantiate_contract_completes:
  fixes k :: nat
  assumes "instantiate_codec ext" "label \<noteq> []" "unat code_id \<le> length (wk_code_data (md_wasm (ap_modules a)))"
    and new: "wk_address (md_wasm (ap_modules a)) code_id (word_of_nat (instance_count (ap_chain a))) = Inr address"
      "om_get (w_contracts (ch_wasm (ap_chain a))) address = None"
    and code: "code_at (md_wasm (ap_modules a)) code_id = Some code"
    and run: "\<And>q. run_cprog q (ct_instantiate code (get_env address (ap_block a)) \<lparr>mi_sender = sender, mi_funds = []\<rparr> m)
      (contract_storage (ap_chain a) address) = (Ok r, st)"
    and ver: "\<And>t :: chain. verify_response r t = (Ok r, t)" and msgs: "rs_messages r = []"
  shows "instantiate_contract ext (Suc k) code_id sender (Inr m) [] label admin a
    = (Ok address, a\<lparr>ap_chain := put_contract_storage address st ((ap_chain a)\<lparr>ch_wasm := (ch_wasm (ap_chain a))
        \<lparr>w_contracts := om_insert address \<lparr>cd_code_id = code_id, cd_creator = sender, cd_admin = map_option Addr admin,
           cd_label = label, cd_created = bl_height (ap_block a)\<rparr> (w_contracts (ch_wasm (ap_chain a)))\<rparr>\<rparr>)\<rparr>)"
proof -
  let ?wk = "md_wasm (ap_modules a)" and ?s = "ap_chain a" and ?b = "ap_block a" and ?rt = "router_at ext (ap_modules a) k"
  define c where "c = \<lparr>cd_code_id = code_id, cd_creator = sender, cd_admin = map_option Addr admin, cd_label = label,
    cd_created = bl_height ?b\<rparr>"
  define s1 where "s1 = ?s\<lparr>ch_wasm := (ch_wasm ?s)\<lparr>w_contracts := om_insert address c (w_contracts (ch_wasm ?s))\<rparr>\<rparr>"
  have reg: "register_contract ext ?wk code_id sender (map_option Addr admin) label (bl_height ?b) None ?s = (Ok address, s1)"
    using new assms(3)
    by (simp add: register_contract_def new_address_def run_eqs bindM_reads bindM_attempt_data thenM_save_contract ret_def s1_def c_def)
  have c1: "om_get (w_contracts (ch_wasm s1)) address = Some c" and st1: "contract_storage s1 address = contract_storage ?s address"
    by (simp_all add: s1_def contract_storage_def)
  have code1: "contract_code ?wk (cd_code_id c) s1 = (Ok code, s1)" by (simp add: c_def contract_code_Ok_iff code)
  have call: "call_instantiate ?rt ?wk ?b address \<lparr>mi_sender = sender, mi_funds = []\<rparr> m s1 = (Ok r, put_contract_storage address st s1)"
    unfolding call_instantiate_def bindM_def with_storage_run [OF c1 code1]
    by (simp add: st1 run ver atomically_def contract_storage_mut_def zoom_def)
  obtain ev where "process_wasm_msg_instantiate ext ?rt ?wk k ?b sender admin code_id m [] label None ?s
      = (Ok \<lparr>ar_events = ev, ar_data = Some (instantiate_response ext (rs_data r) address)\<rparr>, put_contract_storage address st s1)"
    using assms(2) reg call msgs
    by (simp add: process_wasm_msg_instantiate_def bindM_def thenM_def wasm_send_def ret_def process_at_def
        process_response_def build_app_response_def Let_def)
  then have "app_execute ext (Suc k) sender (MWasm (WasmInstantiate admin code_id m [] label)) a
      = (Ok \<lparr>ar_events = ev, ar_data = Some (instantiate_response ext (rs_data r) address)\<rparr>,
         a\<lparr>ap_chain := put_contract_storage address st s1\<rparr>)"
    by (simp add: app_execute_eq atomically_def router_execute_def wasm_execute_def execute_wasm_def map_errM_def)
  then show ?thesis
    using assms(1) unfolding s1_def c_def
    by (simp add: instantiate_contract_def instantiated_address_def bindM_eq [where m = "app_execute x1 x2 x3 x4" for x1 x2 x3 x4]
        bytes_or_default_def instantiate_response_def instantiate_codec_def mapM_ok_def ret_def bindM_lift_result)
qed

lemma instantiate_contract_step:
  "instantiate_contract ext n code_id sender msg funds label admin a = (Ok address, a') \<Longrightarrow> app_step ext E a a'"
proof -
  assume "instantiate_contract ext n code_id sender msg funds label admin a = (Ok address, a')"
  then obtain m r where "app_execute ext n sender (MWasm (WasmInstantiate admin code_id m funds label)) a = (Ok r, a')"
    by (auto simp: instantiate_contract_def instantiated_address_def ok_iffs)
  then obtain rs where "execute_multi ext n sender [MWasm (WasmInstantiate admin code_id m funds label)] a = (Ok rs, a')"
    by (auto simp: app_execute_def ok_iffs)
  then show ?thesis by (intro app_step.messages message_step.run_messages)
qed

text \<open>
  An execution that goes through: the funds are paid, the code runs with them, and its response is
  processed.
\<close>

lemma executed_wasm:
  assumes "r_execute (router_at ext md k) block sender (MWasm (WasmExecute contract msg funds)) s = (Ok r, s')"
  obtains j address b c code res m rm r1 where "k = Suc j" "x_addr_validate ext contract = Inr address"
    "funds_paid ext sender address funds (ch_bank s) b"
    "om_get (w_contracts (ch_wasm s)) address = Some c" "code_at (md_wasm md) (cd_code_id c) = Some code"
    "run_cprog (\<lambda>req. r_query (router_at ext md j) block req (s\<lparr>ch_bank := b\<rparr>))
       (ct_execute code (get_env address block) \<lparr>mi_sender = sender, mi_funds = funds\<rparr> msg) (contract_storage s address) = (Ok res, m)"
    "process_at ext (router_at ext md j) (md_wasm md) j block address rm
       (put_contract_storage address m (s\<lparr>ch_bank := b\<rparr>)) = (Ok r1, s')"
proof -
  let ?wk = "md_wasm md"
  obtain j where k: "k = Suc j"
    using assms by (cases k) (simp_all add: idle_router_def no_fuel_def)
  let ?rt = "router_at ext md j"
  from assms k obtain address x s0 res s1 e r1 where address: "x_addr_validate ext contract = Inr address"
      and sent: "wasm_send ?rt block sender (addr_str address) funds s = (Ok x, s0)"
      and call: "call_execute ?rt ?wk block address \<lparr>mi_sender = sender, mi_funds = funds\<rparr> msg s0 = (Ok res, s1)"
      and proc: "process_at ext ?rt ?wk j block address (build_app_response address e res) s1 = (Ok r1, s')"
    by (auto simp: router_execute_def wasm_execute_def execute_wasm_def map_errM_Ok_iff ok_iffs)
  from sent obtain b where b: "funds_paid ext sender address funds (ch_bank s) b" "s0 = s\<lparr>ch_bank := b\<rparr>"
    by (rule wasm_send_paid)
  from call obtain y where "with_storage ?rt ?wk block address
      (\<lambda>contract env. ct_execute contract env \<lparr>mi_sender = sender, mi_funds = funds\<rparr> msg) s0 = (Ok y, s1)"
    by (auto simp: call_execute_def ok_iffs dest!: all_runs_eqD [OF verify_pure(3)])
  then obtain c code m where "om_get (w_contracts (ch_wasm s0)) address = Some c" "code_at ?wk (cd_code_id c) = Some code"
      "run_cprog (\<lambda>req. r_query ?rt block req s0) (ct_execute code (get_env address block)
        \<lparr>mi_sender = sender, mi_funds = funds\<rparr> msg) (contract_storage s0 address) = (Ok y, m)"
      "s1 = put_contract_storage address m s0"
    by (rule with_storage_Ok)
  moreover have "contract_storage s0 = contract_storage s" using b by (simp add: contract_storage_def fun_eq_iff)
  ultimately show thesis using that [OF k address b(1)] proc b(2) by simp
qed

text \<open>After the run, the storages of contracts change only by runs of their own code.\<close>

lemma execute_then_own:
  assumes "app_execute ext n sender (MWasm (WasmExecute (addr_str address) msg [])) a = (Ok r, a')"
    and "om_get (w_contracts (ch_wasm (ap_chain a))) address = Some c"
    and "code_at (md_wasm (ap_modules a)) (cd_code_id c) = Some code" "x_addr_validate ext (addr_str address) = Inr address"
  obtains q res m where "run_cprog q (ct_execute code (get_env address (ap_block a)) \<lparr>mi_sender = sender, mi_funds = []\<rparr> msg)
      (contract_storage (ap_chain a) address) = (Ok res, m)"
    "own_rel (md_wasm (ap_modules a)) (put_contract_storage address m (ap_chain a)) (ap_chain a')" "ap_modules a' = ap_modules a"
proof -
  obtain s where exec: "r_execute (router_at ext (ap_modules a) n) (ap_block a) sender
      (MWasm (WasmExecute (addr_str address) msg [])) (ap_chain a) = (Ok r, s)" and a': "a' = a\<lparr>ap_chain := s\<rparr>"
    using assms(1) by (auto simp: app_execute_eq atomically_def split: prod.splits outcome.splits)
  show thesis
  proof (rule executed_wasm [OF exec])
    fix j x b d code1 res m rm r1
    assume run: "x_addr_validate ext (addr_str address) = Inr x"
      "funds_paid ext sender x [] (ch_bank (ap_chain a)) b"
      "om_get (w_contracts (ch_wasm (ap_chain a))) x = Some d" "code_at (md_wasm (ap_modules a)) (cd_code_id d) = Some code1"
      "run_cprog (\<lambda>req. r_query (router_at ext (ap_modules a) j) (ap_block a) req ((ap_chain a)\<lparr>ch_bank := b\<rparr>))
        (ct_execute code1 (get_env x (ap_block a)) \<lparr>mi_sender = sender, mi_funds = []\<rparr> msg) (contract_storage (ap_chain a) x) = (Ok res, m)"
      "process_at ext (router_at ext (ap_modules a) j) (md_wasm (ap_modules a)) j (ap_block a) x rm
        (put_contract_storage x m ((ap_chain a)\<lparr>ch_bank := b\<rparr>)) = (Ok r1, s)"
    have "own_rel (md_wasm (ap_modules a)) (put_contract_storage x m ((ap_chain a)\<lparr>ch_bank := b\<rparr>)) s"
      using ok_runsD [OF own.process_at_ok [OF own.router_at_ok [OF refl]] run(6)] .
    then show thesis using that [of _ res m] run assms(2-4) a' by (simp add: funds_paid_def)
  qed
qed

section \<open>Promises from the first call on\<close>

context contract_promise begin

text \<open>
  An instance without an administrator: after any history it is still there, with its code, and unless a
  test writes to it its storage is as promised since the end of its \<open>instantiate\<close>.
\<close>

lemma promise_since_start:
  assumes "instantiate_codec ext" "instantiate_contract ext n code_id sender msg funds label None a0 = (Ok address, a)"
    and "keeper_wf (md_wasm (ap_modules a0))" "code_at (md_wasm (ap_modules a0)) code_id = Some code"
    and "(app_step ext E)\<^sup>*\<^sup>* a a1"
  obtains m q res st c where "msg = Inr m"
    "run_cprog q (ct_instantiate code (get_env address (ap_block a0)) \<lparr>mi_sender = sender, mi_funds = funds\<rparr> m)
       (contract_storage (ap_chain a0) address) = (Ok res, st)"
    "address \<notin> E \<Longrightarrow> P st (contract_storage (ap_chain a1) address)"
    "om_get (w_contracts (ch_wasm (ap_chain a1))) address = Some c" "cd_admin c = None"
    "code_at (md_wasm (ap_modules a1)) (cd_code_id c) = Some code"
proof -
  let ?wk = "md_wasm (ap_modules a0)"
  let ?c = "\<lparr>cd_code_id = code_id, cd_creator = sender, cd_admin = None, cd_label = label, cd_created = bl_height (ap_block a0)\<rparr>"
  obtain m k b s2 s' q res st e r0 where m: "msg = Inr m"
      and s2: "s2 = (ap_chain a0)\<lparr>ch_bank := b, ch_wasm := (ch_wasm (ap_chain a0))
        \<lparr>w_contracts := om_insert address ?c (w_contracts (ch_wasm (ap_chain a0)))\<rparr>\<rparr>"
      and run: "run_cprog q (ct_instantiate code (get_env address (ap_block a0)) \<lparr>mi_sender = sender, mi_funds = funds\<rparr> m)
        (contract_storage (ap_chain a0) address) = (Ok res, st)"
      and proc: "process_at ext (router_at ext (ap_modules a0) k) ?wk k (ap_block a0) address (build_app_response address e res)
        (put_contract_storage address st s2) = (Ok r0, s')"
      and a: "a = a0\<lparr>ap_chain := s'\<rparr>"
    by (rule instantiate_contract_Ok [OF assms(1,2)]) (use assms(4) in simp)
  have "own_rel ?wk (put_contract_storage address st s2) s'"
    using ok_runsD [OF own.process_at_ok [OF own.router_at_ok [OF refl]] proc] .
  note own_relD [OF this, of address ?c]
  moreover have "own_step ?wk code_id = entry_run code"
    using assms(4) by (auto simp: own_step_def fun_eq_iff)
  ultimately have c: "om_get (w_contracts (ch_wasm (ap_chain a))) address = Some ?c"
      and P: "P st (contract_storage (ap_chain a) address)"
    using s2 a P_runs by auto
  have wf: "keeper_wf (md_wasm (ap_modules a))" and code: "code_at (md_wasm (ap_modules a)) (cd_code_id ?c) = Some code"
    using assms(3,4) a by simp_all
  note own_code_runs(1,2) [OF assms(5) wf c _ code]
  moreover have "P st (contract_storage (ap_chain a1) address)" if "address \<notin> E"
    by (rule P_trans [OF P promise_kept [OF assms(5) wf c _ code that]]) simp
  ultimately show thesis using that m run by auto
qed

end

end
