(* ===== verification/Transfers.thy ===== *)
theory Transfers
  imports Ibc_Facts Lifecycle
begin

text \<open>
  Token transfers between chains (ICS-20), where the bank and the IBC module meet: what a transfer
  takes from the sender and puts into the packet, and what the timeout of that packet gives back.
\<close>

section \<open>Moving coins always succeeds when they are there\<close>

lemma mint_completes:
  assumes "nb_laws ext" "bank_wf b" "\<exists>c \<in> set amt. c_amount c \<noteq> 0"
    and room: "\<forall>d. held b a d + amount_of amt d < 2 ^ 256"
  shows "\<exists>b'. mint ext a amt b = (Ok (), b')"
proof -
  let ?n = "filter (\<lambda>c. c_amount c \<noteq> 0) amt"
  have n: "normalize_amount amt = Inr ?n" using assms(3) by (auto simp: normalize_amount_Inr filter_empty_conv)
  note norm = get_balance_normalized [OF assms(2), of a]
  obtain zs where zs: "x_nb_add ext (get_balance b a) ?n = Some zs"
    using nb_add_total [OF assms(1) norm, of ?n] room by (auto simp: held_def)
  have "\<forall>d. amount_of zs d < 2 ^ 256"
    using nb_addD [OF assms(1) zs norm] room by (simp add: held_def)
  then obtain ys where "x_nb_normalize ext zs = Some ys" using nb_normalize_total [OF assms(1)] by blast
  then show ?thesis by (simp add: mint_def n zs bindM_reads set_balance_def)
qed

lemma send_completes:
  assumes "nb_laws ext" "bank_wf b" "\<exists>c \<in> set amt. c_amount c \<noteq> 0"
    and funded: "\<forall>d. amount_of amt d \<le> held b src d" and room: "\<forall>d. supply_of b d < 2 ^ 256"
  shows "\<exists>b'. send ext src dst amt b = (Ok (), b')"
proof -
  have held: "held b a d < 2 ^ 256" for a d
    using held_le_supply [OF assms(2)] room le_less_trans by blast
  then have "is_ok (fst (burn ext src amt b))"
    using burn_Err_iff [OF assms(1,2)] assms(3) funded by blast
  then obtain b1 where 1: "burn ext src amt b = (Ok (), b1)"
    by (cases "burn ext src amt b") (auto simp: is_ok_iff)
  have "held b1 dst d + amount_of amt d < 2 ^ 256" for d
    using held_le_supply [OF burn_Ok(3) [OF assms(1,2) 1], of dst d] burn_supply [OF assms(1,2) 1, of d] room
    by (metis add_le_mono1 le_less_trans)
  then obtain b2 where "mint ext dst amt b1 = (Ok (), b2)"
    using mint_completes [OF assms(1) burn_Ok(3) [OF assms(1,2) 1] assms(3)] by blast
  with 1 show ?thesis by (auto simp: send_def thenM_def bindM_def)
qed

lemma send_ok_iff:
  assumes "nb_laws ext" "bank_wf b" "\<forall>d. supply_of b d < 2 ^ 256"
  shows "is_ok (fst (send ext src dst amt b)) \<longleftrightarrow>
    (\<exists>c \<in> set amt. c_amount c \<noteq> 0) \<and> (\<forall>d. amount_of amt d \<le> held b src d)"
proof
  assume "is_ok (fst (send ext src dst amt b))"
  then obtain u b1 where "send ext src dst amt b = (Ok u, b1)"
    by (cases "send ext src dst amt b") (auto simp: is_ok_iff)
  then obtain b2 where "burn ext src amt b = (Ok (), b2)" by (auto simp: send_def ok_iffs)
  from burn_Ok(2,4) [OF assms(1,2) this]
  show "(\<exists>c \<in> set amt. c_amount c \<noteq> 0) \<and> (\<forall>d. amount_of amt d \<le> held b src d)" by blast
next
  assume "(\<exists>c \<in> set amt. c_amount c \<noteq> 0) \<and> (\<forall>d. amount_of amt d \<le> held b src d)"
  then obtain b' where "send ext src dst amt b = (Ok (), b')"
    using send_completes [OF assms(1,2) _ _ assms(3), of amt src dst] by auto
  then show "is_ok (fst (send ext src dst amt b))" by simp
qed

text \<open>Coins that are sent and sent back leave every balance as it was.\<close>

lemma send_and_return:
  assumes "nb_laws ext" "bank_wf b" "send ext src dst amt b = (Ok (), b1)" "send ext dst src amt b1 = (Ok (), b2)"
  shows "held b2 = held b"
proof (intro ext)
  fix x d
  note S = send_Ok [OF assms(1-3)]
  show "held b2 x d = held b x d"
    using S(1) [of x d] send_Ok(1) [OF assms(1) S(3) assms(4), of x d] by (simp split: if_splits)
qed

section \<open>What a transfer does\<close>

text \<open>The packet data of a transfer.\<close>

definition transfer_data :: "chain \<Rightarrow> string \<Rightarrow> addr \<Rightarrow> string \<Rightarrow> coin \<Rightarrow> string option \<Rightarrow> ics20_packet" where
  "transfer_data s channel sender to_address amt memo = \<lparr>ics_amount = c_amount amt,
     ics_denom = optional_unwrap_ibc_denom s (c_denom amt) channel, ics_receiver = to_address,
     ics_sender = addr_str sender, ics_memo = memo\<rparr>"

text \<open>The packet of a transfer.\<close>

definition outgoing :: "channel_info \<Rightarrow> string \<Rightarrow> binary \<Rightarrow> ibc_timeout \<Rightarrow> ibc_packet" where
  "outgoing c channel data timeout = \<lparr>pk_data = data, pk_src = \<lparr>ep_port = ''transfer'', ep_channel = channel\<rparr>,
     pk_dest = ic_counterparty (ci_info c), pk_sequence = ci_next_packet c, pk_timeout = timeout\<rparr>"

text \<open>The chain after the packet has been sent and the coins are with the lock account.\<close>

definition after_transfer :: "channel_info \<Rightarrow> string \<Rightarrow> binary \<Rightarrow> ibc_timeout \<Rightarrow> bank_state \<Rightarrow> chain \<Rightarrow> chain" where
  "after_transfer c channel data timeout b s = s\<lparr>ch_bank := b, ch_ibc := (ch_ibc s)\<lparr>
     i_send := om_insert (''transfer'', channel, ci_next_packet c) (outgoing c channel data timeout) (i_send (ch_ibc s)),
     i_channels := om_insert (''transfer'', channel) (c\<lparr>ci_next_packet := ci_next_packet c + 1\<rparr>) (i_channels (ch_ibc s))\<rparr>\<rparr>"

lemma after_transfer_parts [simp]:
  "ch_bank (after_transfer c ch d t k s) = k"
  "om_get (i_channels (ch_ibc (after_transfer c ch d t k s))) (''transfer'', ch) = Some (c\<lparr>ci_next_packet := ci_next_packet c + 1\<rparr>)"
  "i_send (ch_ibc (after_transfer c ch d t k s))
     = om_insert (''transfer'', ch, ci_next_packet c) (outgoing c ch d t) (i_send (ch_ibc s))"
  "i_receive (ch_ibc (after_transfer c ch d t k s)) = i_receive (ch_ibc s)"
  "i_send_ack (ch_ibc (after_transfer c ch d t k s)) = i_send_ack (ch_ibc s)"
  "i_timeout (ch_ibc (after_transfer c ch d t k s)) = i_timeout (ch_ibc s)"
  "ch_ibc_denoms (after_transfer c ch d t k s) = ch_ibc_denoms s"
  by (simp_all add: after_transfer_def)

lemma transfer_Ok:
  assumes "transfer ext (router_at ext md k) block sender channel to_address amt timeout memo s = (Ok r, s')"
    and "ibc_wf (ch_ibc s)"
  obtains b c data where "send ext sender lock_addr [amt] (ch_bank s) = (Ok (), b)"
    "om_get (i_channels (ch_ibc s)) (''transfer'', channel) = Some c"
    "x_to_json ext (JIcs20 (transfer_data s channel sender to_address amt memo)) = Inr data"
    "s' = after_transfer c channel data timeout b s"
proof -
  from assms(1) obtain r1 s1 data seq r2 where
      1: "r_execute (router_at ext md k) block sender (MBank (BankSend ''ibc_bank_lock_module'' [amt])) s = (Ok r1, s1)"
    and d: "x_to_json ext (JIcs20 (transfer_data s1 channel sender to_address amt memo)) = Inr data"
    and 2: "send_packet_raw ext ''transfer'' channel data timeout s1 = (Ok (seq, r2), s')"
    by (auto simp: transfer_def ok_iffs transfer_data_def split: prod.splits)
  from 1 obtain b where b: "send ext sender lock_addr [amt] (ch_bank s) = (Ok (), b)" "s1 = s\<lparr>ch_bank := b\<rparr>"
    by (rule bank_send_via_router) (simp add: lock_addr_def IBC_LOCK_MODULE_ADDRESS_def)
  have wf: "ibc_wf (ch_ibc s1)" using assms(2) b by simp
  obtain c where c: "om_get (i_channels (ch_ibc s1)) (''transfer'', channel) = Some c"
    using 2 by (cases "om_get (i_channels (ch_ibc s1)) (''transfer'', channel)")
      (auto simp: send_packet_raw_def in_ibc_def zoom_def bindM_load)
  note eq = send_packet_eq [OF wf c, of ext data timeout]
  have "transfer_data s1 channel sender to_address amt memo = transfer_data s channel sender to_address amt memo"
    by (simp add: transfer_data_def optional_unwrap_ibc_denom_def b)
  with that [OF b(1), of c data] c d eq 2 b(2) show ?thesis
    by (auto simp: after_transfer_def outgoing_def split: if_splits)
qed

lemma app_transfer_Ok:
  assumes "app_execute ext n sender (MIbc (IbcTransfer channel to_address amt timeout memo)) a = (Ok r, a')"
    and "ibc_wf (ch_ibc (ap_chain a))"
  obtains b c data where "send ext sender lock_addr [amt] (ch_bank (ap_chain a)) = (Ok (), b)"
    "om_get (i_channels (ch_ibc (ap_chain a))) (''transfer'', channel) = Some c"
    "x_to_json ext (JIcs20 (transfer_data (ap_chain a) channel sender to_address amt memo)) = Inr data"
    "a' = a\<lparr>ap_chain := after_transfer c channel data timeout b (ap_chain a)\<rparr>"
proof -
  from assms(1) obtain k s where a': "a' = a\<lparr>ap_chain := s\<rparr>"
      and t: "transfer ext (router_at ext (ap_modules a) k) (ap_block a) sender channel to_address amt timeout memo (ap_chain a) = (Ok r, s)"
    by (rule app_execute_Ok) (simp add: router_execute_def ibc_execute_def)
  from transfer_Ok [OF t assms(2)] that a' show ?thesis by metis
qed

section \<open>What the timeout of a packet does\<close>

lemma transfer_port [simp]: "parse_port ''transfer'' = Inr PortBank"
  by (simp add: parse_port_def BANK_MODULE_PORT_def)

text \<open>A packet of the transfer port that has been sent and is still open.\<close>

lemma timeout_reaches_bank:
  assumes "ibc_wf (ch_ibc s)" "om_get (i_send (ch_ibc s)) (''transfer'', channel, q) = Some original"
    and "om_get (i_send_ack (ch_ibc s)) (''transfer'', channel, q) = None"
    and "om_get (i_timeout (ch_ibc s)) (''transfer'', channel, q) = None"
    and "src_key p = (''transfer'', channel, q)"
    and "bank_packet_timeout ext (router_at ext md j) block \<lparr>ptm_packet = original, ptm_relayer = RELAYER_ADDR\<rparr>
      (s\<lparr>ch_ibc := (ch_ibc s)\<lparr>i_timeout := om_insert (''transfer'', channel, q) True (i_timeout (ch_ibc s))\<rparr>\<rparr>) = (r, s')"
  shows "(case r of
      Ok (RespBasic events) \<Rightarrow> \<exists>x. timeout_packet ext (router_at ext md (Suc j)) block p s = (Ok x, s')
    | Err e \<Rightarrow> \<exists>s2. timeout_packet ext (router_at ext md (Suc j)) block p s = (Err e, s2)
    | _ \<Rightarrow> True)"
proof -
  from sent_channel [OF assms(1,2)] obtain c where c: "om_get (i_channels (ch_ibc s)) (''transfer'', channel) = Some c" by auto
  have key: "ep_port (pk_src p) = ''transfer''" "ep_channel (pk_src p) = channel"
    using assms(5) by (simp_all add: src_key_def)
  have "ep_port (ic_endpoint (ci_info c)) = ''transfer''" using named [OF assms(1) c] by simp
  then show ?thesis using c assms(2-6) key
    by (auto simp: timeout_packet_def record_timeout_def in_ibc_def zoom_def bindM_def thenM_def load_apply reads_def
        guard_def modifies_def ret_def lift_result_def module_of_port_def router_ibc_def atomically_def
        split: outcome.splits ibc_response.splits)
qed

lemma locked_coin_None:
  assumes "bank_wf (ch_bank s)"
  shows "locked_coin d s = None \<longleftrightarrow> held (ch_bank s) lock_addr d = 0"
proof (cases "locked_coin d s")
  case None
  then show ?thesis using normalized_find [OF get_balance_normalized [OF assms, of lock_addr], of d]
    by (simp add: locked_coin_def held_def)
next
  case (Some c)
  then have "c \<in> set (get_balance (ch_bank s) lock_addr)" by (auto simp: locked_coin_def find_Some_iff)
  then have "c_amount c \<noteq> 0" using get_balance_normalized [OF assms, of lock_addr] by (simp add: normalized_def)
  then have "unat (c_amount c) \<noteq> 0" by (simp add: unat_eq_0)
  with locked_coin_Some(2) [OF assms Some] Some show ?thesis by simp
qed

text \<open>The refund: what was escrowed goes back, if the escrow holds it and it fits into 128 bits.\<close>

lemma bank_timeout_refunds:
  assumes "nb_laws ext" "bank_wf (ch_bank s)" "\<forall>d. supply_of (ch_bank s) d < 2 ^ 256"
    and "x_parse_ics20 ext (pk_data (ptm_packet m)) = Inr q" "ics_memo q = None"
    and "x_addr_validate ext (ics_sender q) = Inr sender"
    and "0 < unat (ics_amount q)" "unat (ics_amount q) < 2 ^ 128"
    and "unat (ics_amount q) \<le> held (ch_bank s) lock_addr (ics_denom q)"
  obtains b where "send ext lock_addr sender [\<lparr>c_denom = ics_denom q, c_amount = ics_amount q\<rparr>] (ch_bank s) = (Ok (), b)"
    "bank_packet_timeout ext router block m s = (Ok (RespBasic []), s\<lparr>ch_bank := b\<rparr>)"
proof -
  let ?amt = "[\<lparr>c_denom = ics_denom q, c_amount = ics_amount q\<rparr>]"
  have "\<exists>c \<in> set ?amt. c_amount c \<noteq> 0" using assms(7) by auto
  moreover have "\<forall>d. amount_of ?amt d \<le> held (ch_bank s) lock_addr d" using assms(9) by simp
  ultimately obtain b where b: "send ext lock_addr sender ?amt (ch_bank s) = (Ok (), b)"
    using send_completes [OF assms(1,2)] assms(3) by blast
  obtain c where c: "locked_coin (ics_denom q) s = Some c"
    using locked_coin_None [OF assms(2), of "ics_denom q"] assms(7,9) by fastforce
  have le: "\<not> c_amount c < ics_amount q"
    using locked_coin_Some(2) [OF assms(2) c] assms(9) by (simp add: word_less_nat_alt)
  have "to_u128 (ics_amount q) = Inr (ics_amount q)" using assms(8) by (simp add: to_u128_Inr)
  then have "bank_packet_timeout ext router block m s = (Ok (RespBasic []), s\<lparr>ch_bank := b\<rparr>)"
    using assms(4-6) c le b
    by (simp add: bank_packet_timeout_def parse_ibc_hooks_callback_memo_def in_bank_def zoom_def bindM_def
        thenM_def reads_def lift_result_def ret_def)
  with b that show ?thesis by blast
qed

lemma bank_timeout_unknown:
  assumes "bank_wf (ch_bank s)" "x_parse_ics20 ext (pk_data (ptm_packet m)) = Inr q"
    and "held (ch_bank s) lock_addr (ics_denom q) = 0"
  shows "bank_packet_timeout ext router block m s
    = (Err (StdMsg ''Funds refund after a timeout, can't timeout a transfer that was not initiated''), s)"
  using assms(2,3) locked_coin_None [OF assms(1), of "ics_denom q"]
  by (simp add: bank_packet_timeout_def bindM_def thenM_def reads_def lift_result_def ret_def fail_def)

section \<open>Properties\<close>

text \<open>\<open>serde\<close> reads back the ICS-20 packet it has written.\<close>

definition ics20_codec :: "ext \<Rightarrow> bool" where
  "ics20_codec ext \<longleftrightarrow> (\<forall>q d. x_to_json ext (JIcs20 q) = Inr d \<longrightarrow> x_parse_ics20 ext d = Inr q)"

text \<open>
  C23. A transfer escrows exactly what its packet says. When \<open>IbcMsg::Transfer\<close> succeeds, the sender
  held the amount and it has moved to the lock account (no other account and no supply changes), and
  the channel has sent one more packet, under its next sequence number, whose data is the transfer's
  amount, sender, receiver and memo, with the denomination in its original name exactly if it had been
  received through this channel; no other packet, and nothing else the bank records, changes.
\<close>
theorem transfer_escrows:
  assumes "nb_laws ext" "bank_wf (ch_bank (ap_chain a))" "ibc_wf (ch_ibc (ap_chain a))" "ics20_codec ext"
    and "app_execute ext n sender (MIbc (IbcTransfer channel to_address amt timeout memo)) a = (Ok r, a')"
  shows "c_amount amt \<noteq> 0
    \<and> (\<forall>x d. held (ch_bank (ap_chain a')) x d + (if x = sender then amount_of [amt] d else 0)
           = held (ch_bank (ap_chain a)) x d + (if x = lock_addr then amount_of [amt] d else 0))
    \<and> supply_of (ch_bank (ap_chain a')) = supply_of (ch_bank (ap_chain a))
    \<and> ch_ibc_denoms (ap_chain a') = ch_ibc_denoms (ap_chain a)
    \<and> (\<exists>c packet. om_get (i_channels (ch_ibc (ap_chain a))) (''transfer'', channel) = Some c
        \<and> (\<forall>x. om_get (i_send (ch_ibc (ap_chain a'))) x
             = (if x = (''transfer'', channel, ci_next_packet c) then Some packet
                else om_get (i_send (ch_ibc (ap_chain a))) x))
        \<and> pk_dest packet = ic_counterparty (ci_info c) \<and> pk_timeout packet = timeout
        \<and> x_parse_ics20 ext (pk_data packet) = Inr \<lparr>ics_amount = c_amount amt,
            ics_denom = (case om_get (ch_ibc_denoms (ap_chain a)) (c_denom amt) of
               Some remote \<Rightarrow> if id_channel remote = channel then id_original remote else c_denom amt
             | None \<Rightarrow> c_denom amt),
            ics_receiver = to_address, ics_sender = addr_str sender, ics_memo = memo\<rparr>)"
proof -
  from app_transfer_Ok [OF assms(5,3)] obtain b c data where
      b: "send ext sender lock_addr [amt] (ch_bank (ap_chain a)) = (Ok (), b)"
    and c: "om_get (i_channels (ch_ibc (ap_chain a))) (''transfer'', channel) = Some c"
    and d: "x_to_json ext (JIcs20 (transfer_data (ap_chain a) channel sender to_address amt memo)) = Inr data"
    and a': "a' = a\<lparr>ap_chain := after_transfer c channel data timeout b (ap_chain a)\<rparr>"
    by metis
  let ?packet = "outgoing c channel data timeout"
  have parse: "x_parse_ics20 ext data = Inr (transfer_data (ap_chain a) channel sender to_address amt memo)"
    using assms(4) d by (simp add: ics20_codec_def)
  from b obtain b1 where "burn ext sender [amt] (ch_bank (ap_chain a)) = (Ok (), b1)"
    by (auto simp: send_def ok_iffs)
  from burn_Ok(4) [OF assms(1,2) this] have pos: "c_amount amt \<noteq> 0" by simp
  show ?thesis
    using send_Ok(1) [OF assms(1,2) b] send_supply [OF assms(1,2) b] pos
    by (intro conjI exI [where x = c] exI [where x = ?packet])
      (simp_all add: a' c parse outgoing_def fun_eq_iff transfer_data_def optional_unwrap_ibc_denom_def split: option.split)
qed

section \<open>A transfer that runs\<close>

text \<open>Carol holds four atom, of a chain of her own or (when \<open>d\<close> says so) received through channel 0.\<close>

definition demo_voucher :: ics20_packet where
  "demo_voucher = demo_ics20\<lparr>ics_denom := ''uatom''\<rparr>"

definition transfer_ext :: ext where
  "transfer_ext = demo_ext\<lparr>
     x_to_json := (\<lambda>doc. case doc of
         JIcs20 q \<Rightarrow> if q = demo_ics20 then Inr [0] else if q = demo_voucher then Inr [1] else Inl (ExternalError ''json'')
       | _ \<Rightarrow> Inl (ExternalError ''json'')),
     x_parse_ics20 := (\<lambda>b. if b = [0] then Inr demo_ics20 else if b = [1] then Inr demo_voucher else Inl (ExternalError ''json''))\<rparr>"

definition carol_app :: "(string, ibc_denom) omap \<Rightarrow> app" where
  "carol_app d = (demo_app transfer_ext)\<lparr>ap_chain := empty_chain\<lparr>ch_ibc := demo_ibc, ch_ibc_denoms := d,
     ch_bank := \<lparr>b_balances = [(Addr ''carol'', [\<lparr>c_denom = ''atom'', c_amount = 4\<rparr>])]\<rparr>\<rparr>\<rparr>"

lemma nb_laws_transfer [simp]: "nb_laws transfer_ext"
  by (subst nb_laws_cong [where f = demo_ext]) (simp_all add: transfer_ext_def)

lemma transfer_ext_codec: "ics20_codec transfer_ext"
  by (auto simp: ics20_codec_def transfer_ext_def demo_voucher_def split: if_splits)

lemma transfer_ext_fields:
  "x_addr_validate transfer_ext ''carol'' = Inr (Addr ''carol'')"
  "x_nb_add transfer_ext = (\<lambda>xs ys. nb_merge [] (xs @ ys))" "x_nb_normalize transfer_ext = nb_merge []"
  "x_nb_sub transfer_ext = nb_sub" "x_to_json transfer_ext (JIcs20 demo_ics20) = Inr [0]"
  "x_to_json transfer_ext (JIcs20 demo_voucher) = Inr [1]"
  by (simp_all add: transfer_ext_def demo_ext_def demo_voucher_def demo_ics20_def)

lemma carol_app_parts:
  "ap_chain (carol_app d) = empty_chain\<lparr>ch_ibc := demo_ibc, ch_ibc_denoms := d,
     ch_bank := \<lparr>b_balances = [(Addr ''carol'', [\<lparr>c_denom = ''atom'', c_amount = 4\<rparr>])]\<rparr>\<rparr>"
  by (simp add: carol_app_def)

lemma carol_wf: "bank_wf (ch_bank (ap_chain (carol_app d)))" "ibc_wf (ch_ibc (ap_chain (carol_app d)))"
  by (simp_all add: carol_app_parts bank_wf_def om_wf_def normalized_def demo_ibc_wf)

abbreviation carol_transfers :: cosmos_msg where
  "carol_transfers \<equiv> MIbc (IbcTransfer ''channel-0'' ''bob'' \<lparr>c_denom = ''atom'', c_amount = 4\<rparr>
     \<lparr>to_block = None, to_timestamp = None\<rparr> None)"

lemma carol_transfers_runs:
  assumes "optional_unwrap_ibc_denom (ap_chain (carol_app d)) ''atom'' ''channel-0'' \<in> {''atom'', ''uatom''}"
  obtains r a where "app_execute transfer_ext 2 (Addr ''carol'') carol_transfers (carol_app d) = (Ok r, a)"
proof -
  let ?s = "ap_chain (carol_app d)" and ?amt = "\<lparr>c_denom = ''atom'', c_amount = 4 :: uint256\<rparr>"
    and ?to = "\<lparr>to_block = None, to_timestamp = None\<rparr>"
  obtain b where b: "send transfer_ext (Addr ''carol'') (Addr ''ibc_bank_lock_module'') [?amt] (ch_bank ?s) = (Ok (), b)"
    by (simp add: carol_app_parts send_def burn_def mint_def set_balance_def transfer_ext_fields normalize_amount_def
        get_balance_def proc_defs lift_result_def less_addr_def)
  obtain data where d: "x_to_json transfer_ext (JIcs20 (transfer_data ?s ''channel-0'' (Addr ''carol'') ''bob'' ?amt None)) = Inr data"
  proof -
    have "transfer_data ?s ''channel-0'' (Addr ''carol'') ''bob'' ?amt None = demo_ics20
      \<or> transfer_data ?s ''channel-0'' (Addr ''carol'') ''bob'' ?amt None = demo_voucher"
      using assms by (auto simp: transfer_data_def demo_ics20_def demo_voucher_def)
    then show ?thesis using that transfer_ext_fields(5,6) by metis
  qed
  have "ibc_wf (ch_ibc (?s\<lparr>ch_bank := b\<rparr>))" "om_get (i_channels (ch_ibc (?s\<lparr>ch_bank := b\<rparr>))) (''transfer'', ''channel-0'') = Some demo_channel"
    using carol_wf(2) [of d] by (simp_all add: carol_app_parts demo_ibc_def)
  from send_packet_eq [OF this, of transfer_ext data ?to] obtain r s where
      "send_packet_raw transfer_ext ''transfer'' ''channel-0'' data ?to (?s\<lparr>ch_bank := b\<rparr>) = (Ok (2, r), s)"
    by (auto simp: demo_channel_def)
  with b d show ?thesis using that
    by (simp add: app_execute_def execute_multi_def on_chain_def zoom_def atomically_def numeral_2_eq_2 router_execute_def
        ibc_execute_def transfer_def bank_execute_def in_bank_def transfer_data_def proc_defs lift_result_def Let_def
        optional_unwrap_ibc_denom_def)
qed

theorem transfer_escrows_witness:
  "\<exists>r a. app_execute transfer_ext 2 (Addr ''carol'') carol_transfers (carol_app []) = (Ok r, a)
     \<and> held (ch_bank (ap_chain a)) lock_addr ''atom'' = 4"
proof -
  have "optional_unwrap_ibc_denom (ap_chain (carol_app [])) ''atom'' ''channel-0'' = ''atom''"
    by (simp add: carol_app_parts optional_unwrap_ibc_denom_def)
  then obtain r a where run: "app_execute transfer_ext 2 (Addr ''carol'') carol_transfers (carol_app []) = (Ok r, a)"
    by (metis carol_transfers_runs insertI1)
  have "held (ch_bank (ap_chain (carol_app []))) lock_addr ''atom'' = 0"
    by (simp add: carol_app_parts held_def get_balance_def lock_addr_def IBC_LOCK_MODULE_ADDRESS_def)
  then have "held (ch_bank (ap_chain a)) lock_addr ''atom'' = 4"
    using conjunct1 [OF conjunct2 [OF transfer_escrows [OF nb_laws_transfer carol_wf transfer_ext_codec run]],
        THEN spec, THEN spec, of lock_addr "''atom''"]
    by (simp add: lock_addr_def IBC_LOCK_MODULE_ADDRESS_def)
  with run show ?thesis by blast
qed

section \<open>Timing out a transfer\<close>

lemma app_timeout:
  "timeout_packet ext (router_at ext (ap_modules a) n) (ap_block a) p (ap_chain a) = (Ok r, s) \<Longrightarrow>
     app_sudo ext (Suc n) (SudoIbc (RTimeout p)) a = (Ok r, a\<lparr>ap_chain := s\<rparr>)"
  "timeout_packet ext (router_at ext (ap_modules a) n) (ap_block a) p (ap_chain a) = (Err e, s) \<Longrightarrow>
     app_sudo ext (Suc n) (SudoIbc (RTimeout p)) a = (Err e, a)"
  by (simp_all add: app_sudo_eq router_sudo_def ibc_sudo_def atomically_def)

text \<open>The state the bank finds when the packet just sent times out.\<close>

lemma timeout_after_transfer:
  assumes "nb_laws ext" "bank_wf (ch_bank (ap_chain a))" "ibc_wf (ch_ibc (ap_chain a))" "ics20_codec ext"
    and "app_execute ext n sender (MIbc (IbcTransfer channel to_address amt timeout None)) a = (Ok r, a1)"
    and "om_get (i_channels (ch_ibc (ap_chain a))) (''transfer'', channel) = Some c"
    and "src_key p = (''transfer'', channel, ci_next_packet c)"
    and "q = transfer_data (ap_chain a) channel sender to_address amt None"
  obtains packet t where "send ext sender lock_addr [amt] (ch_bank (ap_chain a)) = (Ok (), ch_bank (ap_chain a1))"
    "x_parse_ics20 ext (pk_data packet) = Inr q" "ch_bank t = ch_bank (ap_chain a1)"
    "\<forall>m events s'. bank_packet_timeout ext (router_at ext (ap_modules a1) m) (ap_block a1)
        \<lparr>ptm_packet = packet, ptm_relayer = RELAYER_ADDR\<rparr> t = (Ok (RespBasic events), s') \<longrightarrow>
      (\<exists>x. app_sudo ext (Suc (Suc m)) (SudoIbc (RTimeout p)) a1 = (Ok x, a1\<lparr>ap_chain := s'\<rparr>))"
    "\<forall>m e s'. bank_packet_timeout ext (router_at ext (ap_modules a1) m) (ap_block a1)
        \<lparr>ptm_packet = packet, ptm_relayer = RELAYER_ADDR\<rparr> t = (Err e, s') \<longrightarrow>
      app_sudo ext (Suc (Suc m)) (SudoIbc (RTimeout p)) a1 = (Err e, a1)"
proof -
  from app_transfer_Ok [OF assms(5,3)] obtain b c' data where
      b: "send ext sender lock_addr [amt] (ch_bank (ap_chain a)) = (Ok (), b)"
    and c': "om_get (i_channels (ch_ibc (ap_chain a))) (''transfer'', channel) = Some c'"
    and d: "x_to_json ext (JIcs20 (transfer_data (ap_chain a) channel sender to_address amt None)) = Inr data"
    and a1: "a1 = a\<lparr>ap_chain := after_transfer c' channel data timeout b (ap_chain a)\<rparr>"
    by metis
  have [simp]: "c' = c" using c' assms(6) by simp
  let ?x = "(''transfer'', channel, ci_next_packet c)"
  let ?packet = "outgoing c channel data timeout"
  let ?t = "(ap_chain a1)\<lparr>ch_ibc := (ch_ibc (ap_chain a1))\<lparr>i_timeout := om_insert ?x True (i_timeout (ch_ibc (ap_chain a1)))\<rparr>\<rparr>"
  obtain all where "execute_multi ext n sender [MIbc (IbcTransfer channel to_address amt timeout None)] a = (Ok all, a1)"
    using assms(5) by (auto simp: app_execute_def ok_iffs)
  then have "(app_step ext E)\<^sup>*\<^sup>* a a1"
    by (intro r_into_rtranclp app_step.messages message_step.run_messages)
  then have wf: "ibc_wf (ch_ibc (ap_chain a1))"
    using ledger_history.app_steps_rel [OF _ TrueI] assms(3) by (metis ledger_rel_def ibc_step_def)
  have "om_get (i_send (ch_ibc (ap_chain a))) ?x = None" using next_packet_unsent [OF assms(3,6)] .
  then have open_packet: "om_get (i_send_ack (ch_ibc (ap_chain a))) ?x = None" "om_get (i_timeout (ch_ibc (ap_chain a))) ?x = None"
    using fates [OF assms(3), of ?x] by fastforce+
  have parts: "om_get (i_send (ch_ibc (ap_chain a1))) ?x = Some ?packet"
    "om_get (i_send_ack (ch_ibc (ap_chain a1))) ?x = None" "om_get (i_timeout (ch_ibc (ap_chain a1))) ?x = None"
    "ch_bank (ap_chain a1) = b"
    using open_packet by (simp_all add: a1)
  have "x_parse_ics20 ext data = Inr q" using assms(4,8) d by (simp add: ics20_codec_def)
  then have data: "x_parse_ics20 ext (pk_data ?packet) = Inr q" by (simp add: outgoing_def)
  have bank: "ch_bank ?t = ch_bank (ap_chain a1)" by simp
  show ?thesis
  proof (rule that [OF b [folded parts(4)] data bank], safe)
    fix m events s'
    assume "bank_packet_timeout ext (router_at ext (ap_modules a1) m) (ap_block a1)
        \<lparr>ptm_packet = ?packet, ptm_relayer = RELAYER_ADDR\<rparr> ?t = (Ok (RespBasic events), s')"
    from timeout_reaches_bank [OF wf parts(1-3) assms(7) this]
    show "\<exists>x. app_sudo ext (Suc (Suc m)) (SudoIbc (RTimeout p)) a1 = (Ok x, a1\<lparr>ap_chain := s'\<rparr>)"
      unfolding outcome.case ibc_response.case using app_timeout(1) by fast
  next
    fix m e s'
    assume "bank_packet_timeout ext (router_at ext (ap_modules a1) m) (ap_block a1)
        \<lparr>ptm_packet = ?packet, ptm_relayer = RELAYER_ADDR\<rparr> ?t = (Err e, s')"
    from timeout_reaches_bank [OF wf parts(1-3) assms(7) this]
    show "app_sudo ext (Suc (Suc m)) (SudoIbc (RTimeout p)) a1 = (Err e, a1)"
      unfolding outcome.case using app_timeout(2) by fast
  qed
qed

text \<open>
  C22. A transfer of the chain's own coins can always be taken back by a timeout. After a successful
  \<open>IbcMsg::Transfer\<close> (without a memo, of less than 2^128, in a denomination that goes out under its own
  name, on a chain whose supplies fit into 256 bits) the timeout of that packet succeeds - at once,
  whether or not its deadline has passed - and every account holds what it held before the transfer.
\<close>
theorem timeout_refunds_transfer:
  assumes "nb_laws ext" "bank_wf (ch_bank (ap_chain a))" "ibc_wf (ch_ibc (ap_chain a))" "ics20_codec ext"
    and "app_execute ext n sender (MIbc (IbcTransfer channel to_address amt timeout None)) a = (Ok r, a1)"
    and "om_get (i_channels (ch_ibc (ap_chain a))) (''transfer'', channel) = Some c"
    and "src_key p = (''transfer'', channel, ci_next_packet c)"
    and "optional_unwrap_ibc_denom (ap_chain a) (c_denom amt) channel = c_denom amt"
    and "x_addr_validate ext (addr_str sender) = Inr sender"
    and "unat (c_amount amt) < 2 ^ 128" "\<forall>d. supply_of (ch_bank (ap_chain a)) d < 2 ^ 256"
  shows "\<exists>r2 a2. app_sudo ext (Suc (Suc m)) (SudoIbc (RTimeout p)) a1 = (Ok r2, a2)
    \<and> held (ch_bank (ap_chain a2)) = held (ch_bank (ap_chain a))"
proof -
  define q where "q = transfer_data (ap_chain a) channel sender to_address amt None"
  then have q: "ics_amount q = c_amount amt" "ics_denom q = c_denom amt" "ics_sender q = addr_str sender" "ics_memo q = None"
    using assms(8) by (simp_all add: transfer_data_def)
  obtain packet t where
      1: "send ext sender lock_addr [amt] (ch_bank (ap_chain a)) = (Ok (), ch_bank (ap_chain a1))"
    and parse: "x_parse_ics20 ext (pk_data packet) = Inr q" and t: "ch_bank t = ch_bank (ap_chain a1)"
    and run: "\<forall>m events s'. bank_packet_timeout ext (router_at ext (ap_modules a1) m) (ap_block a1)
        \<lparr>ptm_packet = packet, ptm_relayer = RELAYER_ADDR\<rparr> t = (Ok (RespBasic events), s') \<longrightarrow>
      (\<exists>x. app_sudo ext (Suc (Suc m)) (SudoIbc (RTimeout p)) a1 = (Ok x, a1\<lparr>ap_chain := s'\<rparr>))"
    and errs: "\<forall>m e s'. bank_packet_timeout ext (router_at ext (ap_modules a1) m) (ap_block a1)
        \<lparr>ptm_packet = packet, ptm_relayer = RELAYER_ADDR\<rparr> t = (Err e, s') \<longrightarrow>
      app_sudo ext (Suc (Suc m)) (SudoIbc (RTimeout p)) a1 = (Err e, a1)"
    by (rule timeout_after_transfer [OF assms(1-7) q_def])
  let ?m = "\<lparr>ptm_packet = packet, ptm_relayer = RELAYER_ADDR\<rparr>"
  note S = send_Ok [OF assms(1,2) 1]
  have room: "\<forall>d. supply_of (ch_bank t) d < 2 ^ 256"
    using send_supply [OF assms(1,2) 1] assms(11) t by simp
  from 1 obtain b1 where "burn ext sender [amt] (ch_bank (ap_chain a)) = (Ok (), b1)" by (auto simp: send_def ok_iffs)
  from burn_Ok(4) [OF assms(1,2) this] have pos: "0 < unat (c_amount amt)" by (simp add: unat_gt_0)
  have "unat (c_amount amt) \<le> held (ch_bank (ap_chain a1)) lock_addr (c_denom amt)"
    using S(1) [of lock_addr "c_denom amt"] S(2) [of "c_denom amt"] by (auto split: if_splits)
  with q t have "unat (ics_amount q) \<le> held (ch_bank t) lock_addr (ics_denom q)" by simp
  moreover have "bank_wf (ch_bank t)" using S(3) t by simp
  moreover have "x_parse_ics20 ext (pk_data (ptm_packet ?m)) = Inr q" using parse by simp
  moreover have "x_addr_validate ext (ics_sender q) = Inr sender" "0 < unat (ics_amount q)" "unat (ics_amount q) < 2 ^ 128"
    using assms(9,10) q pos by simp_all
  ultimately obtain b where "send ext lock_addr sender [\<lparr>c_denom = ics_denom q, c_amount = ics_amount q\<rparr>] (ch_bank t) = (Ok (), b)"
      and T: "bank_packet_timeout ext (router_at ext (ap_modules a1) m) (ap_block a1) ?m t = (Ok (RespBasic []), t\<lparr>ch_bank := b\<rparr>)"
    using q(4) by (metis bank_timeout_refunds [OF assms(1) _ room])
  then have 2: "send ext lock_addr sender [amt] (ch_bank (ap_chain a1)) = (Ok (), b)"
    using q t by (cases amt) simp
  from run [rule_format, OF T] obtain x where "app_sudo ext (Suc (Suc m)) (SudoIbc (RTimeout p)) a1 = (Ok x, a1\<lparr>ap_chain := t\<lparr>ch_bank := b\<rparr>\<rparr>)" ..
  moreover have "held b = held (ch_bank (ap_chain a))" by (rule send_and_return [OF assms(1,2) 1 2])
  ultimately show ?thesis by auto
qed

theorem timeout_refunds_transfer_witness:
  "\<exists>r a r2 a2. app_execute transfer_ext 2 (Addr ''carol'') carol_transfers (carol_app []) = (Ok r, a)
     \<and> app_sudo transfer_ext 2 (SudoIbc (RTimeout (demo_packet None\<lparr>pk_sequence := 2\<rparr>))) a = (Ok r2, a2)
     \<and> held (ch_bank (ap_chain a2)) = held (ch_bank (ap_chain (carol_app [])))"
proof -
  have u: "optional_unwrap_ibc_denom (ap_chain (carol_app [])) ''atom'' ''channel-0'' = ''atom''"
    by (simp add: carol_app_parts optional_unwrap_ibc_denom_def)
  then obtain r a where run: "app_execute transfer_ext 2 (Addr ''carol'') carol_transfers (carol_app []) = (Ok r, a)"
    by (metis carol_transfers_runs insertI1)
  have c: "om_get (i_channels (ch_ibc (ap_chain (carol_app [])))) (''transfer'', ''channel-0'') = Some demo_channel"
    by (simp add: carol_app_parts demo_ibc_def)
  have "supply_of (ch_bank (ap_chain (carol_app []))) d = (if d = ''atom'' then 4 else 0)" for d
    by (simp add: carol_app_parts supply_of_def om_sum_def)
  then have room: "\<forall>d. supply_of (ch_bank (ap_chain (carol_app []))) d < 2 ^ 256" by simp
  have two: "2 = Suc (Suc 0)" by simp
  have "\<exists>r2 a2. app_sudo transfer_ext (Suc (Suc 0)) (SudoIbc (RTimeout (demo_packet None\<lparr>pk_sequence := 2\<rparr>))) a = (Ok r2, a2)
     \<and> held (ch_bank (ap_chain a2)) = held (ch_bank (ap_chain (carol_app [])))"
    using timeout_refunds_transfer [OF nb_laws_transfer carol_wf transfer_ext_codec run c, of "demo_packet None\<lparr>pk_sequence := 2\<rparr>" 0]
      u room
    by (simp add: src_key_def demo_packet_def demo_channel_def transfer_ext_fields)
  with run show ?thesis unfolding two by blast
qed

text \<open>
  C27. A voucher that is sent back and times out is lost. The packet names the coin as the other chain
  knows it, and the refund looks for that name in the lock account, where the voucher lies under its
  local name: unless the lock account happens to hold coins of the other name, every timeout of the
  packet fails with the error for "a transfer that was not initiated", and the sender stays without the
  coins.
\<close>
theorem timeout_loses_voucher:
  assumes "nb_laws ext" "bank_wf (ch_bank (ap_chain a))" "ibc_wf (ch_ibc (ap_chain a))" "ics20_codec ext"
    and "app_execute ext n sender (MIbc (IbcTransfer channel to_address amt timeout None)) a = (Ok r, a1)"
    and "om_get (i_channels (ch_ibc (ap_chain a))) (''transfer'', channel) = Some c"
    and "src_key p = (''transfer'', channel, ci_next_packet c)"
    and "om_get (ch_ibc_denoms (ap_chain a)) (c_denom amt) = Some \<lparr>id_channel = channel, id_original = original\<rparr>"
    and "original \<noteq> c_denom amt" "held (ch_bank (ap_chain a)) lock_addr original = 0" "sender \<noteq> lock_addr"
  shows "app_sudo ext (Suc (Suc m)) (SudoIbc (RTimeout p)) a1
      = (Err (StdMsg ''Funds refund after a timeout, can't timeout a transfer that was not initiated''), a1)
    \<and> held (ch_bank (ap_chain a1)) sender (c_denom amt) + unat (c_amount amt) = held (ch_bank (ap_chain a)) sender (c_denom amt)"
proof -
  define q where "q = transfer_data (ap_chain a) channel sender to_address amt None"
  then have q: "ics_denom q = original" using assms(8) by (simp add: transfer_data_def optional_unwrap_ibc_denom_def)
  obtain packet t where
      1: "send ext sender lock_addr [amt] (ch_bank (ap_chain a)) = (Ok (), ch_bank (ap_chain a1))"
    and parse: "x_parse_ics20 ext (pk_data packet) = Inr q" and t: "ch_bank t = ch_bank (ap_chain a1)"
    and run: "\<forall>m events s'. bank_packet_timeout ext (router_at ext (ap_modules a1) m) (ap_block a1)
        \<lparr>ptm_packet = packet, ptm_relayer = RELAYER_ADDR\<rparr> t = (Ok (RespBasic events), s') \<longrightarrow>
      (\<exists>x. app_sudo ext (Suc (Suc m)) (SudoIbc (RTimeout p)) a1 = (Ok x, a1\<lparr>ap_chain := s'\<rparr>))"
    and errs: "\<forall>m e s'. bank_packet_timeout ext (router_at ext (ap_modules a1) m) (ap_block a1)
        \<lparr>ptm_packet = packet, ptm_relayer = RELAYER_ADDR\<rparr> t = (Err e, s') \<longrightarrow>
      app_sudo ext (Suc (Suc m)) (SudoIbc (RTimeout p)) a1 = (Err e, a1)"
    by (rule timeout_after_transfer [OF assms(1-7) q_def])
  note S = send_Ok [OF assms(1,2) 1]
  have "held (ch_bank t) lock_addr (ics_denom q) = 0"
    using S(1) [of lock_addr original] assms(9,10) q t by (simp split: if_splits)
  moreover have "bank_wf (ch_bank t)" using S(3) t by simp
  ultimately have "bank_packet_timeout ext (router_at ext (ap_modules a1) m) (ap_block a1)
      \<lparr>ptm_packet = packet, ptm_relayer = RELAYER_ADDR\<rparr> t
    = (Err (StdMsg ''Funds refund after a timeout, can't timeout a transfer that was not initiated''), t)"
    by (intro bank_timeout_unknown) (simp_all add: parse)
  from errs [rule_format, OF this] S(1) [of sender "c_denom amt"] assms(11) show ?thesis by simp
qed

theorem timeout_loses_voucher_witness:
  "\<exists>r a. app_execute transfer_ext 2 (Addr ''carol'') carol_transfers
       (carol_app [(''atom'', \<lparr>id_channel = ''channel-0'', id_original = ''uatom''\<rparr>)]) = (Ok r, a)
     \<and> app_sudo transfer_ext 2 (SudoIbc (RTimeout (demo_packet None\<lparr>pk_sequence := 2\<rparr>))) a
       = (Err (StdMsg ''Funds refund after a timeout, can't timeout a transfer that was not initiated''), a)"
proof -
  let ?d = "[(''atom'', \<lparr>id_channel = ''channel-0'', id_original = ''uatom''\<rparr>)]"
  have u: "optional_unwrap_ibc_denom (ap_chain (carol_app ?d)) ''atom'' ''channel-0'' = ''uatom''"
    by (simp add: carol_app_parts optional_unwrap_ibc_denom_def)
  then obtain r a where run: "app_execute transfer_ext 2 (Addr ''carol'') carol_transfers (carol_app ?d) = (Ok r, a)"
    by (metis carol_transfers_runs insertI1 insertI2)
  have c: "om_get (i_channels (ch_ibc (ap_chain (carol_app ?d)))) (''transfer'', ''channel-0'') = Some demo_channel"
    by (simp add: carol_app_parts demo_ibc_def)
  have "om_get (ch_ibc_denoms (ap_chain (carol_app ?d))) ''atom'' = Some \<lparr>id_channel = ''channel-0'', id_original = ''uatom''\<rparr>"
    "held (ch_bank (ap_chain (carol_app ?d))) lock_addr ''uatom'' = 0"
    by (simp_all add: carol_app_parts held_def get_balance_def lock_addr_def IBC_LOCK_MODULE_ADDRESS_def)
  moreover have "Addr ''carol'' \<noteq> lock_addr" by (simp add: lock_addr_def IBC_LOCK_MODULE_ADDRESS_def)
  moreover have "src_key (demo_packet None\<lparr>pk_sequence := 2\<rparr>) = (''transfer'', ''channel-0'', ci_next_packet demo_channel)"
    by (simp add: src_key_def demo_packet_def demo_channel_def)
  ultimately have "app_sudo transfer_ext (Suc (Suc 0)) (SudoIbc (RTimeout (demo_packet None\<lparr>pk_sequence := 2\<rparr>))) a
       = (Err (StdMsg ''Funds refund after a timeout, can't timeout a transfer that was not initiated''), a)"
    using timeout_loses_voucher [OF nb_laws_transfer carol_wf transfer_ext_codec run c] by simp
  with run show ?thesis by (auto simp: numeral_2_eq_2)
qed

end
