(* ===== verification/Round_Trip.thy ===== *)
theory Round_Trip
  imports Transfers
begin

text \<open>
  A token goes to another chain and comes back (ICS-20): the bank and the IBC module of two
  applications, run by \<open>App\<close> and a relayer. Each of the four steps - transfer, delivery, transfer back,
  delivery - is shown to succeed, and their effects to cancel.
\<close>

section \<open>A transfer that succeeds\<close>

lemma app_transfer_completes:
  assumes "nb_laws ext" "bank_wf (ch_bank (ap_chain a))" "\<forall>d. supply_of (ch_bank (ap_chain a)) d < 2 ^ 256"
    and "ibc_wf (ch_ibc (ap_chain a))" "om_get (i_channels (ch_ibc (ap_chain a))) (''transfer'', channel) = Some c"
    and "unat (ci_next_packet c) + 1 < 2 ^ 64"
    and "c_amount amt \<noteq> 0" "unat (c_amount amt) \<le> held (ch_bank (ap_chain a)) sender (c_denom amt)"
    and data: "x_to_json ext (JIcs20 (transfer_data (ap_chain a) channel sender to_address amt memo)) = Inr data"
  obtains r b where "send ext sender lock_addr [amt] (ch_bank (ap_chain a)) = (Ok (), b)"
    "app_execute ext (Suc (Suc m)) sender (MIbc (IbcTransfer channel to_address amt timeout memo)) a
      = (Ok r, a\<lparr>ap_chain := after_transfer c channel data timeout b (ap_chain a)\<rparr>)"
proof -
  let ?s = "ap_chain a"
  have "\<forall>d. amount_of [amt] d \<le> held (ch_bank ?s) sender d" using assms(8) by simp
  then obtain b where b: "send ext sender lock_addr [amt] (ch_bank ?s) = (Ok (), b)"
    using send_completes [OF assms(1,2) _ _ assms(3)] assms(7) by (metis list.set_intros(1))
  have "ibc_wf (ch_ibc (?s\<lparr>ch_bank := b\<rparr>))" "om_get (i_channels (ch_ibc (?s\<lparr>ch_bank := b\<rparr>))) (''transfer'', channel) = Some c"
    using assms(4,5) by simp_all
  from send_packet_eq [OF this, of ext data timeout] assms(6) obtain r where r:
      "send_packet_raw ext ''transfer'' channel data timeout (?s\<lparr>ch_bank := b\<rparr>)
         = (Ok (ci_next_packet c, r), after_transfer c channel data timeout b ?s)"
    by (auto simp: after_transfer_def outgoing_def)
  show ?thesis
  proof (rule that [OF b])
    show "app_execute ext (Suc (Suc m)) sender (MIbc (IbcTransfer channel to_address amt timeout memo)) a
      = (Ok (r\<lparr>ar_data := Some (x_encode_transfer ext (ci_next_packet c))\<rparr>),
         a\<lparr>ap_chain := after_transfer c channel data timeout b ?s\<rparr>)"
      using b data r
      by (simp add: app_execute_def execute_multi_def on_chain_def atomically_def router_execute_def ibc_execute_def
          transfer_def bank_execute_def in_bank_def transfer_data_def proc_defs lift_result_def Let_def
          optional_unwrap_ibc_denom_def lock_addr_def IBC_LOCK_MODULE_ADDRESS_def)
  qed
qed

section \<open>Delivering a packet\<close>

lemma app_receive_completes:
  assumes "om_get (i_channels (ch_ibc (ap_chain a))) (ep_port (pk_dest p), ep_channel (pk_dest p)) = Some c"
    and "ep_port (ic_endpoint (ci_info c)) = ''transfer''"
    and "om_get (i_receive (ch_ibc (ap_chain a))) (dest_key p) = None" "\<not> timed_out (ap_block a) (pk_timeout p)"
    and "bank_packet_receive ext (router_at ext (ap_modules a) m) (ap_block a)
        \<lparr>prm_packet = p, prm_relayer = RELAYER_ADDR\<rparr> ((ap_chain a)\<lparr>ch_ibc := (ch_ibc (ap_chain a))\<lparr>i_receive :=
          om_insert (dest_key p) \<lparr>pr_data = p, pr_timeout = False\<rparr> (i_receive (ch_ibc (ap_chain a)))\<rparr>\<rparr>)
      = (Ok (RespReceive events ack), s)"
  shows "\<exists>r. app_sudo ext (Suc (Suc m)) (SudoIbc (RReceive p)) a
      = (Ok r, a\<lparr>ap_chain := s\<lparr>ch_ibc := (ch_ibc s)\<lparr>i_receive_ack := om_insert (dest_key p) ack (i_receive_ack (ch_ibc s))\<rparr>\<rparr>\<rparr>)"
  using assms
  by (simp add: app_sudo_eq router_sudo_def ibc_sudo_def receive_packet_def record_receive_def in_ibc_def zoom_def
      load_apply proc_defs lift_result_def module_of_port_def router_ibc_def atomically_def om_has_def Let_def)

text \<open>The bank: coins of another chain are minted under a local name, its own are released from escrow.\<close>

lemma bank_receive_mints:
  assumes "nb_laws ext" "bank_wf (ch_bank s)" "x_parse_ics20 ext (pk_data (prm_packet m)) = Inr q" "ics_memo q = None"
    and "x_addr_validate ext (ics_receiver q) = Inr receiver" "ics_amount q \<noteq> 0" "unat (ics_amount q) < 2 ^ 128"
    and "held (ch_bank s) lock_addr (ics_denom q) = 0"
    and v: "v = wrap_ibc_denom_query ext (ep_channel (pk_dest (prm_packet m))) (ics_denom q)"
    and room: "\<forall>d. supply_of (ch_bank s) d < 2 ^ 256" "supply_of (ch_bank s) v + unat (ics_amount q) < 2 ^ 256"
  obtains b where "mint ext receiver [\<lparr>c_denom = v, c_amount = ics_amount q\<rparr>] (ch_bank s) = (Ok (), b)"
    "bank_packet_receive ext router block m s = (Ok (RespReceive [] (Some (x_std_ack_binary ext (AckOk SUCCESS_BANK_ACK)))),
       s\<lparr>ch_bank := b, ch_ibc_denoms := om_insert v \<lparr>id_channel = ep_channel (pk_dest (prm_packet m)),
           id_original = ics_denom q\<rparr> (ch_ibc_denoms s)\<rparr>)"
proof -
  let ?coin = "\<lparr>c_denom = v, c_amount = ics_amount q\<rparr>"
  have "held (ch_bank s) receiver d + amount_of [?coin] d < 2 ^ 256" for d
    using held_le_supply [OF assms(2), of receiver d] room by (auto intro: le_less_trans)
  then obtain b where b: "mint ext receiver [?coin] (ch_bank s) = (Ok (), b)"
    using mint_completes [OF assms(1,2), of "[?coin]" receiver] assms(6) by auto
  have "locked_coin (ics_denom q) s = None" using locked_coin_None [OF assms(2)] assms(8) by simp
  moreover have "to_u128 (ics_amount q) = Inr (ics_amount q)" using assms(7) by (simp add: to_u128_Inr)
  ultimately show ?thesis using that [OF b] b assms(3-5)
    by (simp add: bank_packet_receive_def parse_hooks_no_memo release_or_mint_def wrap_ibc_denom_def in_bank_def
        proc_defs lift_result_def Let_def v)
qed

lemma bank_receive_releases:
  assumes "nb_laws ext" "bank_wf (ch_bank s)" "x_parse_ics20 ext (pk_data (prm_packet m)) = Inr q" "ics_memo q = None"
    and "x_addr_validate ext (ics_receiver q) = Inr receiver" "ics_amount q \<noteq> 0" "unat (ics_amount q) < 2 ^ 128"
    and "unat (ics_amount q) \<le> held (ch_bank s) lock_addr (ics_denom q)"
    and room: "\<forall>d. supply_of (ch_bank s) d < 2 ^ 256"
  obtains b where "send ext lock_addr receiver [\<lparr>c_denom = ics_denom q, c_amount = ics_amount q\<rparr>] (ch_bank s) = (Ok (), b)"
    "bank_packet_receive ext router block m s
      = (Ok (RespReceive [] (Some (x_std_ack_binary ext (AckOk SUCCESS_BANK_ACK)))), s\<lparr>ch_bank := b\<rparr>)"
proof -
  let ?coin = "\<lparr>c_denom = ics_denom q, c_amount = ics_amount q\<rparr>"
  have "\<forall>d. amount_of [?coin] d \<le> held (ch_bank s) lock_addr d" using assms(8) by simp
  then obtain b where b: "send ext lock_addr receiver [?coin] (ch_bank s) = (Ok (), b)"
    using send_completes [OF assms(1,2) _ _ room, of "[?coin]" lock_addr receiver] assms(6) by auto
  have "0 < unat (ics_amount q)" using assms(6) by (simp add: unat_gt_0)
  with assms(8) have "held (ch_bank s) lock_addr (ics_denom q) \<noteq> 0" by linarith
  then obtain c where c: "locked_coin (ics_denom q) s = Some c"
    using locked_coin_None [OF assms(2), of "ics_denom q"] by fastforce
  have "\<not> c_amount c < ics_amount q"
    using locked_coin_Some(2) [OF assms(2) c] assms(8) by (simp add: word_less_nat_alt)
  moreover have "to_u128 (ics_amount q) = Inr (ics_amount q)" using assms(7) by (simp add: to_u128_Inr)
  ultimately show ?thesis using that [OF b] b c assms(3-5)
    by (simp add: bank_packet_receive_def parse_hooks_no_memo release_or_mint_def in_bank_def
        proc_defs lift_result_def Let_def)
qed

section \<open>There\<close>

text \<open>The other chain after the packet has arrived and the voucher has been minted.\<close>

definition after_mint :: "ibc_packet \<Rightarrow> binary option \<Rightarrow> string \<Rightarrow> string \<Rightarrow> bank_state \<Rightarrow> chain \<Rightarrow> chain" where
  "after_mint p ack v dnm b s = s\<lparr>ch_bank := b,
     ch_ibc_denoms := om_insert v \<lparr>id_channel = ep_channel (pk_dest p), id_original = dnm\<rparr> (ch_ibc_denoms s),
     ch_ibc := (ch_ibc s)\<lparr>i_receive := om_insert (dest_key p) \<lparr>pr_data = p, pr_timeout = False\<rparr> (i_receive (ch_ibc s)),
       i_receive_ack := om_insert (dest_key p) ack (i_receive_ack (ch_ibc s))\<rparr>\<rparr>"

lemma app_receive_mints:
  assumes "nb_laws ext" "bank_wf (ch_bank (ap_chain a))" "ibc_wf (ch_ibc (ap_chain a))"
    and room: "\<forall>d. supply_of (ch_bank (ap_chain a)) d < 2 ^ 256" "supply_of (ch_bank (ap_chain a)) v + unat (ics_amount q) < 2 ^ 256"
    and chan: "om_get (i_channels (ch_ibc (ap_chain a))) (''transfer'', ch) = Some c"
    and p: "pk_dest p = \<lparr>ep_port = ''transfer'', ep_channel = ch\<rparr>" "x_parse_ics20 ext (pk_data p) = Inr q"
    and new: "om_get (i_receive (ch_ibc (ap_chain a))) (dest_key p) = None" "\<not> timed_out (ap_block a) (pk_timeout p)"
    and q: "ics_memo q = None" "x_addr_validate ext (ics_receiver q) = Inr receiver" "ics_amount q \<noteq> 0" "unat (ics_amount q) < 2 ^ 128"
      "held (ch_bank (ap_chain a)) lock_addr (ics_denom q) = 0" "v = wrap_ibc_denom_query ext ch (ics_denom q)"
  obtains r ack b where "mint ext receiver [\<lparr>c_denom = v, c_amount = ics_amount q\<rparr>] (ch_bank (ap_chain a)) = (Ok (), b)"
    "app_sudo ext (Suc (Suc m)) (SudoIbc (RReceive p)) a = (Ok r, a\<lparr>ap_chain := after_mint p ack v (ics_denom q) b (ap_chain a)\<rparr>)"
proof -
  let ?s = "(ap_chain a)\<lparr>ch_ibc := (ch_ibc (ap_chain a))\<lparr>i_receive :=
    om_insert (dest_key p) \<lparr>pr_data = p, pr_timeout = False\<rparr> (i_receive (ch_ibc (ap_chain a)))\<rparr>\<rparr>"
  let ?m = "\<lparr>prm_packet = p, prm_relayer = RELAYER_ADDR\<rparr>"
  let ?ack = "Some (x_std_ack_binary ext (AckOk SUCCESS_BANK_ACK))"
  obtain b where b: "mint ext receiver [\<lparr>c_denom = v, c_amount = ics_amount q\<rparr>] (ch_bank ?s) = (Ok (), b)"
    and run: "bank_packet_receive ext (router_at ext (ap_modules a) m) (ap_block a) ?m ?s = (Ok (RespReceive [] ?ack),
       ?s\<lparr>ch_bank := b, ch_ibc_denoms := om_insert v \<lparr>id_channel = ep_channel (pk_dest (prm_packet ?m)),
           id_original = ics_denom q\<rparr> (ch_ibc_denoms ?s)\<rparr>)"
    by (rule bank_receive_mints [OF assms(1), of ?s ?m q receiver v]) (use assms in simp_all)
  have "ep_port (ic_endpoint (ci_info c)) = ''transfer''" using named [OF assms(3) chan] by simp
  from app_receive_completes [OF _ this new run] chan p(1) obtain r where
      "app_sudo ext (Suc (Suc m)) (SudoIbc (RReceive p)) a = (Ok r, a\<lparr>ap_chain := after_mint p ?ack v (ics_denom q) b (ap_chain a)\<rparr>)"
    by (auto simp: after_mint_def)
  with b that show ?thesis by simp
qed

section \<open>And back\<close>

text \<open>The home chain after the packet has come back and the coins have been released.\<close>

definition after_release :: "ibc_packet \<Rightarrow> binary option \<Rightarrow> bank_state \<Rightarrow> chain \<Rightarrow> chain" where
  "after_release p ack b s = s\<lparr>ch_bank := b,
     ch_ibc := (ch_ibc s)\<lparr>i_receive := om_insert (dest_key p) \<lparr>pr_data = p, pr_timeout = False\<rparr> (i_receive (ch_ibc s)),
       i_receive_ack := om_insert (dest_key p) ack (i_receive_ack (ch_ibc s))\<rparr>\<rparr>"

lemma app_receive_releases:
  assumes "nb_laws ext" "bank_wf (ch_bank (ap_chain a))"
    and room: "\<forall>d. supply_of (ch_bank (ap_chain a)) d < 2 ^ 256"
    and chan: "om_get (i_channels (ch_ibc (ap_chain a))) (''transfer'', ch) = Some c" "ep_port (ic_endpoint (ci_info c)) = ''transfer''"
    and p: "pk_dest p = \<lparr>ep_port = ''transfer'', ep_channel = ch\<rparr>" "x_parse_ics20 ext (pk_data p) = Inr q"
    and new: "om_get (i_receive (ch_ibc (ap_chain a))) (dest_key p) = None" "\<not> timed_out (ap_block a) (pk_timeout p)"
    and q: "ics_memo q = None" "x_addr_validate ext (ics_receiver q) = Inr receiver" "ics_amount q \<noteq> 0" "unat (ics_amount q) < 2 ^ 128"
      "unat (ics_amount q) \<le> held (ch_bank (ap_chain a)) lock_addr (ics_denom q)"
  obtains r ack b where
    "send ext lock_addr receiver [\<lparr>c_denom = ics_denom q, c_amount = ics_amount q\<rparr>] (ch_bank (ap_chain a)) = (Ok (), b)"
    "app_sudo ext (Suc (Suc m)) (SudoIbc (RReceive p)) a = (Ok r, a\<lparr>ap_chain := after_release p ack b (ap_chain a)\<rparr>)"
proof -
  let ?s = "(ap_chain a)\<lparr>ch_ibc := (ch_ibc (ap_chain a))\<lparr>i_receive :=
    om_insert (dest_key p) \<lparr>pr_data = p, pr_timeout = False\<rparr> (i_receive (ch_ibc (ap_chain a)))\<rparr>\<rparr>"
  let ?m = "\<lparr>prm_packet = p, prm_relayer = RELAYER_ADDR\<rparr>"
  let ?ack = "Some (x_std_ack_binary ext (AckOk SUCCESS_BANK_ACK))"
  obtain b where b: "send ext lock_addr receiver [\<lparr>c_denom = ics_denom q, c_amount = ics_amount q\<rparr>] (ch_bank ?s) = (Ok (), b)"
    and run: "bank_packet_receive ext (router_at ext (ap_modules a) m) (ap_block a) ?m ?s = (Ok (RespReceive [] ?ack), ?s\<lparr>ch_bank := b\<rparr>)"
    by (rule bank_receive_releases [OF assms(1), of ?s ?m q receiver]) (use assms in simp_all)
  from app_receive_completes [OF _ chan(2) new run] chan p(1) obtain r where
      "app_sudo ext (Suc (Suc m)) (SudoIbc (RReceive p)) a = (Ok r, a\<lparr>ap_chain := after_release p ?ack b (ap_chain a)\<rparr>)"
    by (auto simp: after_release_def)
  with b that show ?thesis by simp
qed

section \<open>A transfer and its delivery\<close>

text \<open>A well-formed chain with a channel of the transfer port to channel \<open>remote\<close> of the other chain.\<close>

definition chain_ready :: "app \<Rightarrow> string \<Rightarrow> channel_info \<Rightarrow> string \<Rightarrow> bool" where
  "chain_ready a channel c remote \<longleftrightarrow> bank_wf (ch_bank (ap_chain a)) \<and> ibc_wf (ch_ibc (ap_chain a))
     \<and> (\<forall>d. supply_of (ch_bank (ap_chain a)) d < 2 ^ 256)
     \<and> om_get (i_channels (ch_ibc (ap_chain a))) (''transfer'', channel) = Some c
     \<and> ic_counterparty (ci_info c) = \<lparr>ep_port = ''transfer'', ep_channel = remote\<rparr>
     \<and> unat (ci_next_packet c) + 1 < 2 ^ 64"

lemma chain_readyD:
  assumes "chain_ready a channel c remote"
  shows "bank_wf (ch_bank (ap_chain a))" "ibc_wf (ch_ibc (ap_chain a))" "\<forall>d. supply_of (ch_bank (ap_chain a)) d < 2 ^ 256"
    "om_get (i_channels (ch_ibc (ap_chain a))) (''transfer'', channel) = Some c"
    "ic_counterparty (ci_info c) = \<lparr>ep_port = ''transfer'', ep_channel = remote\<rparr>" "unat (ci_next_packet c) + 1 < 2 ^ 64"
    "ep_port (ic_endpoint (ci_info c)) = ''transfer''"
  using assms named [of "ch_ibc (ap_chain a)" "(''transfer'', channel)" c] by (simp_all add: chain_ready_def)

text \<open>The packet of a coin, under the name \<open>dnm\<close> it travels with.\<close>

definition packet_of :: "coin \<Rightarrow> string \<Rightarrow> addr \<Rightarrow> addr \<Rightarrow> ics20_packet" where
  "packet_of amt dnm sender receiver = \<lparr>ics_amount = c_amount amt, ics_denom = dnm,
     ics_receiver = addr_str receiver, ics_sender = addr_str sender, ics_memo = None\<rparr>"

lemma packet_of_cong [simp]: "packet_of (amt\<lparr>c_denom := v\<rparr>) dnm sender receiver = packet_of amt dnm sender receiver"
  by (simp add: packet_of_def)

lemma after_parts [simp]:
  "ch_bank (after_mint p ack v dnm k s) = k" "ch_bank (after_release p ack k s) = k"
  "i_channels (ch_ibc (after_mint p ack v dnm k s)) = i_channels (ch_ibc s)"
  by (simp_all add: after_mint_def after_release_def)

lemma outgoing_parts:
  assumes "chain_ready a ch c remote"
  shows "pk_dest (outgoing c ch d t) = \<lparr>ep_port = ''transfer'', ep_channel = remote\<rparr>"
    "dest_key (outgoing c ch d t) = (''transfer'', remote, ci_next_packet c)"
    "pk_timeout (outgoing c ch d t) = t" "pk_data (outgoing c ch d t) = d"
  using assms by (simp_all add: chain_ready_def outgoing_def dest_key_def)

lemma leg_out:
  assumes laws: "nb_laws ext" "ics20_codec ext" and home: "chain_ready a ch ca ch'" and other: "chain_ready b ch' cb ch"
    and new: "om_get (i_receive (ch_ibc (ap_chain b))) (''transfer'', ch', ci_next_packet ca) = None" "\<not> timed_out (ap_block b) t"
    and coin: "c_amount amt \<noteq> 0" "unat (c_amount amt) < 2 ^ 128" "unat (c_amount amt) \<le> held (ch_bank (ap_chain a)) sender (c_denom amt)"
    and name: "optional_unwrap_ibc_denom (ap_chain a) (c_denom amt) ch = dnm" "held (ch_bank (ap_chain b)) lock_addr dnm = 0"
    and voucher: "v = wrap_ibc_denom_query ext ch' dnm" "supply_of (ch_bank (ap_chain b)) v + unat (c_amount amt) < 2 ^ 256"
    and receiver: "x_addr_validate ext (addr_str receiver) = Inr receiver"
    and json: "x_to_json ext (JIcs20 (packet_of amt dnm sender receiver)) = Inr d"
  obtains r1 k1 r2 ack k2 where "send ext sender lock_addr [amt] (ch_bank (ap_chain a)) = (Ok (), k1)"
    "app_execute ext (Suc (Suc m)) sender (MIbc (IbcTransfer ch (addr_str receiver) amt t None)) a
      = (Ok r1, a\<lparr>ap_chain := after_transfer ca ch d t k1 (ap_chain a)\<rparr>)"
    "mint ext receiver [amt\<lparr>c_denom := v\<rparr>] (ch_bank (ap_chain b)) = (Ok (), k2)"
    "app_sudo ext (Suc (Suc m)) (SudoIbc (RReceive (outgoing ca ch d t))) b
      = (Ok r2, b\<lparr>ap_chain := after_mint (outgoing ca ch d t) ack v dnm k2 (ap_chain b)\<rparr>)"
proof -
  let ?q = "packet_of amt dnm sender receiver" and ?p = "outgoing ca ch d t"
  note A = chain_readyD [OF home] and B = chain_readyD [OF other]
  have q: "transfer_data (ap_chain a) ch sender (addr_str receiver) amt None = ?q"
    using name(1) by (simp add: transfer_data_def packet_of_def)
  have parse: "x_parse_ics20 ext (pk_data ?p) = Inr ?q"
    using laws(2) json by (simp add: ics20_codec_def outgoing_def)
  obtain r1 k1 where 1: "send ext sender lock_addr [amt] (ch_bank (ap_chain a)) = (Ok (), k1)"
    "app_execute ext (Suc (Suc m)) sender (MIbc (IbcTransfer ch (addr_str receiver) amt t None)) a
      = (Ok r1, a\<lparr>ap_chain := after_transfer ca ch d t k1 (ap_chain a)\<rparr>)"
    by (rule app_transfer_completes [where m = m and timeout = t, OF laws(1) A(1,3,2,4,6) coin(1,3) json [folded q]])
  obtain r2 ack k2 where 2: "mint ext receiver [\<lparr>c_denom = v, c_amount = ics_amount ?q\<rparr>] (ch_bank (ap_chain b)) = (Ok (), k2)"
    "app_sudo ext (Suc (Suc m)) (SudoIbc (RReceive ?p)) b
      = (Ok r2, b\<lparr>ap_chain := after_mint ?p ack v (ics_denom ?q) k2 (ap_chain b)\<rparr>)"
    by (rule app_receive_mints [where m = m and receiver = receiver and v = v, OF laws(1) B(1,2,3) _ B(4) outgoing_parts(1) [OF home] parse])
      (use new coin name voucher receiver in \<open>simp_all add: packet_of_def outgoing_parts [OF home]\<close>)
  have "\<lparr>c_denom = v, c_amount = ics_amount ?q\<rparr> = amt\<lparr>c_denom := v\<rparr>" "ics_denom ?q = dnm"
    by (cases amt; simp add: packet_of_def)+
  with that [OF 1] 2 show ?thesis by metis
qed

lemma leg_back:
  assumes laws: "nb_laws ext" "ics20_codec ext" and src: "chain_ready b ch' cb ch"
    and home: "bank_wf (ch_bank (ap_chain a))" "\<forall>d. supply_of (ch_bank (ap_chain a)) d < 2 ^ 256"
      "om_get (i_channels (ch_ibc (ap_chain a))) (''transfer'', ch) = Some c" "ep_port (ic_endpoint (ci_info c)) = ''transfer''"
    and new: "om_get (i_receive (ch_ibc (ap_chain a))) (''transfer'', ch, ci_next_packet cb) = None" "\<not> timed_out (ap_block a) t"
    and coin: "c_amount amt \<noteq> 0" "unat (c_amount amt) < 2 ^ 128" "unat (c_amount amt) \<le> held (ch_bank (ap_chain b)) sender (c_denom amt)"
    and name: "optional_unwrap_ibc_denom (ap_chain b) (c_denom amt) ch' = dnm"
      "unat (c_amount amt) \<le> held (ch_bank (ap_chain a)) lock_addr dnm"
    and receiver: "x_addr_validate ext (addr_str receiver) = Inr receiver"
    and json: "x_to_json ext (JIcs20 (packet_of amt dnm sender receiver)) = Inr d"
  obtains r1 k1 r2 ack k2 where "send ext sender lock_addr [amt] (ch_bank (ap_chain b)) = (Ok (), k1)"
    "app_execute ext (Suc (Suc m)) sender (MIbc (IbcTransfer ch' (addr_str receiver) amt t None)) b
      = (Ok r1, b\<lparr>ap_chain := after_transfer cb ch' d t k1 (ap_chain b)\<rparr>)"
    "send ext lock_addr receiver [amt\<lparr>c_denom := dnm\<rparr>] (ch_bank (ap_chain a)) = (Ok (), k2)"
    "app_sudo ext (Suc (Suc m)) (SudoIbc (RReceive (outgoing cb ch' d t))) a
      = (Ok r2, a\<lparr>ap_chain := after_release (outgoing cb ch' d t) ack k2 (ap_chain a)\<rparr>)"
proof -
  let ?q = "packet_of amt dnm sender receiver" and ?p = "outgoing cb ch' d t"
  note B = chain_readyD [OF src]
  have q: "transfer_data (ap_chain b) ch' sender (addr_str receiver) amt None = ?q"
    using name(1) by (simp add: transfer_data_def packet_of_def)
  have parse: "x_parse_ics20 ext (pk_data ?p) = Inr ?q"
    using laws(2) json by (simp add: ics20_codec_def outgoing_def)
  obtain r1 k1 where 1: "send ext sender lock_addr [amt] (ch_bank (ap_chain b)) = (Ok (), k1)"
    "app_execute ext (Suc (Suc m)) sender (MIbc (IbcTransfer ch' (addr_str receiver) amt t None)) b
      = (Ok r1, b\<lparr>ap_chain := after_transfer cb ch' d t k1 (ap_chain b)\<rparr>)"
    by (rule app_transfer_completes [where m = m and timeout = t, OF laws(1) B(1,3,2,4,6) coin(1,3) json [folded q]])
  obtain r2 ack k2 where 2: "send ext lock_addr receiver [\<lparr>c_denom = ics_denom ?q, c_amount = ics_amount ?q\<rparr>] (ch_bank (ap_chain a)) = (Ok (), k2)"
    "app_sudo ext (Suc (Suc m)) (SudoIbc (RReceive ?p)) a = (Ok r2, a\<lparr>ap_chain := after_release ?p ack k2 (ap_chain a)\<rparr>)"
    by (rule app_receive_releases [where m = m and receiver = receiver, OF laws(1) home outgoing_parts(1) [OF src] parse])
      (use new coin name receiver in \<open>simp_all add: packet_of_def outgoing_parts [OF src]\<close>)
  have "\<lparr>c_denom = ics_denom ?q, c_amount = ics_amount ?q\<rparr> = amt\<lparr>c_denom := dnm\<rparr>"
    by (cases amt) (simp add: packet_of_def)
  with that [OF 1] 2 show ?thesis by metis
qed

section \<open>Properties\<close>

text \<open>
  C25. Tokens come back. A coin of chain \<open>a\<close> that \<open>alice\<close> holds is transferred to \<open>bob\<close> on chain \<open>b\<close>, the
  packet is delivered, \<open>bob\<close> transfers the voucher he got back to \<open>alice\<close>, and that packet is delivered.
  All four steps succeed; the voucher is worth exactly the amount; and in the end every account on \<open>a\<close>
  holds what it held before, as does every account on \<open>b\<close> but the lock account: the voucher stays
  there and is never burned, so its supply has grown by the amount.
\<close>
theorem token_round_trip:
  assumes laws: "nb_laws ext" "ics20_codec ext"
    and home: "chain_ready a ch ca ch'" and other: "chain_ready b ch' cb ch"
    and new: "om_get (i_receive (ch_ibc (ap_chain b))) (''transfer'', ch', ci_next_packet ca) = None"
      "om_get (i_receive (ch_ibc (ap_chain a))) (''transfer'', ch, ci_next_packet cb) = None"
    and time: "\<not> timed_out (ap_block b) t" "\<not> timed_out (ap_block a) t'"
    and coin: "c_amount amt \<noteq> 0" "unat (c_amount amt) < 2 ^ 128"
      "unat (c_amount amt) \<le> held (ch_bank (ap_chain a)) alice (c_denom amt)"
    and native: "om_get (ch_ibc_denoms (ap_chain a)) (c_denom amt) = None" "held (ch_bank (ap_chain b)) lock_addr (c_denom amt) = 0"
    and voucher: "v = wrap_ibc_denom_query ext ch' (c_denom amt)" "supply_of (ch_bank (ap_chain b)) v + unat (c_amount amt) < 2 ^ 256"
    and valid: "x_addr_validate ext (addr_str alice) = Inr alice" "x_addr_validate ext (addr_str bob) = Inr bob"
    and json: "x_to_json ext (JIcs20 (packet_of amt (c_denom amt) alice bob)) = Inr d" "x_to_json ext (JIcs20 (packet_of amt (c_denom amt) bob alice)) = Inr d'"
  shows "\<exists>r1 a1 p r2 b1 r3 b2 p' r4 a2.
       app_execute ext (Suc (Suc m)) alice (MIbc (IbcTransfer ch (addr_str bob) amt t None)) a = (Ok r1, a1)
     \<and> om_get (i_send (ch_ibc (ap_chain a1))) (''transfer'', ch, ci_next_packet ca) = Some p
     \<and> app_sudo ext (Suc (Suc m)) (SudoIbc (RReceive p)) b = (Ok r2, b1)
     \<and> held (ch_bank (ap_chain b1)) bob v = held (ch_bank (ap_chain b)) bob v + unat (c_amount amt)
     \<and> app_execute ext (Suc (Suc m)) bob (MIbc (IbcTransfer ch' (addr_str alice) (amt\<lparr>c_denom := v\<rparr>) t' None)) b1 = (Ok r3, b2)
     \<and> om_get (i_send (ch_ibc (ap_chain b2))) (''transfer'', ch', ci_next_packet cb) = Some p'
     \<and> app_sudo ext (Suc (Suc m)) (SudoIbc (RReceive p')) a1 = (Ok r4, a2)
     \<and> held (ch_bank (ap_chain a2)) = held (ch_bank (ap_chain a))
     \<and> (\<forall>x. x \<noteq> lock_addr \<longrightarrow> held (ch_bank (ap_chain b2)) x = held (ch_bank (ap_chain b)) x)
     \<and> supply_of (ch_bank (ap_chain b2)) v = supply_of (ch_bank (ap_chain b)) v + unat (c_amount amt)"
proof -
  note A = chain_readyD [OF home] and B = chain_readyD [OF other]
  let ?v = "amt\<lparr>c_denom := v\<rparr>" and ?p = "outgoing ca ch d t"
  have unwrap: "optional_unwrap_ibc_denom (ap_chain a) (c_denom amt) ch = c_denom amt"
    using native(1) by (simp add: optional_unwrap_ibc_denom_def)
  obtain r1 k1 r2 ack k2 where 1: "send ext alice lock_addr [amt] (ch_bank (ap_chain a)) = (Ok (), k1)"
      "app_execute ext (Suc (Suc m)) alice (MIbc (IbcTransfer ch (addr_str bob) amt t None)) a
        = (Ok r1, a\<lparr>ap_chain := after_transfer ca ch d t k1 (ap_chain a)\<rparr>)"
    and 2: "mint ext bob [?v] (ch_bank (ap_chain b)) = (Ok (), k2)"
      "app_sudo ext (Suc (Suc m)) (SudoIbc (RReceive ?p)) b
        = (Ok r2, b\<lparr>ap_chain := after_mint ?p ack v (c_denom amt) k2 (ap_chain b)\<rparr>)"
    by (rule leg_out [where m = m, OF laws home other new(1) time(1) coin unwrap native(2) voucher valid(2) json(1)])
  let ?a1 = "a\<lparr>ap_chain := after_transfer ca ch d t k1 (ap_chain a)\<rparr>"
  let ?b1 = "b\<lparr>ap_chain := after_mint ?p ack v (c_denom amt) k2 (ap_chain b)\<rparr>"
  note S1 = send_Ok [OF laws(1) A(1) 1(1)] send_supply [OF laws(1) A(1) 1(1)]
  note M = mint_Ok [OF laws(1) B(1) 2(1)] mint_supply [OF laws(1) B(1) 2(1)]
  have bob: "held k2 bob v = held (ch_bank (ap_chain b)) bob v + unat (c_amount amt)" using M(1) by simp
  have "(app_step ext E)\<^sup>*\<^sup>* b ?b1" by (intro r_into_rtranclp app_step.messages message_step.run_sudo [OF 2(2)])
  then have "ibc_wf (ch_ibc (ap_chain ?b1))"
    using ledger_history.app_steps_rel [OF _ TrueI] B(2) by (metis ledger_rel_def ibc_step_def)
  then have ready: "chain_ready ?b1 ch' cb ch" using B M(2,3) voucher(2) by (simp add: chain_ready_def)
  have rewrap: "optional_unwrap_ibc_denom (ap_chain ?b1) (c_denom ?v) ch' = c_denom amt"
    using outgoing_parts(1) [OF home] by (simp add: optional_unwrap_ibc_denom_def after_mint_def)
  have escrow: "unat (c_amount amt) \<le> held k1 lock_addr (c_denom amt)"
    using S1(1) [of lock_addr "c_denom amt"] coin(3) by (auto split: if_splits)
  obtain r3 k3 r4 ack' k4 where 3: "send ext bob lock_addr [?v] (ch_bank (ap_chain ?b1)) = (Ok (), k3)"
      "app_execute ext (Suc (Suc m)) bob (MIbc (IbcTransfer ch' (addr_str alice) ?v t' None)) ?b1
        = (Ok r3, ?b1\<lparr>ap_chain := after_transfer cb ch' d' t' k3 (ap_chain ?b1)\<rparr>)"
    and 4: "send ext lock_addr alice [?v\<lparr>c_denom := c_denom amt\<rparr>] (ch_bank (ap_chain ?a1)) = (Ok (), k4)"
      "app_sudo ext (Suc (Suc m)) (SudoIbc (RReceive (outgoing cb ch' d' t'))) ?a1
        = (Ok r4, ?a1\<lparr>ap_chain := after_release (outgoing cb ch' d' t') ack' k4 (ap_chain ?a1)\<rparr>)"
    by (rule leg_back [where m = m and a = ?a1 and receiver = alice and t = t' and d = d' and sender = bob and amt = ?v
          and c = "ca\<lparr>ci_next_packet := ci_next_packet ca + 1\<rparr>", OF laws ready _ _ _ _ _ _ _ _ _ rewrap])
      (use A S1 bob coin escrow new(2) time(2) valid(1) json(2) in simp_all)
  have return: "send ext lock_addr alice [amt] k1 = (Ok (), k4)" using 4(1) by simp
  have away: "send ext bob lock_addr [?v] k2 = (Ok (), k3)" using 3(1) by simp
  have home_again: "held k4 = held (ch_bank (ap_chain a))" by (rule send_and_return [OF laws(1) A(1) 1(1) return])
  have other_again: "held k3 x = held (ch_bank (ap_chain b)) x" if "x \<noteq> lock_addr" for x
  proof
    fix y
    show "held k3 x y = held (ch_bank (ap_chain b)) x y"
      using send_Ok(1) [OF laws(1) M(2) away, of x y] that M(1) by (auto split: if_splits)
  qed
  have grown: "supply_of k3 v = supply_of (ch_bank (ap_chain b)) v + unat (c_amount amt)"
    using send_supply [OF laws(1) M(2) away, of v] M(3) [of v] by simp
  show ?thesis
    by (intro exI conjI, rule 1(2), simp, rule 2(2), simp add: bob, rule 3(2),
        simp, rule 4(2)) (simp_all add: home_again other_again grown)
qed

section \<open>A round trip that runs\<close>

definition demo_return :: ics20_packet where
  "demo_return = \<lparr>ics_amount = 4, ics_denom = ''atom'', ics_receiver = ''carol'', ics_sender = ''bob'', ics_memo = None\<rparr>"

definition round_ext :: ext where
  "round_ext = demo_ext\<lparr>
     x_to_json := (\<lambda>doc. case doc of
         JIcs20 q \<Rightarrow> if q = demo_ics20 then Inr [0] else if q = demo_return then Inr [1] else Inl (ExternalError ''json'')
       | _ \<Rightarrow> Inl (ExternalError ''json'')),
     x_parse_ics20 := (\<lambda>b. if b = [0] then Inr demo_ics20 else if b = [1] then Inr demo_return else Inl (ExternalError ''json''))\<rparr>"

lemma round_ext_laws: "nb_laws round_ext" "ics20_codec round_ext"
  by (subst nb_laws_cong [where f = demo_ext]; simp add: round_ext_def)
    (auto simp: ics20_codec_def round_ext_def demo_return_def demo_ics20_def split: if_splits)

lemma demo_ready:
  "chain_ready (carol_app []) ''channel-0'' demo_channel ''channel-0''"
  "chain_ready (demo_app round_ext) ''channel-0'' demo_channel ''channel-0''"
proof -
  have "supply_of (ch_bank (ap_chain (carol_app []))) d < 2 ^ 256" for d
    by (simp add: carol_app_parts supply_of_def om_sum_def)
  then show "chain_ready (carol_app []) ''channel-0'' demo_channel ''channel-0''"
    using carol_wf by (simp add: chain_ready_def carol_app_parts demo_ibc_def demo_channel_def)
  show "chain_ready (demo_app round_ext) ''channel-0'' demo_channel ''channel-0''"
    using demo_ibc_wf by (simp add: chain_ready_def demo_app_parts empty_chain_def demo_ibc_def demo_channel_def bank_wf_def om_wf_def supply_of_def)
qed

theorem token_round_trip_witness:
  "\<exists>r1 a1 p r2 b1 r3 b2 p' r4 a2.
       app_execute round_ext (Suc (Suc 0)) (Addr ''carol'') carol_transfers (carol_app []) = (Ok r1, a1)
     \<and> app_sudo round_ext (Suc (Suc 0)) (SudoIbc (RReceive p)) (demo_app round_ext) = (Ok r2, b1)
     \<and> held (ch_bank (ap_chain b1)) (Addr ''bob'') (wrap_ibc_denom_query round_ext ''channel-0'' ''atom'') = 4
     \<and> app_execute round_ext (Suc (Suc 0)) (Addr ''bob'') (MIbc (IbcTransfer ''channel-0'' ''carol''
         \<lparr>c_denom = wrap_ibc_denom_query round_ext ''channel-0'' ''atom'', c_amount = 4\<rparr> \<lparr>to_block = None, to_timestamp = None\<rparr> None)) b1 = (Ok r3, b2)
     \<and> app_sudo round_ext (Suc (Suc 0)) (SudoIbc (RReceive p')) a1 = (Ok r4, a2)
     \<and> held (ch_bank (ap_chain a2)) (Addr ''carol'') ''atom'' = 4"
proof -
  let ?amt = "\<lparr>c_denom = ''atom'', c_amount = 4 :: uint256\<rparr>" and ?never = "\<lparr>to_block = None, to_timestamp = None\<rparr>"
    and ?v = "wrap_ibc_denom_query round_ext ''channel-0'' ''atom''"
  have packets: "packet_of ?amt ''atom'' (Addr ''carol'') (Addr ''bob'') = demo_ics20"
      "packet_of ?amt ''atom'' (Addr ''bob'') (Addr ''carol'') = demo_return"
    by (simp_all add: packet_of_def demo_ics20_def demo_return_def)
  have json: "x_to_json round_ext (JIcs20 demo_ics20) = Inr [0]" "x_to_json round_ext (JIcs20 demo_return) = Inr [1]"
    by (simp_all add: round_ext_def demo_ics20_def demo_return_def)
  have valid: "x_addr_validate round_ext ''carol'' = Inr (Addr ''carol'')" "x_addr_validate round_ext ''bob'' = Inr (Addr ''bob'')"
    by (simp_all add: round_ext_def demo_ext_def)
  have never: "\<not> timed_out block ?never" for block by (simp add: timed_out_def)
  have demo: "held (ch_bank (ap_chain (carol_app []))) (Addr ''carol'') ''atom'' = 4"
      "om_get (ch_ibc_denoms (ap_chain (carol_app []))) ''atom'' = None" "held (ch_bank (ap_chain (demo_app round_ext))) x y = 0"
      "supply_of (ch_bank (ap_chain (demo_app round_ext))) y = 0"
      "om_get (i_receive (ch_ibc (ap_chain (carol_app [])))) k = None"
      "om_get (i_receive (ch_ibc (ap_chain (demo_app round_ext)))) k = None" for x y k
    by (simp_all add: carol_app_parts demo_app_parts empty_chain_def demo_ibc_def held_def get_balance_def supply_of_def)
  obtain r1 a1 p r2 b1 r3 b2 p' r4 a2 where
      "app_execute round_ext (Suc (Suc 0)) (Addr ''carol'') (MIbc (IbcTransfer ''channel-0'' (addr_str (Addr ''bob'')) ?amt ?never None)) (carol_app []) = (Ok r1, a1)"
      "app_sudo round_ext (Suc (Suc 0)) (SudoIbc (RReceive p)) (demo_app round_ext) = (Ok r2, b1)"
      "held (ch_bank (ap_chain b1)) (Addr ''bob'') ?v = held (ch_bank (ap_chain (demo_app round_ext))) (Addr ''bob'') ?v + unat (c_amount ?amt)"
      "app_execute round_ext (Suc (Suc 0)) (Addr ''bob'') (MIbc (IbcTransfer ''channel-0'' (addr_str (Addr ''carol'')) (?amt\<lparr>c_denom := ?v\<rparr>) ?never None)) b1 = (Ok r3, b2)"
      "app_sudo round_ext (Suc (Suc 0)) (SudoIbc (RReceive p')) a1 = (Ok r4, a2)"
      "held (ch_bank (ap_chain a2)) = held (ch_bank (ap_chain (carol_app [])))"
    using token_round_trip [OF round_ext_laws demo_ready demo(6,5) never never, of ?amt "Addr ''carol''" ?v "Addr ''bob''" "[0]" "[1]" 0]
    by (auto simp: demo packets json valid)
  note run = this
  have "held (ch_bank (ap_chain b1)) (Addr ''bob'') ?v = 4" "held (ch_bank (ap_chain a2)) (Addr ''carol'') ''atom'' = 4"
    using run(3,6) by (simp_all add: demo)
  with run(1,2,4,5) [simplified] show ?thesis by blast
qed

end
