(* ===== verification/Hooks.thy ===== *)
theory Hooks
  imports Round_Trip
begin

text \<open>
  The ibc-hooks of the bank: a transfer whose memo names a contract to call on arrival, and one whose
  memo names a contract to tell the outcome.
\<close>

section \<open>A packet received by the bank\<close>

lemma received_by_bank:
  assumes "app_sudo ext n (SudoIbc (RReceive p)) a = (Ok r, a')"
    and "om_get (i_channels (ch_ibc (ap_chain a))) (ep_port (pk_dest p), ep_channel (pk_dest p)) = Some d"
    and "ep_port (ic_endpoint (ci_info d)) = ''transfer''" "\<not> timed_out (ap_block a) (pk_timeout p)"
  obtains k i s events ack where
    "bank_packet_receive ext (router_at ext (ap_modules a) k) (ap_block a) \<lparr>prm_packet = p, prm_relayer = RELAYER_ADDR\<rparr>
       ((ap_chain a)\<lparr>ch_ibc := i\<rparr>) = (Ok (RespReceive events ack), s)"
    "a' = a\<lparr>ap_chain := s\<lparr>ch_ibc := (ch_ibc s)\<lparr>i_receive_ack := om_insert (dest_key p) ack (i_receive_ack (ch_ibc s))\<rparr>\<rparr>\<rparr>"
    "ar_events r = events @ [new_event ''recv_packet'' (data_attrs ext p @ route_attrs p @ channel_attrs ext (ci_info d)),
       new_event ''write_acknowledgement'' ((''packet_data'', x_binary_json ext (pk_data p))
         # (''packet_data_hex'', x_hex ext (pk_data p)) # route_attrs p @ (case ack of None \<Rightarrow> []
           | Some b \<Rightarrow> [(''packet_ack'', x_utf8_lossy ext b), (''packet_ack_hex'', x_hex ext b)]))]"
proof -
  obtain k s where run: "receive_packet ext (router_at ext (ap_modules a) k) (ap_block a) p (ap_chain a) = (Ok r, s)"
      and a': "a' = a\<lparr>ap_chain := s\<rparr>"
    by (rule app_sudo_ibc_Ok [OF assms(1)]) (simp add: ibc_sudo_def)
  from run obtain c late i where rec: "record_receive (ap_block a) p (ch_ibc (ap_chain a)) = (Ok (c, late), i)"
    by (auto simp: receive_packet_def ok_iffs in_ibc_def zoom_Ok_iff)
  have c: "c = d" "\<not> late"
    using rec assms(2,4) by (auto simp: record_receive_def ok_iffs load_apply Let_def split: option.splits)
  have port: "parse_port ''transfer'' = Inr PortBank" by (simp add: parse_port_def BANK_MODULE_PORT_def)
  have rec2: "in_ibc (record_receive (ap_block a) p) (ap_chain a) = (Ok (d, False), (ap_chain a)\<lparr>ch_ibc := i\<rparr>)"
    using rec c by (simp add: in_ibc_def zoom_def)
  let ?events = "\<lambda>events ack. events @ [new_event ''recv_packet'' (data_attrs ext p @ route_attrs p @ channel_attrs ext (ci_info d)),
       new_event ''write_acknowledgement'' ((''packet_data'', x_binary_json ext (pk_data p))
         # (''packet_data_hex'', x_hex ext (pk_data p)) # route_attrs p @ (case ack of None \<Rightarrow> []
           | Some b \<Rightarrow> [(''packet_ack'', x_utf8_lossy ext b), (''packet_ack_hex'', x_hex ext b)]))]"
  obtain res s1 where 1: "r_ibc (router_at ext (ap_modules a) k) (ap_block a) IbcBank
        (PacketReceive \<lparr>prm_packet = p, prm_relayer = RELAYER_ADDR\<rparr>) ((ap_chain a)\<lparr>ch_ibc := i\<rparr>) = (Ok res, s1)"
      and rest: "(case res of RespReceive events ack \<Rightarrow> thenM (in_ibc (modifies (\<lambda>i. i\<lparr>i_receive_ack :=
          om_insert (dest_key p) ack (i_receive_ack i)\<rparr>))) (ret \<lparr>ar_events = ?events events ack, ar_data = None\<rparr>)
        | _ \<Rightarrow> panic ''Only a receive response was expected when receiving a packet'') s1 = (Ok r, s)"
    using run
    by (auto simp: receive_packet_def bindM_Ok_iff [of "in_ibc (record_receive x y)" for x y] rec2 assms(3) port bindM_lift_result
        bindM_Ok_iff [of "atomically x" for x] module_of_port_def)
  then obtain events ack where res: "res = RespReceive events ack" and 3: "ar_events r = ?events events ack"
      and 2: "s = s1\<lparr>ch_ibc := (ch_ibc s1)\<lparr>i_receive_ack := om_insert (dest_key p) ack (i_receive_ack (ch_ibc s1))\<rparr>\<rparr>"
    by (cases res) (auto simp: ok_iffs in_ibc_def zoom_Ok_iff)
  note 1 = 1 [unfolded res]
  from 1 obtain j where "k = Suc j" by (cases k) (simp_all add: idle_router_def no_fuel_def)
  with 1 have "bank_packet_receive ext (router_at ext (ap_modules a) j) (ap_block a) \<lparr>prm_packet = p, prm_relayer = RELAYER_ADDR\<rparr>
       ((ap_chain a)\<lparr>ch_ibc := i\<rparr>) = (Ok (RespReceive events ack), s1)"
    by (simp add: router_ibc_def)
  with 2 3 a' that show thesis by blast
qed

section \<open>A transfer that calls a contract\<close>

text \<open>The coin that arrives with a packet: the escrowed one if there is any, a voucher otherwise.\<close>

definition arriving_coin :: "ext \<Rightarrow> ibc_packet \<Rightarrow> ics20_packet \<Rightarrow> bank_state \<Rightarrow> coin" where
  "arriving_coin ext p q b = \<lparr>c_denom = (if held b lock_addr (ics_denom q) = 0
     then wrap_ibc_denom_query ext (ep_channel (pk_dest p)) (ics_denom q) else ics_denom q), c_amount = ics_amount q\<rparr>"

lemma bank_receives_hook:
  assumes "nb_laws ext" "bank_wf (ch_bank s)" "x_parse_ics20 ext (pk_data p) = Inr q"
    and memo: "ics_memo q = Some memo" "x_parse_hooks_memo ext memo = Some (Some (contract, call))"
    and hook: "x_addr_humanize ext (hook_sender_bytes ext (ep_channel (pk_src p)) (ics_sender q)) = Inr hook"
      "x_addr_validate ext (addr_str hook) = Inr hook"
    and run: "bank_packet_receive ext rt block \<lparr>prm_packet = p, prm_relayer = rel\<rparr> s = (Ok (RespReceive events ack), s')"
  obtains payload s1 res where "x_to_json ext (JValue call) = Inr payload" "ch_wasm s1 = ch_wasm s" "bank_wf (ch_bank s1)"
    "\<And>x d. x \<noteq> lock_addr \<Longrightarrow> held (ch_bank s1) x d
       = held (ch_bank s) x d + (if x = hook then amount_of [arriving_coin ext p q (ch_bank s)] d else 0)"
    "r_execute rt block hook (MWasm (WasmExecute contract payload [arriving_coin ext p q (ch_bank s)])) s1 = (Ok res, s')"
proof -
  let ?q = "q\<lparr>ics_receiver := addr_str hook\<rparr>" and ?ch = "ep_channel (pk_dest p)"
  have hooks: "parse_ibc_hooks_memo ext (ep_channel (pk_src p)) q = Inr (Some (hook, contract, call), ?q)"
    using memo hook(1) by (simp add: parse_ibc_hooks_memo_def)
  with run assms(3) obtain funds s1 payload res where
      rel: "release_or_mint ext (locked_coin (ics_denom q) s) ?ch ?q s = (Ok funds, s1)"
      and payload: "x_to_json ext (JValue call) = Inr payload"
      and exec: "r_execute rt block hook (MWasm (WasmExecute contract payload funds)) s1 = (Ok res, s')"
    by (auto simp: bank_packet_receive_def ok_iffs Let_def)
  have "funds = [arriving_coin ext p q (ch_bank s)] \<and> ch_wasm s1 = ch_wasm s \<and> bank_wf (ch_bank s1)
    \<and> (\<forall>x d. x \<noteq> lock_addr \<longrightarrow> held (ch_bank s1) x d = held (ch_bank s) x d + (if x = hook then amount_of funds d else 0))"
  proof (cases "locked_coin (ics_denom q) s")
    case None
    with release_or_mint_None [OF rel [unfolded None]] hook(2) obtain b where
        b: "funds = [arriving_coin ext p q (ch_bank s)]" "ch_bank s1 = b" "ch_wasm s1 = ch_wasm s"
          and minted: "mint ext hook funds (ch_bank s) = (Ok (), b)"
      using locked_coin_None [OF assms(2)] by (auto simp: arriving_coin_def)
    from mint_Ok [OF assms(1,2) minted] b show ?thesis by simp
  next
    case (Some c)
    then have "held (ch_bank s) lock_addr (ics_denom q) \<noteq> 0" using locked_coin_None [OF assms(2), of "ics_denom q"] by simp
    with release_or_mint_Some [OF rel [unfolded Some]] hook(2) obtain b where
        b: "funds = [arriving_coin ext p q (ch_bank s)]" "ch_bank s1 = b" "ch_wasm s1 = ch_wasm s"
          and sent: "send ext lock_addr hook funds (ch_bank s) = (Ok (), b)"
      by (auto simp: arriving_coin_def)
    have "held b x d = held (ch_bank s) x d + (if x = hook then amount_of funds d else 0)" if "x \<noteq> lock_addr" for x d
      using send_Ok(1) [OF assms(1,2) sent, of x d] that by simp
    with send_Ok(3) [OF assms(1,2) sent] b show ?thesis by simp
  qed
  with payload exec that show thesis by blast
qed

text \<open>
  C13. A hook runs its contract. When the bank receives a transfer whose memo asks for a call of a
  contract, the contract is called with the message of the memo by the intermediate account of the channel
  and the sender, and with the arriving coin as funds. When it runs it already holds the coin, so that
  what its queries see is the chain before, with this coin more on the contract's account: the
  intermediate account keeps nothing. And the packet is received only if the call succeeds.
\<close>
theorem hook_runs_contract:
  assumes "nb_laws ext" "bank_wf (ch_bank (ap_chain a))" "x_parse_ics20 ext (pk_data p) = Inr q"
    and "ics_memo q = Some memo" "x_parse_hooks_memo ext memo = Some (Some (contract, call))"
    and "x_addr_humanize ext (hook_sender_bytes ext (ep_channel (pk_src p)) (ics_sender q)) = Inr hook"
      "x_addr_validate ext (addr_str hook) = Inr hook"
    and "app_sudo ext n (SudoIbc (RReceive p)) a = (Ok r, a')"
    and "om_get (i_channels (ch_ibc (ap_chain a))) (ep_port (pk_dest p), ep_channel (pk_dest p)) = Some d"
      "ep_port (ic_endpoint (ci_info d)) = ''transfer''" "\<not> timed_out (ap_block a) (pk_timeout p)"
  shows "let coin = arriving_coin ext p q (ch_bank (ap_chain a))
    in \<exists>address c code payload k s res m. x_addr_validate ext contract = Inr address
      \<and> om_get (w_contracts (ch_wasm (ap_chain a))) address = Some c
      \<and> code_at (md_wasm (ap_modules a)) (cd_code_id c) = Some code
      \<and> x_to_json ext (JValue call) = Inr payload
      \<and> (\<forall>x dn. x \<noteq> lock_addr \<longrightarrow> held (ch_bank s) x dn
          = held (ch_bank (ap_chain a)) x dn + (if x = address then amount_of [coin] dn else 0))
      \<and> run_cprog (\<lambda>req. r_query (router_at ext (ap_modules a) k) (ap_block a) req s)
          (ct_execute code (get_env address (ap_block a)) \<lparr>mi_sender = hook, mi_funds = [coin]\<rparr> payload)
          (contract_storage (ap_chain a) address) = (Ok res, m)
      \<and> own_rel (md_wasm (ap_modules a)) (put_contract_storage address m s) (ap_chain a')"
proof -
  let ?wk = "md_wasm (ap_modules a)" and ?s = "ap_chain a"
  let ?coin = "arriving_coin ext p q (ch_bank ?s)"
  obtain k i s3 events ack where bank: "bank_packet_receive ext (router_at ext (ap_modules a) k) (ap_block a)
        \<lparr>prm_packet = p, prm_relayer = RELAYER_ADDR\<rparr> (?s\<lparr>ch_ibc := i\<rparr>) = (Ok (RespReceive events ack), s3)"
      and a': "a' = a\<lparr>ap_chain := s3\<lparr>ch_ibc := (ch_ibc s3)\<lparr>i_receive_ack := om_insert (dest_key p) ack (i_receive_ack (ch_ibc s3))\<rparr>\<rparr>\<rparr>"
    by (rule received_by_bank [OF assms(8-11)])
  have wf: "bank_wf (ch_bank (?s\<lparr>ch_ibc := i\<rparr>))" using assms(2) by simp
  obtain payload s1 res where payload: "x_to_json ext (JValue call) = Inr payload" and s1: "ch_wasm s1 = ch_wasm ?s" "bank_wf (ch_bank s1)"
      and held1: "\<And>x dn. x \<noteq> lock_addr \<Longrightarrow> held (ch_bank s1) x dn
        = held (ch_bank ?s) x dn + (if x = hook then amount_of [?coin] dn else 0)"
      and exec: "r_execute (router_at ext (ap_modules a) k) (ap_block a) hook (MWasm (WasmExecute contract payload [?coin])) s1 = (Ok res, s3)"
    by (rule bank_receives_hook [OF assms(1) wf assms(3-7) bank]) simp
  show ?thesis
    unfolding Let_def
  proof (rule executed_wasm [OF exec])
    fix j address b c code y m rm r1
    assume run: "x_addr_validate ext contract = Inr address"
      "funds_paid ext hook address [?coin] (ch_bank s1) b"
      "om_get (w_contracts (ch_wasm s1)) address = Some c" "code_at ?wk (cd_code_id c) = Some code"
      "run_cprog (\<lambda>req. r_query (router_at ext (ap_modules a) j) (ap_block a) req (s1\<lparr>ch_bank := b\<rparr>))
        (ct_execute code (get_env address (ap_block a)) \<lparr>mi_sender = hook, mi_funds = [?coin]\<rparr> payload) (contract_storage s1 address) = (Ok y, m)"
      "process_at ext (router_at ext (ap_modules a) j) ?wk j (ap_block a) address rm
        (put_contract_storage address m (s1\<lparr>ch_bank := b\<rparr>)) = (Ok r1, s3)"
    have "own_rel ?wk (put_contract_storage address m (s1\<lparr>ch_bank := b\<rparr>)) s3"
      using ok_runsD [OF own.process_at_ok [OF own.router_at_ok [OF refl]] run(6)] .
    moreover have "own_rel ?wk s3 (ap_chain a')" by (simp add: a' own_same)
    ultimately have "own_rel ?wk (put_contract_storage address m (s1\<lparr>ch_bank := b\<rparr>)) (ap_chain a')"
      using own_order(2) by (meson transpD)
    moreover have "held b x dn = held (ch_bank ?s) x dn + (if x = address then amount_of [?coin] dn else 0)" if "x \<noteq> lock_addr" for x dn
      using send_Ok(1) [OF assms(1) s1(2), of hook address "[?coin]" "()" b x dn] run(2) held1 [OF that, of dn]
      by (simp add: funds_paid_def split: if_splits)
    moreover have "contract_storage s1 address = contract_storage ?s address" by (simp add: contract_storage_def s1(1))
    ultimately show "\<exists>address c code payload k s res m. x_addr_validate ext contract = Inr address
      \<and> om_get (w_contracts (ch_wasm ?s)) address = Some c \<and> code_at ?wk (cd_code_id c) = Some code
      \<and> x_to_json ext (JValue call) = Inr payload
      \<and> (\<forall>x dn. x \<noteq> lock_addr \<longrightarrow> held (ch_bank s) x dn
          = held (ch_bank ?s) x dn + (if x = address then amount_of [?coin] dn else 0))
      \<and> run_cprog (\<lambda>req. r_query (router_at ext (ap_modules a) k) (ap_block a) req s)
          (ct_execute code (get_env address (ap_block a)) \<lparr>mi_sender = hook, mi_funds = [?coin]\<rparr> payload)
          (contract_storage ?s address) = (Ok res, m)
      \<and> own_rel ?wk (put_contract_storage address m s) (ap_chain a')"
      using run s1(1) payload
      by (intro exI [of _ address] exI [of _ c] exI [of _ code] exI [of _ payload] exI [of _ j] exI [of _ "s1\<lparr>ch_bank := b\<rparr>"]
          exI [of _ y] exI [of _ m]) simp
  qed
qed

text \<open>A chain with one contract, which a packet calls.\<close>

definition hook_packet_data :: ics20_packet where
  "hook_packet_data = demo_ics20\<lparr>ics_memo := Some ''hook''\<rparr>"

definition hook_ext :: ext where
  "hook_ext = relay_ext\<lparr>x_parse_ics20 := (\<lambda>b. Inr hook_packet_data), x_parse_hooks_memo := (\<lambda>m. Some (Some (''first'', ''go''))),
     x_addr_humanize := (\<lambda>b. Inr (Addr ''hook'')), x_to_json := (\<lambda>d. Inr [])\<rparr>"

definition hook_app :: app where
  "hook_app = (demo_app hook_ext)\<lparr>ap_modules := (ap_modules (demo_app hook_ext))\<lparr>md_wasm := demo_keeper\<rparr>,
     ap_chain := empty_chain\<lparr>ch_ibc := demo_ibc, ch_wasm := \<lparr>w_contracts = [(Addr ''first'',
       \<lparr>cd_code_id = 1, cd_creator = Addr ''alice'', cd_admin = None, cd_label = ''first'', cd_created = 1\<rparr>)], w_storage = []\<rparr>\<rparr>\<rparr>"

lemma hook_ext_fields:
  "x_parse_ics20 hook_ext b = Inr hook_packet_data" "x_parse_hooks_memo hook_ext m = Some (Some (''first'', ''go''))"
  "x_addr_humanize hook_ext bs = Inr (Addr ''hook'')" "x_to_json hook_ext d = Inr []"
  "x_addr_validate hook_ext ''hook'' = Inr (Addr ''hook'')" "x_addr_validate hook_ext ''first'' = Inr (Addr ''first'')"
  by (simp_all add: hook_ext_def relay_ext_def ics20_ext_def demo_ext_def)

lemma nb_laws_hook: "nb_laws hook_ext"
  by (subst nb_laws_cong [where f = demo_ext]) (simp_all add: hook_ext_def relay_ext_def ics20_ext_def)

lemma hook_app_parts:
  "ap_block hook_app = demo_time" "md_wasm (ap_modules hook_app) = demo_keeper"
  "ch_ibc (ap_chain hook_app) = demo_ibc" "ch_bank (ap_chain hook_app) = ch_bank empty_chain"
  "om_get (w_contracts (ch_wasm (ap_chain hook_app))) (Addr ''first'') =
     Some \<lparr>cd_code_id = 1, cd_creator = Addr ''alice'', cd_admin = None, cd_label = ''first'', cd_created = 1\<rparr>"
  by (simp_all add: hook_app_def demo_app_parts)

lemma hook_executes:
  assumes "ch_wasm s = ch_wasm (ap_chain hook_app)" "bank_wf (ch_bank s)" "\<forall>d. supply_of (ch_bank s) d < 2 ^ 256"
    and "\<forall>d. amount_of [coin] d \<le> held (ch_bank s) (Addr ''hook'') d" "c_amount coin \<noteq> 0"
  shows "\<exists>r s'. r_execute (router_at hook_ext (ap_modules hook_app) 2) demo_time (Addr ''hook'')
    (MWasm (WasmExecute ''first'' [] [coin])) s = (Ok r, s')"
proof -
  obtain b where b: "send hook_ext (Addr ''hook'') (Addr ''first'') [coin] (ch_bank s) = (Ok (), b)"
    using send_completes [OF nb_laws_hook assms(2) _ assms(4,3)] assms(5) by auto
  have c: "om_get (w_contracts (ch_wasm (s\<lparr>ch_bank := b\<rparr>))) (Addr ''first'') =
     Some \<lparr>cd_code_id = 1, cd_creator = Addr ''alice'', cd_admin = None, cd_label = ''first'', cd_created = 1\<rparr>"
    using assms(1) hook_app_parts(5) by simp
  have "contract_code demo_keeper 1 t = (Ok idle_contract, t)" for t :: chain by (rule demo_contract_code)
  then have code: "contract_code (md_wasm (ap_modules hook_app)) (cd_code_id \<lparr>cd_code_id = 1, cd_creator = Addr ''alice'', cd_admin = None,
      cd_label = ''first'', cd_created = 1\<rparr>) (s\<lparr>ch_bank := b\<rparr>) = (Ok idle_contract, s\<lparr>ch_bank := b\<rparr>)"
    by (simp add: hook_app_parts)
  let ?t = "put_contract_storage (Addr ''first'') (contract_storage (s\<lparr>ch_bank := b\<rparr>) (Addr ''first'')) (s\<lparr>ch_bank := b\<rparr>)"
  have call: "call_execute rt (md_wasm (ap_modules hook_app)) demo_time (Addr ''first'') \<lparr>mi_sender = Addr ''hook'', mi_funds = [coin]\<rparr> []
      (s\<lparr>ch_bank := b\<rparr>) = (Ok new_response, ?t)" for rt
    by (rule call_execute_run [OF c code idle_contract_runs(1) verify_new_response])
  show ?thesis
    by (simp add: numeral_2_eq_2 router_execute_def wasm_execute_def execute_wasm_def map_errM_def hook_ext_fields bindM_lift_result
        wasm_send_def thenM_def bank_execute_def in_bank_def zoom_def bindM_def b ret_def call process_at_def process_response_def
        new_response_def build_app_response_def Let_def)
qed

lemma hook_bank_receives:
  "\<exists>events ack s'. bank_packet_receive hook_ext (router_at hook_ext (ap_modules hook_app) 2) demo_time
     \<lparr>prm_packet = demo_packet None, prm_relayer = rel\<rparr> ((ap_chain hook_app)\<lparr>ch_ibc := i\<rparr>) = (Ok (RespReceive events ack), s')"
proof -
  let ?s = "(ap_chain hook_app)\<lparr>ch_ibc := i\<rparr>" and ?w = "wrap_ibc_denom_query hook_ext ''channel-0'' ''atom''"
  let ?coin = "\<lparr>c_denom = ?w, c_amount = 4\<rparr>"
  let ?q = "hook_packet_data\<lparr>ics_receiver := ''hook''\<rparr>"
  have bank: "ch_bank ?s = ch_bank empty_chain" by (simp add: hook_app_parts)
  have wf: "bank_wf (ch_bank ?s)" unfolding bank by (simp add: empty_chain_def bank_wf_def)
  have none: "held (ch_bank (ap_chain hook_app)) x d = 0" "supply_of (ch_bank (ap_chain hook_app)) d = 0" for x d
    by (simp_all add: hook_app_parts empty_chain_def held_def get_balance_def supply_of_def om_sum_def)
  have "\<forall>d. held (ch_bank ?s) (Addr ''hook'') d + amount_of [?coin] d < 2 ^ 256" by (simp add: none)
  then obtain b where b: "mint hook_ext (Addr ''hook'') [?coin] (ch_bank ?s) = (Ok (), b)"
    using mint_completes [OF nb_laws_hook wf, of "[?coin]" "Addr ''hook''"] by auto
  let ?s1 = "?s\<lparr>ch_bank := b, ch_ibc_denoms := om_insert ?w \<lparr>id_channel = ''channel-0'', id_original = ''atom''\<rparr> (ch_ibc_denoms ?s)\<rparr>"
  have "locked_coin ''atom'' ?s = None" using locked_coin_None [OF wf, of "''atom''"] none by simp
  moreover have "to_u128 (4 :: uint256) = Inr 4" by (simp add: to_u128_Inr)
  ultimately have rel: "release_or_mint hook_ext (locked_coin ''atom'' ?s) ''channel-0'' ?q ?s = (Ok [?coin], ?s1)"
    using b by (simp add: release_or_mint_def hook_packet_data_def demo_ics20_def bindM_lift_result wrap_ibc_denom_def in_bank_def zoom_def
      bindM_def thenM_def modifies_def ret_def hook_ext_fields Let_def)
  note M = mint_Ok [OF nb_laws_hook wf b]
  have "\<exists>r s'. r_execute (router_at hook_ext (ap_modules hook_app) 2) demo_time (Addr ''hook'')
      (MWasm (WasmExecute ''first'' [] [?coin])) ?s1 = (Ok r, s')"
    by (rule hook_executes) (use M mint_supply [OF nb_laws_hook wf b] none in simp_all)
  then obtain r s' where "r_execute (router_at hook_ext (ap_modules hook_app) 2) demo_time (Addr ''hook'')
      (MWasm (WasmExecute ''first'' [] [?coin])) ?s1 = (Ok r, s')" by blast
  moreover have "parse_ibc_hooks_memo hook_ext ''channel-0'' hook_packet_data = Inr (Some (Addr ''hook'', ''first'', ''go''), ?q)"
    by (simp add: parse_ibc_hooks_memo_def hook_ext_fields hook_packet_data_def)
  moreover have "ics_denom hook_packet_data = ''atom''" by (simp add: hook_packet_data_def demo_ics20_def)
  ultimately show ?thesis using rel
    by (simp add: bank_packet_receive_def demo_packet_def hook_ext_fields bindM_lift_result bindM_reads
        bindM_eq [where m = "release_or_mint x1 x2 x3 x4" for x1 x2 x3 x4]
        bindM_eq [where m = "r_execute x1 x2 x3 x4" for x1 x2 x3 x4] ret_def del: router_at.simps)
qed

theorem hook_runs_contract_witness:
  "\<exists>r a' s m. app_sudo hook_ext 4 (SudoIbc (RReceive (demo_packet None))) hook_app = (Ok r, a')
    \<and> held (ch_bank s) (Addr ''first'') (wrap_ibc_denom_query hook_ext ''channel-0'' ''atom'') = 4
    \<and> (\<forall>d. held (ch_bank s) (Addr ''hook'') d = 0)
    \<and> own_rel demo_keeper (put_contract_storage (Addr ''first'') m s) (ap_chain a')"
proof -
  let ?p = "demo_packet None" and ?a = hook_app
  have d: "om_get (i_channels (ch_ibc (ap_chain ?a))) (ep_port (pk_dest ?p), ep_channel (pk_dest ?p)) = Some demo_channel"
    "ep_port (ic_endpoint (ci_info demo_channel)) = ''transfer''" "\<not> timed_out (ap_block ?a) (pk_timeout ?p)"
    "om_get (i_receive (ch_ibc (ap_chain ?a))) (dest_key ?p) = None"
    by (simp_all add: hook_app_parts demo_ibc_def demo_packet_def demo_channel_def timed_out_def)
  obtain events ack s' where bank: "bank_packet_receive hook_ext (router_at hook_ext (ap_modules ?a) 2) demo_time
     \<lparr>prm_packet = ?p, prm_relayer = RELAYER_ADDR\<rparr> ((ap_chain ?a)\<lparr>ch_ibc := (ch_ibc (ap_chain ?a))\<lparr>i_receive :=
          om_insert (dest_key ?p) \<lparr>pr_data = ?p, pr_timeout = False\<rparr> (i_receive (ch_ibc (ap_chain ?a)))\<rparr>\<rparr>) = (Ok (RespReceive events ack), s')"
    using hook_bank_receives by blast
  obtain r a' where run: "app_sudo hook_ext (Suc (Suc 2)) (SudoIbc (RReceive ?p)) ?a = (Ok r, a')"
    using app_receive_completes [OF d(1,2,4,3) bank [folded hook_app_parts(1)]] by blast
  have q: "x_parse_ics20 hook_ext (pk_data ?p) = Inr hook_packet_data" "ics_memo hook_packet_data = Some ''hook''"
    "x_addr_validate hook_ext (addr_str (Addr ''hook'')) = Inr (Addr ''hook'')"
    by (simp_all add: hook_ext_fields hook_packet_data_def)
  have wf: "bank_wf (ch_bank (ap_chain ?a))" by (simp add: hook_app_parts empty_chain_def bank_wf_def)
  have none: "held (ch_bank (ap_chain ?a)) x dn = 0" for x dn
    by (simp add: hook_app_parts empty_chain_def held_def get_balance_def)
  let ?coin = "arriving_coin hook_ext ?p hook_packet_data (ch_bank (ap_chain ?a))"
  have coin: "?coin = \<lparr>c_denom = wrap_ibc_denom_query hook_ext ''channel-0'' ''atom'', c_amount = 4\<rparr>"
    by (simp add: arriving_coin_def none hook_packet_data_def demo_ics20_def demo_packet_def)
  have four: "Suc (Suc 2) = (4 :: nat)" by simp
  obtain s m where held: "\<And>x dn. x \<noteq> lock_addr \<Longrightarrow> held (ch_bank s) x dn = (if x = Addr ''first'' then amount_of [?coin] dn else 0)"
      and own: "own_rel demo_keeper (put_contract_storage (Addr ''first'') m s) (ap_chain a')"
    using hook_runs_contract [OF nb_laws_hook wf q(1,2) hook_ext_fields(2,3) q(3) run d(1-3)]
    by (auto simp: Let_def hook_ext_fields hook_app_parts(1,2,5) none)
  have "Addr ''first'' \<noteq> lock_addr" "Addr ''hook'' \<noteq> lock_addr"
    by (simp_all add: lock_addr_def IBC_LOCK_MODULE_ADDRESS_def)
  note parts = held [OF this(1), unfolded coin] held [OF this(2)]
  show ?thesis
  proof (intro exI conjI)
    show "app_sudo hook_ext 4 (SudoIbc (RReceive ?p)) ?a = (Ok r, a')" using run unfolding four .
    show "held (ch_bank s) (Addr ''first'') (wrap_ibc_denom_query hook_ext ''channel-0'' ''atom'') = 4"
      by (simp add: parts(1))
    show "\<forall>d. held (ch_bank s) (Addr ''hook'') d = 0" by (simp add: parts(2))
  qed (rule own)
qed

section \<open>A transfer that wants to hear back\<close>









end
