(* ===== verification/Rewards.thy ===== *)
theory Rewards
  imports Transfers
begin

text \<open>
  Staking rewards (\<open>src/staking.rs\<close>): the decimal arithmetic of \<open>calculate_rewards\<close> and
  \<open>share_of_rewards\<close> in closed form over the natural numbers, what bringing a validator up to date
  credits to its delegators, and that a withdrawal pays what the reward query promised.
\<close>

section \<open>The arithmetic in closed form\<close>

text \<open>
  Division rounds down and fails on zero or when the result does not fit; a timestamp counts
  nanoseconds, and a difference of times below zero is a panic.
\<close>

definition div_laws :: "ext \<Rightarrow> bool" where
  "div_laws ext \<longleftrightarrow>
     (\<forall>a b. x_dec_div ext a b = (if b = dec_zero then None
        else fits_dec (unat (atomics a) * 10 ^ 18 div unat (atomics b)))) \<and>
     (\<forall>a n. x_dec_div_uint ext a n = (if n = 0 then None
        else Some (Decimal (of_nat (unat (atomics a) div unat n))))) \<and>
     (\<forall>t. unat (x_seconds ext t) = unat t div 10 ^ 9) \<and>
     (\<forall>t s. x_minus_seconds ext t s =
        (if unat s * 10 ^ 9 \<le> unat t then fits (unat t - unat s * 10 ^ 9) else None))"

lemma div_laws_demo [simp]: "div_laws demo_ext"
proof -
  have "unat (of_nat (unat t div 10 ^ 9) :: u64) = unat t div 10 ^ 9" for t :: u64
  proof -
    have "unat t < 2 ^ 64" using unsigned_less [of t] by simp
    then have "unat t div 10 ^ 9 < 2 ^ 64" using div_le_dividend le_less_trans by blast
    then show ?thesis by (simp add: unsigned_of_nat take_bit_nat_eq_self)
  qed
  then show ?thesis by (simp add: div_laws_def demo_ext_def)
qed

text \<open>The seconds between two times, and the reward for them: all divisions round down.\<close>

definition secs_between :: "timestamp \<Rightarrow> timestamp \<Rightarrow> nat" where
  "secs_between since now = unat now div 10 ^ 9 - unat since div 10 ^ 9"

definition reward_due :: "nat \<Rightarrow> nat \<Rightarrow> nat \<Rightarrow> nat \<Rightarrow> nat" where
  "reward_due stake apr commission secs =
     (let reward = stake * apr * secs div unat YEAR in reward - reward * commission div 10 ^ 18)"

lemma YEAR_nat: "unat YEAR = 31536000"
  by (simp add: YEAR_def)

lemma unat_ucast_256: "unat (ucast (w :: u64) :: uint256) = unat w"
proof -
  have "unat w < 2 ^ 64" using unsigned_less [of w] by simp
  then show ?thesis by (simp add: unsigned_ucast_eq take_bit_nat_eq_self)
qed

lemma minus_seconds_Some:
  assumes "div_laws ext" "x_minus_seconds ext now (x_seconds ext since) = Some diff"
  shows "unat (x_seconds ext diff) = secs_between since now"
proof -
  let ?k = "unat since div 10 ^ 9"
  have "?k * 10 ^ 9 \<le> unat now" and d: "unat diff = unat now - ?k * 10 ^ 9"
    using assms by (auto simp: div_laws_def fits_Some split: if_splits)
  then have "unat now = unat diff + ?k * 10 ^ 9" by simp
  then have "unat now div 10 ^ 9 = unat diff div 10 ^ 9 + ?k" by simp
  then show ?thesis using assms(1) by (simp add: div_laws_def secs_between_def)
qed

lemma minus_same_seconds: "div_laws ext \<Longrightarrow> \<exists>diff. x_minus_seconds ext now (x_seconds ext now) = Some diff"
  using unsigned_less [of now] by (auto simp: div_laws_def fits_def)

lemma dec_divD: "div_laws ext \<Longrightarrow> x_dec_div ext a b = Some d \<Longrightarrow>
    unat (atomics d) = unat (atomics a) * 10 ^ 18 div unat (atomics b)"
  by (auto simp: div_laws_def fits_dec_Some split: if_splits)

lemma calculate_rewards_Some:
  assumes "dec_laws ext" "div_laws ext"
    and "calculate_rewards ext now since apr commission stake = Some r"
  shows "unat (atomics r) = reward_due (unat stake) (unat (atomics apr)) (unat (atomics commission)) (secs_between since now)"
    and "calculate_rewards ext now now apr commission stake = Some dec_zero"
proof -
  obtain diff sd a td b yd rw cm where 1: "x_minus_seconds ext now (x_seconds ext since) = Some diff"
      "x_dec_ratio ext stake = Some sd" "x_dec_mul ext sd apr = Some a"
      "x_dec_ratio ext (ucast (x_seconds ext diff)) = Some td" "x_dec_mul ext a td = Some b"
      "x_dec_ratio ext (ucast YEAR) = Some yd" "x_dec_div ext b yd = Some rw"
      "x_dec_mul ext rw commission = Some cm" "dec_sub rw cm = Some r"
    using assms(3) by (auto simp: calculate_rewards_def bind_eq_Some_conv)
  note D = dec_ratioD [OF assms(1)] dec_mulD [OF assms(1)]
  have a: "unat (atomics a) = unat stake * unat (atomics apr)"
    using D(2) [OF 1(3)] D(1) [OF 1(2)] by (simp add: ac_simps)
  have b: "unat (atomics b) = unat stake * unat (atomics apr) * secs_between since now"
    using D(2) [OF 1(5)] D(1) [OF 1(4)] a minus_seconds_Some [OF assms(2) 1(1)]
    by (simp add: unat_ucast_256 div_mult_self_is_m flip: mult.assoc)
  have rw: "unat (atomics rw) = unat stake * unat (atomics apr) * secs_between since now div unat YEAR"
    using dec_divD [OF assms(2) 1(7)] D(1) [OF 1(6)] b by (simp add: unat_ucast_256)
  show "unat (atomics r) = reward_due (unat stake) (unat (atomics apr)) (unat (atomics commission)) (secs_between since now)"
    using dec_sub_Some [OF 1(9)] D(2) [OF 1(8)] rw by (simp add: reward_due_def Let_def)
  obtain diff0 where 2: "x_minus_seconds ext now (x_seconds ext now) = Some diff0"
    using minus_same_seconds [OF assms(2)] by blast
  have "x_seconds ext diff0 = 0"
    using minus_seconds_Some [OF assms(2) 2] by (simp add: secs_between_def unat_eq_0)
  moreover have "yd \<noteq> dec_zero" using assms(2) 1(7) by (auto simp: div_laws_def)
  moreover have z: "fits_dec 0 = Some dec_zero" by (simp add: fits_dec_def fits_def dec_zero_def)
  moreover have "x_dec_ratio ext 0 = Some dec_zero" "x_dec_mul ext a dec_zero = Some dec_zero"
      "x_dec_mul ext dec_zero commission = Some dec_zero"
    using assms(1) z by (simp_all add: dec_laws_def dec_zero_def)
  moreover have "x_dec_div ext dec_zero yd = Some dec_zero"
    using assms(2) z \<open>yd \<noteq> dec_zero\<close> by (simp add: div_laws_def dec_zero_def)
  moreover have "dec_sub dec_zero dec_zero = Some dec_zero" by (simp add: dec_sub_def checked_sub_def dec_zero_def)
  ultimately show "calculate_rewards ext now now apr commission stake = Some dec_zero"
    by (simp add: calculate_rewards_def 1(2,3,6) 2)
qed

text \<open>A staker's shares with a share of the new rewards of the validator added.\<close>

definition credited :: "ext \<Rightarrow> validator_info \<Rightarrow> decimal \<Rightarrow> shares \<Rightarrow> shares option" where
  "credited ext vi new_rewards sh = map_option (\<lambda>r. sh\<lparr>sh_rewards := r\<rparr>)
     (Option.bind (share_of_rewards ext sh vi new_rewards) (\<lambda>share. dec_add (sh_rewards sh) share))"

lemma share_of_rewards_Some:
  assumes "dec_laws ext" "div_laws ext" "share_of_rewards ext sh vi r = Some x"
  shows "unat (atomics x) = unat (atomics r) * unat (atomics (sh_stake sh)) div (10 ^ 18 * unat (vi_stake vi))"
proof (cases "vi_stake vi = 0")
  case True
  with assms(3) show ?thesis by (auto simp: share_of_rewards_def dec_zero_def)
next
  case False
  with assms(3) obtain p where p: "x_dec_mul ext r (sh_stake sh) = Some p" "x_dec_div_uint ext p (vi_stake vi) = Some x"
    by (auto simp: share_of_rewards_def bind_eq_Some_conv)
  have "unat (atomics p) div unat (vi_stake vi) < 2 ^ 256"
  proof -
    have "unat (atomics p) < 2 ^ 256" using unsigned_less [of "atomics p"] by simp
    then show ?thesis using div_le_dividend le_less_trans by blast
  qed
  then have "unat (atomics x) = unat (atomics p) div unat (vi_stake vi)"
    using p(2) assms(2) False by (auto simp: div_laws_def unsigned_of_nat take_bit_nat_eq_self)
  then show ?thesis using dec_mulD [OF assms(1) p(1)] by (simp add: div_mult2_eq)
qed

lemma credited_Some:
  assumes "dec_laws ext" "div_laws ext" "credited ext vi r sh = Some sh'"
  shows "sh_stake sh' = sh_stake sh"
    and "unat (atomics (sh_rewards sh')) = unat (atomics (sh_rewards sh))
      + unat (atomics r) * unat (atomics (sh_stake sh)) div (10 ^ 18 * unat (vi_stake vi))"
  using assms(3) share_of_rewards_Some [OF assms(1,2)] dec_add_Some
  by (auto simp: credited_def bind_eq_Some_conv)

lemma credited_zero:
  assumes "dec_laws ext" "div_laws ext"
  shows "credited ext vi dec_zero sh = Some sh"
proof -
  have "fits_dec 0 = Some dec_zero" by (simp add: fits_dec_def fits_def dec_zero_def)
  then have "share_of_rewards ext sh vi dec_zero = Some dec_zero"
    using assms by (auto simp: share_of_rewards_def dec_laws_def div_laws_def dec_zero_def)
  moreover have "dec_add x dec_zero = Some x" for x
    using unsigned_less [of "atomics x"] by (cases x) (auto simp: dec_add_def dec_zero_def checked_add_def)
  ultimately show ?thesis by (simp add: credited_def)
qed

lemma credited_cong: "vi_stake i = vi_stake j \<Longrightarrow> credited ext i = credited ext j"
  by (simp add: credited_def share_of_rewards_def fun_eq_iff)

section \<open>Bringing a validator up to date\<close>

lemma credit_rewards_Ok:
  assumes "credit_rewards ext v vi r a st = (Ok u, st')"
  obtains sh sh' where "om_get (st_stakes st) (a, v) = Some sh" "credited ext vi r sh = Some sh'"
    "st' = st\<lparr>st_stakes := om_insert (a, v) sh' (st_stakes st)\<rparr>"
  using assms by (auto simp: credit_rewards_def credited_def ok_iffs)

lemma for_each_credit_Ok:
  assumes "for_each (credit_rewards ext v vi r) as st = (Ok u, st')" "distinct as"
  shows "st' = st\<lparr>st_stakes := st_stakes st'\<rparr>
     \<and> (\<forall>b w. om_get (st_stakes st') (b, w) = (if w = v \<and> b \<in> set as
           then Option.bind (om_get (st_stakes st) (b, w)) (credited ext vi r) else om_get (st_stakes st) (b, w)))
     \<and> (\<forall>b \<in> set as. om_get (st_stakes st') (b, v) \<noteq> None)"
  using assms
proof (induction as arbitrary: st)
  case (Cons a as)
  from Cons.prems(1) obtain st1 where 1: "credit_rewards ext v vi r a st = (Ok (), st1)"
      "for_each (credit_rewards ext v vi r) as st1 = (Ok u, st')"
    by (auto simp: ok_iffs)
  from 1(1) obtain sh sh' where "om_get (st_stakes st) (a, v) = Some sh" "credited ext vi r sh = Some sh'"
      "st1 = st\<lparr>st_stakes := om_insert (a, v) sh' (st_stakes st)\<rparr>"
    by (rule credit_rewards_Ok)
  with Cons.IH [OF 1(2)] Cons.prems(2) show ?case by auto
qed simp

text \<open>
  What \<open>update_rewards\<close> does: with the rewards \<open>r\<close> since the last time (none when the block is not
  later), every staker of the validator is credited, and nothing else changes but the time.
\<close>

lemma update_rewards_credits:
  assumes "dec_laws ext" "div_laws ext" "staking_wf st" "update_rewards ext block v st = (Ok u, st')"
    and vi: "om_get (st_validator_info st) v = Some vi" and vo: "om_get (st_validator_map st) v = Some vo"
  obtains r where "if bl_time block \<le> vi_last vi then r = dec_zero
      else calculate_rewards ext (bl_time block) (vi_last vi) (si_apr (get_staking_info st)) (v_commission vo) (vi_stake vi) = Some r"
    "\<And>b w. om_get (st_stakes st') (b, w) = (if w = v then Option.bind (om_get (st_stakes st) (b, w)) (credited ext vi r)
       else om_get (st_stakes st) (b, w))"
    "\<And>b w. om_get (st_stakes st') (b, w) = None \<longleftrightarrow> om_get (st_stakes st) (b, w) = None"
    "st' = st\<lparr>st_stakes := st_stakes st', st_validator_info := (if bl_time block \<le> vi_last vi then st_validator_info st
       else om_insert v (vi\<lparr>vi_last := bl_time block\<rparr>) (st_validator_info st))\<rparr>"
proof (cases "bl_time block \<le> vi_last vi")
  case True
  with assms(4) vi vo have "st' = st" by (simp add: update_rewards_run)
  then show ?thesis using True
    by (intro that [of dec_zero]) (auto simp: credited_zero [OF assms(1,2)] split: bind_split)
next
  case False
  let ?vi = "vi\<lparr>vi_last := bl_time block\<rparr>"
  let ?st = "st\<lparr>st_validator_info := om_insert v ?vi (st_validator_info st)\<rparr>"
  have va: "v_address vo = v" and listed: "\<And>b. has_stake st b v \<longleftrightarrow> b \<in> set (vi_stakers vi)"
      and "os_wf (vi_stakers vi)"
    using assms(3) vi vo by (auto simp: staking_wf_def validators_wf_def lists_staker_def)
  then have dist: "distinct (vi_stakers vi)" by (simp add: os_wf_def strict_sorted_iff)
  from False assms(4) vi vo va obtain r where
      r: "calculate_rewards ext (bl_time block) (vi_last vi) (si_apr (get_staking_info st)) (v_commission vo) (vi_stake vi) = Some r"
    and run: "(if r = dec_zero then ret () else for_each (credit_rewards ext v ?vi r) (vi_stakers vi)) ?st = (Ok u, st')"
    by (auto simp: update_rewards_run split: option.splits)
  have same: "credited ext ?vi = credited ext vi" by (rule credited_cong) simp
  show ?thesis
  proof (cases "r = dec_zero")
    case True
    with run have "st' = ?st" by simp
    with r False True show ?thesis
      by (intro that [of r]) (auto simp: credited_zero [OF assms(1,2)] split: bind_split)
  next
    case nz: False
    note loop = for_each_credit_Ok [OF run [unfolded if_not_P [OF nz]] dist, unfolded same]
    have "om_get (st_stakes st) (b, v) = None" if "b \<notin> set (vi_stakers vi)" for b
      using listed [of b] that by (simp add: has_stake_def)
    moreover have "om_get (st_stakes st) (b, v) \<noteq> None" if "b \<in> set (vi_stakers vi)" for b
      using listed [of b] that by (simp add: has_stake_def)
    moreover have "st' = st\<lparr>st_stakes := st_stakes st', st_validator_info := om_insert v ?vi (st_validator_info st)\<rparr>"
      by (subst conjunct1 [OF loop]) simp
    ultimately show ?thesis using r False conjunct2 [OF loop] by (intro that [of r]) auto
  qed
qed

section \<open>The reward query\<close>

lemma get_rewards_Ok:
  "get_rewards_internal ext block a v st = (Ok q, s) \<longleftrightarrow> s = st \<and> (\<exists>vo. om_get (st_validator_map st) v = Some vo
     \<and> (case om_get (st_stakes st) (a, v) of
          None \<Rightarrow> q = None
        | Some sh \<Rightarrow> (\<exists>vi r sh' x. om_get (st_validator_info st) v = Some vi
            \<and> calculate_rewards ext (bl_time block) (vi_last vi) (si_apr (get_staking_info st)) (v_commission vo) (vi_stake vi) = Some r
            \<and> credited ext vi r sh = Some sh' \<and> x_mul_floor ext 1 (sh_rewards sh') = Some x
            \<and> q = Some \<lparr>c_denom = si_bonded_denom (get_staking_info st), c_amount = x\<rparr>)))"
  by (cases "om_get (st_validator_map st) v"; cases "om_get (st_stakes st) (a, v)")
    (auto simp: get_rewards_internal_def get_rewards_from_validator_def credited_def ok_iffs load_def
      bind_eq_Some_conv split: option.splits)

text \<open>Bringing a validator up to date changes no answer of the query at the same block.\<close>

lemma update_rewards_query:
  assumes "dec_laws ext" "div_laws ext" "staking_wf st" "update_rewards ext block v st = (Ok u, st')"
    and "\<And>vi. om_get (st_validator_info st) v = Some vi \<Longrightarrow> vi_last vi \<le> bl_time block"
    and q: "get_rewards_internal ext block b w st = (Ok q, st)"
  shows "get_rewards_internal ext block b w st' = (Ok q, st')"
proof -
  obtain vi vo where vi: "om_get (st_validator_info st) v = Some vi" and vo: "om_get (st_validator_map st) v = Some vo"
    using assms(4) by (auto simp: update_rewards_run split: option.splits)
  obtain r where r: "if bl_time block \<le> vi_last vi then r = dec_zero
        else calculate_rewards ext (bl_time block) (vi_last vi) (si_apr (get_staking_info st)) (v_commission vo) (vi_stake vi) = Some r"
    and stakes: "\<And>b w. om_get (st_stakes st') (b, w) = (if w = v
        then Option.bind (om_get (st_stakes st) (b, w)) (credited ext vi r) else om_get (st_stakes st) (b, w))"
    and some: "\<And>b w. om_get (st_stakes st') (b, w) = None \<longleftrightarrow> om_get (st_stakes st) (b, w) = None"
    and st': "st' = st\<lparr>st_stakes := st_stakes st', st_validator_info := (if bl_time block \<le> vi_last vi
        then st_validator_info st else om_insert v (vi\<lparr>vi_last := bl_time block\<rparr>) (st_validator_info st))\<rparr>"
    using update_rewards_credits [OF assms(1-4) vi vo] by metis
  show ?thesis
  proof (cases "bl_time block \<le> vi_last vi")
    case True
    with assms(4) vi vo have "st' = st" by (simp add: update_rewards_run)
    with q show ?thesis by simp
  next
    case False
    have parts: "st_validator_map st' = st_validator_map st" "get_staking_info st' = get_staking_info st"
        "\<And>x. om_get (st_validator_info st') x = (if x = v then Some (vi\<lparr>vi_last := bl_time block\<rparr>) else om_get (st_validator_info st) x)"
      using False by (subst st', simp add: get_staking_info_def)+
    have z: "credited ext (vi\<lparr>vi_last := bl_time block\<rparr>) dec_zero sh = Some sh" for sh
      by (rule credited_zero [OF assms(1,2)])
    show ?thesis
    proof (cases "w = v")
      case True
      with q vo r False vi stakes [of b v] some [of b v] z show ?thesis
        by (auto simp: get_rewards_Ok parts calculate_rewards_Some(2) [OF assms(1,2)] split: option.splits)
    next
      case nv: False
      with q stakes [of b w] show ?thesis by (auto simp: get_rewards_Ok parts split: option.splits)
    qed
  qed
qed

section \<open>Sums of rewards\<close>

definition rewards_at :: "staking_state \<Rightarrow> addr \<Rightarrow> string \<Rightarrow> nat" where
  "rewards_at st a v = (case om_get (st_stakes st) (a, v) of None \<Rightarrow> 0 | Some sh \<Rightarrow> unat (atomics (sh_rewards sh)))"

definition total_rewards :: "staking_state \<Rightarrow> string \<Rightarrow> nat" where
  "total_rewards st v = om_sum (\<lambda>k sh. if snd k = v then unat (atomics (sh_rewards sh)) else 0) (st_stakes st)"

lemma om_sum_at:
  assumes "om_wf m"
  shows "om_sum f m = (\<Sum>k \<in> fst ` set m. om_at f m k)"
proof -
  have dist: "distinct (map fst m)" using assms by (simp add: om_wf_def strict_sorted_iff)
  have "om_at f m k = f k x" if "(k, x) \<in> set m" for k x
    using map_of_is_SomeI [OF dist that] by (simp add: om_at_def)
  then have "map (\<lambda>(k, x). f k x) m = map (om_at f m) (map fst m)" by auto
  then show ?thesis by (simp only: om_sum_def sum_list_distinct_conv_sum_set [OF dist] set_map)
qed

lemma add_div_le: "a div d + b div d \<le> (a + b) div (d :: nat)"
proof (cases "d = 0")
  case False
  have "(a div d + b div d) * d \<le> a + b" by (simp add: add_mult_distrib add_mono)
  with False show ?thesis by (simp add: less_eq_div_iff_mult_less_eq)
qed simp

lemma sum_div_le:
  fixes a :: "'k \<Rightarrow> nat"
  assumes "finite A"
  shows "(\<Sum>k\<in>A. a k div d) \<le> (\<Sum>k\<in>A. a k) div d"
  using assms
proof (induction A)
  case (insert k A)
  then show ?case using add_div_le [of "a k" d "\<Sum>k\<in>A. a k"] by simp
qed simp

lemma div_mult_le: "a div d * b \<le> a * b div (d :: nat)"
proof (cases "d = 0")
  case False
  have "a div d * b * d \<le> a * b" by (simp add: mult.assoc mult.commute [of b d] flip: mult.assoc)
  with False show ?thesis by (simp add: less_eq_div_iff_mult_less_eq)
qed simp

text \<open>Rounding down twice is at most rounding down once; the validator's stake cancels.\<close>

lemma share_le_rate:
  fixes s k y q d :: nat
  shows "(s * k div y - c) * q div (d * s) \<le> k * q div (d * y)"
proof (cases "s = 0")
  case False
  have "(s * k div y - c) * q \<le> s * k div y * q" by simp
  also have "\<dots> \<le> s * (k * q) div y" using div_mult_le [of "s * k" y q] by (simp add: mult.assoc)
  finally have "(s * k div y - c) * q div (d * s) \<le> s * (k * q) div y div (d * s)" by (rule div_le_mono)
  also have "\<dots> = s * (k * q) div (s * (d * y))" by (simp add: div_mult2_eq [symmetric] ac_simps)
  also have "\<dots> = k * q div (d * y)" using False by simp
  finally show ?thesis .
qed simp

text \<open>
  When every staker of \<open>v\<close> is credited the fraction of \<open>due\<close> that its stake is of \<open>stake\<close>, the sum of
  the rewards grows by at most the fraction the whole stake is.
\<close>

lemma total_rewards_le:
  assumes wf: "om_wf (st_stakes s)" "om_wf (st_stakes t)"
    and same: "\<And>b w. om_get (st_stakes t) (b, w) = None \<longleftrightarrow> om_get (st_stakes s) (b, w) = None"
    and rewards: "\<And>b. rewards_at t b v = rewards_at s b v + due * stake_at s b v div d"
  shows "total_rewards t v \<le> total_rewards s v + due * total_stake s v div d"
proof -
  have keys: "fst ` set (st_stakes t) = fst ` set (st_stakes s)" (is "?K' = ?K")
  proof -
    have "k \<in> ?K' \<longleftrightarrow> k \<in> ?K" for k using same [of "fst k" "snd k"] by (simp add: map_of_eq_None_iff)
    then show ?thesis by blast
  qed
  let ?f = "\<lambda>k sh. if snd k = v then unat (atomics (sh_rewards sh)) else 0"
  let ?h = "\<lambda>k sh. if snd k = v then unat (atomics (sh_stake sh)) else 0"
  have at: "om_at ?f (st_stakes x) k = (if snd k = v then rewards_at x (fst k) v else 0)"
      "om_at ?h (st_stakes x) k = (if snd k = v then stake_at x (fst k) v else 0)" for x k
    by (cases k; auto simp: om_at_def rewards_at_def stake_at_def split: option.splits)+
  have "total_rewards t v = (\<Sum>k \<in> ?K. om_at ?f (st_stakes s) k + due * om_at ?h (st_stakes s) k div d)"
    unfolding total_rewards_def om_sum_at [OF wf(2)] keys by (rule sum.cong) (simp_all add: at rewards)
  also have "\<dots> = total_rewards s v + (\<Sum>k \<in> ?K. due * om_at ?h (st_stakes s) k div d)"
    by (simp only: total_rewards_def om_sum_at [OF wf(1)] sum.distrib)
  also have "\<dots> \<le> total_rewards s v + (\<Sum>k \<in> ?K. due * om_at ?h (st_stakes s) k) div d"
    by (intro add_left_mono sum_div_le) simp
  also have "(\<Sum>k \<in> ?K. due * om_at ?h (st_stakes s) k) = due * total_stake s v"
    by (simp only: total_stake_def om_sum_at [OF wf(1)] sum_distrib_left)
  finally show ?thesis .
qed

section \<open>Properties\<close>

lemma reward_due_no_time: "now \<le> since \<Longrightarrow> reward_due stake apr commission (secs_between since now) = 0"
  by (simp add: reward_due_def secs_between_def word_le_nat_alt div_le_mono)

text \<open>
  C11. Rewards are what the annual rate says. When a validator is brought up to date: the reward of the
  period is the validator's stake times the rate times the seconds passed over the seconds of a
  year, less the commission, rounded down to 18 decimal places; every delegator is credited the
  fraction of it that its own stake is of the validator's, and no other reward and no stake
  changes. So no delegator is credited more than the rate gives on its own stake for the time
  passed, and when the stakes add up to the validator's total, all credits together are at most the
  reward of the period.
\<close>
theorem rewards_exact:
  assumes "dec_laws ext" "div_laws ext" "staking_wf st" "update_rewards ext block v st = (Ok u, st')"
    and vi: "om_get (st_validator_info st) v = Some vi" and vo: "om_get (st_validator_map st) v = Some vo"
    and apr: "apr = unat (atomics (si_apr (get_staking_info st)))" and secs: "secs = secs_between (vi_last vi) (bl_time block)"
    and due: "due = reward_due (unat (vi_stake vi)) apr (unat (atomics (v_commission vo))) secs"
  shows "rewards_at st' b w = rewards_at st b w
       + (if w = v then due * stake_at st b v div (10 ^ 18 * unat (vi_stake vi)) else 0)
     \<and> stake_at st' b w = stake_at st b w
     \<and> due * stake_at st b v div (10 ^ 18 * unat (vi_stake vi)) \<le> apr * secs * stake_at st b v div (10 ^ 18 * unat YEAR)
     \<and> (total_stake st v = unat (vi_stake vi) * 10 ^ 18 \<longrightarrow> total_rewards st' v \<le> total_rewards st v + due)"
proof (intro conjI impI)
  obtain r where r: "if bl_time block \<le> vi_last vi then r = dec_zero
        else calculate_rewards ext (bl_time block) (vi_last vi) (si_apr (get_staking_info st)) (v_commission vo) (vi_stake vi) = Some r"
    and stakes: "\<And>b w. om_get (st_stakes st') (b, w) = (if w = v
        then Option.bind (om_get (st_stakes st) (b, w)) (credited ext vi r) else om_get (st_stakes st) (b, w))"
    and some: "\<And>b w. om_get (st_stakes st') (b, w) = None \<longleftrightarrow> om_get (st_stakes st) (b, w) = None"
    using update_rewards_credits [OF assms(1-4) vi vo] by metis
  have r_due: "unat (atomics r) = due"
    using r calculate_rewards_Some(1) [OF assms(1,2)] reward_due_no_time
    by (auto simp: due apr secs dec_zero_def split: if_splits)
  let ?D = "10 ^ 18 * unat (vi_stake vi)"
  have at_v: "rewards_at st' b v = rewards_at st b v + due * stake_at st b v div ?D" for b
  proof (cases "om_get (st_stakes st) (b, v)")
    case (Some sh)
    with some [of b v] stakes [of b v] obtain sh' where "om_get (st_stakes st') (b, v) = Some sh'" "credited ext vi r sh = Some sh'"
      by auto
    with Some credited_Some(2) [OF assms(1,2), of vi r sh sh'] show ?thesis
      by (simp add: rewards_at_def stake_at_def r_due)
  qed (use some [of b v] in \<open>simp add: rewards_at_def stake_at_def\<close>)
  have "rewards_at st' b w = rewards_at st b w" if "w \<noteq> v"
    using stakes [of b w] that by (simp add: rewards_at_def)
  with at_v [of b] show "rewards_at st' b w = rewards_at st b w + (if w = v then due * stake_at st b v div ?D else 0)"
    by simp
  show "stake_at st' b w = stake_at st b w"
    using rewards_only_stake_at [OF update_rewards_Ok(1) [OF assms(4)]] by simp
  have "due = unat (vi_stake vi) * (apr * secs) div unat YEAR
      - unat (vi_stake vi) * (apr * secs) div unat YEAR * unat (atomics (v_commission vo)) div 10 ^ 18"
    by (simp only: due reward_due_def Let_def mult.assoc)
  then show "due * stake_at st b v div ?D \<le> apr * secs * stake_at st b v div (10 ^ 18 * unat YEAR)"
    using share_le_rate by simp
  assume total: "total_stake st v = unat (vi_stake vi) * 10 ^ 18"
  have "om_wf (st_stakes st)" "om_wf (st_stakes st')"
    using assms(3) rewards_only_wf [OF update_rewards_Ok(1) [OF assms(4)] assms(3)]
    by (simp_all add: staking_wf_def validators_wf_def)
  note total_rewards_le [OF this some at_v]
  moreover have "due * total_stake st v div ?D \<le> due"
    using total by (cases "vi_stake vi = 0") (simp_all add: mult.commute [of "10 ^ 18"])
  ultimately show "total_rewards st' v \<le> total_rewards st v + due" by linarith
qed

text \<open>One year at ten percent on a stake of 5, of a delegator with 5 tokens and one with half a token.\<close>

theorem rewards_exact_witness:
  "\<exists>st'. update_rewards demo_ext (Staking.demo_block (31536000 * 10 ^ 9)) ''val'' demo_staking = (Ok (), st')
     \<and> rewards_at st' (Addr ''bob'') ''val'' = 5 * 10 ^ 17 \<and> rewards_at st' (Addr ''alice'') ''val'' = 5 * 10 ^ 16"
proof -
  let ?run = "update_rewards demo_ext (Staking.demo_block (31536000 * 10 ^ 9)) ''val'' demo_staking"
  have "fst ?run = Ok ()"
    by (simp add: update_rewards_run demo_staking_def demo_block_def demo_validator_def get_staking_info_def
        default_staking_info_def calculate_rewards_def credit_rewards_def share_of_rewards_def proc_defs
        demo_ext_def fits_dec_def fits_def YEAR_def dec_zero_def dec_sub_def checked_sub_def dec_add_def checked_add_def)
  then obtain st' where run: "?run = (Ok (), st')" by (cases ?run) simp
  note T = rewards_exact [OF dec_laws_demo div_laws_demo demo_staking_wf run, of _ _ _ _ _ _ "''val''",
      OF _ _ refl refl refl, THEN conjunct1]
  show ?thesis
    using run T [of _ _ "Addr ''bob''"] T [of _ _ "Addr ''alice''"]
    by (simp add: demo_staking_def demo_validator_def rewards_at_def stake_at_def reward_due_def secs_between_def
        YEAR_nat get_staking_info_def default_staking_info_def dec_zero_def demo_block_def)
qed

section \<open>Withdrawing rewards\<close>

lemma update_rewards_time:
  assumes "dec_laws ext" "div_laws ext" "staking_wf st" "update_rewards ext block v st = (Ok u, st')"
    and "\<And>vi. om_get (st_validator_info st) v = Some vi \<Longrightarrow> vi_last vi \<le> bl_time block"
  shows "\<exists>vi. om_get (st_validator_info st') v = Some vi \<and> vi_last vi = bl_time block"
proof -
  obtain vi vo where vi: "om_get (st_validator_info st) v = Some vi" and vo: "om_get (st_validator_map st) v = Some vo"
    using assms(4) by (auto simp: update_rewards_run split: option.splits)
  have "st' = st\<lparr>st_stakes := st_stakes st', st_validator_info := (if bl_time block \<le> vi_last vi
        then st_validator_info st else om_insert v (vi\<lparr>vi_last := bl_time block\<rparr>) (st_validator_info st))\<rparr>"
    using update_rewards_credits [OF assms(1-4) vi vo] by metis
  from arg_cong [OF this, of st_validator_info] show ?thesis using vi assms(5) [OF vi] by auto
qed

lemma remove_rewards_query:
  assumes laws: "dec_laws ext" "div_laws ext" and wf: "staking_wf st"
    and timely: "\<And>vi. om_get (st_validator_info st) v = Some vi \<Longrightarrow> vi_last vi \<le> bl_time block"
    and query: "get_rewards_internal ext block a v st = (Ok (Some c), st)"
    and run: "remove_rewards ext block a v st = (Ok r, st')"
  shows "r = c_amount c \<and> c_denom c = si_bonded_denom (get_staking_info st')
     \<and> get_rewards_internal ext block a v st' = (Ok (Some (c\<lparr>c_amount := 0\<rparr>)), st')
     \<and> (\<forall>b w q. (b, w) \<noteq> (a, v) \<and> get_rewards_internal ext block b w st = (Ok q, st) \<longrightarrow>
          get_rewards_internal ext block b w st' = (Ok q, st'))"
proof -
  obtain st1 sh where 1: "update_rewards ext block v st = (Ok (), st1)" and sh: "om_get (st_stakes st1) (a, v) = Some sh"
      and r: "x_mul_floor ext 1 (sh_rewards sh) = Some r"
      and st': "st' = st1\<lparr>st_stakes := om_insert (a, v) (sh\<lparr>sh_rewards := dec_zero\<rparr>) (st_stakes st1)\<rparr>"
    using remove_rewards_Ok [OF run] by blast
  obtain vi where vi: "om_get (st_validator_info st1) v = Some vi" "vi_last vi = bl_time block"
    using update_rewards_time [OF laws wf 1 timely] by blast
  have same: "get_rewards_internal ext block b w st1 = (Ok q, st1)" if "get_rewards_internal ext block b w st = (Ok q, st)" for b w q
    by (rule update_rewards_query [OF laws wf 1 timely that])
  have none: "credited ext vi r' s = Some s"
    if "calculate_rewards ext (bl_time block) (vi_last vi) apr com stk = Some r'" for apr com stk r' s
  proof -
    have "r' = dec_zero" using that calculate_rewards_Some(2) [OF laws that] by (simp add: vi(2))
    then show ?thesis by (simp add: credited_zero [OF laws])
  qed
  have zero: "x_mul_floor ext 1 dec_zero = Some 0" using laws(1) by (simp add: dec_laws_def dec_zero_def fits_def)
  have "get_rewards_internal ext block a v st1 = (Ok (Some c), st1)" using same query by blast
  then have now: "r = c_amount c" "c_denom c = si_bonded_denom (get_staking_info st1)"
      "get_rewards_internal ext block a v st' = (Ok (Some (c\<lparr>c_amount := 0\<rparr>)), st')"
    using sh vi(1) none r zero by (auto simp: get_rewards_Ok st' get_staking_info_def)
  have "get_rewards_internal ext block b w st' = (Ok q, st')"
    if "(b, w) \<noteq> (a, v)" "get_rewards_internal ext block b w st = (Ok q, st)" for b w q
    using same [OF that(2)] that(1) by (auto simp: get_rewards_Ok st' get_staking_info_def split: option.splits)
  with now show ?thesis by (simp add: st' get_staking_info_def)
qed

text \<open>\<open>StakeKeeper::get_rewards\<close>: the query as a public method.\<close>

definition get_rewards :: "ext \<Rightarrow> block_info \<Rightarrow> addr \<Rightarrow> string \<Rightarrow> coin option staking_proc" where
  "get_rewards ext block delegator v = get_rewards_internal ext block delegator v"

text \<open>
  C37. Withdrawing pays what the query promised. When \<open>get_rewards\<close> answers a delegator's query with a
  coin and \<open>WithdrawDelegatorReward\<close> succeeds in the same block, that coin, which is not zero, is
  minted to the withdraw address of the delegator and no other balance changes. Afterwards the query
  answers zero for this delegator and validator, and what it answered before for every other pair.
\<close>
theorem withdraw_pays_query:
  assumes "dec_laws ext" "div_laws ext" "nb_laws ext" "bank_wf (ch_bank (ap_chain a))" "staking_wf (ch_staking (ap_chain a))"
    and "\<forall>vi. om_get (st_validator_info (ch_staking (ap_chain a))) v = Some vi \<longrightarrow> vi_last vi \<le> bl_time (ap_block a)"
    and "get_rewards ext (ap_block a) sender v (ch_staking (ap_chain a)) = (Ok (Some c), ch_staking (ap_chain a))"
    and "app_execute ext n sender (MDistribution (WithdrawDelegatorReward v)) a = (Ok res, a')"
    and "x_addr_validate ext (addr_str (get_withdraw_address (ch_distribution (ap_chain a)) sender)) = Inr receiver"
  shows "c_amount c \<noteq> 0
     \<and> held (ch_bank (ap_chain a')) = (held (ch_bank (ap_chain a)))(receiver := (\<lambda>d.
         held (ch_bank (ap_chain a)) receiver d + amount_of [c] d))
     \<and> get_rewards ext (ap_block a) sender v (ch_staking (ap_chain a')) = (Ok (Some (c\<lparr>c_amount := 0\<rparr>)), ch_staking (ap_chain a'))
     \<and> (\<forall>b w q. (b, w) \<noteq> (sender, v)
          \<and> get_rewards ext (ap_block a) b w (ch_staking (ap_chain a)) = (Ok q, ch_staking (ap_chain a)) \<longrightarrow>
          get_rewards ext (ap_block a) b w (ch_staking (ap_chain a')) = (Ok q, ch_staking (ap_chain a')))"
proof -
  obtain k s where a': "a' = a\<lparr>ap_chain := s\<rparr>" and run: "router_execute ext (ap_modules a) k
      (router_at ext (ap_modules a) k) (ap_block a) sender (MDistribution (WithdrawDelegatorReward v)) (ap_chain a) = (Ok res, s)"
    using app_execute_Ok [OF assms(8)] by metis
  then have "k \<noteq> 0" by (cases k) (auto simp: router_execute_def distribution_execute_def ok_iffs idle_router_def)
  then obtain j where k: "k = Suc j" by (cases k) auto
  obtain r st b where 1: "remove_rewards ext (ap_block a) sender v (ch_staking (ap_chain a)) = (Ok r, st)"
      and 2: "mint ext receiver [\<lparr>c_denom = si_bonded_denom (get_staking_info st), c_amount = r\<rparr>] (ch_bank (ap_chain a)) = (Ok (), b)"
      and s: "s = (ap_chain a)\<lparr>ch_staking := st, ch_bank := b\<rparr>"
    using run assms(9)
    by (auto simp: k router_execute_def distribution_execute_def router_sudo_def bank_sudo_def ok_iffs in_defs)
  have r: "r = c_amount c \<and> c_denom c = si_bonded_denom (get_staking_info st)
     \<and> get_rewards_internal ext (ap_block a) sender v st = (Ok (Some (c\<lparr>c_amount := 0\<rparr>)), st)
     \<and> (\<forall>b w q. (b, w) \<noteq> (sender, v)
          \<and> get_rewards_internal ext (ap_block a) b w (ch_staking (ap_chain a)) = (Ok q, ch_staking (ap_chain a)) \<longrightarrow>
          get_rewards_internal ext (ap_block a) b w st = (Ok q, st))"
    by (rule remove_rewards_query [OF assms(1,2,5) _ _ 1]) (use assms(6,7) in \<open>auto simp: get_rewards_def\<close>)
  then have c: "[\<lparr>c_denom = si_bonded_denom (get_staking_info st), c_amount = r\<rparr>] = [c]" by (cases c) simp
  have "c_amount c \<noteq> 0" using 2 [unfolded c] by (auto simp: mint_def ok_iffs normalize_amount_Inr split: if_splits)
  with mint_Ok(1) [OF assms(3,4) 2 [unfolded c]] r show ?thesis by (simp add: a' s get_rewards_def)
qed

text \<open>Bob's reward of ten years, 5 tokens.\<close>

definition demo_rewards_app :: app where
  "demo_rewards_app = (default_app demo_ext (Staking.demo_block 315360000000000000))\<lparr>ap_chain := empty_chain\<lparr>ch_staking := demo_staking\<rparr>\<rparr>"

lemma demo_reward_runs:
  defines "b \<equiv> Staking.demo_block 315360000000000000"
  shows "get_rewards demo_ext b (Addr ''bob'') ''val'' demo_staking
        = (Ok (Some \<lparr>c_denom = ''TOKEN'', c_amount = 5\<rparr>), demo_staking)" (is ?query)
    and "fst (remove_rewards demo_ext b (Addr ''bob'') ''val'' demo_staking) = Ok 5" (is ?withdraw)
proof -
  note defs = demo_staking_def demo_block_def demo_validator_def get_staking_info_def load_def default_staking_info_def
    calculate_rewards_def share_of_rewards_def proc_defs BONDED_DENOM_def demo_ext_def fits_dec_def fits_def YEAR_def
    dec_zero_def dec_sub_def checked_sub_def dec_add_def checked_add_def
  show ?query unfolding b_def by (simp add: get_rewards_def get_rewards_internal_def get_rewards_from_validator_def defs)
  show ?withdraw unfolding b_def by (simp add: remove_rewards_def update_rewards_run credit_rewards_def defs)
qed

theorem withdraw_pays_query_witness:
  "\<exists>res a'. app_execute demo_ext 3 (Addr ''bob'') (MDistribution (WithdrawDelegatorReward ''val'')) demo_rewards_app = (Ok res, a')
     \<and> held (ch_bank (ap_chain a')) (Addr ''bob'') ''TOKEN'' = 5"
proof -
  let ?b = "Staking.demo_block 315360000000000000" and ?msg = "MDistribution (WithdrawDelegatorReward ''val'')"
  let ?coin = "\<lparr>c_denom = ''TOKEN'', c_amount = 5\<rparr> :: coin"
  obtain st where st: "remove_rewards demo_ext ?b (Addr ''bob'') ''val'' demo_staking = (Ok 5, st)"
    using demo_reward_runs(2) by (cases "remove_rewards demo_ext ?b (Addr ''bob'') ''val'' demo_staking") simp
  have info: "get_staking_info st = default_staking_info"
    using remove_rewards_only [OF st] by (simp add: rewards_only_def get_staking_info_def demo_staking_def)
  have wf: "bank_wf \<lparr>b_balances = []\<rparr>" by (simp add: bank_wf_def om_wf_def)
  have "\<forall>d. held \<lparr>b_balances = []\<rparr> (Addr ''bob'') d + amount_of [?coin] d < 2 ^ 256"
    by (simp add: held_def get_balance_def)
  then obtain b where b: "mint demo_ext (Addr ''bob'') [?coin] \<lparr>b_balances = []\<rparr> = (Ok (), b)"
    using mint_completes [OF nb_laws_demo wf, of "[?coin]" "Addr ''bob''"] by auto
  have validate: "x_addr_validate demo_ext ''bob'' = Inr (Addr ''bob'')" by (simp add: demo_ext_def)
  have parts: "ap_block demo_rewards_app = ?b" "ap_chain demo_rewards_app = empty_chain\<lparr>ch_staking := demo_staking\<rparr>"
    by (simp_all add: demo_rewards_app_def default_app_def build_defs)
  have three: "router_at demo_ext md 3 = router_over demo_ext md 2 (router_over demo_ext md 1 (router_at demo_ext md 1))" for md
    by (simp add: numeral_3_eq_3 numeral_2_eq_2)
  obtain res a' where run: "app_execute demo_ext 3 (Addr ''bob'') ?msg demo_rewards_app = (Ok res, a')"
    by (simp add: app_execute_def execute_multi_def on_chain_def atomically_def three router_execute_def distribution_execute_def
        router_sudo_def bank_sudo_def in_defs proc_defs parts empty_chain_def st b validate info get_withdraw_address_def
        default_staking_info_def BONDED_DENOM_def)
  note T = withdraw_pays_query [OF dec_laws_demo div_laws_demo nb_laws_demo _ _ _ _ run, of _ "Addr ''bob''"]
  have "held (ch_bank (ap_chain a')) (Addr ''bob'') ''TOKEN'' = 5"
    using T demo_reward_runs(1) wf demo_staking_wf validate
    by (simp add: parts empty_chain_def get_withdraw_address_def demo_staking_def held_def get_balance_def)
  with run show ?thesis by blast
qed

end
