(* ===== verification/Stakes.thy ===== *)
theory Stakes
  imports Lifecycle Ibc_Facts
begin

text \<open>
  What the messages of the staking module do to the stakes (\<open>StakeKeeper::execute\<close> of \<open>src/staking.rs\<close>, as the
  application runs it): the books of the module balance, the coins of a delegation move, and an
  undelegation is queued.
\<close>

section \<open>Changes of the stakes of one account\<close>

text \<open>
  The state stays well formed, the account \<open>a\<close> has \<open>d w\<close> more tokens staked at the validator \<open>w\<close>, nobody else's
  stake changes, and the totals the validators record and the sums of the shares change alike. Shares are
  counted in units of \<open>10 ^ -18\<close> tokens.
\<close>

definition stakes_change :: "staking_state \<Rightarrow> staking_state \<Rightarrow> addr \<Rightarrow> (string \<Rightarrow> int) \<Rightarrow> bool" where
  "stakes_change st st' a d \<longleftrightarrow> staking_wf st'
     \<and> (\<forall>b w. int (stake_at st' b w) = int (stake_at st b w) + (if b = a then d w * 10 ^ 18 else 0))
     \<and> (\<forall>w. int (validator_stake st' w) = int (validator_stake st w) + d w)
     \<and> (\<forall>w. int (total_stake st' w) = int (total_stake st w) + d w * 10 ^ 18)"

lemma stakes_change_trans:
  "stakes_change s t a d \<Longrightarrow> stakes_change t u a e \<Longrightarrow> stakes_change s u a (\<lambda>w. d w + e w)"
  by (simp add: stakes_change_def algebra_simps)

lemma stakes_change_queue:
  assumes "stakes_change s t a d"
  shows "stakes_change s (t\<lparr>st_queue := q\<rparr>) a d"
proof -
  have "stake_at (t\<lparr>st_queue := q\<rparr>) = stake_at t" "validator_stake (t\<lparr>st_queue := q\<rparr>) = validator_stake t"
    "total_stake (t\<lparr>st_queue := q\<rparr>) = total_stake t"
    by (simp_all add: stake_at_def validator_stake_def total_stake_def fun_eq_iff)
  with assms show ?thesis by (simp add: stakes_change_def)
qed

text \<open>The books balance when they did.\<close>

lemma stakes_change_balanced:
  assumes "stakes_change s t a d" "total_stake s w = validator_stake s w * 10 ^ 18"
  shows "total_stake t w = validator_stake t w * 10 ^ 18"
proof -
  have "int (total_stake t w) = int (validator_stake t w * 10 ^ 18)"
    using assms by (simp add: stakes_change_def algebra_simps)
  then show ?thesis by (simp only: of_nat_eq_iff)
qed

lemma stake_at_total:
  assumes "staking_wf st"
  shows "stake_at st a v \<le> total_stake st v"
proof -
  have "om_wf (st_stakes st)" using assms by (simp add: staking_wf_def validators_wf_def)
  from om_at_le_sum [OF this, of "\<lambda>k sh. if snd k = v then unat (atomics (sh_stake sh)) else 0" "(a, v)"]
  show ?thesis by (auto simp: stake_at_def total_stake_def om_at_def split: option.splits)
qed

lemma update_stake_change:
  assumes "dec_laws ext" "staking_wf st" "update_stake ext block a v amt sub st = (Ok u, st')"
  shows "stakes_change st st' a (\<lambda>w. if w = v then (if sub then - int (unat amt) else int (unat amt)) else 0)"
    "st_queue st' = st_queue st" "get_staking_info st' = get_staking_info st"
proof -
  note E = update_stake_effect [OF assms]
  have "unat amt * 10 ^ 18 \<le> total_stake st v" if sub
    using E(4) [OF that] stake_at_total [OF assms(2), of a v] by linarith
  then show "stakes_change st st' a (\<lambda>w. if w = v then (if sub then - int (unat amt) else int (unat amt)) else 0)"
    using E(1,4) unfolding stakes_change_def E(2) E(3) E(5) by (cases sub) (auto simp: of_nat_diff)
  show "st_queue st' = st_queue st" "get_staking_info st' = get_staking_info st"
    using E(6) by (simp_all add: get_staking_info_def)
qed

lemma stake_changes:
  assumes "dec_laws ext" "staking_wf (ch_staking s)"
  shows "in_staking (add_stake ext block a v c) s = (Ok u, s') \<Longrightarrow> \<exists>st. s' = s\<lparr>ch_staking := st\<rparr>
      \<and> c_denom c = si_bonded_denom (get_staking_info (ch_staking s)) \<and> st_queue st = st_queue (ch_staking s)
      \<and> get_staking_info st = get_staking_info (ch_staking s)
      \<and> stakes_change (ch_staking s) st a (\<lambda>w. if w = v then int (unat (c_amount c)) else 0)"
    and "in_staking (remove_stake ext block a v c) s = (Ok u', s'') \<Longrightarrow> \<exists>st. s'' = s\<lparr>ch_staking := st\<rparr>
      \<and> c_denom c = si_bonded_denom (get_staking_info (ch_staking s)) \<and> st_queue st = st_queue (ch_staking s)
      \<and> get_staking_info st = get_staking_info (ch_staking s)
      \<and> stakes_change (ch_staking s) st a (\<lambda>w. if w = v then - int (unat (c_amount c)) else 0)"
proof -
  assume "in_staking (add_stake ext block a v c) s = (Ok u, s')"
  then obtain st where st: "s' = s\<lparr>ch_staking := st\<rparr>" "c_denom c = si_bonded_denom (get_staking_info (ch_staking s))"
      and u: "update_stake ext block a v (c_amount c) False (ch_staking s) = (Ok u, st)"
    by (auto simp: in_staking_def add_stake_def validate_denom_def ok_iffs split: if_splits)
  from update_stake_change [OF assms u, simplified if_True if_False] st show "\<exists>st. s' = s\<lparr>ch_staking := st\<rparr>
      \<and> c_denom c = si_bonded_denom (get_staking_info (ch_staking s)) \<and> st_queue st = st_queue (ch_staking s)
      \<and> get_staking_info st = get_staking_info (ch_staking s)
      \<and> stakes_change (ch_staking s) st a (\<lambda>w. if w = v then int (unat (c_amount c)) else 0)"
    by (intro exI [of _ st]) simp
next
  assume "in_staking (remove_stake ext block a v c) s = (Ok u', s'')"
  then obtain st where st: "s'' = s\<lparr>ch_staking := st\<rparr>" "c_denom c = si_bonded_denom (get_staking_info (ch_staking s))"
      and u: "update_stake ext block a v (c_amount c) True (ch_staking s) = (Ok u', st)"
    by (auto simp: in_staking_def remove_stake_def validate_denom_def ok_iffs split: if_splits)
  from update_stake_change [OF assms u, simplified if_True if_False] st show "\<exists>st. s'' = s\<lparr>ch_staking := st\<rparr>
      \<and> c_denom c = si_bonded_denom (get_staking_info (ch_staking s)) \<and> st_queue st = st_queue (ch_staking s)
      \<and> get_staking_info st = get_staking_info (ch_staking s)
      \<and> stakes_change (ch_staking s) st a (\<lambda>w. if w = v then - int (unat (c_amount c)) else 0)"
    by (intro exI [of _ st]) simp
qed

section \<open>Staking messages\<close>

text \<open>The tokens a message adds to the sender's stake at a validator, and the coin it is about.\<close>

definition staked_by :: "staking_msg \<Rightarrow> string \<Rightarrow> int" where
  "staked_by msg w = (case msg of
      Delegate v c \<Rightarrow> if w = v then int (unat (c_amount c)) else 0
    | Undelegate v c \<Rightarrow> if w = v then - int (unat (c_amount c)) else 0
    | Redelegate v v' c \<Rightarrow> (if w = v then - int (unat (c_amount c)) else 0) + (if w = v' then int (unat (c_amount c)) else 0)
    | StakingMsgOther \<Rightarrow> 0)"

text \<open>
  What else a message does: a delegation pays its coin to the module, an undelegation appends its entry to
  the queue.
\<close>

definition staking_effect :: "ext \<Rightarrow> block_info \<Rightarrow> addr \<Rightarrow> staking_msg \<Rightarrow> chain \<Rightarrow> chain \<Rightarrow> bool" where
  "staking_effect ext block sender msg s s' \<longleftrightarrow> (let info = get_staking_info (ch_staking s); q = the_queue (ch_staking s) in
     (case msg of
        Delegate v c \<Rightarrow> c_denom c = si_bonded_denom info \<and> c_amount c \<noteq> 0
          \<and> send ext sender staking_module_addr [c] (ch_bank s) = (Ok (), ch_bank s') \<and> the_queue (ch_staking s') = q
      | Undelegate v c \<Rightarrow> c_denom c = si_bonded_denom info \<and> c_amount c \<noteq> 0 \<and> ch_bank s' = ch_bank s
          \<and> (\<exists>t. x_plus_seconds ext (bl_time block) (si_unbonding_time info) = Some t
              \<and> the_queue (ch_staking s') = q @ [\<lparr>ub_delegator = sender, ub_validator = v, ub_amount = c_amount c, ub_payout_at = t\<rparr>])
      | Redelegate v v' c \<Rightarrow> c_denom c = si_bonded_denom info \<and> ch_bank s' = ch_bank s \<and> the_queue (ch_staking s') = q
      | StakingMsgOther \<Rightarrow> False)
     \<and> s' = s\<lparr>ch_bank := ch_bank s', ch_staking := ch_staking s'\<rparr>)"

lemma staking_execute_effect:
  assumes "dec_laws ext" "staking_wf (ch_staking s)"
    and "staking_execute ext (router_at ext md k) block sender msg s = (Ok r, s')"
  shows "stakes_change (ch_staking s) (ch_staking s') sender (staked_by msg) \<and> staking_effect ext block sender msg s s'"
proof (cases msg)
  case (Delegate v c)
  with assms(3) obtain s1 u r' where add: "in_staking (add_stake ext block sender v c) s = (Ok u, s1)" and "c_amount c \<noteq> 0"
      and pay: "r_execute (router_at ext md k) block sender (MBank (BankSend (addr_str staking_module_addr) [c])) s1 = (Ok r', s')"
    by (auto simp: staking_execute_def Let_def ok_iffs split: if_splits)
  moreover obtain b where "send ext sender staking_module_addr [c] (ch_bank s1) = (Ok (), b)" "s' = s1\<lparr>ch_bank := b\<rparr>"
    by (rule bank_send_via_router [OF pay]) simp
  ultimately show ?thesis
    using stake_changes(1) [OF assms(1,2) add]
    by (auto simp: Delegate staked_by_def [abs_def] staking_effect_def Let_def the_queue_def)
next
  case (Undelegate v c)
  with assms(3) obtain s1 u t where rem: "in_staking (remove_stake ext block sender v c) s = (Ok u, s1)" "c_amount c \<noteq> 0"
      and t: "x_plus_seconds ext (bl_time block) (si_unbonding_time (get_staking_info (ch_staking s1))) = Some t"
      and s': "s' = s1\<lparr>ch_staking := (ch_staking s1)\<lparr>st_queue := Some (the_queue (ch_staking s1) @
        [\<lparr>ub_delegator = sender, ub_validator = v, ub_amount = c_amount c, ub_payout_at = t\<rparr>])\<rparr>\<rparr>"
    by (auto simp: staking_execute_def Let_def ok_iffs in_staking_def validate_denom_def or_panic_def
        split: if_splits option.splits)
  from stake_changes(2) [OF assms(1,2) rem(1)] rem(2) t s' show ?thesis
    by (auto simp: Undelegate staked_by_def [abs_def] staking_effect_def Let_def the_queue_def intro: stakes_change_queue)
next
  case (Redelegate v v' c)
  with assms(3) obtain s1 u u' where rem: "in_staking (remove_stake ext block sender v c) s = (Ok u, s1)"
      and add: "in_staking (add_stake ext block sender v' c) s1 = (Ok u', s')"
    by (auto simp: staking_execute_def Let_def ok_iffs)
  from stake_changes(2) [OF assms(1,2) rem] obtain st where 1: "s1 = s\<lparr>ch_staking := st\<rparr>" "staking_wf st"
      "c_denom c = si_bonded_denom (get_staking_info (ch_staking s))" "st_queue st = st_queue (ch_staking s)"
      and c1: "stakes_change (ch_staking s) st sender (\<lambda>w. if w = v then - int (unat (c_amount c)) else 0)"
    by (auto simp: stakes_change_def)
  then have "staking_wf (ch_staking s1)" by simp
  from stake_changes(1) [OF assms(1) this add] 1(1) obtain st' where 2: "s' = s\<lparr>ch_staking := st'\<rparr>" "st_queue st' = st_queue st"
      and c2: "stakes_change st st' sender (\<lambda>w. if w = v' then int (unat (c_amount c)) else 0)"
    by auto
  from stakes_change_trans [OF c1 c2] 1 2 show ?thesis
    by (simp add: Redelegate staked_by_def [abs_def] staking_effect_def Let_def the_queue_def)
qed (use assms(3) in \<open>simp add: staking_execute_def fail_def\<close>)

section \<open>Properties\<close>

text \<open>
  C10. The staking messages keep the books. A successful \<open>Delegate\<close>, \<open>Undelegate\<close> or \<open>Redelegate\<close> is about a coin of
  the bonded denomination - a delegation and an undelegation about a coin that is not zero. It moves exactly
  this amount to, from, or between the stakes of the sender at the named validators and changes nobody else's
  stake; the totals of the validators and the sums of their delegators' shares change by the same amounts, so
  they stay equal if they were; and the stakers a validator lists are still those with shares. A delegation
  pays the coin from the sender to the staking module, an undelegation queues exactly this amount to be paid
  back after the unbonding time, and nothing else on the chain changes; other messages fail.
\<close>
theorem stake_bookkeeping:
  assumes "dec_laws ext" "staking_wf (ch_staking (ap_chain a))"
    and "app_execute ext n sender (MStaking msg) a = (Ok r, a')"
  shows "stakes_change (ch_staking (ap_chain a)) (ch_staking (ap_chain a')) sender (staked_by msg)
    \<and> staking_effect ext (ap_block a) sender msg (ap_chain a) (ap_chain a')
    \<and> (\<forall>w. total_stake (ch_staking (ap_chain a)) w = validator_stake (ch_staking (ap_chain a)) w * 10 ^ 18 \<longrightarrow>
        total_stake (ch_staking (ap_chain a')) w = validator_stake (ch_staking (ap_chain a')) w * 10 ^ 18)"
proof -
  from assms(3) obtain k s where "a' = a\<lparr>ap_chain := s\<rparr>"
      "staking_execute ext (router_at ext (ap_modules a) k) (ap_block a) sender msg (ap_chain a) = (Ok r, s)"
    by (rule app_execute_Ok) (simp add: router_execute_def)
  with staking_execute_effect [OF assms(1,2) this(2)] stakes_change_balanced
  show ?thesis by simp blast
qed

text \<open>A validator whose books balance.\<close>

definition even_staking :: staking_state where
  "even_staking = demo_staking\<lparr>
     st_stakes := [((Addr ''alice'', ''val''), \<lparr>sh_stake = Decimal (2 * 10 ^ 18), sh_rewards = dec_zero\<rparr>),
                  ((Addr ''bob'', ''val''), \<lparr>sh_stake = Decimal (5 * 10 ^ 18), sh_rewards = dec_zero\<rparr>)],
     st_validator_info := [(''val'', \<lparr>vi_stakers = [Addr ''alice'', Addr ''bob''], vi_stake = 7, vi_last = 0\<rparr>)],
     st_queue := None\<rparr>"

definition even_app :: app where
  "even_app = (default_app demo_ext (Staking.demo_block 0))\<lparr>ap_chain := empty_chain\<lparr>ch_staking := even_staking\<rparr>\<rparr>"

lemma even_staking_wf: "staking_wf even_staking"
  by (auto simp: staking_wf_def validators_wf_def even_staking_def demo_staking_def has_stake_def lists_staker_def
      demo_validator_def om_wf_def os_wf_def less_addr_def split: if_splits)

theorem stake_bookkeeping_witness:
  "\<exists>r a'. app_execute demo_ext 1 (Addr ''bob'') (MStaking (Undelegate ''val'' \<lparr>c_denom = ''TOKEN'', c_amount = 2\<rparr>)) even_app = (Ok r, a')
     \<and> stake_at (ch_staking (ap_chain a')) (Addr ''bob'') ''val'' = 3 * 10 ^ 18
     \<and> validator_stake (ch_staking (ap_chain a')) ''val'' = 5 \<and> total_stake (ch_staking (ap_chain a')) ''val'' = 5 * 10 ^ 18"
proof -
  let ?msg = "Undelegate ''val'' \<lparr>c_denom = ''TOKEN'', c_amount = 2\<rparr>"
  let ?run = "app_execute demo_ext 1 (Addr ''bob'') (MStaking ?msg) even_app"
  note parts = default_app_parts [of demo_ext "Staking.demo_block 0"]
  have app: "ap_chain even_app = empty_chain\<lparr>ch_staking := even_staking\<rparr>" "ap_block even_app = Staking.demo_block 0"
    by (simp_all add: even_app_def parts)
  obtain r a' where run: "?run = (r, a')" by fastforce
  have "is_ok (fst ?run)"
    by (simp add: app_execute_eq atomically_def router_execute_def app One_nat_def staking_execute_def in_staking_def zoom_def
        validate_denom_def remove_stake_def update_stake_def run_eqs update_rewards_run thenM_def bindM_def even_staking_def
        demo_staking_def demo_block_def get_staking_info_def default_staking_info_def BONDED_DENOM_def demo_ext_def
        fits_dec_def fits_def dec_sub_def checked_sub_def less_decimal_def ret_def Let_def guard_def dec_zero_def the_queue_def
        or_panic_def)
  with run obtain x where ok: "r = Ok x" by (auto simp: is_ok_iff)
  note T = stake_bookkeeping [OF dec_laws_demo _ run [unfolded ok], unfolded app]
  have even: "total_stake even_staking ''val'' = 7 * 10 ^ 18" "validator_stake even_staking ''val'' = 7"
    "stake_at even_staking (Addr ''bob'') ''val'' = 5 * 10 ^ 18"
    by (simp_all add: total_stake_def validator_stake_def stake_at_def even_staking_def demo_staking_def om_sum_def)
  let ?st = "ch_staking (ap_chain a')"
  have wf: "staking_wf (ch_staking (empty_chain\<lparr>ch_staking := even_staking\<rparr>))" by (simp add: even_staking_wf)
  have "stakes_change even_staking ?st (Addr ''bob'') (staked_by ?msg)" using T [OF wf] by simp
  then have "int (stake_at ?st (Addr ''bob'') ''val'') = int (stake_at even_staking (Addr ''bob'') ''val'') + staked_by ?msg ''val'' * 10 ^ 18"
    "int (validator_stake ?st ''val'') = int (validator_stake even_staking ''val'') + staked_by ?msg ''val''"
    by (simp_all only: stakes_change_def) simp_all
  moreover have "staked_by ?msg ''val'' = - 2" by (simp add: staked_by_def)
  moreover have "total_stake ?st ''val'' = validator_stake ?st ''val'' * 10 ^ 18"
    using conjunct2 [OF conjunct2 [OF T [OF wf]], THEN spec, of "''val''"] even by simp
  ultimately show ?thesis using even run ok by (intro exI [of _ x] exI [of _ a']) simp
qed

end
