(* ===== verification/Termination.thy ===== *)
theory Termination
  imports App
begin

text \<open>
  How much fuel is enough. A procedure \<open>ends\<close> if it never runs out of fuel; the operations of the
  bank, the staking module and the senders of packets do, given a router that answers for the bank.
  What a contract does can go on for ever: \<open>self_call_out_of_fuel\<close> at the end of the theory.
\<close>

named_theorems ends_intro \<open>introduction rules for ends\<close>

definition ends :: "('s, 'e, 'a) proc \<Rightarrow> bool" where
  "ends m \<longleftrightarrow> (\<forall>s. fst (m s) \<noteq> NoFuel)"

lemma ends_basic [ends_intro, simp]:
  "ends (ret a)" "ends (fail e)" "ends (panic p)" "ends (reads f)" "ends (modifies g)" "ends (of_option e v)"
  "ends (or_panic p v)" "ends (guard b e)"
  by (simp_all add: ends_def of_option_def or_panic_def guard_def modifies_def split: option.split)

lemma ends_bindM [ends_intro]: "ends m \<Longrightarrow> (\<And>a. ends (f a)) \<Longrightarrow> ends (bindM m f)"
  by (auto simp: ends_def bindM_def split: prod.split outcome.split) (metis fst_conv)

lemma ends_thenM [ends_intro]: "ends m \<Longrightarrow> ends k \<Longrightarrow> ends (thenM m k)"
  by (simp add: thenM_def ends_bindM)

lemma ends_zoom [ends_intro]: "ends m \<Longrightarrow> ends (zoom sel upd m)"
  by (auto simp: ends_def zoom_def split: prod.split) (metis fst_conv)

lemma ends_mapM_ok [ends_intro]: "ends m \<Longrightarrow> ends (mapM_ok f m)"
  by (auto simp: ends_def mapM_ok_def split: prod.split) (metis fst_conv map_outcome_ok.simps outcome.exhaust outcome.distinct)

lemma ends_map_errM [ends_intro]: "ends m \<Longrightarrow> ends (map_errM f m)"
  by (auto simp: ends_def map_errM_def split: prod.split outcome.split) (metis fst_conv)

lemma ends_atomically [ends_intro]: "ends m \<Longrightarrow> ends (atomically m)"
  by (simp add: ends_def)

lemma ends_load [ends_intro, simp]: "ends (load ty sel k)"
  by (simp add: load_def ends_bindM)

lemma ends_lift_result [ends_intro, simp]: "ends (lift_result r)"
  by (simp add: lift_result_def split: sum.split)

lemma ends_if [ends_intro]: "ends m \<Longrightarrow> ends k \<Longrightarrow> ends (if b then m else k)"
  and ends_case_option [ends_intro]: "ends m \<Longrightarrow> (\<And>a. ends (g a)) \<Longrightarrow> ends (case_option m g v)"
  and ends_case_prod [ends_intro]: "(\<And>a b. ends (f a b)) \<Longrightarrow> ends (case_prod f p)"
  by (simp_all split: option.split prod.split)

lemma ends_for_each [ends_intro]: "(\<And>x. ends (f x)) \<Longrightarrow> ends (for_each f xs)"
  by (induction xs) (auto intro: ends_intro)

lemma ends_collectM [ends_intro]: "list_all (\<lambda>x. ends (f x)) xs \<Longrightarrow> ends (collectM f xs)"
  by (induction xs) (auto intro!: ends_bindM)

lemma ends_try_fold [ends_intro]: "(\<And>acc x. ends (f acc x)) \<Longrightarrow> ends (try_fold f acc xs)"
  by (induction xs arbitrary: acc) (auto intro: ends_intro)

lemma ends_in [ends_intro]:
  "ends m1 \<Longrightarrow> ends (in_bank m1)" "ends m2 \<Longrightarrow> ends (in_staking m2)" "ends m3 \<Longrightarrow> ends (in_distribution m3)"
  "ends m4 \<Longrightarrow> ends (in_ibc m4)"
  by (simp_all add: in_defs ends_zoom)

section \<open>Bank and staking\<close>

lemma ends_bank [ends_intro]:
  "ends (mint ext a c)" "ends (burn ext a c)" "ends (send ext a b c)" "ends (bank_execute ext a m)" "ends (bank_sudo ext u)"
proof -
  have set: "ends (set_balance ext a c)" for a c unfolding set_balance_def by (intro ends_intro)
  show mint: "ends (mint ext a c)" for a c unfolding mint_def by (intro ends_intro set)
  show burn: "ends (burn ext a c)" for a c unfolding burn_def Let_def by (intro ends_intro set)
  show send: "ends (send ext a b c)" for a b c unfolding send_def by (intro ends_intro mint burn)
  show "ends (bank_execute ext a m)"
    by (cases m; simp only: bank_execute_def bank_msg.case Let_def; intro ends_intro send burn)
  show "ends (bank_sudo ext u)"
    by (cases u; simp only: bank_sudo_def bank_sudo.case; intro ends_intro mint)
qed

lemma ends_update_rewards [ends_intro]: "ends (update_rewards ext b v)"
proof -
  have c: "ends (credit_rewards ext w vi r a)" for w vi r a
    unfolding credit_rewards_def by (intro ends_intro)
  show ?thesis unfolding update_rewards_def Let_def by (intro ends_intro c)
qed

lemma ends_stake [ends_intro]:
  "ends (validate_denom c)" "ends (add_stake ext b a v c)" "ends (remove_stake ext b a v c)"
  "ends (remove_rewards ext b a v)" "ends (slash ext b v p)" "ends (validate_percentage p)"
proof -
  show d: "ends (validate_denom c)" for c unfolding validate_denom_def by (intro ends_intro)
  have u: "ends (update_stake ext b a v n s)" for n s
    unfolding update_stake_def Let_def by (intro ends_intro)
  show "ends (add_stake ext b a v c)" "ends (remove_stake ext b a v c)"
    unfolding add_stake_def remove_stake_def by (intro ends_intro d u)+
  show "ends (remove_rewards ext b a v)" unfolding remove_rewards_def by (intro ends_intro)
  have s: "ends (slash_staker ext v r x)" "ends (unstake v x)" for r x
    unfolding slash_staker_def unstake_def by (intro ends_intro)+
  show "ends (slash ext b v p)" unfolding slash_def by (intro ends_intro s)
  show "ends (validate_percentage p)" unfolding validate_percentage_def by (intro ends_intro)
qed

text \<open>A router that answers bank messages and bank sudo calls.\<close>

definition answers_bank :: "cosmos_router \<Rightarrow> bool" where
  "answers_bank rt \<longleftrightarrow> (\<forall>b a m. ends (r_execute rt b a (MBank m))) \<and> (\<forall>b u. ends (r_sudo rt b (SudoBank u)))"

lemma answers_bank_at: "answers_bank (router_at ext md (Suc n))"
  by (simp add: answers_bank_def router_execute_def router_sudo_def ends_bank)

lemma ends_process_queue: "answers_bank rt \<Longrightarrow> ends (process_queue ext rt b)"
proof -
  assume rt: "answers_bank rt"
  have d: "ends (drop_empty_stake ext u rest)" for u rest
    unfolding drop_empty_stake_def get_stake_def unstake_def by (intro ends_intro)
  have r: "ends (r_execute rt b a (MBank m))" for a m using rt by (simp add: answers_bank_def)
  have "ends (queue_loop ext rt b q)" for q
    by (induction q) (auto intro!: ends_intro d r)
  then show ?thesis unfolding process_queue_def by (intro ends_intro)
qed

section \<open>Messages that cannot go on for ever\<close>

text \<open>
  The messages that no contract is run for: everything of the bank, the staking and the
  distribution module and the exchangeable modules, sending IBC packets, and administration.
\<close>

definition contract_free :: "cosmos_msg \<Rightarrow> bool" where
  "contract_free m = (case m of
      MWasm w \<Rightarrow> (case w of WasmUpdateAdmin _ _ \<Rightarrow> True | WasmClearAdmin _ \<Rightarrow> True | WasmMsgOther \<Rightarrow> True | _ \<Rightarrow> False)
    | MIbc i \<Rightarrow> (case i of IbcCloseChannel _ \<Rightarrow> False | _ \<Rightarrow> True)
    | _ \<Rightarrow> True)"

lemma ends_modules [ends_intro]:
  assumes "answers_bank rt"
  shows "ends (staking_execute ext rt b a m1)" "ends (distribution_execute ext rt b a m2)"
    "ends (staking_sudo ext b m3)"
proof -
  have r: "ends (r_execute rt b a (MBank m))" "ends (r_sudo rt b (SudoBank u))" for b a m u
    using assms by (simp_all add: answers_bank_def)
  show "ends (staking_execute ext rt b a m1)"
    by (cases m1; simp only: staking_execute_def staking_msg.case Let_def; intro ends_intro r)
  show "ends (distribution_execute ext rt b a m2)"
    by (cases m2; simp only: distribution_execute_def distribution_msg.case Let_def set_withdraw_address_def;
        intro ends_intro r)
  show "ends (staking_sudo ext b m3)"
    by (cases m3; simp only: staking_sudo_def staking_sudo.case; intro ends_intro)
qed

lemma ends_sends [ends_intro]: "ends (send_packet_raw ext p c d t)"
  unfolding send_packet_raw_def Let_def by (intro ends_intro)

lemma ends_stubs [ends_intro]:
  "ends (stub_execute k a m)" "ends (execute_stargate k a u v)" "ends (execute_any k a u v)"
  by (simp_all add: stub_execute_def execute_stargate_def execute_any_def split: stub.split)

lemma ends_contract_data [ends_intro]: "ends (contract_data a)"
  by (simp add: ends_def contract_data_eq split: option.split)

lemma contract_free_ends:
  assumes "contract_free m" "answers_bank rt"
  shows "ends (router_execute ext md n rt b a m)"
proof (cases m)
  case (MWasm w)
  have s: "ends (save_contract x c)" for x c by (simp add: ends_def)
  have u: "ends (update_admin ext a x y)" for x y
    unfolding update_admin_def by (intro ends_intro s)
  show ?thesis using assms(1) unfolding MWasm
    by (cases w; simp add: contract_free_def router_execute_def wasm_execute_def execute_wasm_def;
        intro ends_intro u)
next
  case (MIbc i)
  have r: "ends (r_execute rt b a (MBank x))" for x using assms(2) by (simp add: answers_bank_def)
  show ?thesis using assms(1) unfolding MIbc
    by (cases i; simp add: contract_free_def router_execute_def ibc_execute_def transfer_def send_packet_def;
        intro ends_intro r)
qed (simp_all add: router_execute_def ends_bank ends_stubs ends_modules [OF assms(2)])

section \<open>A contract that calls itself\<close>

text \<open>
  The other side: the first message of every response of the contract is a call of the contract
  itself. The number of nested calls is then unbounded, and no fuel is enough.
\<close>

definition self_caller :: "addr \<Rightarrow> binary \<Rightarrow> contract \<Rightarrow> bool" where
  "self_caller address msg code \<longleftrightarrow> (\<forall>env info m. \<exists>r sub rest. ct_execute code env info m = CDone (Inr r)
     \<and> rs_attributes r = [] \<and> rs_events r = [] \<and> rs_messages r = sub # rest
     \<and> sm_msg sub = MWasm (WasmExecute (addr_str address) msg []))"

lemma NoFuel_run:
  "fst (m s) = NoFuel \<Longrightarrow> fst (bindM m f s) = NoFuel" "fst (m s) = NoFuel \<Longrightarrow> fst (attempt m s) = NoFuel"
  "fst (m s) = NoFuel \<Longrightarrow> fst (atomically m s) = NoFuel" "fst (m s) = NoFuel \<Longrightarrow> fst (map_errM h m s) = NoFuel"
  by (cases "m s"; simp add: bindM_def attempt_def atomically_def map_errM_def)+

lemma process_response_NoFuel:
  assumes "fst (r_execute router block contract (sm_msg sub) s) = NoFuel"
  shows "fst (process_response ext router reply block contract r (sub # rest) s) = NoFuel"
proof -
  have "fst (execute_submsg ext router reply block contract sub s) = NoFuel"
    unfolding execute_submsg_def by (intro NoFuel_run assms)
  then show ?thesis unfolding process_response_def try_fold.simps by (intro NoFuel_run)
qed

lemma verify_plain: "rs_attributes r = [] \<Longrightarrow> rs_events r = [] \<Longrightarrow> verify_response r t = (Ok r, t)"
  by (simp add: verify_response_def verify_events_def verify_attributes_def thenM_def ret_def)

lemma self_call_out_of_fuel:
  assumes "self_caller address msg code" "x_addr_validate ext (addr_str address) = Inr address"
    and code: "\<And>s :: chain. contract_code (md_wasm md) (cd_code_id c) s = (Ok code, s)"
  shows "om_get (w_contracts (ch_wasm s)) address = Some c \<Longrightarrow>
    fst (r_execute (router_at ext md n) block sender (MWasm (WasmExecute (addr_str address) m [])) s) = NoFuel"
proof (induction n arbitrary: s block sender m)
  case 0
  then show ?case by (simp add: idle_router_def)
next
  case (Suc n)
  let ?wk = "md_wasm md" and ?rt = "router_at ext md n" and ?info = "\<lparr>mi_sender = sender, mi_funds = []\<rparr>"
  let ?s = "put_contract_storage address (contract_storage s address) s"
  obtain r sub rest where r: "ct_execute code (get_env address block) ?info m = CDone (Inr r)"
      "rs_attributes r = []" "rs_events r = []" "rs_messages r = sub # rest"
      "sm_msg sub = MWasm (WasmExecute (addr_str address) msg [])"
    using assms(1) unfolding self_caller_def by blast
  have call: "call_execute ?rt ?wk block address ?info m s = (Ok r, ?s)"
    by (rule call_execute_run [OF Suc.prems code]) (simp_all add: r verify_plain lift_result_def ret_def)
  have "fst (process_at ext ?rt ?wk n block address (build_app_response address e r) ?s) = NoFuel" for e
    unfolding process_at_def build_app_response_def
    by (simp add: Let_def r(2,4) del: if_split) (rule process_response_NoFuel, simp add: r(5) Suc.IH Suc.prems)
  then show ?case
    by (simp add: router_execute_def wasm_execute_def execute_wasm_def wasm_send_def thenM_def assms(2) lift_result_def
        bindM_eq [where m = "call_execute ?rt ?wk block address ?info m", OF call] NoFuel_run(1,4))
qed

end
