(* ===== verification/Bech32_Api.thy ===== *)
theory Bech32_Api
  imports Chain_Facts
begin

text \<open>
  \<open>MockApiBech\<close> (\<open>src/api.rs\<close>), the \<open>Api\<close> that writes addresses in Bech32 or Bech32m format, and the
  conversions of strings to addresses of \<open>src/addresses.rs\<close>. The format itself is the package \<open>bech32\<close>:
  a record \<open>bech32\<close> of the three functions the code calls, one value for each of the two checksums,
  with the documented round trip of encoding and decoding as the hypothesis \<open>bech32_laws\<close>. The
  verification functions of the api are those of \<open>cosmwasm_std\<close>'s \<open>MockApi\<close>, a record \<open>mock_api\<close>.
  An application built with this api runs with the \<open>ext\<close> of \<open>use_bech32\<close>.
\<close>

section \<open>The packages\<close>

text \<open>
  \<open>Hrp::parse\<close> (on success the human-readable part, on failure the reason), \<open>encode::<T>\<close>, and
  \<open>CheckedHrpstring::new::<T>\<close> with the human-readable part and the bytes of the result.
\<close>

record bech32 =
  b3_hrp :: "string \<Rightarrow> string + string"
  b3_encode :: "string \<Rightarrow> bytes \<Rightarrow> string option"
  b3_decode :: "string \<Rightarrow> (string \<times> bytes) option"

definition ascii_lower :: "char \<Rightarrow> char" where
  "ascii_lower c = (if 65 \<le> (of_char c :: nat) \<and> (of_char c :: nat) \<le> 90 then char_of ((of_char c :: nat) + 32) else c)"

text \<open>
  What the documentation of the package promises: parsing keeps the text of the human-readable part,
  and encoding, which writes lower case, is undone by decoding.
\<close>

definition bech32_laws :: "bech32 \<Rightarrow> bool" where
  "bech32_laws lib \<longleftrightarrow>
     (\<forall>prefix hrp. b3_hrp lib prefix = Inr hrp \<longrightarrow> hrp = prefix) \<and>
     (\<forall>prefix hrp data s. b3_hrp lib prefix = Inr hrp \<longrightarrow> b3_encode lib hrp data = Some s \<longrightarrow>
        b3_decode lib s = Some (map ascii_lower prefix, data))"

text \<open>The errors \<open>VerificationError\<close> and \<open>RecoverPubkeyError\<close> and the type \<open>HashFunction\<close> are type parameters.\<close>

record ('v, 'r, 'h) mock_api =
  ma_secp256k1_verify :: "bytes \<Rightarrow> bytes \<Rightarrow> bytes \<Rightarrow> 'v + bool"
  ma_secp256k1_recover_pubkey :: "bytes \<Rightarrow> bytes \<Rightarrow> byte \<Rightarrow> 'r + bytes"
  ma_bls12_381_aggregate_g1 :: "bytes \<Rightarrow> 'v + bytes"
  ma_bls12_381_aggregate_g2 :: "bytes \<Rightarrow> 'v + bytes"
  ma_bls12_381_pairing_equality :: "bytes \<Rightarrow> bytes \<Rightarrow> bytes \<Rightarrow> bytes \<Rightarrow> 'v + bool"
  ma_bls12_381_hash_to_g1 :: "'h \<Rightarrow> bytes \<Rightarrow> bytes \<Rightarrow> 'v + bytes"
  ma_bls12_381_hash_to_g2 :: "'h \<Rightarrow> bytes \<Rightarrow> bytes \<Rightarrow> 'v + bytes"
  ma_secp256r1_verify :: "bytes \<Rightarrow> bytes \<Rightarrow> bytes \<Rightarrow> 'v + bool"
  ma_secp256r1_recover_pubkey :: "bytes \<Rightarrow> bytes \<Rightarrow> byte \<Rightarrow> 'r + bytes"
  ma_ed25519_verify :: "bytes \<Rightarrow> bytes \<Rightarrow> bytes \<Rightarrow> 'v + bool"
  ma_ed25519_batch_verify :: "bytes list \<Rightarrow> bytes list \<Rightarrow> bytes list \<Rightarrow> 'v + bool"
  ma_addr_make :: "string option \<Rightarrow> string \<Rightarrow> addr"  \<comment> \<open>with a prefix of its own or the default one\<close>

section \<open>The api\<close>

text \<open>The type parameter \<open>T\<close> of the code is the checksum, the value \<open>mb_lib\<close>.\<close>

record ('v, 'r, 'h) mock_api_bech =
  mb_lib :: bech32
  mb_api :: "('v, 'r, 'h) mock_api"
  mb_prefix :: string

definition mock_api_bech_new :: "bech32 \<Rightarrow> ('v, 'r, 'h) mock_api \<Rightarrow> string \<Rightarrow> ('v, 'r, 'h) mock_api_bech" where
  "mock_api_bech_new lib mock prefix = \<lparr>mb_lib = lib, mb_api = mock, mb_prefix = prefix\<rparr>"

definition bech_addr_canonicalize :: "('v, 'r, 'h) mock_api_bech \<Rightarrow> string \<Rightarrow> bytes std_result" where
  "bech_addr_canonicalize api input = (case b3_decode (mb_lib api) input of
      Some (hrp, data) \<Rightarrow> if hrp = mb_prefix api then Inr data else Inl (StdMsg ''Invalid input'')
    | None \<Rightarrow> Inl (StdMsg ''Invalid input''))"

definition bech_addr_humanize :: "('v, 'r, 'h) mock_api_bech \<Rightarrow> bytes \<Rightarrow> addr std_result" where
  "bech_addr_humanize api canonical = (case b3_hrp (mb_lib api) (mb_prefix api) of
      Inl reason \<Rightarrow> Inl (ExternalError reason)
    | Inr hrp \<Rightarrow> (case b3_encode (mb_lib api) hrp canonical of
        Some encoded \<Rightarrow> Inr (Addr encoded)
      | None \<Rightarrow> Inl (StdMsg ''Invalid canonical address'')))"

definition bech_addr_validate :: "('v, 'r, 'h) mock_api_bech \<Rightarrow> string \<Rightarrow> addr std_result" where
  "bech_addr_validate api input = (case bech_addr_canonicalize api input of
      Inl e \<Rightarrow> Inl e | Inr canonical \<Rightarrow> bech_addr_humanize api canonical)"

text \<open>\<open>sha256\<close> is \<open>Sha256::digest\<close>.\<close>

definition bech_addr_make ::
    "(bytes \<Rightarrow> bytes) \<Rightarrow> ('v, 'r, 'h) mock_api_bech \<Rightarrow> string \<Rightarrow> (std_error, addr) outcome" where
  "bech_addr_make sha256 api input = (case b3_hrp (mb_lib api) (mb_prefix api) of
      Inr hrp \<Rightarrow> (case b3_encode (mb_lib api) hrp (sha256 (as_bytes input)) of
          Some encoded \<Rightarrow> Ok (Addr encoded)
        | None \<Rightarrow> Panic ''called Result::unwrap() on an Err value'')
    | Inl reason \<Rightarrow> Panic (''Generating address failed with reason: '' @ reason))"

definition bech_secp256k1_verify where
  "bech_secp256k1_verify api message_hash signature public_key =
     ma_secp256k1_verify (mb_api api) message_hash signature public_key"

definition bech_secp256k1_recover_pubkey where
  "bech_secp256k1_recover_pubkey api message_hash signature recovery_param =
     ma_secp256k1_recover_pubkey (mb_api api) message_hash signature recovery_param"

definition bech_bls12_381_aggregate_g1 where
  "bech_bls12_381_aggregate_g1 api g1s = ma_bls12_381_aggregate_g1 (mb_api api) g1s"

definition bech_bls12_381_aggregate_g2 where
  "bech_bls12_381_aggregate_g2 api g2s = ma_bls12_381_aggregate_g2 (mb_api api) g2s"

definition bech_bls12_381_pairing_equality where
  "bech_bls12_381_pairing_equality api ps qs r s = ma_bls12_381_pairing_equality (mb_api api) ps qs r s"

definition bech_bls12_381_hash_to_g1 where
  "bech_bls12_381_hash_to_g1 api hash_function msg dst = ma_bls12_381_hash_to_g1 (mb_api api) hash_function msg dst"

definition bech_bls12_381_hash_to_g2 where
  "bech_bls12_381_hash_to_g2 api hash_function msg dst = ma_bls12_381_hash_to_g2 (mb_api api) hash_function msg dst"

definition bech_secp256r1_verify where
  "bech_secp256r1_verify api message_hash signature public_key =
     ma_secp256r1_verify (mb_api api) message_hash signature public_key"

definition bech_secp256r1_recover_pubkey where
  "bech_secp256r1_recover_pubkey api message_hash signature recovery_param =
     ma_secp256r1_recover_pubkey (mb_api api) message_hash signature recovery_param"

definition bech_ed25519_verify where
  "bech_ed25519_verify api message signature public_key = ma_ed25519_verify (mb_api api) message signature public_key"

definition bech_ed25519_batch_verify where
  "bech_ed25519_batch_verify api messages signatures public_keys =
     ma_ed25519_batch_verify (mb_api api) messages signatures public_keys"

text \<open>The functions of an application that is built with this api.\<close>

definition use_bech32 :: "('v, 'r, 'h) mock_api_bech \<Rightarrow> ext \<Rightarrow> ext" where
  "use_bech32 api ext = ext\<lparr>x_addr_validate := bech_addr_validate api,
     x_addr_humanize := bech_addr_humanize api, x_addr_canonicalize := bech_addr_canonicalize api\<rparr>"

section \<open>Conversions of strings\<close>

text \<open>\<open>MockApi\<close> makes an address itself; \<open>lib32\<close> and \<open>lib32m\<close> are the two checksums.\<close>

definition DEFAULT_PREFIX :: string where
  "DEFAULT_PREFIX = ''cosmwasm''"

definition into_addr :: "('v, 'r, 'h) mock_api \<Rightarrow> string \<Rightarrow> addr" where
  "into_addr mock input = ma_addr_make mock None input"

definition into_addr_with_prefix :: "('v, 'r, 'h) mock_api \<Rightarrow> string \<Rightarrow> string \<Rightarrow> addr" where
  "into_addr_with_prefix mock input prefix = ma_addr_make mock (Some prefix) input"

definition into_bech32 ::
    "bech32 \<Rightarrow> (bytes \<Rightarrow> bytes) \<Rightarrow> ('v, 'r, 'h) mock_api \<Rightarrow> string \<Rightarrow> (std_error, addr) outcome" where
  "into_bech32 lib32 sha256 mock input =
     bech_addr_make sha256 (mock_api_bech_new lib32 mock DEFAULT_PREFIX) input"

definition into_bech32_with_prefix ::
    "bech32 \<Rightarrow> (bytes \<Rightarrow> bytes) \<Rightarrow> ('v, 'r, 'h) mock_api \<Rightarrow> string \<Rightarrow> string \<Rightarrow> (std_error, addr) outcome" where
  "into_bech32_with_prefix lib32 sha256 mock input prefix =
     bech_addr_make sha256 (mock_api_bech_new lib32 mock prefix) input"

definition into_bech32m ::
    "bech32 \<Rightarrow> (bytes \<Rightarrow> bytes) \<Rightarrow> ('v, 'r, 'h) mock_api \<Rightarrow> string \<Rightarrow> (std_error, addr) outcome" where
  "into_bech32m lib32m sha256 mock input =
     bech_addr_make sha256 (mock_api_bech_new lib32m mock DEFAULT_PREFIX) input"

definition into_bech32m_with_prefix ::
    "bech32 \<Rightarrow> (bytes \<Rightarrow> bytes) \<Rightarrow> ('v, 'r, 'h) mock_api \<Rightarrow> string \<Rightarrow> string \<Rightarrow> (std_error, addr) outcome" where
  "into_bech32m_with_prefix lib32m sha256 mock input prefix =
     bech_addr_make sha256 (mock_api_bech_new lib32m mock prefix) input"

section \<open>Addresses the api makes\<close>

lemma humanize_Inr:
  "bech_addr_humanize api canonical = Inr a \<longleftrightarrow>
     (\<exists>hrp. b3_hrp (mb_lib api) (mb_prefix api) = Inr hrp \<and> b3_encode (mb_lib api) hrp canonical = Some (addr_str a))"
  by (cases a) (auto simp: bech_addr_humanize_def split: sum.splits option.splits)

lemma canonicalize_humanized:
  assumes "bech32_laws (mb_lib api)" "bech_addr_humanize api canonical = Inr a"
  shows "bech_addr_canonicalize api (addr_str a) =
    (if map ascii_lower (mb_prefix api) = mb_prefix api then Inr canonical else Inl (StdMsg ''Invalid input''))"
  using assms by (auto simp: bech32_laws_def humanize_Inr bech_addr_canonicalize_def)

lemma validate_humanized:
  assumes "bech32_laws (mb_lib api)" "bech_addr_humanize api canonical = Inr a"
  shows "bech_addr_validate api (addr_str a) =
    (if map ascii_lower (mb_prefix api) = mb_prefix api then Inr a else Inl (StdMsg ''Invalid input''))"
  using canonicalize_humanized [OF assms] assms(2) by (simp add: bech_addr_validate_def)

lemma addr_make_Ok:
  "bech_addr_make sha256 api input = Ok a \<longleftrightarrow> bech_addr_humanize api (sha256 (as_bytes input)) = Inr a"
  by (auto simp: bech_addr_make_def bech_addr_humanize_def split: sum.splits option.splits)

text \<open>
  C39. Addresses of the Bech32 api round-trip, in lower case only. Every address the api makes - from a
  canonical address, from an input string, or by validating a string - decodes to the bytes it was made
  from and validates to itself when the prefix has no upper-case letter; when the prefix has one, the
  api refuses every address it makes.
\<close>
theorem bech32_addresses_roundtrip:
  assumes "bech32_laws (mb_lib api)"
    and "bech_addr_humanize api canonical = Inr a \<or> bech_addr_make sha256 api input = Ok a \<and> canonical = sha256 (as_bytes input)
      \<or> bech_addr_validate api s = Inr a \<and> bech_addr_canonicalize api s = Inr canonical"
  shows "if map ascii_lower (mb_prefix api) = mb_prefix api
    then bech_addr_canonicalize api (addr_str a) = Inr canonical \<and> bech_addr_validate api (addr_str a) = Inr a
    else bech_addr_canonicalize api (addr_str a) = Inl (StdMsg ''Invalid input'')
      \<and> bech_addr_validate api (addr_str a) = Inl (StdMsg ''Invalid input'')"
proof -
  have "bech_addr_humanize api canonical = Inr a"
    using assms(2) by (auto simp: addr_make_Ok bech_addr_validate_def)
  from canonicalize_humanized [OF assms(1) this] validate_humanized [OF assms(1) this] show ?thesis by simp
qed

text \<open>A plain format with the laws: the part, a separator, the bytes as they are.\<close>

definition plain_bech32 :: bech32 where
  "plain_bech32 = \<lparr>b3_hrp = (\<lambda>p. if p = [] \<or> CHR ''1'' \<in> set p then Inl ''invalid part'' else Inr p),
     b3_encode = (\<lambda>hrp data. Some (map ascii_lower hrp @ CHR ''1'' # map (\<lambda>b. char_of (unat b)) data)),
     b3_decode = (\<lambda>s. if CHR ''1'' \<in> set s
        then Some (takeWhile (\<lambda>c. c \<noteq> CHR ''1'') s, as_bytes (tl (dropWhile (\<lambda>c. c \<noteq> CHR ''1'') s))) else None)\<rparr>"

definition no_crypto :: "(string, string, unit) mock_api" where
  "no_crypto = \<lparr>ma_secp256k1_verify = (\<lambda>a b c. Inl ''none''), ma_secp256k1_recover_pubkey = (\<lambda>a b c. Inl ''none''),
     ma_bls12_381_aggregate_g1 = (\<lambda>a. Inl ''none''), ma_bls12_381_aggregate_g2 = (\<lambda>a. Inl ''none''),
     ma_bls12_381_pairing_equality = (\<lambda>a b c d. Inl ''none''), ma_bls12_381_hash_to_g1 = (\<lambda>a b c. Inl ''none''),
     ma_bls12_381_hash_to_g2 = (\<lambda>a b c. Inl ''none''), ma_secp256r1_verify = (\<lambda>a b c. Inl ''none''),
     ma_secp256r1_recover_pubkey = (\<lambda>a b c. Inl ''none''), ma_ed25519_verify = (\<lambda>a b c. Inl ''none''),
     ma_ed25519_batch_verify = (\<lambda>a b c. Inl ''none''), ma_addr_make = (\<lambda>p s. Addr s)\<rparr>"

lemma ascii_lower_1: "ascii_lower c = CHR ''1'' \<longleftrightarrow> c = CHR ''1''"
proof -
  have "char_of (n + 32) \<noteq> CHR ''1''" if "65 \<le> n" "n \<le> 90" for n :: nat
  proof
    assume "char_of (n + 32) = CHR ''1''"
    then have "(of_char (char_of (n + 32) :: char) :: nat) = of_char (CHR ''1'')" by (rule arg_cong)
    moreover have "(of_char (CHR ''1'') :: nat) = 49" by (simp add: of_char_def)
    ultimately show False using that by simp
  qed
  then show ?thesis by (auto simp: ascii_lower_def of_char_def)
qed

lemma plain_bech32_laws: "bech32_laws plain_bech32"
proof -
  have "takeWhile (\<lambda>c. c \<noteq> CHR ''1'') (map ascii_lower p @ CHR ''1'' # t) = map ascii_lower p"
    and "dropWhile (\<lambda>c. c \<noteq> CHR ''1'') (map ascii_lower p @ CHR ''1'' # t) = CHR ''1'' # t"
    if "CHR ''1'' \<notin> set p" for p t
    using that by (induction p) (auto simp: ascii_lower_1)
  then show ?thesis
    by (auto simp: bech32_laws_def plain_bech32_def bytes_of_chars split: if_splits)
qed

definition demo_api :: "string \<Rightarrow> (string, string, unit) mock_api_bech" where
  "demo_api prefix = mock_api_bech_new plain_bech32 no_crypto prefix"

theorem bech32_addresses_roundtrip_witness:
  "bech_addr_make id (demo_api ''osmo'') ''a'' = Ok (Addr ''osmo1a'')
   \<and> bech_addr_validate (demo_api ''osmo'') ''osmo1a'' = Inr (Addr ''osmo1a'')
   \<and> bech_addr_make id (demo_api ''OSMO'') ''a'' = Ok (Addr ''osmo1a'')
   \<and> bech_addr_validate (demo_api ''OSMO'') ''osmo1a'' = Inl (StdMsg ''Invalid input'')"
proof -
  have m: "bech_addr_make id (demo_api ''osmo'') ''a'' = Ok (Addr ''osmo1a'')"
    "bech_addr_make id (demo_api ''OSMO'') ''a'' = Ok (Addr ''osmo1a'')"
    by (simp_all add: bech_addr_make_def demo_api_def mock_api_bech_new_def plain_bech32_def ascii_lower_def
        as_bytes_def of_char_def char_of_def bit_0)
  have l: "bech32_laws (mb_lib (demo_api p))" "mb_prefix (demo_api p) = p" for p
    by (simp_all add: demo_api_def mock_api_bech_new_def plain_bech32_laws)
  have p: "map ascii_lower ''osmo'' = ''osmo''" "map ascii_lower ''OSMO'' \<noteq> ''OSMO''"
    by (simp_all add: ascii_lower_def of_char_def char_of_def)
  note lower = bech32_addresses_roundtrip [OF l(1) disjI2 [OF disjI1 [OF conjI [OF m(1) refl]]], unfolded l(2) if_P [OF p(1)]]
  note upper = bech32_addresses_roundtrip [OF l(1) disjI2 [OF disjI1 [OF conjI [OF m(2) refl]]], unfolded l(2) if_not_P [OF p(2)]]
  from lower upper m show ?thesis by simp
qed

section \<open>Contracts of an application with the api\<close>

lemma use_bech32_simps [simp]:
  "x_addr_validate (use_bech32 api ext) = bech_addr_validate api"
  "x_addr_humanize (use_bech32 api ext) = bech_addr_humanize api"
  "x_addr_canonicalize (use_bech32 api ext) = bech_addr_canonicalize api"
  by (simp_all add: use_bech32_def)

text \<open>The default address generators of the keeper humanize with the api.\<close>

definition default_generators :: "ext \<Rightarrow> wasm_keeper \<Rightarrow> bool" where
  "default_generators ext wk \<longleftrightarrow>
     wk_address wk = simple_contract_address ext \<and> wk_predictable wk = simple_predictable_address ext"

lemma generated_humanized:
  assumes "default_generators ext wk" "generated wk a"
  shows "\<exists>canonical. x_addr_humanize ext canonical = Inr a"
proof -
  have "\<exists>canonical. x_addr_humanize ext canonical = Inr a"
    if "simple_predictable_address ext k i checksum creator salt = Inr a" for k i checksum creator salt
    using that by (cases "x_instantiate2 ext checksum creator salt") (auto simp: simple_predictable_address_def)
  with assms show ?thesis by (auto simp: default_generators_def generated_def simple_contract_address_def)
qed

text \<open>
  C28. Contracts of a Bech32 application can be addressed. In an application with the Bech32 api, a prefix
  without upper-case letters and the default address generators, whatever it does, the address of every
  contract on the chain validates to itself, so a message to that address reaches the contract, and the
  contract's code exists.
\<close>
theorem bech32_contracts_reachable:
  assumes "bech32_laws (mb_lib api)" "map ascii_lower (mb_prefix api) = mb_prefix api"
    and "default_generators (use_bech32 api ext) (md_wasm (ap_modules a))" "contracts_typed a"
    and "(app_step (use_bech32 api ext) E)\<^sup>*\<^sup>* a a'"
    and "om_get (w_contracts (ch_wasm (ap_chain a'))) address = Some c"
  shows "x_addr_validate (use_bech32 api ext) (addr_str address) = Inr address
    \<and> (\<exists>code. contract_code (md_wasm (ap_modules a')) (cd_code_id c) (ap_chain a') = (Ok code, ap_chain a'))"
proof -
  let ?wk = "md_wasm (ap_modules a')"
  have grow: "keeper_grows (md_wasm (ap_modules a)) ?wk"
    using codes_history.app_steps_rel [OF assms(5) TrueI] by blast
  note typed = contracts_typed_code [OF contracts_typed_kept [OF assms(5,4)] assms(6)]
  have "default_generators (use_bech32 api ext) ?wk"
    using assms(3) grow by (simp add: default_generators_def keeper_grows_def)
  then obtain canonical where "bech_addr_humanize api canonical = Inr address"
    using generated_humanized typed(1) by fastforce
  then have "bech_addr_validate api (addr_str address) = Inr address"
    using validate_humanized [OF assms(1)] assms(2) by simp
  with typed(2) show ?thesis by simp
qed

definition bech_ext :: ext where
  "bech_ext = use_bech32 (demo_api ''osmo'') demo_ext"

definition bech_address :: addr where
  "bech_address = Addr (''osmo1'' @ map (\<lambda>b. char_of (unat b)) (instantiate_address bech_ext 1 0))"

text \<open>An application with one contract at the address the keeper generates for it.\<close>

definition bech_app :: app where
  "bech_app = \<lparr>ap_modules = \<lparr>md_wasm = save_code 1 (Addr ''creator'') idle_contract (default_wasm_keeper bech_ext),
       md_custom = Failing, md_gov = Failing, md_stargate = Failing\<rparr>,
     ap_chain = empty_chain\<lparr>ch_wasm := \<lparr>w_contracts = [(bech_address, \<lparr>cd_code_id = 1, cd_creator = Addr ''creator'',
       cd_admin = None, cd_label = ''demo'', cd_created = 0\<rparr>)], w_storage = []\<rparr>\<rparr>,
     ap_block = Wasm.demo_block\<rparr>"

lemma bech_address_generated: "simple_contract_address bech_ext 1 0 = Inr bech_address"
proof -
  have "map ascii_lower ''osmo'' = ''osmo''" by (simp add: ascii_lower_def of_char_def char_of_def)
  then show ?thesis
    by (simp add: simple_contract_address_def bech_ext_def humanize_Inr bech_address_def demo_api_def
        mock_api_bech_new_def plain_bech32_def)
qed

lemma bech_app_typed: "contracts_typed bech_app" "default_generators bech_ext (md_wasm (ap_modules bech_app))"
proof -
  have k: "keeper_wf (save_code 1 (Addr ''creator'') idle_contract (default_wasm_keeper bech_ext))"
    by (rule save_code_wf) simp_all
  have c: "code_known (save_code 1 (Addr ''creator'') idle_contract (default_wasm_keeper bech_ext)) 1"
    by (simp add: code_known_iff save_code_def Let_def)
  have g: "generated (save_code 1 (Addr ''creator'') idle_contract (default_wasm_keeper bech_ext)) bech_address"
    using bech_address_generated by (auto simp: generated_def save_code_def Let_def default_wasm_keeper_def)
  from k c g show "contracts_typed bech_app" by (simp add: contracts_typed_def bech_app_def)
  show "default_generators bech_ext (md_wasm (ap_modules bech_app))"
    by (simp add: default_generators_def bech_app_def save_code_def Let_def default_wasm_keeper_def)
qed

theorem bech32_contracts_reachable_witness:
  "\<exists>a'. execute_multi bech_ext 2 (Addr ''alice'') [MWasm (WasmExecute (addr_str bech_address) [] [])] bech_app
      = (fst (execute_multi bech_ext 2 (Addr ''alice'') [MWasm (WasmExecute (addr_str bech_address) [] [])] bech_app), a')
   \<and> x_addr_validate bech_ext (addr_str bech_address) = Inr bech_address
   \<and> (\<exists>c code. om_get (w_contracts (ch_wasm (ap_chain a'))) bech_address = Some c
        \<and> contract_code (md_wasm (ap_modules a')) (cd_code_id c) (ap_chain a') = (Ok code, ap_chain a'))"
proof -
  let ?run = "execute_multi bech_ext 2 (Addr ''alice'') [MWasm (WasmExecute (addr_str bech_address) [] [])] bech_app"
  have step: "message_step bech_ext bech_app (snd ?run)"
    by (rule message_step.run_messages) (rule prod.collapse [symmetric])
  have "om_get (w_contracts (ch_wasm (ap_chain bech_app))) bech_address \<noteq> None" by (simp add: bech_app_def)
  then obtain c where c: "om_get (w_contracts (ch_wasm (ap_chain (snd ?run)))) bech_address = Some c"
    using instances.message_step_rel [OF step refl] by (fastforce simp: instances_rel_def)
  have "map ascii_lower ''osmo'' = ''osmo''" by (simp add: ascii_lower_def of_char_def char_of_def)
  then have laws: "bech32_laws (mb_lib (demo_api ''osmo''))"
      "map ascii_lower (mb_prefix (demo_api ''osmo'')) = mb_prefix (demo_api ''osmo'')"
    using plain_bech32_laws by (simp_all add: demo_api_def mock_api_bech_new_def)
  have "(app_step bech_ext {})\<^sup>*\<^sup>* bech_app (snd ?run)" using step by (intro r_into_rtranclp app_step.messages)
  from bech32_contracts_reachable [OF laws, of demo_ext bech_app, folded bech_ext_def, OF bech_app_typed(2,1) this c] c
  show ?thesis by (intro exI [of _ "snd ?run"]) auto
qed

lemma default_app_typed: "contracts_typed (default_app ext block)"
  by (simp add: contracts_typed_def default_app_def build_defs empty_chain_def)

lemma default_app_generators: "default_generators ext (md_wasm (ap_modules (default_app ext block)))"
  by (simp add: default_generators_def default_app_def build_defs default_wasm_keeper_def)

end
