(* ===== verification/Test_Contracts.thy ===== *)
theory Test_Contracts
  imports Own_Code
begin

text \<open>
  The example contracts of \<open>src/test_helpers\<close>, written as contracts of the model: \<open>caller\<close>, \<open>echo\<close>,
  \<open>error\<close>, \<open>gov\<close>, \<open>ibc\<close>, \<open>stargate\<close>, \<open>hackatom\<close>, \<open>payout\<close> and \<open>reflect\<close>. Their messages and the items
  they store are encoded by serde; \<open>helper_ext\<close> holds the encoders and decoders, the keys
  \<open>cw_storage_plus\<close> stores an item or a map entry under, and the parser of \<open>cw_utils\<close>.
\<close>

section \<open>External packages\<close>

type_synonym u32 = "32 word"

record 'a serde =
  sd_encode :: "'a \<Rightarrow> bytes"
  sd_decode :: "bytes \<Rightarrow> 'a std_result"

text \<open>What serde promises: reading back what was written.\<close>

definition serde_ok :: "'a serde \<Rightarrow> bool" where
  "serde_ok sd \<longleftrightarrow> (\<forall>x. sd_decode sd (sd_encode sd x) = Inr x)"

lemma serde_okD: "serde_ok sd \<Longrightarrow> sd_decode sd (sd_encode sd x) = Inr x"
  by (simp add: serde_ok_def)

text \<open>The messages and stored types of the contracts.\<close>

record payout_init =
  pi_payout :: coin

record payout_sudo =
  ps_set_count :: u32

datatype payout_query = QueryCount | QueryPayout

record count_response =
  cr_count :: u32

record hackatom_init =
  hi_beneficiary :: string

record hackatom_migrate =
  hm_new_guy :: string

datatype hackatom_query = QueryBeneficiary

record reflect_exec =
  re_sub_msg :: "sub_msg list"

datatype reflect_query = ReflectCount | ReflectReply u64

record echo_init =
  ei_data :: "string option"
  ei_sub_msg :: "sub_msg list option"

record echo_exec =
  ee_data :: "string option"
  ee_sub_msg :: "sub_msg list"
  ee_attributes :: "attribute list"
  ee_events :: "event list"

record helper_ext =
  hx_item_key :: "string \<Rightarrow> bytes"  \<comment> \<open>\<open>Item::new\<close>\<close>
  hx_map_key :: "string \<Rightarrow> u64 \<Rightarrow> bytes"  \<comment> \<open>\<open>Map::new\<close>, the key of an entry\<close>
  hx_empty :: "unit serde"
  hx_u32 :: "u32 serde"
  hx_count :: "count_response serde"
  hx_payout_init :: "payout_init serde"
  hx_payout_sudo :: "bytes \<Rightarrow> payout_sudo std_result"
  hx_payout_query :: "bytes \<Rightarrow> payout_query std_result"
  hx_hackatom_init :: "hackatom_init serde"
  hx_hackatom_migrate :: "bytes \<Rightarrow> hackatom_migrate std_result"
  hx_hackatom_query :: "bytes \<Rightarrow> hackatom_query std_result"
  hx_reflect_exec :: "bytes \<Rightarrow> reflect_exec std_result"
  hx_reflect_query :: "bytes \<Rightarrow> reflect_query std_result"
  hx_reply :: "reply serde"
  hx_wasm_msg :: "bytes \<Rightarrow> wasm_msg std_result"
  hx_echo_init :: "bytes \<Rightarrow> echo_init std_result"
  hx_echo_exec :: "bytes \<Rightarrow> echo_exec std_result"
  hx_balance :: "binary \<Rightarrow> coin std_result"  \<comment> \<open>the amount in a \<open>BalanceResponse\<close>\<close>
  hx_instantiate_data :: "bytes \<Rightarrow> binary option std_result"  \<comment> \<open>\<open>parse_instantiate_response_data\<close>, its data\<close>
  hx_execute_data :: "bytes \<Rightarrow> binary option std_result"  \<comment> \<open>\<open>parse_execute_response_data\<close>, its data\<close>

text \<open>\<open>load\<close>, \<open>save\<close> and \<open>update\<close> of an item or a map entry of \<open>cw_storage_plus\<close>.\<close>

definition item_load :: "string \<Rightarrow> 'a serde \<Rightarrow> bytes \<Rightarrow> ('a \<Rightarrow> 'r cprog) \<Rightarrow> 'r cprog" where
  "item_load ty sd key f = CGet key (\<lambda>v. case v of
      None \<Rightarrow> CDone (Inl (NotFound ty)) | Some b \<Rightarrow> decoded (sd_decode sd b) f)"

definition item_save :: "'a serde \<Rightarrow> bytes \<Rightarrow> 'a \<Rightarrow> 'r cprog \<Rightarrow> 'r cprog" where
  "item_save sd key x p = CSet key (sd_encode sd x) p"

definition item_update :: "string \<Rightarrow> 'a serde \<Rightarrow> bytes \<Rightarrow> ('a \<Rightarrow> 'a cprog) \<Rightarrow> 'r cprog \<Rightarrow> 'r cprog" where
  "item_update ty sd key action p = item_load ty sd key (\<lambda>x. cprog_then (action x) (\<lambda>y. item_save sd key y p))"

text \<open>\<open>SubMsg::new\<close> and \<open>add_message\<close>.\<close>

definition new_sub_msg :: "cosmos_msg \<Rightarrow> sub_msg" where
  "new_sub_msg msg = \<lparr>sm_id = 0, sm_payload = [], sm_msg = msg, sm_reply_on = ReplyNever\<rparr>"

definition add_submessage :: "sub_msg \<Rightarrow> response \<Rightarrow> response" where
  "add_submessage m r = r\<lparr>rs_messages := rs_messages r @ [m]\<rparr>"

definition add_message :: "cosmos_msg \<Rightarrow> response \<Rightarrow> response" where
  "add_message msg = add_submessage (new_sub_msg msg)"

text \<open>
  The messages of the entry points of one contract, as the wrapper decodes them: the type of an
  entry point's message is the argument of its constructor.
\<close>

datatype ('i, 'e, 'q, 's, 'g) entry_msg = InitMsg 'i | ExecMsg 'e | QueryMsg 'q | SudoMsg 's | MigrateMsg 'g

definition decode_entry ::
    "(bytes \<Rightarrow> 'i std_result) \<Rightarrow> (bytes \<Rightarrow> 'e std_result) \<Rightarrow> (bytes \<Rightarrow> 'q std_result) \<Rightarrow> (bytes \<Rightarrow> 's std_result)
       \<Rightarrow> (bytes \<Rightarrow> 'g std_result) \<Rightarrow> entry_point \<Rightarrow> bytes \<Rightarrow> ('i, 'e, 'q, 's, 'g) entry_msg std_result" where
  "decode_entry di de dq ds dg ep b = (case ep of
      EpInstantiate \<Rightarrow> map_sum id InitMsg (di b)
    | EpExecute \<Rightarrow> map_sum id ExecMsg (de b)
    | EpQuery \<Rightarrow> map_sum id QueryMsg (dq b)
    | EpSudo \<Rightarrow> map_sum id SudoMsg (ds b)
    | EpMigrate \<Rightarrow> map_sum id MigrateMsg (dg b))"

text \<open>An entry point as the wrapper calls it; \<open>decode_entry\<close> gives it no other constructor.\<close>

definition on_init :: "(env \<Rightarrow> message_info \<Rightarrow> 'i \<Rightarrow> 'r cprog) \<Rightarrow> env \<Rightarrow> message_info \<Rightarrow> ('i, 'e, 'q, 's, 'g) entry_msg \<Rightarrow> 'r cprog" where
  "on_init f env info m = (case m of InitMsg x \<Rightarrow> f env info x | _ \<Rightarrow> CPanic ''unreachable'')"

definition on_exec :: "(env \<Rightarrow> message_info \<Rightarrow> 'e \<Rightarrow> 'r cprog) \<Rightarrow> env \<Rightarrow> message_info \<Rightarrow> ('i, 'e, 'q, 's, 'g) entry_msg \<Rightarrow> 'r cprog" where
  "on_exec f env info m = (case m of ExecMsg x \<Rightarrow> f env info x | _ \<Rightarrow> CPanic ''unreachable'')"

definition on_query :: "(env \<Rightarrow> 'q \<Rightarrow> 'r cprog) \<Rightarrow> env \<Rightarrow> ('i, 'e, 'q, 's, 'g) entry_msg \<Rightarrow> 'r cprog" where
  "on_query f env m = (case m of QueryMsg x \<Rightarrow> f env x | _ \<Rightarrow> CPanic ''unreachable'')"

definition on_sudo :: "(env \<Rightarrow> 's \<Rightarrow> 'r cprog) \<Rightarrow> env \<Rightarrow> ('i, 'e, 'q, 's, 'g) entry_msg \<Rightarrow> 'r cprog" where
  "on_sudo f env m = (case m of SudoMsg x \<Rightarrow> f env x | _ \<Rightarrow> CPanic ''unreachable'')"

definition on_migrate :: "(env \<Rightarrow> 'g \<Rightarrow> migrate_info \<Rightarrow> 'r cprog) \<Rightarrow> env \<Rightarrow> ('i, 'e, 'q, 's, 'g) entry_msg \<Rightarrow> migrate_info \<Rightarrow> 'r cprog" where
  "on_migrate f env m info = (case m of MigrateMsg x \<Rightarrow> f env x info | _ \<Rightarrow> CPanic ''unreachable'')"

lemmas entry_defs = decode_entry_def on_init_def on_exec_def on_query_def on_sudo_def on_migrate_def

abbreviation empty_decode :: "helper_ext \<Rightarrow> bytes \<Rightarrow> unit std_result" where
  "empty_decode hx \<equiv> sd_decode (hx_empty hx)"

section \<open>The payout contract\<close>

definition COUNT_key :: "helper_ext \<Rightarrow> bytes" where
  "COUNT_key hx = hx_item_key hx ''count''"

definition PAYOUT_key :: "helper_ext \<Rightarrow> bytes" where
  "PAYOUT_key hx = hx_item_key hx ''payout''"

definition payout_instantiate :: "helper_ext \<Rightarrow> env \<Rightarrow> message_info \<Rightarrow> payout_init \<Rightarrow> response cprog" where
  "payout_instantiate hx env info msg =
     item_save (hx_payout_init hx) (PAYOUT_key hx) msg
       (item_save (hx_u32 hx) (COUNT_key hx) 1 (CDone (Inr new_response)))"

definition payout_execute :: "helper_ext \<Rightarrow> env \<Rightarrow> message_info \<Rightarrow> unit \<Rightarrow> response cprog" where
  "payout_execute hx env info msg =
     item_load ''InstantiateMessage'' (hx_payout_init hx) (PAYOUT_key hx) (\<lambda>payout.
       CDone (Inr ((add_message (MBank (BankSend (addr_str (mi_sender info)) [pi_payout payout])) new_response)
         \<lparr>rs_attributes := [attr ''action'' ''payout'']\<rparr>)))"

definition payout_sudo_fn :: "helper_ext \<Rightarrow> env \<Rightarrow> payout_sudo \<Rightarrow> response cprog" where
  "payout_sudo_fn hx env msg = item_save (hx_u32 hx) (COUNT_key hx) (ps_set_count msg) (CDone (Inr new_response))"

definition payout_query_fn :: "helper_ext \<Rightarrow> env \<Rightarrow> payout_query \<Rightarrow> binary cprog" where
  "payout_query_fn hx env msg = (case msg of
      QueryCount \<Rightarrow> item_load ''u32'' (hx_u32 hx) (COUNT_key hx) (\<lambda>count.
        CDone (Inr (sd_encode (hx_count hx) \<lparr>cr_count = count\<rparr>)))
    | QueryPayout \<Rightarrow> item_load ''InstantiateMessage'' (hx_payout_init hx) (PAYOUT_key hx) (\<lambda>payout.
        CDone (Inr (sd_encode (hx_payout_init hx) payout))))"

definition payout_contract :: "helper_ext \<Rightarrow> contract" where
  "payout_contract hx = wrapper_contract
     (decode_entry (sd_decode (hx_payout_init hx)) (empty_decode hx) (hx_payout_query hx) (hx_payout_sudo hx) (empty_decode hx))
     (with_sudo_empty (on_sudo (payout_sudo_fn hx))
       (new_with_empty (on_exec (payout_execute hx)) (on_init (payout_instantiate hx)) (on_query (payout_query_fn hx))))"

section \<open>The hackatom contract\<close>

definition HACKATOM_key :: "helper_ext \<Rightarrow> bytes" where
  "HACKATOM_key hx = hx_item_key hx ''hackatom''"

definition hackatom_instantiate :: "helper_ext \<Rightarrow> env \<Rightarrow> message_info \<Rightarrow> hackatom_init \<Rightarrow> response cprog" where
  "hackatom_instantiate hx env info msg =
     item_save (hx_hackatom_init hx) (HACKATOM_key hx) msg (CDone (Inr new_response))"

definition hackatom_execute :: "helper_ext \<Rightarrow> env \<Rightarrow> message_info \<Rightarrow> unit \<Rightarrow> response cprog" where
  "hackatom_execute hx env info msg =
     item_load ''InstantiateMsg'' (hx_hackatom_init hx) (HACKATOM_key hx) (\<lambda>init.
       CQuery (ReqBank (QBalance (addr_str (env_contract env)) ''btc'')) (\<lambda>answer.
         decoded answer (\<lambda>b. decoded (hx_balance hx b) (\<lambda>balance.
           CDone (Inr (add_message (MBank (BankSend (hi_beneficiary init) [balance])) new_response))))))"

definition hackatom_query_fn :: "helper_ext \<Rightarrow> env \<Rightarrow> hackatom_query \<Rightarrow> binary cprog" where
  "hackatom_query_fn hx env msg = (case msg of
      QueryBeneficiary \<Rightarrow> item_load ''InstantiateMsg'' (hx_hackatom_init hx) (HACKATOM_key hx) (\<lambda>res.
        CDone (Inr (sd_encode (hx_hackatom_init hx) res))))"

definition hackatom_migrate_fn :: "helper_ext \<Rightarrow> env \<Rightarrow> hackatom_migrate \<Rightarrow> migrate_info \<Rightarrow> response cprog" where
  "hackatom_migrate_fn hx env msg info =
     item_update ''InstantiateMsg'' (hx_hackatom_init hx) (HACKATOM_key hx)
       (\<lambda>state. CDone (Inr (state\<lparr>hi_beneficiary := hm_new_guy msg\<rparr>)))
       (CDone (Inr (new_response\<lparr>rs_attributes := [attr ''migrate'' ''successful'']\<rparr>)))"

definition hackatom_contract :: "helper_ext \<Rightarrow> contract" where
  "hackatom_contract hx = wrapper_contract
     (decode_entry (sd_decode (hx_hackatom_init hx)) (empty_decode hx) (hx_hackatom_query hx) (empty_decode hx) (hx_hackatom_migrate hx))
     (with_migrate (on_migrate (hackatom_migrate_fn hx))
       (wrapper_new (on_exec (hackatom_execute hx)) (on_init (hackatom_instantiate hx)) (on_query (hackatom_query_fn hx))))"

definition hackatom_custom_contract :: "helper_ext \<Rightarrow> contract" where
  "hackatom_custom_contract hx = wrapper_contract
     (decode_entry (sd_decode (hx_hackatom_init hx)) (empty_decode hx) (hx_hackatom_query hx) (empty_decode hx) (hx_hackatom_migrate hx))
     (with_migrate_empty (on_migrate (hackatom_migrate_fn hx))
       (new_with_empty (on_exec (hackatom_execute hx)) (on_init (hackatom_instantiate hx)) (on_query (hackatom_query_fn hx))))"

section \<open>The reflect contract\<close>

definition COUNTER_key :: "helper_ext \<Rightarrow> bytes" where
  "COUNTER_key hx = hx_item_key hx ''counter''"

definition REFLECT_key :: "helper_ext \<Rightarrow> u64 \<Rightarrow> bytes" where
  "REFLECT_key hx = hx_map_key hx ''reflect''"

definition reflect_instantiate :: "helper_ext \<Rightarrow> env \<Rightarrow> message_info \<Rightarrow> unit \<Rightarrow> response cprog" where
  "reflect_instantiate hx env info msg = item_save (hx_u32 hx) (COUNTER_key hx) 0 (CDone (Inr new_response))"

text \<open>\<open>value + 1\<close> panics when it overflows.\<close>

definition reflect_execute :: "helper_ext \<Rightarrow> env \<Rightarrow> message_info \<Rightarrow> reflect_exec \<Rightarrow> response cprog" where
  "reflect_execute hx env info msg =
     item_update ''u32'' (hx_u32 hx) (COUNTER_key hx)
       (\<lambda>v. case checked_add v 1 of None \<Rightarrow> CPanic ''attempt to add with overflow'' | Some w \<Rightarrow> CDone (Inr w))
       (CDone (Inr (new_response\<lparr>rs_messages := re_sub_msg msg\<rparr>)))"

definition reflect_query_fn :: "helper_ext \<Rightarrow> env \<Rightarrow> reflect_query \<Rightarrow> binary cprog" where
  "reflect_query_fn hx env msg = (case msg of
      ReflectCount \<Rightarrow> item_load ''u32'' (hx_u32 hx) (COUNTER_key hx) (\<lambda>count.
        CDone (Inr (sd_encode (hx_count hx) \<lparr>cr_count = count\<rparr>)))
    | ReflectReply rid \<Rightarrow> item_load ''Reply'' (hx_reply hx) (REFLECT_key hx rid) (\<lambda>rp.
        CDone (Inr (sd_encode (hx_reply hx) rp))))"

definition reflect_reply_fn :: "helper_ext \<Rightarrow> env \<Rightarrow> reply \<Rightarrow> response cprog" where
  "reflect_reply_fn hx env msg =
     item_save (hx_reply hx) (REFLECT_key hx (rp_id msg)) msg
       (CDone (Inr (new_response\<lparr>rs_events := [new_event ''custom'' [(''from'', ''reply''), (''to'', ''test'')]]\<rparr>)))"

definition reflect_contract :: "helper_ext \<Rightarrow> contract" where
  "reflect_contract hx = wrapper_contract
     (decode_entry (empty_decode hx) (hx_reflect_exec hx) (hx_reflect_query hx) (empty_decode hx) (empty_decode hx))
     (with_reply (reflect_reply_fn hx)
       (wrapper_new (on_exec (reflect_execute hx)) (on_init (reflect_instantiate hx)) (on_query (reflect_query_fn hx))))"

section \<open>The echo contract\<close>

definition EXECUTE_REPLY_BASE_ID :: u64 where
  "EXECUTE_REPLY_BASE_ID = 9223372036854775807"

definition set_data :: "string option \<Rightarrow> response \<Rightarrow> response" where
  "set_data d r = (case d of None \<Rightarrow> r | Some x \<Rightarrow> r\<lparr>rs_data := Some (as_bytes x)\<rparr>)"

definition echo_instantiate :: "env \<Rightarrow> message_info \<Rightarrow> echo_init \<Rightarrow> response cprog" where
  "echo_instantiate env info msg =
     (let r = set_data (ei_data msg) new_response
      in CDone (Inr (case ei_sub_msg msg of None \<Rightarrow> r | Some msgs \<Rightarrow> r\<lparr>rs_messages := rs_messages r @ msgs\<rparr>)))"

definition echo_execute :: "env \<Rightarrow> message_info \<Rightarrow> echo_exec \<Rightarrow> response cprog" where
  "echo_execute env info msg =
     (let r = set_data (ee_data msg) new_response
      in CDone (Inr (r\<lparr>rs_messages := rs_messages r @ ee_sub_msg msg,
           rs_attributes := rs_attributes r @ ee_attributes msg, rs_events := rs_events r @ ee_events msg\<rparr>)))"

definition echo_query :: "helper_ext \<Rightarrow> env \<Rightarrow> unit \<Rightarrow> binary cprog" where
  "echo_query hx env msg = CDone (Inr (sd_encode (hx_empty hx) msg))"

text \<open>The parsers' errors are rendered with \<open>to_string\<close>.\<close>

definition echo_reply :: "helper_ext \<Rightarrow> env \<Rightarrow> reply \<Rightarrow> response cprog" where
  "echo_reply hx env msg = (case rp_result msg of
      Inr res \<Rightarrow> (case sr_data res of
          Some data \<Rightarrow>
            decoded (if rp_id msg < EXECUTE_REPLY_BASE_ID then hx_instantiate_data hx data else hx_execute_data hx data)
              (\<lambda>parsed_data. CDone (Inr (case parsed_data of
                  None \<Rightarrow> new_response | Some d \<Rightarrow> new_response\<lparr>rs_data := Some d\<rparr>)))
        | None \<Rightarrow> CDone (Inr new_response))
    | Inl e \<Rightarrow> CDone (Inr new_response))"

definition echo_contract :: "helper_ext \<Rightarrow> contract" where
  "echo_contract hx = wrapper_contract
     (decode_entry (hx_echo_init hx) (hx_echo_exec hx) (empty_decode hx) (empty_decode hx) (empty_decode hx))
     (with_reply (echo_reply hx)
       (wrapper_new (on_exec echo_execute) (on_init echo_instantiate) (on_query (echo_query hx))))"

section \<open>The caller and error contracts\<close>

definition caller_instantiate :: "env \<Rightarrow> message_info \<Rightarrow> unit \<Rightarrow> response cprog" where
  "caller_instantiate env info msg = CDone (Inr new_response)"

definition caller_execute :: "env \<Rightarrow> message_info \<Rightarrow> wasm_msg \<Rightarrow> response cprog" where
  "caller_execute env info msg = CDone (Inr (add_submessage (new_sub_msg (MWasm msg)) new_response))"

definition caller_query :: "env \<Rightarrow> unit \<Rightarrow> binary cprog" where
  "caller_query env msg = CDone (Inl (StdMsg ''query not implemented for the `caller` contract''))"

definition caller_contract :: "helper_ext \<Rightarrow> contract" where
  "caller_contract hx = wrapper_contract
     (decode_entry (empty_decode hx) (hx_wasm_msg hx) (empty_decode hx) (empty_decode hx) (empty_decode hx))
     (new_with_empty (on_exec caller_execute) (on_init caller_instantiate) (on_query caller_query))"

definition error_instantiate_err :: "env \<Rightarrow> message_info \<Rightarrow> unit \<Rightarrow> response cprog" where
  "error_instantiate_err env info msg = CDone (Inl (StdMsg ''Init failed''))"

definition error_instantiate_ok :: "env \<Rightarrow> message_info \<Rightarrow> unit \<Rightarrow> response cprog" where
  "error_instantiate_ok env info msg = CDone (Inr new_response)"

definition error_execute :: "env \<Rightarrow> message_info \<Rightarrow> unit \<Rightarrow> response cprog" where
  "error_execute env info msg = CDone (Inl (StdMsg ''Handle failed''))"

definition error_query :: "env \<Rightarrow> unit \<Rightarrow> binary cprog" where
  "error_query env msg = CDone (Inl (StdMsg ''Query failed''))"

definition error_contract :: "helper_ext \<Rightarrow> bool \<Rightarrow> contract" where
  "error_contract hx instantiable = wrapper_contract
     (decode_entry (empty_decode hx) (empty_decode hx) (empty_decode hx) (empty_decode hx) (empty_decode hx))
     (new_with_empty (on_exec error_execute)
       (on_init (if instantiable then error_instantiate_ok else error_instantiate_err)) (on_query error_query))"

section \<open>The contracts that send one fixed message\<close>

definition plain_instantiate :: "env \<Rightarrow> message_info \<Rightarrow> unit \<Rightarrow> response cprog" where
  "plain_instantiate env info msg = CDone (Inr new_response)"

definition plain_query :: "env \<Rightarrow> unit \<Rightarrow> binary cprog" where
  "plain_query env msg = CDone (Inr [])"

definition gov_execute :: "env \<Rightarrow> message_info \<Rightarrow> unit \<Rightarrow> response cprog" where
  "gov_execute env info msg = CDone (Inr (add_message (MGov (GovVote 1)) new_response))"

definition ibc_helper_execute :: "env \<Rightarrow> message_info \<Rightarrow> unit \<Rightarrow> response cprog" where
  "ibc_helper_execute env info msg = CDone (Inr (add_message (MIbc (IbcCloseChannel ''channel'')) new_response))"

definition stargate_execute :: "env \<Rightarrow> message_info \<Rightarrow> unit \<Rightarrow> response cprog" where
  "stargate_execute env info msg =
     CDone (Inr (add_message (MStargate ''/this.is.a.stargate.test.helper'' []) new_response))"

definition plain_contract ::
    "helper_ext \<Rightarrow> (env \<Rightarrow> message_info \<Rightarrow> unit \<Rightarrow> response cprog) \<Rightarrow> contract" where
  "plain_contract hx execute_fn = wrapper_contract
     (decode_entry (empty_decode hx) (empty_decode hx) (empty_decode hx) (empty_decode hx) (empty_decode hx))
     (wrapper_new (on_exec execute_fn) (on_init plain_instantiate) (on_query plain_query))"

definition gov_contract :: "helper_ext \<Rightarrow> contract" where
  "gov_contract hx = plain_contract hx gov_execute"

definition ibc_contract :: "helper_ext \<Rightarrow> contract" where
  "ibc_contract hx = plain_contract hx ibc_helper_execute"

definition stargate_contract :: "helper_ext \<Rightarrow> contract" where
  "stargate_contract hx = plain_contract hx stargate_execute"

end
