(* ===== verification/Test_Contract_Facts.thy ===== *)
theory Test_Contract_Facts
  imports Test_Contracts Transfers
begin

text \<open>
  The example contracts at work. The theorems about arbitrary contracts and histories are applied to
  concrete code: what the entry points do, what they promise (interpretations of \<open>contract_promise\<close>),
  and what follows for an application that runs them.
\<close>

section \<open>Running the entry points\<close>

named_theorems run_Ok \<open>successful runs of programs\<close>

lemma run_done_Ok [run_Ok]: "run_cprog q (CDone z) m = (Ok r, m') \<longleftrightarrow> z = Inr r \<and> m' = m"
  and run_panic_Ok [run_Ok]: "run_cprog q (CPanic p) m = (Ok r, m') \<longleftrightarrow> False"
  by (auto simp: lift_result_def ret_def fail_def panic_def split: sum.splits)

lemma run_decoded_Ok [run_Ok]:
  "run_cprog q (decoded z f) m = (Ok r, m') \<longleftrightarrow> (\<exists>x. z = Inr x \<and> run_cprog q (f x) m = (Ok r, m'))"
  by (auto simp: decoded_def run_Ok split: sum.splits)

lemma run_then_Ok [run_Ok]: "run_cprog q (cprog_then p f) m = (Ok r, m') \<longleftrightarrow>
    (\<exists>x m1. run_cprog q p m = (Ok x, m1) \<and> run_cprog q (f x) m1 = (Ok r, m'))"
  by (auto simp: run_cprog_then split: prod.splits outcome.splits)

lemma run_load_Ok [run_Ok]: "run_cprog q (item_load ty sd key f) m = (Ok r, m') \<longleftrightarrow>
    (\<exists>b x. om_get m key = Some b \<and> sd_decode sd b = Inr x \<and> run_cprog q (f x) m = (Ok r, m'))"
  by (auto simp: item_load_def run_Ok split: option.splits)

lemma run_query_Ok [run_Ok]: "run_cprog q (CQuery req f) m = (Ok r, m') \<longleftrightarrow>
    (\<exists>b. q req = Ok b \<and> run_cprog q (f (Inr b)) m = (Ok r, m')) \<or> (\<exists>e. q req = Err e \<and> run_cprog q (f (Inl e)) m = (Ok r, m'))"
  by (auto split: outcome.splits)

lemma run_save [simp]: "run_cprog q (item_save sd key x p) m = run_cprog q p (om_insert key (sd_encode sd x) m)"
  by (simp add: item_save_def)

lemma run_optional_Ok [run_Ok]: "run_cprog q (optional_fn what f g) m = (Ok r, m') \<longleftrightarrow>
    (\<exists>h. f = Some h \<and> run_cprog q (g h) m = (Ok r, m'))"
  by (auto simp: optional_fn_def run_Ok split: option.splits)

text \<open>The adapter of a contract for \<open>Empty\<close> messages touches no storage, and passes bank messages on.\<close>

lemma run_customize_Ok [run_Ok]: "run_cprog q (customize_response r) m = (Ok x, m') \<longleftrightarrow>
    x = r \<and> m' = m \<and> list_all (\<lambda>x. customizable (sm_msg x)) (rs_messages r)"
  using run_customize_msgs [of "rs_messages r"]
  by (cases "list_all (\<lambda>m. customizable (sm_msg m)) (rs_messages r)") (auto simp: customize_response_def run_Ok)

text \<open>The entry points of a wrapper, with the messages decoded.\<close>

lemma decoded_entry [simp]: "decoded (map_sum id c z) f = decoded z (\<lambda>x. f (c x))"
  by (simp add: decoded_def split: sum.split)

lemmas wrap_defs = wrapper_contract_def wrapper_new_def new_with_empty_def with_sudo_empty_def with_reply_def
  with_migrate_def with_migrate_empty_def customize_execute_fn_def customize_instantiate_fn_def customize_sudo_fn_def
  customize_query_fn_def customize_migrate_fn_def entry_defs

text \<open>Entry points a contract does not have fail.\<close>

lemma missing_entries:
  "cw_channel_open w = None \<Longrightarrow> cw_channel_connect w = None \<Longrightarrow> cw_channel_close w = None \<Longrightarrow>
   cw_packet_receive w = None \<Longrightarrow> cw_packet_ack w = None \<Longrightarrow> cw_packet_timeout w = None \<Longrightarrow>
   cw_source_callback w = None \<Longrightarrow> entry_run (wrapper_contract fj w) m m' \<Longrightarrow>
   (\<exists>q env info msg r. run_cprog q (ct_execute (wrapper_contract fj w) env info msg) m = (Ok r, m'))
   \<or> (\<exists>q env msg r. run_cprog q (ct_sudo (wrapper_contract fj w) env msg) m = (Ok r, m'))
   \<or> (\<exists>q env rp r. run_cprog q (ct_reply (wrapper_contract fj w) env rp) m = (Ok r, m'))"
  by (erule entry_run.cases) (auto simp: wrapper_contract_def run_Ok)

section \<open>Promises\<close>

lemma payout_runs:
  assumes "entry_run (payout_contract hx) m m'" "COUNT_key hx \<noteq> PAYOUT_key hx"
  shows "om_get m' (PAYOUT_key hx) = om_get m (PAYOUT_key hx)"
  using missing_entries [OF _ _ _ _ _ _ _ assms(1) [unfolded payout_contract_def]] assms(2)
  by (auto simp: wrap_defs run_Ok payout_execute_def payout_sudo_fn_def)

interpretation payout: contract_promise "payout_contract hx"
    "\<lambda>m m'. COUNT_key hx \<noteq> PAYOUT_key hx \<longrightarrow> om_get m' (PAYOUT_key hx) = om_get m (PAYOUT_key hx)" for hx
  by unfold_locales (auto dest: payout_runs)

lemma hackatom_runs:
  "entry_run (hackatom_contract hx) m m' \<Longrightarrow> m' = m" "entry_run (hackatom_custom_contract hx) m m' \<Longrightarrow> m' = m"
  unfolding hackatom_contract_def hackatom_custom_contract_def
  by (drule missing_entries [rotated -1]; auto simp: wrap_defs run_Ok hackatom_execute_def simp del: run_cprog.simps(7))+

interpretation hackatom: contract_promise "hackatom_contract hx" "\<lambda>m m'. m' = m" for hx
  by unfold_locales (auto dest: hackatom_runs)

interpretation hackatom_custom: contract_promise "hackatom_custom_contract hx" "\<lambda>m m'. m' = m" for hx
  by unfold_locales (auto dest: hackatom_runs)

text \<open>The counter of the \<open>reflect\<close> contract.\<close>

definition counts_up :: "helper_ext \<Rightarrow> mem \<Rightarrow> mem \<Rightarrow> bool" where
  "counts_up hx m m' \<longleftrightarrow> (\<forall>v. om_get m (COUNTER_key hx) = Some (sd_encode (hx_u32 hx) v) \<longrightarrow>
     (\<exists>w. om_get m' (COUNTER_key hx) = Some (sd_encode (hx_u32 hx) w) \<and> v \<le> w))"

lemma counts_up_order: "counts_up hx m m" "counts_up hx m1 m2 \<Longrightarrow> counts_up hx m2 m3 \<Longrightarrow> counts_up hx m1 m3"
  by (auto simp: counts_up_def) (metis order_trans)

lemma reflect_runs:
  assumes "entry_run (reflect_contract hx) m m'" "\<forall>rid. REFLECT_key hx rid \<noteq> COUNTER_key hx" "serde_ok (hx_u32 hx)"
  shows "counts_up hx m m'"
proof -
  have "v \<le> w" if "checked_add v 1 = Some w" for v w :: u32
    using checked_add_Some [OF that] by (simp add: word_le_nat_alt)
  with missing_entries [OF _ _ _ _ _ _ _ assms(1) [unfolded reflect_contract_def]] assms(2,3) show ?thesis
    by (auto simp: wrap_defs run_Ok reflect_execute_def reflect_reply_fn_def item_update_def counts_up_def serde_okD
        split: option.splits)
qed

interpretation reflect: contract_promise "reflect_contract hx"
    "\<lambda>m m'. (\<forall>rid. REFLECT_key hx rid \<noteq> COUNTER_key hx) \<and> serde_ok (hx_u32 hx) \<longrightarrow> counts_up hx m m'" for hx
  by unfold_locales (auto simp: reflect_runs counts_up_order(1) intro: counts_up_order(2))

section \<open>A contract that pays\<close>

text \<open>A router whose bank is the bank keeper.\<close>

definition routes_bank :: "ext \<Rightarrow> cosmos_router \<Rightarrow> bool" where
  "routes_bank ext rt \<longleftrightarrow> (\<forall>block a m. r_execute rt block a (MBank m) = bank_execute ext a m)"

lemma routes_bank_at: "routes_bank ext (router_at ext md (Suc k))"
  by (simp add: routes_bank_def router_execute_def fun_eq_iff)

text \<open>A sub-message that sends coins, from a response that asks for no reply.\<close>

lemma submsg_sends:
  assumes "routes_bank ext rt"
  shows "execute_submsg ext rt reply block a (new_sub_msg (MBank (BankSend to amt))) s =
     (case send ext a (Addr to) amt (ch_bank s) of
       (Ok u, b) \<Rightarrow> (Ok \<lparr>ar_events = [new_event ''transfer'' [(''recipient'', to), (''sender'', addr_str a),
            (''amount'', coins_to_string amt)]], ar_data = None\<rparr>, s\<lparr>ch_bank := b\<rparr>)
     | (Err e, b) \<Rightarrow> (Err e, s) | (Panic p, b) \<Rightarrow> (Panic p, s) | (NoFuel, b) \<Rightarrow> (NoFuel, s))"
  using assms
  by (cases "send ext a (Addr to) amt (ch_bank s)"; cases "fst (send ext a (Addr to) amt (ch_bank s))")
    (simp_all add: routes_bank_def execute_submsg_def new_sub_msg_def bank_execute_def in_bank_def zoom_def
      thenM_def bindM_def attempt_def atomically_def ret_def fail_def)

lemma process_sends:
  assumes "routes_bank ext rt" "snd rm = [new_sub_msg (MBank (BankSend to amt))]"
  shows "process_at ext rt wk n block a rm s = (case send ext a (Addr to) amt (ch_bank s) of
       (Ok u, b) \<Rightarrow> (Ok \<lparr>ar_events = ar_events (fst rm) @
            [new_event ''transfer'' [(''recipient'', to), (''sender'', addr_str a), (''amount'', coins_to_string amt)]],
            ar_data = ar_data (fst rm)\<rparr>, s\<lparr>ch_bank := b\<rparr>)
     | (Err e, b) \<Rightarrow> (Err e, s) | (Panic p, b) \<Rightarrow> (Panic p, s) | (NoFuel, b) \<Rightarrow> (NoFuel, s))"
  by (cases "send ext a (Addr to) amt (ch_bank s)"; cases "fst (send ext a (Addr to) amt (ch_bank s))")
    (simp_all add: process_at_def process_response_def assms(2) bindM_def submsg_sends [OF assms(1)] ret_def opt_or_def)

lemma build_app_response_messages: "snd (build_app_response a e r) = rs_messages r"
  by (simp add: build_app_response_def Let_def)

text \<open>
  Executing a contract whose response is one transfer: it goes through exactly when the bank can make
  the transfer, and then has the effects of both.
\<close>

lemma execute_pays:
  fixes n :: nat
  assumes c: "om_get (w_contracts (ch_wasm s)) a = Some c" "contract_code (md_wasm md) (cd_code_id c) s = (Ok code, s)"
    and "x_addr_validate ext (addr_str a) = Inr a" "routes_bank ext rt"
    and run: "run_cprog (\<lambda>req. r_query rt block req s)
      (ct_execute code (get_env a block) \<lparr>mi_sender = sender, mi_funds = []\<rparr> msg) (contract_storage s a) = (Ok r, m)"
    and ver: "\<And>t :: chain. verify_response r t = (Ok r, t)"
    and msgs: "rs_messages r = [new_sub_msg (MBank (BankSend to amt))]"
  defines "t \<equiv> router_execute ext md n rt block sender (MWasm (WasmExecute (addr_str a) msg [])) s"
  shows "(case send ext a (Addr to) amt (ch_bank s) of
     (Ok u, b) \<Rightarrow> is_ok (fst t) \<and> snd t = (put_contract_storage a m s)\<lparr>ch_bank := b\<rparr>
   | _ \<Rightarrow> \<not> is_ok (fst t))"
proof -
  have snd: "snd (build_app_response a e r) = [new_sub_msg (MBank (BankSend to amt))]" for e
    by (simp add: build_app_response_messages msgs)
  note call = call_execute_run [where s = s and block = block, OF c run ver]
  show ?thesis
    unfolding t_def
    by (cases "send ext a (Addr to) amt (ch_bank s)"; cases "fst (send ext a (Addr to) amt (ch_bank s))")
      (simp_all add: router_execute_def wasm_execute_def execute_wasm_def wasm_send_def thenM_def assms(3) ret_def
        lift_result_def map_errM_def bindM_def call process_sends [OF assms(4) snd])
qed

text \<open>What that means for the accounts, for one coin.\<close>

definition pays_one :: "coin \<Rightarrow> addr \<Rightarrow> addr \<Rightarrow> app \<Rightarrow> (std_error, app_response) outcome \<times> app \<Rightarrow> bool" where
  "pays_one c src dst a run \<longleftrightarrow>
     (is_ok (fst run) \<longleftrightarrow> 0 < unat (c_amount c) \<and> unat (c_amount c) \<le> held (ch_bank (ap_chain a)) src (c_denom c))
     \<and> (if is_ok (fst run)
        then (\<forall>x d. held (ch_bank (ap_chain (snd run))) x d + (if x = src then amount_of [c] d else 0)
                = held (ch_bank (ap_chain a)) x d + (if x = dst then amount_of [c] d else 0))
          \<and> contract_storage (ap_chain (snd run)) = contract_storage (ap_chain a)
        else snd run = a)"

lemma app_execute_pays:
  assumes "nb_laws ext" "bank_wf (ch_bank (ap_chain a))" "\<forall>d. supply_of (ch_bank (ap_chain a)) d < 2 ^ 256"
    and c: "om_get (w_contracts (ch_wasm (ap_chain a))) address = Some c"
    and code: "code_at (md_wasm (ap_modules a)) (cd_code_id c) = Some code"
    and "x_addr_validate ext (addr_str address) = Inr address"
    and run: "run_cprog (\<lambda>req. r_query (router_at ext (ap_modules a) (Suc n)) (ap_block a) req (ap_chain a))
      (ct_execute code (get_env address (ap_block a)) \<lparr>mi_sender = sender, mi_funds = []\<rparr> msg)
      (contract_storage (ap_chain a) address) = (Ok r, contract_storage (ap_chain a) address)"
    and ver: "\<And>t :: chain. verify_response r t = (Ok r, t)"
    and msgs: "rs_messages r = [new_sub_msg (MBank (BankSend to [coin]))]"
  shows "pays_one coin address (Addr to) a
    (app_execute ext (Suc (Suc n)) sender (MWasm (WasmExecute (addr_str address) msg [])) a)"
proof -
  let ?s = "ap_chain a" and ?md = "ap_modules a"
  let ?send = "send ext address (Addr to) [coin] (ch_bank ?s)"
  let ?t = "router_execute ext ?md (Suc n) (router_at ext ?md (Suc n)) (ap_block a) sender
      (MWasm (WasmExecute (addr_str address) msg [])) ?s"
  let ?r = "app_execute ext (Suc (Suc n)) sender (MWasm (WasmExecute (addr_str address) msg [])) a"
  have code1: "contract_code (md_wasm ?md) (cd_code_id c) ?s = (Ok code, ?s)"
    using code by (simp add: contract_code_Ok_iff)
  have iff: "is_ok (fst ?send) \<longleftrightarrow> 0 < unat (c_amount coin) \<and> unat (c_amount coin) \<le> held (ch_bank ?s) address (c_denom coin)"
    unfolding send_ok_iff [OF assms(1-3)] by (auto simp: unat_gt_0)
  have pays: "case ?send of (Ok u, b) \<Rightarrow> is_ok (fst ?t)
        \<and> snd ?t = (put_contract_storage address (contract_storage ?s address) ?s)\<lparr>ch_bank := b\<rparr> | _ \<Rightarrow> \<not> is_ok (fst ?t)"
    by (rule execute_pays [OF c code1 assms(6) routes_bank_at run ver msgs])
  have r: "fst ?r = fst ?t" "snd ?r = a\<lparr>ap_chain := if is_ok (fst ?t) then snd ?t else ?s\<rparr>"
    by (auto simp: app_execute_eq atomically_def split: prod.splits outcome.splits)
  show ?thesis
  proof (cases "is_ok (fst ?send)")
    case True
    then obtain b where b: "?send = (Ok (), b)" by (cases ?send) (auto simp: is_ok_iff)
    with pays r have "is_ok (fst ?r)" "ch_bank (ap_chain (snd ?r)) = b" "contract_storage (ap_chain (snd ?r)) = contract_storage ?s"
      by (auto simp: contract_storage_def put_contract_storage_def fun_eq_iff)
    with True iff send_Ok(1) [OF assms(1,2) b] show ?thesis by (simp add: pays_one_def)
  next
    case False
    with pays have "\<not> is_ok (fst ?t)" by (auto split: prod.splits outcome.splits)
    with False iff r show ?thesis by (simp add: pays_one_def)
  qed
qed

text \<open>What such a contract needs after a history: its code, and a bank in order.\<close>

lemma after_history:
  assumes "nb_laws ext" "bank_wf (ch_bank (ap_chain a))" "(app_step ext E)\<^sup>*\<^sup>* a a1"
  shows "bank_wf (ch_bank (ap_chain a1))"
  using balances_history.app_steps_rel [OF assms(3) TrueI] assms(1,2) by (simp add: balances_rel_def)

lemma start_history:
  "instantiate_contract ext n code_id sender msg funds label admin a = (Ok address, a') \<Longrightarrow> (app_step ext E)\<^sup>*\<^sup>* a' a1 \<Longrightarrow>
   (app_step ext E)\<^sup>*\<^sup>* a a1"
  by (meson instantiate_contract_step converse_rtranclp_into_rtranclp)

section \<open>The payout contract\<close>

definition payout_response :: "addr \<Rightarrow> coin \<Rightarrow> response" where
  "payout_response sender c = \<lparr>rs_messages = [new_sub_msg (MBank (BankSend (addr_str sender) [c]))],
     rs_attributes = [attr ''action'' ''payout''], rs_events = [], rs_data = None\<rparr>"

lemma payout_execute_run:
  assumes "om_get m (PAYOUT_key hx) = Some (sd_encode (hx_payout_init hx) p)" "serde_ok (hx_payout_init hx)"
    and "sd_decode (hx_empty hx) msg = Inr ()"
  shows "run_cprog q (ct_execute (payout_contract hx) env info msg) m
    = (Ok (payout_response (mi_sender info) (pi_payout p)), m)"
  by (simp add: payout_contract_def wrap_defs payout_execute_def assms run_Ok serde_okD payout_response_def
      add_message_def add_submessage_def new_response_def new_sub_msg_def customizable_def)

lemma trim_words: "trim ''action'' = ''action''" "trim ''payout'' = ''payout''"
  by code_simp+

lemma payout_response_verified: "verify_response (payout_response sender c) t = (Ok (payout_response sender c), t)"
  by (simp add: verify_response_def verify_attributes_def verify_events_def payout_response_def attr_def thenM_def trim_words Let_def)

text \<open>What a new payout contract stores.\<close>

lemma payout_instantiate_run:
  assumes "run_cprog q (ct_instantiate (payout_contract hx) env info msg) m = (Ok r, m')"
    and "sd_decode (hx_payout_init hx) msg = Inr p" "COUNT_key hx \<noteq> PAYOUT_key hx"
  shows "om_get m' (PAYOUT_key hx) = Some (sd_encode (hx_payout_init hx) p)"
  using assms by (auto simp: payout_contract_def wrap_defs run_Ok payout_instantiate_def)

text \<open>
  C8. A payout contract keeps its word. Instantiate the payout contract without an administrator, to pay
  \<open>p\<close>. After any history of the application - messages to the contract and to anybody else, other
  contracts, packets, blocks, new code, tests that write to the storage of other contracts - a call of it pays exactly \<open>p\<close> to the caller if \<open>p\<close> is not zero
  and the contract holds it; no other balance and no contract's storage changes. Otherwise the call
  fails and nothing changes.
\<close>
theorem payout_promise:
  assumes "nb_laws ext" "bank_wf (ch_bank (ap_chain a0))" "keeper_wf (md_wasm (ap_modules a0))" "instantiate_codec ext"
    and hx: "serde_ok (hx_payout_init hx)" "COUNT_key hx \<noteq> PAYOUT_key hx" "sd_decode (hx_empty hx) msg = Inr ()"
    and init: "code_at (md_wasm (ap_modules a0)) code_id = Some (payout_contract hx)"
      "sd_decode (hx_payout_init hx) m = Inr p"
      "instantiate_contract ext k code_id creator (Inr m) funds label None a0 = (Ok address, a)"
    and hist: "(app_step ext E)\<^sup>*\<^sup>* a a1" "address \<notin> E"
    and "\<forall>d. supply_of (ch_bank (ap_chain a1)) d < 2 ^ 256" "x_addr_validate ext (addr_str address) = Inr address"
  shows "pays_one (pi_payout p) address sender a1
    (app_execute ext (Suc (Suc n)) sender (MWasm (WasmExecute (addr_str address) msg [])) a1)"
proof -
  obtain c q res st env info where run: "run_cprog q (ct_instantiate (payout_contract hx) env info m)
        (contract_storage (ap_chain a0) address) = (Ok res, st)"
      and kept: "om_get (contract_storage (ap_chain a1) address) (PAYOUT_key hx) = om_get st (PAYOUT_key hx)"
      and c: "om_get (w_contracts (ch_wasm (ap_chain a1))) address = Some c"
        "code_at (md_wasm (ap_modules a1)) (cd_code_id c) = Some (payout_contract hx)"
    by (rule payout.promise_since_start [OF assms(4) init(3) assms(3) init(1) hist(1)]) (use that hx(2) hist(2) in simp)
  note stored = kept [unfolded payout_instantiate_run [OF run init(2) hx(2)]]
  have "pays_one (pi_payout p) address (Addr (addr_str sender)) a1
    (app_execute ext (Suc (Suc n)) sender (MWasm (WasmExecute (addr_str address) msg [])) a1)"
    by (rule app_execute_pays [OF assms(1) after_history [OF assms(1,2) start_history [OF init(3) hist(1)]] assms(13) c assms(14)
          payout_execute_run [OF stored hx(1,3)] payout_response_verified]) (simp add: payout_response_def)
  then show ?thesis by simp
qed

section \<open>The hackatom contract\<close>

definition balance_codec :: "ext \<Rightarrow> helper_ext \<Rightarrow> bool" where
  "balance_codec ext hx \<longleftrightarrow> (\<forall>c. \<exists>b. x_to_json ext (JBalance c) = Inr b \<and> hx_balance hx b = Inr c)"

lemma query_balance:
  assumes "balance_codec ext hx" "bank_wf (ch_bank s)" "x_addr_validate ext (addr_str a) = Inr a"
  obtains b c where "r_query (router_at ext md (Suc n)) block (ReqBank (QBalance (addr_str a) d)) s = Ok b"
    "hx_balance hx b = Inr c" "c_denom c = d" "unat (c_amount c) = held (ch_bank s) a d"
proof -
  let ?c = "case List.find (\<lambda>c. c_denom c = d) (get_balance (ch_bank s) a) of
      Some c \<Rightarrow> c | None \<Rightarrow> \<lparr>c_denom = d, c_amount = 0\<rparr>"
  obtain b where b: "x_to_json ext (JBalance ?c) = Inr b" "hx_balance hx b = Inr ?c"
    using assms(1) unfolding balance_codec_def by blast
  have "c_denom ?c = d" "unat (c_amount ?c) = held (ch_bank s) a d"
    using normalized_find [OF get_balance_normalized [OF assms(2)], of a d]
    by (auto simp: held_def split: option.splits)
  moreover have "r_query (router_at ext md (Suc n)) block (ReqBank (QBalance (addr_str a) d)) s = Ok b"
    using assms(3) b by (simp add: router_query_def bank_query_def bindM_lift_result bindM_reads lift_result_def ret_def)
  ultimately show thesis using that b(2) by blast
qed

lemma hackatom_execute_run:
  assumes "om_get m (HACKATOM_key hx) = Some (sd_encode (hx_hackatom_init hx) i)" "serde_ok (hx_hackatom_init hx)"
    and "sd_decode (hx_empty hx) msg = Inr ()"
    and "q (ReqBank (QBalance (addr_str (env_contract env)) ''btc'')) = Ok b" "hx_balance hx b = Inr c"
  shows "run_cprog q (ct_execute (hackatom_contract hx) env info msg) m
    = (Ok (add_message (MBank (BankSend (hi_beneficiary i) [c])) new_response), m)"
  by (simp add: hackatom_contract_def wrap_defs hackatom_execute_def assms run_Ok serde_okD del: run_cprog.simps(7))

lemma hackatom_instantiate_run:
  assumes "run_cprog q (ct_instantiate (hackatom_contract hx) env info msg) m = (Ok r, m')"
    and "sd_decode (hx_hackatom_init hx) msg = Inr i"
  shows "om_get m' (HACKATOM_key hx) = Some (sd_encode (hx_hackatom_init hx) i)"
  using assms by (auto simp: hackatom_contract_def wrap_defs run_Ok hackatom_instantiate_def)

text \<open>
  C16. The hackatom contract releases everything it holds. Instantiated without an administrator, its
  beneficiary is fixed for ever: after any history in which no test writes to its storage, a call of the contract by anybody sends its whole
  \<open>btc\<close> balance, as the bank answers the query of the contract, to the beneficiary it was set up with.
  When it holds none the call fails and nothing changes.
\<close>
theorem hackatom_releases:
  assumes "nb_laws ext" "bank_wf (ch_bank (ap_chain a0))" "keeper_wf (md_wasm (ap_modules a0))" "instantiate_codec ext"
    and hx: "serde_ok (hx_hackatom_init hx)" "balance_codec ext hx" "sd_decode (hx_empty hx) msg = Inr ()"
    and init: "code_at (md_wasm (ap_modules a0)) code_id = Some (hackatom_contract hx)"
      "sd_decode (hx_hackatom_init hx) m = Inr i"
      "instantiate_contract ext k code_id creator (Inr m) funds label None a0 = (Ok address, a)"
    and hist: "(app_step ext E)\<^sup>*\<^sup>* a a1" "address \<notin> E"
    and "\<forall>d. supply_of (ch_bank (ap_chain a1)) d < 2 ^ 256" "x_addr_validate ext (addr_str address) = Inr address"
  shows "pays_one \<lparr>c_denom = ''btc'', c_amount = word_of_nat (held (ch_bank (ap_chain a1)) address ''btc'')\<rparr>
      address (Addr (hi_beneficiary i)) a1
    (app_execute ext (Suc (Suc n)) sender (MWasm (WasmExecute (addr_str address) msg [])) a1)"
proof -
  let ?s = "ap_chain a1"
  note wf = after_history [OF assms(1,2) start_history [OF init(3) hist(1)]]
  obtain c q res env info where run: "run_cprog q (ct_instantiate (hackatom_contract hx) env info m)
        (contract_storage (ap_chain a0) address) = (Ok res, contract_storage ?s address)"
      and c: "om_get (w_contracts (ch_wasm ?s)) address = Some c"
        "code_at (md_wasm (ap_modules a1)) (cd_code_id c) = Some (hackatom_contract hx)"
    by (rule hackatom.promise_since_start [OF assms(4) init(3) assms(3) init(1) hist(1)]) (use that hist(2) in simp)
  note stored = hackatom_instantiate_run [OF run init(2)]
  obtain b c' where q: "r_query (router_at ext (ap_modules a1) (Suc n)) (ap_block a1)
        (ReqBank (QBalance (addr_str address) ''btc'')) ?s = Ok b"
      and b: "hx_balance hx b = Inr c'" and c': "c_denom c' = ''btc''" "unat (c_amount c') = held (ch_bank ?s) address ''btc''"
    using query_balance [OF hx(2) wf assms(14)] by metis
  have "c' = \<lparr>c_denom = ''btc'', c_amount = word_of_nat (held (ch_bank ?s) address ''btc'')\<rparr>"
    using c'(1) by (intro coin.equality) (simp_all flip: c'(2))
  then show ?thesis
    by (intro app_execute_pays [OF assms(1) wf assms(13) c assms(14) hackatom_execute_run [OF stored hx(1,3)]])
      (use q b in \<open>simp_all add: get_env_def add_message_def add_submessage_def new_response_def verify_response_def
        verify_attributes_def verify_events_def thenM_def del: router_at.simps\<close>)
qed

section \<open>The reflect contract\<close>

definition count_of :: "helper_ext \<Rightarrow> app \<Rightarrow> addr \<Rightarrow> u32 \<Rightarrow> bool" where
  "count_of hx a address v \<longleftrightarrow>
     om_get (contract_storage (ap_chain a) address) (COUNTER_key hx) = Some (sd_encode (hx_u32 hx) v)"

lemma reflect_count_query:
  assumes "om_get (w_contracts (ch_wasm (ap_chain a))) address = Some c"
    and "code_at (md_wasm (ap_modules a)) (cd_code_id c) = Some (reflect_contract hx)"
    and "x_addr_validate ext (addr_str address) = Inr address" "hx_reflect_query hx msg = Inr ReflectCount"
    and "count_of hx a address v" "serde_ok (hx_u32 hx)"
  shows "app_query ext (Suc n) (ReqWasm (QSmart (addr_str address) msg)) a
    = (Ok (sd_encode (hx_count hx) \<lparr>cr_count = v\<rparr>), a)"
proof -
  let ?q = "\<lambda>req. r_query (router_at ext (ap_modules a) n) (ap_block a) req (ap_chain a)"
  have code: "contract_code (md_wasm (ap_modules a)) (cd_code_id c) (ap_chain a) = (Ok (reflect_contract hx), ap_chain a)"
    using assms(2) by (simp add: contract_code_Ok_iff)
  have "run_cprog ?q (ct_query (reflect_contract hx) env msg) (contract_storage (ap_chain a) address)
      = (Ok (sd_encode (hx_count hx) \<lparr>cr_count = v\<rparr>), contract_storage (ap_chain a) address)" for env
    using assms(4-6) by (simp add: reflect_contract_def wrap_defs reflect_query_fn_def run_Ok count_of_def serde_okD)
  then show ?thesis
    using assms(1,3) by (simp add: app_query_def bindM_reads router_query_def wasm_query_def query_smart_def
        with_storage_readonly_def bindM_contract_data bindM_eq [where m = "contract_code (md_wasm (ap_modules a)) (cd_code_id c)", OF code] bindM_lift_result lift_outcome_def ret_def)
qed

lemma reflect_instantiate_run:
  assumes "run_cprog q (ct_instantiate (reflect_contract hx) env info msg) m = (Ok r, m')"
  shows "om_get m' (COUNTER_key hx) = Some (sd_encode (hx_u32 hx) 0)"
  using assms by (auto simp: reflect_contract_def wrap_defs run_Ok reflect_instantiate_def)

text \<open>An execution that goes through counts, and so may the messages it sends on.\<close>

lemma reflect_execute_counts:
  assumes "app_execute ext k sender (MWasm (WasmExecute (addr_str address) exec [])) a = (Ok r, a')"
    and c: "om_get (w_contracts (ch_wasm (ap_chain a))) address = Some c" "cd_admin c = None"
    and code: "code_at (md_wasm (ap_modules a)) (cd_code_id c) = Some (reflect_contract hx)"
    and "x_addr_validate ext (addr_str address) = Inr address" "count_of hx a address w"
    and hx: "\<forall>rid. REFLECT_key hx rid \<noteq> COUNTER_key hx" "serde_ok (hx_u32 hx)"
  obtains u where "w < u" "count_of hx a' address u" "om_get (w_contracts (ch_wasm (ap_chain a'))) address = Some c"
    "ap_modules a' = ap_modules a"
proof -
  obtain q res m where run: "run_cprog q (ct_execute (reflect_contract hx) (get_env address (ap_block a))
        \<lparr>mi_sender = sender, mi_funds = []\<rparr> exec) (contract_storage (ap_chain a) address) = (Ok res, m)"
      and rel: "own_rel (md_wasm (ap_modules a)) (put_contract_storage address m (ap_chain a)) (ap_chain a')"
      and md: "ap_modules a' = ap_modules a"
    by (rule execute_then_own [OF assms(1) c(1) code assms(5)])
  from run assms(6) obtain x where x: "checked_add w 1 = Some x" "om_get m (COUNTER_key hx) = Some (sd_encode (hx_u32 hx) x)"
    by (auto simp: reflect_contract_def wrap_defs reflect_execute_def item_update_def run_Ok count_of_def serde_okD [OF hx(2)]
        split: option.splits)
  have lt: "w < x" using checked_add_Some [OF x(1)] by (simp add: word_less_nat_alt)
  note d = own_relD [OF rel, of address c]
  have "own_step (md_wasm (ap_modules a)) (cd_code_id c) = entry_run (reflect_contract hx)"
    using code by (auto simp: own_step_def fun_eq_iff)
  then have "counts_up hx m (contract_storage (ap_chain a') address)"
    using d(2) c reflect.P_runs hx by simp
  then obtain u where "count_of hx a' address u" "x \<le> u" using x(2) by (auto simp: counts_up_def count_of_def)
  with lt d(1) c md that show thesis by (auto intro: less_le_trans)
qed

text \<open>
  C17. The reflect contract counts its executions. Its counter is never lost, whatever happens on the
  chain: after any history since its instantiation, without an administrator and without a test that
  writes to its storage, the smart query for the count answers with some number. Every execution that goes through leaves it higher than it was, however
  often the messages that it sends on call the contract again; one that does not changes nothing.
\<close>
theorem reflect_counts:
  assumes "keeper_wf (md_wasm (ap_modules a0))" "instantiate_codec ext"
    and hx: "\<forall>rid. REFLECT_key hx rid \<noteq> COUNTER_key hx" "serde_ok (hx_u32 hx)" "hx_reflect_query hx msg = Inr ReflectCount"
    and init: "code_at (md_wasm (ap_modules a0)) code_id = Some (reflect_contract hx)"
      "instantiate_contract ext i code_id creator m funds label None a0 = (Ok address, a)"
    and "(app_step ext E)\<^sup>*\<^sup>* a a1" "address \<notin> E" "x_addr_validate ext (addr_str address) = Inr address"
  shows "\<exists>w. app_query ext (Suc n) (ReqWasm (QSmart (addr_str address) msg)) a1
        = (Ok (sd_encode (hx_count hx) \<lparr>cr_count = w\<rparr>), a1)
    \<and> (case app_execute ext k sender (MWasm (WasmExecute (addr_str address) exec [])) a1 of
        (Ok r, a2) \<Rightarrow> \<exists>u > w. app_query ext (Suc n) (ReqWasm (QSmart (addr_str address) msg)) a2
            = (Ok (sd_encode (hx_count hx) \<lparr>cr_count = u\<rparr>), a2)
      | (_, a2) \<Rightarrow> a2 = a1)"
proof -
  let ?query = "app_query ext (Suc n) (ReqWasm (QSmart (addr_str address) msg))"
  let ?run = "app_execute ext k sender (MWasm (WasmExecute (addr_str address) exec [])) a1"
  obtain c q res st env info x where "run_cprog q (ct_instantiate (reflect_contract hx) env info x)
        (contract_storage (ap_chain a0) address) = (Ok res, st)"
      and kept: "counts_up hx st (contract_storage (ap_chain a1) address)"
      and c: "om_get (w_contracts (ch_wasm (ap_chain a1))) address = Some c" "cd_admin c = None"
        "code_at (md_wasm (ap_modules a1)) (cd_code_id c) = Some (reflect_contract hx)"
    by (rule reflect.promise_since_start [OF assms(2) init(2) assms(1) init(1) assms(8)]) (use that hx(1,2) assms(9) in simp)
  then obtain w where w: "count_of hx a1 address w"
    using reflect_instantiate_run unfolding counts_up_def count_of_def by metis
  note q1 = reflect_count_query [OF c(1,3) assms(10) hx(3) w hx(2)]
  have "\<exists>u > w. ?query a2 = (Ok (sd_encode (hx_count hx) \<lparr>cr_count = u\<rparr>), a2)" if ok: "?run = (Ok r, a2)" for r a2
  proof -
    obtain u where u: "w < u" "count_of hx a2 address u" "om_get (w_contracts (ch_wasm (ap_chain a2))) address = Some c"
        "ap_modules a2 = ap_modules a1"
      by (rule reflect_execute_counts [OF ok c assms(10) w hx(1,2)])
    then have "?query a2 = (Ok (sd_encode (hx_count hx) \<lparr>cr_count = u\<rparr>), a2)"
      by (intro reflect_count_query [OF u(3) _ assms(10) hx(3) u(2) hx(2)]) (simp add: c)
    with u(1) show ?thesis by blast
  qed
  moreover have "a2 = a1" if "?run = (r, a2)" "\<not> is_ok r" for r a2
    using that by (auto simp: app_execute_eq atomically_def split: prod.splits outcome.splits)
  ultimately show ?thesis using q1
    by (intro exI [of _ w]) (auto split: prod.splits outcome.splits)
qed

section \<open>Witnesses\<close>

text \<open>Encoders that can be evaluated: numbers in unary, strings as their bytes.\<close>

definition word_serde :: "'a::len word serde" where
  "word_serde = \<lparr>sd_encode = (\<lambda>w. replicate (unat w) 0), sd_decode = (\<lambda>b. Inr (word_of_nat (length b)))\<rparr>"

definition coin_serde :: "coin serde" where
  "coin_serde = \<lparr>sd_encode = (\<lambda>c. replicate (unat (c_amount c)) 0 @ 1 # as_bytes (c_denom c)),
     sd_decode = (\<lambda>b. let n = length (takeWhile (\<lambda>x. x = 0) b)
       in Inr \<lparr>c_denom = map (\<lambda>w. char_of (unat w)) (drop (Suc n) b), c_amount = word_of_nat n\<rparr>)\<rparr>"

lemma serdes_ok: "serde_ok word_serde" "serde_ok coin_serde"
  by (simp_all add: serde_ok_def word_serde_def coin_serde_def Let_def string_of_bytes takeWhile_tail)

definition demo_hx :: helper_ext where
  "demo_hx = \<lparr>hx_item_key = as_bytes, hx_map_key = (\<lambda>name k. 0 # as_bytes name),
     hx_empty = \<lparr>sd_encode = (\<lambda>u. []), sd_decode = (\<lambda>b. Inr ())\<rparr>, hx_u32 = word_serde,
     hx_count = \<lparr>sd_encode = (\<lambda>c. sd_encode word_serde (cr_count c)), sd_decode = (\<lambda>b. Inl ParseIntError)\<rparr>,
     hx_payout_init = \<lparr>sd_encode = (\<lambda>p. sd_encode coin_serde (pi_payout p)),
       sd_decode = (\<lambda>b. map_sum id (\<lambda>c. \<lparr>pi_payout = c\<rparr>) (sd_decode coin_serde b))\<rparr>,
     hx_payout_sudo = (\<lambda>b. Inr \<lparr>ps_set_count = 7\<rparr>), hx_payout_query = (\<lambda>b. Inr QueryCount),
     hx_hackatom_init = \<lparr>sd_encode = (\<lambda>i. as_bytes (hi_beneficiary i)),
       sd_decode = (\<lambda>b. Inr \<lparr>hi_beneficiary = map (\<lambda>w. char_of (unat w)) b\<rparr>)\<rparr>,
     hx_hackatom_migrate = (\<lambda>b. Inr \<lparr>hm_new_guy = ''new''\<rparr>), hx_hackatom_query = (\<lambda>b. Inr QueryBeneficiary),
     hx_reflect_exec = (\<lambda>b. Inr \<lparr>re_sub_msg = []\<rparr>), hx_reflect_query = (\<lambda>b. Inr ReflectCount),
     hx_reply = \<lparr>sd_encode = (\<lambda>r. []), sd_decode = (\<lambda>b. Inl ParseIntError)\<rparr>,
     hx_wasm_msg = (\<lambda>b. Inr WasmMsgOther), hx_echo_init = (\<lambda>b. Inr \<lparr>ei_data = None, ei_sub_msg = None\<rparr>),
     hx_echo_exec = (\<lambda>b. Inr \<lparr>ee_data = None, ee_sub_msg = [], ee_attributes = [], ee_events = []\<rparr>),
     hx_balance = sd_decode coin_serde, hx_instantiate_data = (\<lambda>b. Inr (Some b)), hx_execute_data = (\<lambda>b. Inr (Some b))\<rparr>"

lemma demo_hx_laws:
  "serde_ok (hx_payout_init demo_hx)" "serde_ok (hx_hackatom_init demo_hx)" "serde_ok (hx_u32 demo_hx)"
  "COUNT_key demo_hx \<noteq> PAYOUT_key demo_hx" "REFLECT_key demo_hx rid \<noteq> COUNTER_key demo_hx"
  "sd_decode (hx_empty demo_hx) msg = Inr ()"
  using serdes_ok
  by (auto simp: demo_hx_def serde_ok_def string_of_bytes COUNT_key_def PAYOUT_key_def REFLECT_key_def COUNTER_key_def)
    (simp add: as_bytes_def)

text \<open>An application with one code, whose first instance lives at \<open>first\<close>; \<open>first\<close> and \<open>alice\<close> have ten \<open>btc\<close>.\<close>

definition helper_demo_ext :: ext where
  "helper_demo_ext = demo_ext\<lparr>x_encode_instantiate := (\<lambda>a d. as_bytes a),
     x_to_json := (\<lambda>d. case d of JBalance c \<Rightarrow> Inr (sd_encode coin_serde c) | _ \<Rightarrow> Inr [])\<rparr>"

definition helper_app :: "contract \<Rightarrow> app" where
  "helper_app code = (default_app helper_demo_ext demo_time)\<lparr>
     ap_modules := (ap_modules (default_app helper_demo_ext demo_time))\<lparr>md_wasm :=
       (save_code 1 (Addr ''creator'') code (default_wasm_keeper helper_demo_ext))
         \<lparr>wk_address := (\<lambda>code_id instance_id. Inr (Addr ''first''))\<rparr>\<rparr>,
     ap_chain := empty_chain\<lparr>ch_bank := \<lparr>b_balances = [(Addr ''alice'', [\<lparr>c_denom = ''btc'', c_amount = 10\<rparr>]),
       (Addr ''first'', [\<lparr>c_denom = ''btc'', c_amount = 10\<rparr>])]\<rparr>\<rparr>\<rparr>"

lemma helper_ext_laws [simp]: "nb_laws helper_demo_ext" "instantiate_codec helper_demo_ext" "balance_codec helper_demo_ext demo_hx"
    "x_addr_validate helper_demo_ext ''first'' = Inr (Addr ''first'')"
  using nb_laws_cong [of helper_demo_ext demo_ext] serdes_ok(2)
  by (simp_all add: helper_demo_ext_def instantiate_codec_def balance_codec_def serde_ok_def demo_hx_def)
    (simp_all add: demo_ext_def string_of_bytes)

lemma helper_app_parts:
  "keeper_wf (md_wasm (ap_modules (helper_app code)))" "code_at (md_wasm (ap_modules (helper_app code))) 1 = Some code"
  "bank_wf (ch_bank (ap_chain (helper_app code)))" "\<forall>d. supply_of (ch_bank (ap_chain (helper_app code))) d < 2 ^ 256"
  "held (ch_bank (ap_chain (helper_app code))) x d = (if (x = Addr ''alice'' \<or> x = Addr ''first'') \<and> d = ''btc'' then 10 else 0)"
proof -
  let ?wk = "save_code 1 (Addr ''creator'') code (default_wasm_keeper helper_demo_ext)"
  have "keeper_wf ?wk" by (simp add: save_code_wf)
  then show "keeper_wf (md_wasm (ap_modules (helper_app code)))" by (simp add: helper_app_def keeper_wf_def)
  have "code_at ?wk 1 = Some code"
    using save_code_lookup(1) [OF keeper_wf_default [of helper_demo_ext], of 1 "Addr ''creator''" code "()"]
    by (simp add: contract_code_Ok_iff default_wasm_keeper_def)
  moreover have "code_at (wk\<lparr>wk_address := g\<rparr>) k = code_at wk k" for wk g k
    by (simp add: code_at_def code_data_def split: option.split sum.split)
  ultimately show "code_at (md_wasm (ap_modules (helper_app code))) 1 = Some code"
    by (simp add: helper_app_def)
  show "bank_wf (ch_bank (ap_chain (helper_app code)))"
    by (auto simp: helper_app_def bank_wf_def om_wf_def normalized_def less_addr_def split: if_splits)
  show "\<forall>d. supply_of (ch_bank (ap_chain (helper_app code))) d < 2 ^ 256"
    by (simp add: helper_app_def supply_of_def om_sum_def)
  show "held (ch_bank (ap_chain (helper_app code))) x d = (if (x = Addr ''alice'' \<or> x = Addr ''first'') \<and> d = ''btc'' then 10 else 0)"
    by (auto simp: helper_app_def held_def get_balance_def)
qed

text \<open>Instantiating the code of the application.\<close>

lemma helper_instantiate:
  assumes "\<And>q. run_cprog q (ct_instantiate code (get_env (Addr ''first'') demo_time) \<lparr>mi_sender = Addr ''alice'', mi_funds = []\<rparr> m) []
      = (Ok new_response, st)"
  obtains a where "instantiate_contract helper_demo_ext (Suc k) 1 (Addr ''alice'') (Inr m) [] ''label'' None (helper_app code)
      = (Ok (Addr ''first''), a)"
    "ch_bank (ap_chain a) = ch_bank (ap_chain (helper_app code))"
proof -
  have "verify_response new_response t = (Ok new_response, t)" for t :: chain by (rule verify_new_response)
  moreover have "contract_storage (ap_chain (helper_app code)) (Addr ''first'') = []"
    by (simp add: helper_app_def contract_storage_def empty_chain_def)
  ultimately show thesis
    using instantiate_contract_completes [OF helper_ext_laws(2) _ _ _ _ helper_app_parts(2), where label = "''label''" and r = new_response
        and address = "Addr ''first''" and sender = "Addr ''alice''" and m = m and st = st and k = k and admin = None]
      assms that
    by (simp add: helper_app_def default_app_parts new_response_def save_code_def Let_def default_wasm_keeper_def empty_chain_def
        om_empty_def)
qed

text \<open>The payments read off at the demo accounts.\<close>

lemma pays_one_demo:
  assumes "pays_one \<lparr>c_denom = ''btc'', c_amount = v\<rparr> (Addr ''first'') (Addr ''alice'') a t"
    and "ch_bank (ap_chain a) = ch_bank (ap_chain (helper_app code))" "0 < unat v" "unat v \<le> 10"
  shows "is_ok (fst t) \<and> held (ch_bank (ap_chain (snd t))) (Addr ''alice'') ''btc'' = 10 + unat v
    \<and> held (ch_bank (ap_chain (snd t))) (Addr ''first'') ''btc'' = 10 - unat v"
proof -
  note [simp] = assms(2) helper_app_parts(5)
  from assms(1,3,4) have ok: "is_ok (fst t)" by (simp add: pays_one_def)
  with assms(1) have h: "held (ch_bank (ap_chain (snd t))) x d + (if x = Addr ''first'' then amount_of [\<lparr>c_denom = ''btc'', c_amount = v\<rparr>] d else 0)
      = held (ch_bank (ap_chain a)) x d + (if x = Addr ''alice'' then amount_of [\<lparr>c_denom = ''btc'', c_amount = v\<rparr>] d else 0)" for x d
    by (simp add: pays_one_def)
  from h [of "Addr ''alice''" "''btc''"] h [of "Addr ''first''" "''btc''"] ok show ?thesis by simp
qed

theorem payout_promise_witness:
  "\<exists>a. instantiate_contract helper_demo_ext 1 1 (Addr ''alice'')
        (Inr (sd_encode (hx_payout_init demo_hx) \<lparr>pi_payout = \<lparr>c_denom = ''btc'', c_amount = 3\<rparr>\<rparr>)) [] ''label'' None
        (helper_app (payout_contract demo_hx)) = (Ok (Addr ''first''), a)
   \<and> (let t = app_execute helper_demo_ext 2 (Addr ''alice'') (MWasm (WasmExecute ''first'' [] [])) a
      in is_ok (fst t) \<and> held (ch_bank (ap_chain (snd t))) (Addr ''alice'') ''btc'' = 13
        \<and> held (ch_bank (ap_chain (snd t))) (Addr ''first'') ''btc'' = 7)"
proof -
  let ?p = "\<lparr>pi_payout = \<lparr>c_denom = ''btc'', c_amount = 3\<rparr>\<rparr>" and ?c = "payout_contract demo_hx"
  let ?m = "sd_encode (hx_payout_init demo_hx) ?p"
  note read = serde_okD [OF demo_hx_laws(1)]
  let ?st = "om_insert (COUNT_key demo_hx) (sd_encode (hx_u32 demo_hx) 1) (om_insert (PAYOUT_key demo_hx) ?m [])"
  have "run_cprog q (ct_instantiate ?c (get_env (Addr ''first'') demo_time) \<lparr>mi_sender = Addr ''alice'', mi_funds = []\<rparr> ?m) []
      = (Ok new_response, ?st)" for q
    by (simp add: payout_contract_def wrap_defs payout_instantiate_def read run_Ok del: om_insert.simps)
       (simp add: new_response_def)
  then obtain a where a: "instantiate_contract helper_demo_ext (Suc 0) 1 (Addr ''alice'') (Inr ?m) [] ''label'' None (helper_app ?c)
      = (Ok (Addr ''first''), a)" "ch_bank (ap_chain a) = ch_bank (ap_chain (helper_app ?c))"
    by (rule helper_instantiate)
  have "pays_one (pi_payout ?p) (Addr ''first'') (Addr ''alice'') a
      (app_execute helper_demo_ext (Suc (Suc 0)) (Addr ''alice'') (MWasm (WasmExecute (addr_str (Addr ''first'')) [] [])) a)"
    by (rule payout_promise [where E = "{}", OF _ helper_app_parts(3) helper_app_parts(1) _ demo_hx_laws(1,4,6) helper_app_parts(2) read a(1) rtranclp.rtrancl_refl])
      (use a(2) helper_app_parts(4) in \<open>simp_all add: supply_of_def\<close>)
  then have "pays_one \<lparr>c_denom = ''btc'', c_amount = 3\<rparr> (Addr ''first'') (Addr ''alice'') a
      (app_execute helper_demo_ext 2 (Addr ''alice'') (MWasm (WasmExecute ''first'' [] [])) a)"
    by (simp add: numeral_2_eq_2)
  from pays_one_demo [OF this a(2)] a(1) show ?thesis by (auto simp: Let_def)
qed

theorem hackatom_releases_witness:
  "\<exists>a. instantiate_contract helper_demo_ext 1 1 (Addr ''alice'') (Inr (as_bytes ''alice'')) [] ''label'' None
        (helper_app (hackatom_contract demo_hx)) = (Ok (Addr ''first''), a)
   \<and> (let t = app_execute helper_demo_ext 2 (Addr ''bob'') (MWasm (WasmExecute ''first'' [] [])) a
      in is_ok (fst t) \<and> held (ch_bank (ap_chain (snd t))) (Addr ''alice'') ''btc'' = 20
        \<and> held (ch_bank (ap_chain (snd t))) (Addr ''first'') ''btc'' = 0)"
proof -
  let ?i = "\<lparr>hi_beneficiary = ''alice''\<rparr>" and ?c = "hackatom_contract demo_hx"
  let ?m = "sd_encode (hx_hackatom_init demo_hx) ?i"
  note read = serde_okD [OF demo_hx_laws(2)]
  have m: "?m = as_bytes ''alice''" by (simp add: demo_hx_def)
  have "run_cprog q (ct_instantiate ?c (get_env (Addr ''first'') demo_time) \<lparr>mi_sender = Addr ''alice'', mi_funds = []\<rparr> ?m) []
      = (Ok new_response, om_insert (HACKATOM_key demo_hx) ?m [])" for q
    by (simp add: hackatom_contract_def wrap_defs hackatom_instantiate_def read run_Ok del: om_insert.simps)
  then obtain a where a: "instantiate_contract helper_demo_ext (Suc 0) 1 (Addr ''alice'') (Inr ?m) [] ''label'' None (helper_app ?c)
      = (Ok (Addr ''first''), a)" "ch_bank (ap_chain a) = ch_bank (ap_chain (helper_app ?c))"
    by (rule helper_instantiate)
  have "pays_one \<lparr>c_denom = ''btc'', c_amount = word_of_nat (held (ch_bank (ap_chain a)) (Addr ''first'') ''btc'')\<rparr>
      (Addr ''first'') (Addr (hi_beneficiary ?i)) a
      (app_execute helper_demo_ext (Suc (Suc 0)) (Addr ''bob'') (MWasm (WasmExecute (addr_str (Addr ''first'')) [] [])) a)"
    by (rule hackatom_releases [where E = "{}", OF _ helper_app_parts(3) helper_app_parts(1) _ demo_hx_laws(2) _ demo_hx_laws(6) helper_app_parts(2) read a(1)
          rtranclp.rtrancl_refl])
      (use a(2) helper_app_parts(4) in \<open>simp_all add: supply_of_def\<close>)
  then have "pays_one \<lparr>c_denom = ''btc'', c_amount = 10\<rparr> (Addr ''first'') (Addr ''alice'') a
      (app_execute helper_demo_ext 2 (Addr ''bob'') (MWasm (WasmExecute ''first'' [] [])) a)"
    by (simp add: numeral_2_eq_2 a(2) helper_app_parts(5))
  from pays_one_demo [OF this a(2)] a(1) m show ?thesis by (auto simp: Let_def)
qed

lemma reflect_instantiates:
  obtains a where "instantiate_contract helper_demo_ext (Suc 0) 1 (Addr ''alice'') (Inr []) [] ''label'' None
      (helper_app (reflect_contract demo_hx)) = (Ok (Addr ''first''), a)"
proof -
  let ?c = "reflect_contract demo_hx"
  have "run_cprog q (ct_instantiate ?c (get_env (Addr ''first'') demo_time) \<lparr>mi_sender = Addr ''alice'', mi_funds = []\<rparr> []) []
      = (Ok new_response, om_insert (COUNTER_key demo_hx) (sd_encode (hx_u32 demo_hx) 0) [])" for q
    by (simp add: reflect_contract_def wrap_defs reflect_instantiate_def run_Ok demo_hx_laws(6) del: om_insert.simps)
  then show thesis by (rule helper_instantiate) (rule that)
qed

theorem reflect_counts_witness:
  "\<exists>a w. instantiate_contract helper_demo_ext 1 1 (Addr ''alice'') (Inr []) [] ''label'' None
        (helper_app (reflect_contract demo_hx)) = (Ok (Addr ''first''), a)
   \<and> app_query helper_demo_ext 1 (ReqWasm (QSmart ''first'' [])) a = (Ok (sd_encode (hx_count demo_hx) \<lparr>cr_count = w\<rparr>), a)"
proof -
  let ?c = "reflect_contract demo_hx"
  obtain a where a: "instantiate_contract helper_demo_ext (Suc 0) 1 (Addr ''alice'') (Inr []) [] ''label'' None (helper_app ?c)
      = (Ok (Addr ''first''), a)"
    by (rule reflect_instantiates)
  have q: "hx_reflect_query demo_hx [] = Inr ReflectCount" by (simp add: demo_hx_def)
  have "\<exists>w. app_query helper_demo_ext (Suc 0) (ReqWasm (QSmart (addr_str (Addr ''first'')) [])) a
        = (Ok (sd_encode (hx_count demo_hx) \<lparr>cr_count = w\<rparr>), a)"
    using reflect_counts [where E = "{}", OF helper_app_parts(1) helper_ext_laws(2) allI [OF demo_hx_laws(5)] demo_hx_laws(3) q
        helper_app_parts(2) a rtranclp.rtrancl_refl, where n = 0 and k = 0 and sender = "Addr []" and exec = "[]"]
    by auto
  with a show ?thesis by auto
qed

end
