(* ===== verification/Supply.thy ===== *)
theory Supply
  imports Chain_Facts
begin

text \<open>
  Where coins come from. Minting is a privileged message; besides, the chain mints rewards in the bonded
  denomination and vouchers for the coins of other chains. Everything else moves or burns coins, so the
  supply of any other denomination never grows: an instance of the locale \<open>block_moves\<close>, for the privileged
  messages that do not mint the denomination.
\<close>

definition mints_no :: "string \<Rightarrow> sudo_msg \<Rightarrow> bool" where
  "mints_no d msg \<longleftrightarrow> (case msg of SudoBank (BankMint to amt) \<Rightarrow> \<forall>c \<in> set amt. c_denom c \<noteq> d | _ \<Rightarrow> True)"

text \<open>The denominations the chain never mints of its own accord.\<close>

definition foreign_to :: "string \<Rightarrow> chain \<Rightarrow> bool" where
  "foreign_to d s \<longleftrightarrow> si_bonded_denom (get_staking_info (ch_staking s)) \<noteq> d \<and> take 4 d \<noteq> ''ibc/''"

definition supply_rel :: "ext \<Rightarrow> string \<Rightarrow> chain \<Rightarrow> chain \<Rightarrow> bool" where
  "supply_rel ext d s t \<longleftrightarrow> (nb_laws ext \<longrightarrow> bank_wf (ch_bank s) \<longrightarrow> foreign_to d s \<longrightarrow>
     bank_wf (ch_bank t) \<and> foreign_to d t \<and> supply_of (ch_bank t) d \<le> supply_of (ch_bank s) d)"

lemma supply_order: "reflp (supply_rel ext d)" "transp (supply_rel ext d)"
  by (auto simp: reflp_def transp_def supply_rel_def intro: order_trans)

lemma supply_elsewhere [simp]: "ch_bank t = ch_bank s \<Longrightarrow> st_info (ch_staking t) = st_info (ch_staking s) \<Longrightarrow> supply_rel ext d s t"
  by (simp add: supply_rel_def foreign_to_def get_staking_info_def)

section \<open>The bank\<close>

lemma supply_in_bank:
  "(\<And>b r b'. nb_laws ext \<Longrightarrow> bank_wf b \<Longrightarrow> m b = (r, b') \<Longrightarrow> take 4 d \<noteq> ''ibc/'' \<Longrightarrow>
     bank_wf b' \<and> supply_of b' d \<le> supply_of b d) \<Longrightarrow> all_runs (supply_rel ext d) (in_bank m)"
  by (auto simp: all_runs_def in_bank_def zoom_def supply_rel_def foreign_to_def split: prod.split)

lemma mint_keeps_supply:
  assumes "nb_laws ext" "bank_wf b" "mint ext a amt b = (r, b')" "\<forall>c \<in> set amt. c_denom c \<noteq> d"
  shows "bank_wf b' \<and> supply_of b' d \<le> supply_of b d"
proof (cases "is_ok r")
  case True
  then obtain u where u: "mint ext a amt b = (Ok u, b')" using assms(3) by (auto simp: is_ok_iff)
  have "amount_of amt d = 0" using assms(4) by (induction amt) auto
  with mint_supply [OF assms(1,2) u, of d] mint_Ok(2) [OF assms(1,2) u] show ?thesis by simp
qed (use mint_not_Ok [OF assms(3)] assms(2) in simp)

lemma burn_lowers_supply:
  assumes "nb_laws ext" "bank_wf b" "burn ext a amt b = (r, b')"
  shows "bank_wf b' \<and> supply_of b' d \<le> supply_of b d"
proof (cases "is_ok r")
  case True
  then obtain u where u: "burn ext a amt b = (Ok u, b')" using assms(3) by (auto simp: is_ok_iff)
  from burn_supply [OF assms(1,2) u, of d] burn_Ok(3) [OF assms(1,2) u] show ?thesis by simp
qed (use burn_not_Ok [OF assms(3)] assms(2) in simp)

text \<open>A transfer that fails half way has burned.\<close>

lemma send_keeps_supply:
  assumes "nb_laws ext" "bank_wf b" "send ext src dst amt b = (r, b')"
  shows "bank_wf b' \<and> supply_of b' d \<le> supply_of b d"
proof (cases "is_ok r")
  case True
  then obtain u where u: "send ext src dst amt b = (Ok u, b')" using assms(3) by (auto simp: is_ok_iff)
  from send_supply [OF assms(1,2) u, of d] send_Ok(3) [OF assms(1,2) u] show ?thesis by simp
next
  case False
  obtain q b1 where q: "burn ext src amt b = (q, b1)" by fastforce
  note B = burn_lowers_supply [OF assms(1,2) q, of d]
  have "b' = b1"
  proof (cases "is_ok q")
    case True
    with assms(3) q have "mint ext dst amt b1 = (r, b')" by (auto simp: send_def thenM_def bindM_def is_ok_iff)
    then show ?thesis using mint_not_Ok False by blast
  qed (use assms(3) q in \<open>auto simp: send_def thenM_def bindM_def is_ok_iff split: outcome.splits\<close>)
  with B show ?thesis by simp
qed

lemma supply_bank:
  "all_runs (supply_rel ext d) (in_bank (send ext a b coins))" "all_runs (supply_rel ext d) (in_bank (burn ext a coins))"
  "all_runs (supply_rel ext d) (in_bank (mint ext a [\<lparr>c_denom = wrap_ibc_denom_query ext ch dnm, c_amount = n\<rparr>]))"
proof -
  show "all_runs (supply_rel ext d) (in_bank (send ext a b coins))"
    by (rule supply_in_bank) (rule send_keeps_supply)
  show "all_runs (supply_rel ext d) (in_bank (burn ext a coins))"
    by (rule supply_in_bank) (rule burn_lowers_supply)
  show "all_runs (supply_rel ext d) (in_bank (mint ext a [\<lparr>c_denom = wrap_ibc_denom_query ext ch dnm, c_amount = n\<rparr>]))"
  proof (rule supply_in_bank, rule mint_keeps_supply, assumption+)
    assume "take 4 d \<noteq> ''ibc/''"
    then have "wrap_ibc_denom_query ext ch dnm \<noteq> d" by (auto simp: wrap_ibc_denom_query_def)
    then show "\<forall>c \<in> set [\<lparr>c_denom = wrap_ibc_denom_query ext ch dnm, c_amount = n\<rparr>]. c_denom c \<noteq> d" by simp
  qed
qed

lemma supply_mint: "mints_no d (SudoBank u) \<Longrightarrow> ok_runs (supply_rel ext d) (bank_sudo ext u)"
proof (cases u)
  case (BankMint to amt)
  assume "mints_no d (SudoBank u)"
  then have "\<forall>c \<in> set amt. c_denom c \<noteq> d" by (simp add: mints_no_def BankMint)
  then have "all_runs (supply_rel ext d) (in_bank (mint ext a amt))" for a
    by (intro supply_in_bank) (use mint_keeps_supply in blast)
  then have "ok_runs (supply_rel ext d) (in_bank (mint ext a amt))" for a by (rule all_runs_ok)
  then show ?thesis
    unfolding BankMint bank_sudo_def bank_sudo.case by (intro ok_intro supply_order)
qed

section \<open>Staking and distribution\<close>

text \<open>The parameters of the staking module are fixed by its setup.\<close>

lemma staking_info_kept:
  "all_runs (same st_info) (update_rewards ext b v)" "all_runs (same st_info) (add_stake ext b a v c)"
  "all_runs (same st_info) (remove_stake ext b a v c)" "all_runs (same st_info) (slash ext b v p)"
  "all_runs (same st_info) (remove_rewards ext b a v)"
proof -
  show 1: "all_runs (same st_info) (update_rewards ext b v)" for b v
    by (rule all_runs_mono [OF update_rewards_only]) (simp add: rewards_only_def same_def)
  have modifies: "all_runs (same st_info) (modifies f)" if "\<And>s. st_info (f s) = st_info s" for f
    using that by (simp add: all_runs_def same_def)
  have 2: "all_runs (same st_info) (update_stake ext b a v n sub)" for b a v n sub
    unfolding update_stake_def Let_def
    by (intro runs_intro 1) (auto intro!: runs_intro modifies split: prod.split)
  show "all_runs (same st_info) (add_stake ext b a v c)" "all_runs (same st_info) (remove_stake ext b a v c)"
    unfolding add_stake_def remove_stake_def validate_denom_def by (intro runs_intro 2)+
  have "all_runs (same st_info) (unstake v x)" "all_runs (same st_info) (slash_staker ext v q x)" for v x q
    unfolding unstake_def slash_staker_def by (intro runs_intro modifies; simp)+
  then show "all_runs (same st_info) (slash ext b v p)"
    unfolding slash_def by (intro runs_intro 1 modifies; simp)
  show "all_runs (same st_info) (remove_rewards ext b a v)"
    unfolding remove_rewards_def load_def by (auto intro!: runs_intro 1 modifies)
qed

lemma supply_in_staking:
  assumes "all_runs (same st_info) m"
  shows "ok_runs (supply_rel ext d) (in_staking m)"
  by (auto simp: ok_runs_def in_staking_def zoom_Ok_iff dest: sameD [OF assms])

lemma supply_distribution:
  assumes "router_keeps (mints_no d) (supply_rel ext d) rt"
  shows "ok_runs (supply_rel ext d) (distribution_execute ext rt b a m)"
proof (cases m)
  case (WithdrawDelegatorReward v)
  show ?thesis
    unfolding ok_runs_def
  proof (intro allI impI)
    fix s r s'
    assume "distribution_execute ext rt b a m s = (Ok r, s')"
    then obtain rewards s1 receiver x where
        1: "in_staking (remove_rewards ext b a v) s = (Ok rewards, s1)"
        and 2: "r_sudo rt b (SudoBank (BankMint receiver
          [\<lparr>c_denom = si_bonded_denom (get_staking_info (ch_staking s1)), c_amount = rewards\<rparr>])) s1 = (Ok x, s')"
      by (auto simp: distribution_execute_def WithdrawDelegatorReward ok_iffs in_staking_def in_distribution_def zoom_Ok_iff)
    from 1 have "supply_rel ext d s s1" by (rule ok_runsD [OF supply_in_staking [OF staking_info_kept(5)]])
    moreover have "supply_rel ext d s1 s'"
    proof (cases "foreign_to d s1")
      case True
      then have "mints_no d (SudoBank (BankMint receiver
          [\<lparr>c_denom = si_bonded_denom (get_staking_info (ch_staking s1)), c_amount = rewards\<rparr>]))"
        by (simp add: mints_no_def foreign_to_def)
      from ok_runsD [OF router_keepsD(2) [OF assms this] 2] show ?thesis .
    qed (simp add: supply_rel_def)
    ultimately show "supply_rel ext d s s'" using supply_order(2) by (meson transpD)
  qed
next
  case (SetWithdrawAddress address)
  have "ok_runs (supply_rel ext d) (in_distribution k)" for k :: "(distribution_state, std_error, unit) proc"
    by (auto simp: ok_runs_def in_distribution_def zoom_Ok_iff)
  then show ?thesis
    unfolding SetWithdrawAddress distribution_execute_def distribution_msg.case by (intro ok_intro supply_order)
qed (simp_all add: distribution_execute_def ok_runs_fail)

section \<open>Histories\<close>

interpretation no_mint: block_moves ext wk "mints_no d" "supply_rel ext d" for ext wk d
proof
  show "reflp (supply_rel ext d)" "transp (supply_rel ext d)" by (rule supply_order)+
  show "mints_no d (SudoWasm u)" "mints_no d (SudoIbc ir)" for u ir by (simp_all add: mints_no_def)
  show "ok_runs (supply_rel ext d) (ibc_execute ext rt b a im)" if "router_keeps (mints_no d) (supply_rel ext d) rt" for rt b a im
    by (rule ibc_free(1) [OF supply_order _ that]) (simp_all add: mints_no_def)
  show "ok_runs (supply_rel ext d) (ibc_sudo ext rt b ir)" if "router_keeps (mints_no d) (supply_rel ext d) rt" for rt b ir
    by (rule ibc_free(2) [OF supply_order _ that]) (simp_all add: mints_no_def)
  show "ok_runs (supply_rel ext d) (distribution_execute ext rt b a dm)" if "router_keeps (mints_no d) (supply_rel ext d) rt" for rt b a dm
    using that by (rule supply_distribution)
  show "supply_rel ext d s (put_contract_storage a m t)" if
      "supply_rel ext d (s\<lparr>ch_wasm := (ch_wasm s)\<lparr>w_contracts := om_insert a c' (w_contracts (ch_wasm s))\<rparr>\<rparr>) t" for s a c' t m
    using that by (simp add: supply_rel_def foreign_to_def put_contract_storage_def)
qed (simp_all add: supply_bank supply_bank [THEN all_runs_ok] supply_mint supply_in_staking staking_info_kept put_contract_storage_def)

text \<open>One operation of an application that does not mint the denomination by a privileged message.\<close>

inductive step_without_mint :: "ext \<Rightarrow> string \<Rightarrow> app \<Rightarrow> app \<Rightarrow> bool" for ext d where
  messages: "execute_multi ext n sender msgs a = (r, a') \<Longrightarrow> step_without_mint ext d a a'"
| privileged: "app_sudo ext n msg a = (r1, a') \<Longrightarrow> mints_no d msg \<Longrightarrow> step_without_mint ext d a a'"
| wasm_sudo: "app_wasm_sudo ext n contract m a = (r1, a') \<Longrightarrow> step_without_mint ext d a a'"
| new_block: "set_block ext n block a = (r2, a') \<Longrightarrow> step_without_mint ext d a a'"
| changed_block: "update_block ext n action a = (r2, a') \<Longrightarrow> step_without_mint ext d a a'"
| new_code: "app_store_code_with_creator creator code a = (k, a') \<Longrightarrow> step_without_mint ext d a a'"
| new_code_id: "app_store_code_with_id creator code_id code a = (k1, a') \<Longrightarrow> step_without_mint ext d a a'"
| code_copy: "app_duplicate_code code_id a = (k1, a') \<Longrightarrow> step_without_mint ext d a a'"

lemma supply_step: "step_without_mint ext d a a' \<Longrightarrow> supply_rel ext d (ap_chain a) (ap_chain a')"
proof (induction rule: step_without_mint.induct)
  case (changed_block n action a r2 a')
  then show ?case
    by (cases "action (ap_block a)") (auto dest: update_block_None simp: update_block_Some intro: no_mint.set_block_rel)
qed (auto simp: app_store_code_with_creator_def app_store_code_with_id_def app_duplicate_code_def
    intro: no_mint.execute_multi_rel no_mint.app_sudo_rel no_mint.app_wasm_sudo_rel no_mint.set_block_rel dest!: on_keeper_chain)

text \<open>
  C7. No coins out of thin air. Take a denomination that is not the bonded one and not the name of a
  voucher. Whatever an application does - any messages, contracts, packets, slashing, blocks - as long as
  nobody mints the denomination with the privileged message of the bank, its supply never grows, and no
  account ever holds more of it than there was at the start.
\<close>
theorem no_coins_from_nothing:
  assumes "nb_laws ext" "(step_without_mint ext d)\<^sup>*\<^sup>* a a'" "bank_wf (ch_bank (ap_chain a))"
    and "d \<noteq> si_bonded_denom (get_staking_info (ch_staking (ap_chain a)))" "take 4 d \<noteq> ''ibc/''"
  shows "supply_of (ch_bank (ap_chain a')) d \<le> supply_of (ch_bank (ap_chain a)) d
    \<and> held (ch_bank (ap_chain a')) x d \<le> supply_of (ch_bank (ap_chain a)) d"
proof -
  have "supply_rel ext d (ap_chain a) (ap_chain a')"
    using assms(2)
  proof (induction rule: rtranclp_induct)
    case base
    show ?case using supply_order(1) by (rule reflpD)
  next
    case (step b c)
    show ?case by (rule transpD [OF supply_order(2) step.IH supply_step [OF step(2)]])
  qed
  then have "bank_wf (ch_bank (ap_chain a'))" "supply_of (ch_bank (ap_chain a')) d \<le> supply_of (ch_bank (ap_chain a)) d"
    using assms by (auto simp: supply_rel_def foreign_to_def)
  with held_le_supply [of "ch_bank (ap_chain a')" x d] show ?thesis by simp
qed

theorem no_coins_from_nothing_witness:
  "\<exists>r a'. execute_multi demo_ext 1 (Addr ''alice'') [MBank (BankBurn [\<lparr>c_denom = ''atom'', c_amount = 2\<rparr>])]
        ((default_app demo_ext demo_time)\<lparr>ap_chain := demo_bank\<rparr>) = (r, a')
    \<and> supply_of (ch_bank (ap_chain a')) ''atom'' \<le> 5 \<and> held (ch_bank (ap_chain a')) (Addr ''bob'') ''atom'' \<le> 5"
proof -
  let ?a = "(default_app demo_ext demo_time)\<lparr>ap_chain := demo_bank\<rparr>"
  obtain r a' where run: "execute_multi demo_ext 1 (Addr ''alice'') [MBank (BankBurn [\<lparr>c_denom = ''atom'', c_amount = 2\<rparr>])] ?a = (r, a')"
    by fastforce
  then have "(step_without_mint demo_ext ''atom'')\<^sup>*\<^sup>* ?a a'" by (intro r_into_rtranclp step_without_mint.messages)
  moreover have "supply_of (ch_bank demo_bank) ''atom'' = 5" by (simp add: demo_bank_def supply_of_def om_sum_def)
  moreover have "si_bonded_denom (get_staking_info (ch_staking demo_bank)) = ''TOKEN''"
    by (simp add: demo_bank_def empty_chain_def get_staking_info_def default_staking_info_def BONDED_DENOM_def)
  ultimately show ?thesis
    using no_coins_from_nothing [of demo_ext "''atom''" ?a a' "Addr ''bob''"] demo_bank_wf run by simp
qed

end
