(* ===== verification/Spec2Isabelle.thy ===== *)
theory Spec2Isabelle
  imports Channels Hooks Rewards Stakes Termination Bech32_Api Test_Contract_Facts Supply
begin

text \<open>
  A verification of cw-multi-test (\<open>src/src\<close>), the simulator of a CosmWasm chain: an application that
  keeps balances, stakes, contracts and IBC channels in one key-value storage, executes messages on it in
  transactions, and runs contracts that call back into it; and a relayer that connects two applications.

  \<^bold>\<open>The program and its model.\<close> Every theory models the files it names, function by function and under
  their names, each branch and error included; a procedure is a function from the state to an outcome
  (\<open>Ok\<close>, the code's \<open>Err\<close>, \<open>Panic\<close>, or \<open>NoFuel\<close>) and the state after it.

  \<^item> \<open>Prelude\<close>, \<open>Ordered_Map\<close>: outcomes and procedures, the loops of the code, decimal rendering,
    \<open>BTreeMap\<close> and \<open>BTreeSet\<close>.
  \<^item> \<open>Storage\<close>: the \<open>Storage\<close> trait as a table of operations and the locale \<open>storage\<close> of its laws.
    \<open>Transactions\<close> (\<open>transactions.rs\<close>): the write cache \<open>StorageTransaction\<close>, its log and the merging
    iterator. \<open>Prefixed_Storage\<close> (\<open>prefixed_storage/\<close>): namespaces, byte for byte, and \<open>Storage_Views\<close>: the
    typed and read-only views and the storage of a contract. Cache and namespace are proved to be storages
    again (interpretations of the locale), \<open>transactional_refines\<close> shows that a program cannot tell the cache
    from the storage and commits it as a whole or not at all, \<open>namespaces_isolated\<close> that two modules
    cannot see each other's keys, and \<open>contract_storage_refines\<close> that a contract cannot tell its view from a
    map of its own. This justifies the state of the other theories: a record with a part per module and a
    map per contract, and \<open>atomically\<close> for \<open>transactional\<close>.
  \<^item> \<open>Chain_Types\<close>, \<open>Chain_State\<close>: messages, queries, events, packets, errors; the state of the chain; the
    router interface (\<open>CosmosRouter\<close>); and \<open>ext\<close>, the functions of packages outside the repository
    (\<open>NativeBalance\<close>, \<open>Decimal256\<close>, \<open>Timestamp\<close>, the \<open>Api\<close>, serde, prost, hex, hashes). \<open>Ext_Model\<close> states what
    their documentation promises (\<open>nb_laws\<close>, \<open>dec_laws\<close>, \<open>time_laws\<close>; \<open>div_laws\<close> is in \<open>Rewards\<close>) and has
    an instance for evaluation.
  \<^item> \<open>Bank\<close> (\<open>bank.rs\<close>), \<open>Ibc_Memo\<close> (\<open>ibc/memo\<close>, wrapped denominations), \<open>Staking\<close> (\<open>staking.rs\<close>: staking
    and distribution keepers), \<open>Contracts\<close> (\<open>contracts.rs\<close>: the \<open>Contract\<close> trait, \<open>ContractWrapper\<close> and the
    adapters of contracts for \<open>Empty\<close> messages), \<open>Wasm\<close> (\<open>wasm.rs\<close>, \<open>addresses.rs\<close>, \<open>checksums.rs\<close>,
    \<open>error.rs\<close>), \<open>Ibc\<close> (\<open>ibc/simple_ibc.rs\<close>, \<open>ibc/types.rs\<close>, \<open>ibc/state.rs\<close>): the modules, with their
    messages, queries, privileged messages and IBC callbacks.
  \<^item> \<open>Router\<close> (\<open>Router\<close> of \<open>app.rs\<close>, \<open>module.rs\<close>, \<open>gov.rs\<close>, \<open>stargate.rs\<close>), \<open>Builder\<close> (\<open>app_builder.rs\<close>,
    generic in the ten parts of an application), \<open>App\<close> (\<open>App\<close> of \<open>app.rs\<close>, \<open>executor.rs\<close>,
    \<open>custom_handler.rs\<close>), \<open>Relayer\<close> (\<open>ibc/relayer\<close>): how the modules call each other, the entry points, and
    two applications with a relayer between them.
  \<^item> \<open>Bech32_Api\<close> (\<open>api.rs\<close>, \<open>addresses.rs\<close>): the \<open>Api\<close> with Bech32 addresses and \<open>IntoBech32\<close>; the
    package that writes and reads the format is a parameter with its round trip as hypothesis.

  \<^item> \<open>Test_Contracts\<close> (\<open>test_helpers/\<close>): the nine example contracts of the repository, entry point by entry
    point, wrapped with \<open>ContractWrapper\<close> as the code does it; serde, the keys of \<open>cw_storage_plus\<close> and the
    parsers of \<open>cw_utils\<close> are the parameter \<open>helper_ext\<close>.

  \<^bold>\<open>Fuel.\<close> A contract may send messages to itself for ever. \<open>router_at ext md n\<close> is the router below which
  \<open>n\<close> nested calls may follow; the call after that answers \<open>NoFuel\<close>, which every handler hands on.
  \<open>fuel_irrelevant\<close> shows that a run that returns with \<open>n\<close> returns the same with more, so the outcome is a
  matter of the message and the chain alone; \<open>contract_free_returns\<close> that the messages for which no contract
  runs, and the end of a block, return with two; \<open>self_call_never_returns\<close> that some runs have no end at
  all. Theorems that a run succeeds name a fuel that is enough and hold for every larger one. Contracts
  themselves are terminating programs (\<open>cprog\<close>) that may read and write their own storage and query the
  chain; they are arbitrary, so what is proved holds for any code.

  \<^bold>\<open>What the theorems show.\<close>

  \<^item> \<open>Chain_Steps\<close> states in the locale \<open>chain_moves\<close> which primitive writes of the modules a relation between
    the state before and after has to allow, and proves once that then every run of the router keeps it,
    however deeply messages, replies, queries and IBC callbacks nest; the relation may exclude privileged
    messages. \<open>chain_steps\<close> is the case where it need not, \<open>block_moves\<close> and \<open>block_steps\<close> extend both to the end of
    a block, \<open>app_history\<close> to the histories of an application (\<open>app_step\<close>): messages, privileged messages, blocks,
    new code, and tests that write to the storage of the contracts of a set \<open>E\<close> from outside
    (\<open>contract_storage_mut\<close>). Writing to the whole storage or to the keepers (\<open>storage_mut\<close>,
    \<open>prefixed_storage_mut\<close>, \<open>prefixed_multilevel_storage_mut\<close>, \<open>init_modules\<close>) can break any invariant and is not
    part of a history. The interpretations are the invariants of whole histories: \<open>Ibc_Ledger\<close> (the ledger of channels and packets, \<open>ledger\<close>) and
    \<open>Chain_Facts\<close> (contract instances, the typing of instances by the code registry, normalized balances,
    listed stakers) and \<open>Own_Code\<close> (a contract without an administrator keeps its code, and unless a test
    writes to it only runs of its code change its storage). \<open>Supply\<close> excludes one privileged message: without it no coins come from nothing.
  \<^item> What a code promises. The locale \<open>contract_promise\<close> of \<open>Own_Code\<close> turns a relation that every entry
    point of one code keeps into a fact about all histories of a chain; \<open>Lifecycle\<close> follows an instance from
    its instantiation on, and \<open>Test_Contract_Facts\<close> interprets the locale on the example contracts: what the
    payout contract pays, what the hackatom contract releases and what the reflect contract counts, after any
    history in which no test writes to their storage, with the bank, the router and the querier of the application below them.
  \<^item> \<open>Ibc_Facts\<close>, \<open>Channels\<close>, \<open>Transfers\<close>, \<open>Round_Trip\<close>: the life of a packet and of a channel across two chains, and where the
    coins of a transfer are: received at most once, acknowledged or timed out but not both, restored when
    they come back (\<open>token_round_trip\<close>), refunded by a timeout - except a returned voucher, which is lost
    (\<open>timeout_loses_voucher\<close>).
  \<^item> \<open>Hooks\<close>: transfers that call a contract on arrival (\<open>hook_runs_contract\<close>), and transfers that name a
    contract to call back, whose acknowledgement always fails (\<open>callback_never_acknowledged\<close>).
  \<^item> \<open>Rewards\<close>: the arithmetic of staking rewards in closed form, what a validator's delegators are credited,
    and that a withdrawal pays what the query promised.
  \<^item> \<open>Termination\<close> and \<open>Fuel\<close>: what the bound on nested calls changes (nothing), what needs none, and a
    contract that never returns.
  \<^item> \<open>Stakes\<close>: what \<open>Delegate\<close>, \<open>Undelegate\<close> and \<open>Redelegate\<close> do to the books of the validators, the bank and the
    unbonding queue, as an application runs them.
  \<^item> The theorems of \<open>Bank\<close>, \<open>Staking\<close>, \<open>Wasm\<close> say what one operation does: transfers, burning and supply;
    slashing and the unbonding queue; the code registry, instances, admins and migration, confinement of
    entry points, how responses, sub-messages and replies are put together, and what becomes of a failure.
  \<^item> This theory: what holds of an application as a whole.

  \<^bold>\<open>Abstractions.\<close> A store of \<open>cw_storage_plus\<close> is an ordered map (an \<open>Item\<close> an option, a \<open>Deque\<close> a list) and its
  values are not serialized: loading a value that was saved does not fail. A query of a contract sees the
  storage of its entry point's start, as in the code, where the querier has the read-only half of the
  transaction. Log output and gas are left out. \<open>Panic\<close> stops the test that runs the simulator; the state
  after it is that of the enclosing transaction's start, as an unwinding transaction is never committed.

  \<^bold>\<open>Not modelled.\<close> The builder is modelled for parts of any type, but a router is modelled for the keepers of
  \<open>BasicApp\<close> only (with failing, accepting or caching stubs where the code has them): a keeper a test writes
  itself is code outside the repository. The byte-level views of \<open>Storage_Views\<close> and the records of the other
  theories meet in \<open>transactional_refines\<close> and \<open>contract_storage_refines\<close>; the serialization between them is not
  modelled. \<open>Debug\<close> implementations, the macros of \<open>error.rs\<close> and its unused \<open>Error\<close> type, \<open>featured.rs\<close>
  (empty modules for builds without staking), \<open>lib.rs\<close>, \<open>test_helpers/mod.rs\<close> and \<open>ibc/events.rs\<close> declare modules,
  a message type of the tests and constants; the default methods of the trait \<open>Wasm\<close>, which panic, are
  overridden by the only keeper there is. \<open>tests/\<close> holds tests. Of code that depends on features the variant
  with all features is modelled.
\<close>

section \<open>IBC\<close>

text \<open>
  C14. The IBC ledger is permanent. Whatever an application does - messages, sudo calls, relayed
  packets, new blocks, new contract code, tests that write to the storage of contracts, in any number and
  with any outcome - the ledger stays well formed (\<open>ibc_wf\<close>) and only grows (\<open>ledger_grows\<close>): packets sent,
  received, acknowledged and timed out keep their data; an answer written for a received packet stays, and a
  packet that was received without an answer never gets one later; a handshake stays as it is until it
  becomes a channel with its order and connection; a channel keeps its endpoints, version and connection and
  never reopens; a connection keeps the chain it leads to and does not lose its counterparty (connecting it
  again may name another one); sequence numbers and channel numbers never go back. An empty chain is well
  formed.
\<close>
theorem ibc_ledger_permanent:
  assumes "(app_step ext E)\<^sup>*\<^sup>* a a'" "ibc_wf (ch_ibc (ap_chain a))"
  shows "ibc_wf (ch_ibc (ap_chain a')) \<and> ledger_grows (ch_ibc (ap_chain a)) (ch_ibc (ap_chain a'))
    \<and> ibc_wf (ch_ibc empty_chain)"
proof -
  note empty_ibc_wf
  with ledger_history.app_steps_rel [OF assms(1) TrueI] assms(2) show ?thesis by (simp add: ledger_rel_def ibc_step_def)
qed

theorem ibc_ledger_permanent_witness:
  "\<exists>a'. app_sudo demo_ext 1 (SudoIbc (RCreateConnection ''other'' None None)) (default_app demo_ext demo_time)
        = (Ok \<lparr>ar_events = [new_event ''connection_open'' [(''connection_id'', ''connection-0'')]], ar_data = None\<rparr>, a')
     \<and> ibc_wf (ch_ibc (ap_chain a'))"
proof -
  let ?a = "default_app demo_ext demo_time"
  let ?run = "app_sudo demo_ext 1 (SudoIbc (RCreateConnection ''other'' None None)) ?a"
  obtain r a' where run: "?run = (r, a')" by fastforce
  note c = default_app_parts [of demo_ext demo_time]
  have "fst ?run = Ok \<lparr>ar_events = [new_event ''connection_open'' [(''connection_id'', ''connection-0'')]], ar_data = None\<rparr>"
    by (simp add: app_sudo_eq c One_nat_def router_sudo_def ibc_sudo_def create_connection_def empty_chain_def
        proc_defs in_ibc_def atomically_def show_nat_0 Let_def)
  with run have ok: "r = Ok \<lparr>ar_events = [new_event ''connection_open'' [(''connection_id'', ''connection-0'')]], ar_data = None\<rparr>"
    by simp
  have "(app_step demo_ext {})\<^sup>*\<^sup>* ?a a'" using run by (intro r_into_rtranclp app_step.messages message_step.run_sudo)
  from ibc_ledger_permanent [OF this] run ok show ?thesis by (simp add: c empty_ibc_wf)
qed

text \<open>
  C5. A packet is received at most once. Once a receive has gone through, any later attempt to receive
  a packet with the same destination and sequence number - whatever history (\<open>app_step\<close>) lies in between, and
  whatever else the packet says - is refused with the error the code has for it, and changes nothing.
\<close>
theorem packet_received_once:
  assumes "ibc_wf (ch_ibc (ap_chain a))"
    and "app_sudo ext n (SudoIbc (RReceive p)) a = (Ok r, a1)"
    and "(app_step ext E)\<^sup>*\<^sup>* a1 a2"
    and "dest_key p' = dest_key p" "0 < k"
  shows "app_sudo ext k (SudoIbc (RReceive p')) a2
    = (Err (StdMsg ''You can't receive the same packet twice on the chain''), a2)"
proof -
  from assms(2) obtain j s where run: "receive_packet ext (router_at ext (ap_modules a) j) (ap_block a) p (ap_chain a) = (Ok r, s)"
      and a1: "ap_chain a1 = s"
    by (rule app_sudo_ibc_Ok) (simp add: ibc_sudo_def)
  note rec = receive_records [OF ledger_router assms(1) run]
  have "ledger_grows (ch_ibc s) (ch_ibc (ap_chain a2))"
    using ledger_history.app_steps_rel [OF assms(3) TrueI] rec(3) a1 by (simp add: ledger_rel_def ibc_step_def)
  note grow = ledger_growsD [OF this]
  have key: "(ep_port (pk_dest p'), ep_channel (pk_dest p')) = (ep_port (pk_dest p), ep_channel (pk_dest p))"
    using assms(4) by (simp add: dest_key_def)
  have "om_get (i_receive (ch_ibc (ap_chain a2))) (dest_key p') \<noteq> None"
    using grow(2) [OF rec(1)] assms(4) by simp
  moreover have "om_get (i_channels (ch_ibc (ap_chain a2))) (ep_port (pk_dest p'), ep_channel (pk_dest p')) \<noteq> None"
    unfolding key using rec(2) grow(5) by fastforce
  ultimately have "receive_packet ext (router_at ext (ap_modules a2) (k - 1)) (ap_block a2) p' (ap_chain a2)
      = (Err (StdMsg ''You can't receive the same packet twice on the chain''), ap_chain a2)"
    by (rule receive_again)
  then have "ibc_sudo ext (router_at ext (ap_modules a2) (k - 1)) (ap_block a2) (RReceive p') (ap_chain a2)
      = (Err (StdMsg ''You can't receive the same packet twice on the chain''), ap_chain a2)"
    by (simp add: ibc_sudo_def)
  from app_sudo_ibc_Err [OF this] assms(5) show ?thesis by simp
qed

theorem packet_received_once_witness:
  "fst (app_sudo demo_ext 1 (SudoIbc (RReceive (demo_packet None)))
      (snd (app_sudo demo_ext 1 (SudoIbc (RReceive (demo_packet (Some \<lparr>tb_revision = 0, tb_height = 1\<rparr>)))) (demo_app demo_ext))))
    = Err (StdMsg ''You can't receive the same packet twice on the chain'')"
proof -
  let ?p = "demo_packet (Some \<lparr>tb_revision = 0, tb_height = 1\<rparr>)"
  let ?run = "app_sudo demo_ext 1 (SudoIbc (RReceive ?p)) (demo_app demo_ext)"
  obtain r a1 where run: "?run = (r, a1)" by fastforce
  have g: "om_get (i_channels demo_ibc) (''transfer'', ''channel-0'') = Some demo_channel"
    "om_get (i_receive demo_ibc) x = None" for x
    by (simp_all add: demo_ibc_def)
  have "is_ok (fst ?run)"
    by (simp add: app_sudo_eq demo_app_parts One_nat_def router_sudo_def ibc_sudo_def receive_packet_def record_receive_def
        in_ibc_def proc_defs load_def atomically_def om_has_def
        Let_def demo_packet_def timed_out_def demo_time_def demo_channel_def g [unfolded demo_channel_def] dest_key_def)
  with run obtain x where ok: "r = Ok x" by (auto simp: is_ok_iff)
  have wf: "ibc_wf (ch_ibc (ap_chain (demo_app demo_ext)))" by (simp add: demo_app_parts demo_ibc_wf)
  have "dest_key (demo_packet None) = dest_key ?p" by (simp add: dest_key_def demo_packet_def)
  from packet_received_once [OF wf run [unfolded ok] rtranclp.rtrancl_refl this zero_less_one] run
  show ?thesis by simp
qed

text \<open>
  C6. A packet is settled once, one way. After an acknowledgement of a packet has gone through, every
  later acknowledgement and every later timeout of it is refused, and after a timeout has gone through,
  every later timeout and every later acknowledgement is, each with its own error and without any
  change - whatever history (\<open>app_step\<close>) lies in between and whatever the acknowledgement says.
\<close>
theorem packet_fate_final:
  assumes "ibc_wf (ch_ibc (ap_chain a))"
    and "app_sudo ext n (SudoIbc (if late then RTimeout p else RAcknowledge p ack)) a = (Ok r, a1)"
    and "(app_step ext E)\<^sup>*\<^sup>* a1 a2"
    and "src_key p' = src_key p" "0 < k"
  shows "app_sudo ext k (SudoIbc (RAcknowledge p' ack')) a2
      = (Err (StdMsg (if late then ''Packet has timed_out, can't acknowledge''
          else ''You can't ack the same packet twice on the chain'')), a2)
    \<and> app_sudo ext k (SudoIbc (RTimeout p')) a2
      = (Err (StdMsg (if late then ''You can't timeout an packet twice''
          else ''You can't timeout an acked packet'')), a2)"
proof -
  let ?i = "ch_ibc (ap_chain a2)" and ?x = "src_key p'"
  obtain k' where k: "k = Suc k'" using assms(5) by (cases k) simp_all
  from assms(2) obtain j s where run: "ibc_sudo ext (router_at ext (ap_modules a) j) (ap_block a)
      (if late then RTimeout p else RAcknowledge p ack) (ap_chain a) = (Ok r, s)" and a1: "ap_chain a1 = s"
    by (rule app_sudo_ibc_Ok) simp
  have s: "ibc_wf (ch_ibc s)" "om_get (i_channels (ch_ibc s)) (ep_port (pk_src p), ep_channel (pk_src p)) \<noteq> None"
    and settled: "if late then om_get (i_timeout (ch_ibc s)) ?x = Some True else om_get (i_send_ack (ch_ibc s)) ?x = Some ack"
    using run timeout_records [OF ledger_router assms(1)] ack_records [OF ledger_router assms(1)] assms(4)
    by (simp_all add: ibc_sudo_def split: if_splits)
  have wf: "ibc_wf ?i" and "ledger_grows (ch_ibc s) ?i"
    using ledger_history.app_steps_rel [OF assms(3) TrueI] s(1) a1 by (simp_all add: ledger_rel_def ibc_step_def)
  note grow = ledger_growsD [OF this(2)]
  have key: "(ep_port (pk_src p'), ep_channel (pk_src p')) = (ep_port (pk_src p), ep_channel (pk_src p))"
    using assms(4) by (simp add: src_key_def)
  have c: "om_get (i_channels ?i) (ep_port (pk_src p'), ep_channel (pk_src p')) \<noteq> None"
    unfolding key using s(2) grow(5) by fastforce
  have f: "om_get (i_send ?i) ?x \<noteq> None"
      "om_get (i_send_ack ?i) ?x \<noteq> None \<or> om_get (i_timeout ?i) ?x \<noteq> None"
      "(om_get (i_send_ack ?i) ?x \<noteq> None) = (\<not> late)"
    using settled fates [OF wf] grow(3,4) by (auto split: if_splits)
  have "ibc_sudo ext (router_at ext (ap_modules a2) k') (ap_block a2) (RAcknowledge p' ack') (ap_chain a2)
      = (Err (StdMsg (if late then ''Packet has timed_out, can't acknowledge''
          else ''You can't ack the same packet twice on the chain'')), ap_chain a2)"
    using ack_again [OF f(1,2) c] f(3) by (simp add: ibc_sudo_def)
  moreover have "ibc_sudo ext (router_at ext (ap_modules a2) k') (ap_block a2) (RTimeout p') (ap_chain a2)
      = (Err (StdMsg (if late then ''You can't timeout an packet twice''
          else ''You can't timeout an acked packet'')), ap_chain a2)"
    using timeout_again [OF f(2) c] f(3) by (simp add: ibc_sudo_def)
  ultimately show ?thesis unfolding k by (intro conjI app_sudo_ibc_Err)
qed

theorem packet_fate_final_witness:
  "fst (app_sudo ics20_ext 2 (SudoIbc (RTimeout (demo_packet None)))
      (snd (app_sudo ics20_ext 2 (SudoIbc (RAcknowledge (demo_packet None) [7])) (demo_app ics20_ext))))
    = Err (StdMsg ''You can't timeout an acked packet'')"
proof -
  let ?run = "app_sudo ics20_ext 2 (SudoIbc (RAcknowledge (demo_packet None) [7])) (demo_app ics20_ext)"
  obtain r a1 where run: "?run = (r, a1)" by fastforce
  have "is_ok (fst ?run)"
    by (simp add: app_sudo_eq demo_app_parts numeral_2_eq_2 router_sudo_def ibc_sudo_def acknowledge_packet_def
        record_ack_def in_ibc_def proc_defs load_def atomically_def om_has_def lift_result_def parse_port_def
        BANK_MODULE_PORT_def module_of_port_def router_ibc_def bank_packet_ack_def parse_ibc_hooks_callback_memo_def
        parse_ics20_memo_callback_def ics20_ext_def demo_ext_def demo_ics20_def
        Let_def demo_packet_def demo_channel_def demo_ibc_def src_key_def)
  with run obtain x where ok: "r = Ok x" by (auto simp: is_ok_iff)
  have wf: "ibc_wf (ch_ibc (ap_chain (demo_app ics20_ext)))" by (simp add: demo_app_parts demo_ibc_wf)
  from run ok have "app_sudo ics20_ext 2 (SudoIbc (if False then RTimeout (demo_packet None)
      else RAcknowledge (demo_packet None) [7])) (demo_app ics20_ext) = (Ok x, a1)" by simp
  from packet_fate_final [OF wf this rtranclp.rtrancl_refl refl, of 2] run show ?thesis by simp
qed

section \<open>Relaying\<close>

text \<open>
  C20. Relaying settles a packet on both chains. When \<open>relay_packet\<close> succeeds, the packet stored on the
  source under the port, channel and sequence has been received on the destination, marked late exactly
  if the destination's block had reached its timeout, and on the source it is either timed out or
  acknowledged with the very acknowledgement the relayer reports; and relaying it a second time is
  refused and changes neither chain.
\<close>
theorem relay_packet_settles:
  assumes "json_laws ext" "ibc_wf (ch_ibc (ap_chain src))" "ibc_wf (ch_ibc (ap_chain dst))"
    and "relay_packet ext n port channel q (src, dst) = (Ok res, (src', dst'))"
  shows "\<exists>p. om_get (i_send (ch_ibc (ap_chain src))) (port, channel, q) = Some p
    \<and> om_get (i_receive (ch_ibc (ap_chain dst'))) (dest_key p)
        = Some \<lparr>pr_data = p, pr_timeout = timed_out (ap_block dst) (pk_timeout p)\<rparr>
    \<and> (case rr_result res of
          RelayTimeout _ _ \<Rightarrow> om_get (i_timeout (ch_ibc (ap_chain src'))) (port, channel, q) = Some True
        | RelayAck _ ack \<Rightarrow> om_get (i_send_ack (ch_ibc (ap_chain src'))) (port, channel, q) = Some ack)
    \<and> relay_packet ext (Suc k) port channel q (src', dst')
        = (Err (StdMsg ''You can't receive the same packet twice on the chain''), (src', dst'))"
proof -
  from relay_packet_Ok [OF assms(1,4)] obtain p b rcv dst1 where
      p: "om_get (i_send (ch_ibc (ap_chain src))) (port, channel, q) = Some p"
      and b: "x_to_json ext (JPacket p) = Inr b" "x_parse_packet ext b = Inr p"
      and rcv: "app_sudo ext n (SudoIbc (RReceive p)) dst = (Ok rcv, dst1)"
      and "(if has_event_type rcv ''timeout_received_packet'' then relay_timeout ext n port channel p rcv
        else relay_ack ext n p rcv) (src, dst1) = (Ok res, (src', dst'))" .
  then have rest: "relay_timeout ext n port channel p rcv (src, dst1) = (Ok res, (src', dst'))
      \<or> relay_ack ext n p rcv (src, dst1) = (Ok res, (src', dst'))"
    by (auto split: if_splits)
  note R = app_receive_records [OF assms(3) rcv]
  have key: "src_key p = (port, channel, q)" by (rule sent_named [OF assms(2) p])
  have "dst' = dst1" and settled: "(case rr_result res of
          RelayTimeout _ _ \<Rightarrow> om_get (i_timeout (ch_ibc (ap_chain src'))) (port, channel, q) = Some True
        | RelayAck _ ack \<Rightarrow> om_get (i_send_ack (ch_ibc (ap_chain src'))) (port, channel, q) = Some ack)"
    and grow: "ledger_grows (ch_ibc (ap_chain src)) (ch_ibc (ap_chain src'))"
    using rest relay_timeout_Ok [OF assms(2)] relay_ack_Ok [OF assms(2)] key by fastforce+
  have "om_get (i_send (ch_ibc (ap_chain src'))) (port, channel, q) = Some p"
    using ledger_growsD(1) [OF grow p] .
  then have "relay_packet ext (Suc k) port channel q (src', dst')
        = (Err (StdMsg ''You can't receive the same packet twice on the chain''), (src', dst'))"
    using app_receive_again [of dst' p ext k] R b \<open>dst' = dst1\<close>
    by (simp add: relay_packet_def bindM_def send_packet_query sudo_ibc_def on_chain_parts)
  with p R(1) settled \<open>dst' = dst1\<close> show ?thesis by blast
qed

theorem relay_packet_settles_witness:
  "fst (relay_packet relay_ext 2 ''transfer'' ''channel-0'' 1
      (snd (relay_packet relay_ext 2 ''transfer'' ''channel-0'' 1 (demo_app relay_ext, demo_app relay_ext))))
    = Err (StdMsg ''You can't receive the same packet twice on the chain'')"
proof -
  let ?run = "relay_packet relay_ext 2 ''transfer'' ''channel-0'' 1 (demo_app relay_ext, demo_app relay_ext)"
  obtain r src dst where run: "?run = (r, (src, dst))" by (metis prod.exhaust)
  with demo_relays obtain x where ok: "r = Ok x" by auto
  have wf: "ibc_wf (ch_ibc (ap_chain (demo_app relay_ext)))" by (simp add: demo_app_parts demo_ibc_wf)
  from relay_packet_settles [OF json_laws_relay wf wf run [unfolded ok], of 1] run show ?thesis
    by (auto simp: numeral_2_eq_2)
qed

text \<open>
  Connecting two chains always succeeds and is mutual. \<open>create_connection\<close> of the relayer gives each
  chain one new connection, under a name not used there before, that names the other chain and the
  other end; every other connection stays as it is.
\<close>
theorem relay_connection_mutual:
  assumes "ibc_wf (ch_ibc (ap_chain src))" "ibc_wf (ch_ibc (ap_chain dst))"
  shows "\<exists>c1 c2 src' dst'. relay_connection ext (Suc n) (src, dst) = (Ok (c1, c2), (src', dst'))
    \<and> om_get (i_connections (ch_ibc (ap_chain src))) c1 = None
    \<and> om_get (i_connections (ch_ibc (ap_chain dst))) c2 = None
    \<and> om_get (i_connections (ch_ibc (ap_chain src')))
       = (om_get (i_connections (ch_ibc (ap_chain src))))
           (c1 \<mapsto> \<lparr>cn_counterparty = Some c2, cn_chain = bl_chain_id (ap_block dst)\<rparr>)
    \<and> om_get (i_connections (ch_ibc (ap_chain dst')))
       = (om_get (i_connections (ch_ibc (ap_chain dst))))
           (c2 \<mapsto> \<lparr>cn_counterparty = Some c1, cn_chain = bl_chain_id (ap_block src)\<rparr>)"
proof -
  let ?n = "\<lambda>a. conn_name (length (i_connections (ch_ibc (ap_chain a))))"
  let ?c1 = "?n src" and ?c2 = "?n dst"
  let ?d1 = "\<lparr>cn_counterparty = None, cn_chain = bl_chain_id (ap_block dst)\<rparr>"
    and ?d2 = "\<lparr>cn_counterparty = Some ?c1, cn_chain = bl_chain_id (ap_block src)\<rparr>"
  let ?src' = "connect ?c1 (?d1\<lparr>cn_counterparty := Some ?c2\<rparr>) (connect ?c1 ?d1 src)" and ?dst' = "connect ?c2 ?d2 dst"
  have again: "sudo_ibc ext (Suc n) (RCreateConnection (bl_chain_id (ap_block dst)) (Some ?c1) (Some ?c2)) (connect ?c1 ?d1 src)
      = (Ok (connection_event ?c1), ?src')"
    by (rule create_known) simp_all
  have "relay_connection ext (Suc n) (src, dst) = (Ok (?c1, ?c2), (?src', ?dst'))"
    using again
    by (simp add: relay_connection_def bindM_def on_chain_parts reads_def app_block_info_def create_fresh Let_def
        connection_event_id lift_result_def ret_def thenM_def)
  moreover have "om_get (i_connections (ch_ibc (ap_chain src))) ?c1 = None" "om_get (i_connections (ch_ibc (ap_chain dst))) ?c2 = None"
    using assms by (simp_all add: fresh_connection)
  ultimately show ?thesis by (auto simp: fun_upd_def)
qed

theorem relay_connection_mutual_witness:
  "\<exists>src' dst'. relay_connection demo_ext 1 (demo_app demo_ext, default_app demo_ext demo_time)
      = (Ok (''connection-1'', ''connection-0''), (src', dst'))"
proof -
  note e = default_app_parts [of demo_ext demo_time]
  have "ibc_wf (ch_ibc (ap_chain (demo_app demo_ext)))" "ibc_wf (ch_ibc (ap_chain (default_app demo_ext demo_time)))"
    by (simp_all add: demo_app_parts demo_ibc_wf e empty_ibc_wf)
  from relay_connection_mutual [OF this, of demo_ext 0]
  obtain c1 c2 z where run: "relay_connection demo_ext 1 (demo_app demo_ext, default_app demo_ext demo_time) = (Ok (c1, c2), z)"
    by auto
  have "show_nat 1 = ''1''" by code_simp
  then have "conn_name 1 = ''connection-1''" by (simp add: conn_name_def)
  with run have "c1 = ''connection-1'' \<and> c2 = ''connection-0''"
    by (auto simp: relay_connection_def bindM_Ok_iff thenM_Ok_iff on_src_Ok on_dst_Ok reads_def create_fresh Let_def
        connection_event_id demo_app_parts e demo_ibc_def empty_chain_def demo_names One_nat_def)
  with run show ?thesis by (cases z) auto
qed

section \<open>The application\<close>

lemma collectM_append:
  "collectM f (xs @ ys) = bindM (collectM f xs) (\<lambda>r1. bindM (collectM f ys) (\<lambda>r2. ret (r1 @ r2)))"
proof (induction xs)
  case Nil
  have "bindM m ret = m" for m :: "('a, 'b, 'c list) proc"
    by (rule ext) (simp add: bindM_def ret_def split: prod.split outcome.split)
  then show ?case by simp
qed (simp add: bindM_assoc)

lemma extends_on_chain: "(\<And>md b. extends (m md b) (m' md b)) \<Longrightarrow> extends (on_chain m) (on_chain m')"
proof (rule extendsI)
  fix a :: app
  assume "\<And>md b. extends (m md b) (m' md b)"
  then have "extends (zoom ap_chain (\<lambda>s a. a\<lparr>ap_chain := s\<rparr>) (m (ap_modules a) (ap_block a)))
      (zoom ap_chain (\<lambda>s a. a\<lparr>ap_chain := s\<rparr>) (m' (ap_modules a) (ap_block a)))"
    by (rule extends_zoom)
  then show "fst (on_chain m a) = NoFuel \<or> on_chain m' a = on_chain m a"
    unfolding extends_def on_chain_def by blast
qed

lemma execute_multi_eq: "execute_multi ext n sender msgs a
    = (case atomically (collectM (\<lambda>msg. r_execute (router_at ext (ap_modules a) n) (ap_block a) sender msg) msgs) (ap_chain a) of
        (r, s) \<Rightarrow> (r, a\<lparr>ap_chain := s\<rparr>))"
  by (simp add: execute_multi_def on_chain_def zoom_def)

text \<open>
  C12. A batch of messages is one transaction. Executing the empty batch does nothing; executing two
  batches as one gives the responses of the first followed by those of the second, with the second run
  in the state the first left, if both succeed - and otherwise the first failure, with the application
  as it was before the whole batch. A batch that does not succeed changes nothing.
\<close>
theorem execute_multi_atomic:
  "execute_multi ext n sender [] a = (Ok [], a)
   \<and> execute_multi ext n sender (xs @ ys) a = (case execute_multi ext n sender xs a of
       (Ok r1, a1) \<Rightarrow> (case execute_multi ext n sender ys a1 of
           (Ok r2, a2) \<Rightarrow> (Ok (r1 @ r2), a2)
         | (r, _) \<Rightarrow> (r, a))
     | (r, _) \<Rightarrow> (r, a))
   \<and> (is_ok (fst (execute_multi ext n sender xs a)) \<or> snd (execute_multi ext n sender xs a) = a)"
proof (intro conjI)
  show "execute_multi ext n sender [] a = (Ok [], a)"
    by (simp add: execute_multi_eq atomically_def ret_def)
  let ?f = "\<lambda>msg. r_execute (router_at ext (ap_modules a) n) (ap_block a) sender msg"
  show "execute_multi ext n sender (xs @ ys) a = (case execute_multi ext n sender xs a of
       (Ok r1, a1) \<Rightarrow> (case execute_multi ext n sender ys a1 of
           (Ok r2, a2) \<Rightarrow> (Ok (r1 @ r2), a2)
         | (r, _) \<Rightarrow> (r, a))
     | (r, _) \<Rightarrow> (r, a))"
    by (cases "collectM ?f xs (ap_chain a)"; cases "fst (collectM ?f xs (ap_chain a))";
        cases "collectM ?f ys (snd (collectM ?f xs (ap_chain a)))";
        cases "fst (collectM ?f ys (snd (collectM ?f xs (ap_chain a))))")
      (simp_all add: execute_multi_eq collectM_append bindM_def atomically_def ret_def)
  show "is_ok (fst (execute_multi ext n sender xs a)) \<or> snd (execute_multi ext n sender xs a) = a"
    by (cases "collectM ?f xs (ap_chain a)"; cases "fst (collectM ?f xs (ap_chain a))")
      (simp_all add: execute_multi_eq atomically_def)
qed

text \<open>
  The fuel of the model decides nothing. If a batch of messages, a sudo call or a query returns anything at
  all with some fuel - a value, an error or a panic - it returns the same, in the same state, with more.
\<close>
lemma fuel_irrelevant:
  assumes "n \<le> n'"
  shows "(fst (execute_multi ext n sender msgs a) = NoFuel
      \<or> execute_multi ext n' sender msgs a = execute_multi ext n sender msgs a)
    \<and> (fst (app_sudo ext n msg a) = NoFuel \<or> app_sudo ext n' msg a = app_sudo ext n msg a)
    \<and> (fst (app_query ext n request a) = NoFuel \<or> app_query ext n' request a = app_query ext n request a)"
proof -
  note rt = router_at_extends [OF assms]
  have "extends (execute_multi ext n sender msgs) (execute_multi ext n' sender msgs)"
    unfolding execute_multi_def by (intro extends_on_chain fuel_intro rt)
  then have 1: "fst (execute_multi ext n sender msgs a) = NoFuel
      \<or> execute_multi ext n' sender msgs a = execute_multi ext n sender msgs a"
    unfolding extends_def by blast
  have "extends (app_sudo ext n msg) (app_sudo ext n' msg)"
    unfolding app_sudo_def by (intro extends_on_chain fuel_intro rt)
  then have 2: "fst (app_sudo ext n msg a) = NoFuel \<or> app_sudo ext n' msg a = app_sudo ext n msg a"
    unfolding extends_def by blast
  let ?rt = "\<lambda>n. router_at ext (ap_modules a) n"
  have "r_query (?rt n) (ap_block a) request (ap_chain a) = NoFuel
      \<or> r_query (?rt n') (ap_block a) request (ap_chain a) = r_query (?rt n) (ap_block a) request (ap_chain a)"
    using rt [of ext "ap_modules a"] by (simp add: router_extends_def outcome_extends_def)
  then have 3: "fst (app_query ext n request a) = NoFuel \<or> app_query ext n' request a = app_query ext n request a"
    by (auto simp: app_query_def bindM_def reads_def lift_outcome_def)
  from 1 2 3 show ?thesis by blast
qed

text \<open>
  C31. What no contract is run for always returns. Bank, staking, distribution, governance, stargate
  and custom messages, IBC transfers and packets, changes of an admin, and the end of a block need no
  more than two nested calls of the router, whatever the state of the chain.
\<close>
theorem contract_free_returns:
  assumes "list_all contract_free msgs"
  shows "fst (execute_multi ext (Suc (Suc n)) sender msgs a) \<noteq> NoFuel
    \<and> fst (set_block ext (Suc n) block a) \<noteq> NoFuel"
proof
  let ?rt = "\<lambda>n. router_at ext (ap_modules a) n"
  have "list_all (\<lambda>m. ends (r_execute (?rt (Suc (Suc n))) (ap_block a) sender m)) msgs"
    using assms answers_bank_at by (fastforce simp: list_all_iff intro: contract_free_ends)
  then have "ends (atomically (collectM (\<lambda>m. r_execute (?rt (Suc (Suc n))) (ap_block a) sender m) msgs))"
    by (intro ends_intro)
  then show "fst (execute_multi ext (Suc (Suc n)) sender msgs a) \<noteq> NoFuel"
    by (simp add: execute_multi_eq ends_def split_beta)
  have "ends (process_queue ext (router_at ext md (Suc n)) b)" for md b
    by (intro ends_process_queue answers_bank_at)
  then show "fst (set_block ext (Suc n) block a) \<noteq> NoFuel"
    by (auto simp: set_block_def process_app_queue_def unwrapM_def on_chain_def zoom_def thenM_def bindM_def
        modifies_def ret_def ends_def split: prod.splits outcome.splits) (metis fst_conv)
qed

theorem contract_free_returns_witness:
  "fst (execute_multi demo_ext 2 (Addr ''alice'') [MBank (BankBurn []), MStaking (Delegate ''val'' \<lparr>c_denom = ''TOKEN'', c_amount = 5\<rparr>)]
     (demo_app demo_ext)) \<noteq> NoFuel"
  using contract_free_returns [of "[MBank (BankBurn []), MStaking (Delegate ''val'' \<lparr>c_denom = ''TOKEN'', c_amount = 5\<rparr>)]"
      demo_ext 0 "Addr ''alice''" "demo_app demo_ext" "demo_time"]
  by (simp add: contract_free_def numeral_2_eq_2)

text \<open>
  C33. A contract that calls itself never returns. If the first message of every response of a
  contract is a call of that contract, then executing it does not return, whatever the fuel: no
  \<open>reply_on\<close> of the message can catch it, and nothing else of the batch is reached. The bound on nested
  calls of the model is therefore needed, and the code has none of its own.
\<close>
theorem self_call_never_returns:
  assumes "self_caller address msg code" "x_addr_validate ext (addr_str address) = Inr address"
    and "om_get (w_contracts (ch_wasm (ap_chain a))) address = Some c"
    and "\<And>s :: chain. contract_code (md_wasm (ap_modules a)) (cd_code_id c) s = (Ok code, s)"
  shows "fst (execute_multi ext n sender (MWasm (WasmExecute (addr_str address) m []) # msgs) a) = NoFuel"
  by (simp add: execute_multi_def on_chain_def zoom_def split_beta NoFuel_run(1,3)
      self_call_out_of_fuel [OF assms(1,2,4,3)])

definition looping_contract :: contract where
  "looping_contract = idle_contract\<lparr>ct_execute := (\<lambda>env info m. CDone (Inr \<lparr>rs_messages =
     [\<lparr>sm_id = 1, sm_payload = [], sm_msg = MWasm (WasmExecute ''loop'' [] []),
       sm_reply_on = ReplyAlways\<rparr>],
     rs_attributes = [], rs_events = [], rs_data = None\<rparr>))\<rparr>"

definition looping_app :: app where
  "looping_app = (demo_app demo_ext)\<lparr>
     ap_modules := (ap_modules (demo_app demo_ext))\<lparr>md_wasm :=
       save_code 1 (Addr ''creator'') looping_contract (default_wasm_keeper demo_ext)\<rparr>,
     ap_chain := empty_chain\<lparr>ch_wasm := \<lparr>w_contracts = [(Addr ''loop'', \<lparr>cd_code_id = 1,
       cd_creator = Addr ''creator'', cd_admin = None, cd_label = ''loop'', cd_created = 1\<rparr>)], w_storage = []\<rparr>\<rparr>\<rparr>"

theorem self_call_never_returns_witness:
  "\<forall>n. fst (execute_multi demo_ext n (Addr ''alice'') [MWasm (WasmExecute ''loop'' [] [])] looping_app) = NoFuel"
proof
  fix n
  let ?c = "\<lparr>cd_code_id = 1, cd_creator = Addr ''creator'', cd_admin = None, cd_label = ''loop'', cd_created = 1\<rparr>"
  have "contract_code (md_wasm (ap_modules looping_app)) (cd_code_id ?c) s = (Ok looping_contract, s)" for s :: chain
    using save_code_lookup(1) [OF keeper_wf_default [of demo_ext], of 1 "Addr ''creator''" looping_contract s]
    by (simp add: looping_app_def default_wasm_keeper_def)
  moreover have "self_caller (Addr ''loop'') [] looping_contract"
    by (simp add: self_caller_def looping_contract_def)
  ultimately show "fst (execute_multi demo_ext n (Addr ''alice'') [MWasm (WasmExecute ''loop'' [] [])] looping_app) = NoFuel"
    using self_call_never_returns [where address = "Addr ''loop''" and c = ?c and a = looping_app and msgs = "[]"
        and ext = demo_ext and m = "[]" and sender = "Addr ''alice''" and n = n]
    by (simp add: looping_app_def demo_ext_def)
qed

section \<open>What every run keeps\<close>

text \<open>
  A contract instance is permanent. Whatever an application does, an address at which a contract
  was instantiated keeps a contract, with the same creator, label and creation height; only its code
  and its admin can change.
\<close>
theorem contracts_permanent:
  assumes "(app_step ext E)\<^sup>*\<^sup>* a a'" "om_get (w_contracts (ch_wasm (ap_chain a))) address = Some c"
  shows "\<exists>c'. om_get (w_contracts (ch_wasm (ap_chain a'))) address = Some c'
    \<and> cd_creator c' = cd_creator c \<and> cd_label c' = cd_label c \<and> cd_created c' = cd_created c"
  using instances_history.app_steps_rel [OF assms(1) TrueI] assms(2) by (auto simp: instances_rel_def same_instance_def)

definition demo_instance :: contract_data where
  "demo_instance = \<lparr>cd_code_id = 1, cd_creator = Addr ''alice'', cd_admin = None, cd_label = ''demo'', cd_created = 1\<rparr>"

definition demo_contract_app :: app where
  "demo_contract_app = (demo_app demo_ext)\<lparr>ap_chain := empty_chain\<lparr>ch_wasm :=
     \<lparr>w_contracts = [(Addr ''contract'', demo_instance)], w_storage = []\<rparr>\<rparr>\<rparr>"

theorem contracts_permanent_witness:
  "\<exists>c'. om_get (w_contracts (ch_wasm (ap_chain (snd (execute_multi demo_ext 2 (Addr ''alice'')
       [MWasm (WasmClearAdmin ''contract'')] demo_contract_app))))) (Addr ''contract'') = Some c' \<and> cd_label c' = ''demo''"
proof -
  let ?run = "execute_multi demo_ext 2 (Addr ''alice'') [MWasm (WasmClearAdmin ''contract'')] demo_contract_app"
  have "app_step demo_ext {} demo_contract_app (snd ?run)"
    by (rule app_step.messages, rule message_step.run_messages) (rule prod.collapse [symmetric])
  moreover have "om_get (w_contracts (ch_wasm (ap_chain demo_contract_app))) (Addr ''contract'') = Some demo_instance"
    by (simp add: demo_contract_app_def)
  ultimately show ?thesis
    using contracts_permanent [of demo_ext "{}" demo_contract_app "snd ?run" "Addr ''contract''" demo_instance]
    by (auto simp: demo_instance_def)
qed


text \<open>
  C24. Instantiating a contract registers it. When \<open>instantiate_contract\<close> returns an address - with the
  documented round trip of the response encoding - no instance had this address before, the label is not
  empty, and the code can be loaded, though the code id is only checked against the number of codes. What
  happened: the requested instance - with this code id, sender, admin and label, at the current height - was
  registered under the address, and no other; the funds were paid to it from the sender; \<open>instantiate\<close> of the
  code ran on its storage with the sender, the funds and the message; from this state, and no other, the
  messages of the response were run. Afterwards the instance has the requested creator, label and height -
  its code id and admin can only have been changed by these messages: when there are none, the state is the
  one \<open>instantiate\<close> left, and without an admin the record is the requested one in any case.
\<close>
theorem instantiate_contract_registers:
  assumes "\<forall>a d. x_parse_instantiate ext (x_encode_instantiate ext a d) = Inr a"
    and "instantiate_contract ext n code_id sender msg funds label admin a = (Ok address, a')"
  shows "let c = \<lparr>cd_code_id = code_id, cd_creator = sender, cd_admin = map_option Addr admin, cd_label = label,
      cd_created = bl_height (ap_block a)\<rparr>;
      wk = md_wasm (ap_modules a); info = \<lparr>mi_sender = sender, mi_funds = funds\<rparr>
    in om_get (w_contracts (ch_wasm (ap_chain a))) address = None \<and> label \<noteq> [] \<and> unat code_id \<le> length (wk_code_data wk)
    \<and> (\<exists>m k b s code q res st e r. msg = Inr m
        \<and> s = (ap_chain a)\<lparr>ch_bank := b, ch_wasm := (ch_wasm (ap_chain a))
            \<lparr>w_contracts := om_insert address c (w_contracts (ch_wasm (ap_chain a)))\<rparr>\<rparr>
        \<and> funds_paid ext sender address funds (ch_bank (ap_chain a)) b
        \<and> contract_code wk code_id s = (Ok code, s)
        \<and> run_cprog q (ct_instantiate code (get_env address (ap_block a)) info m)
            (contract_storage (ap_chain a) address) = (Ok res, st)
        \<and> process_at ext (router_at ext (ap_modules a) k) wk k (ap_block a) address (build_app_response address e res)
            (put_contract_storage address st s) = (Ok r, ap_chain a')
        \<and> (rs_messages res = [] \<longrightarrow> ap_chain a' = put_contract_storage address st s))
    \<and> (\<exists>c'. om_get (w_contracts (ch_wasm (ap_chain a'))) address = Some c' \<and> same_instance c c'
        \<and> (admin = None \<longrightarrow> c' = c))"
proof -
  let ?wk = "md_wasm (ap_modules a)"
  let ?c = "\<lparr>cd_code_id = code_id, cd_creator = sender, cd_admin = map_option Addr admin, cd_label = label,
    cd_created = bl_height (ap_block a)\<rparr>"
  have "instantiate_codec ext" using assms(1) by (simp add: instantiate_codec_def)
  then obtain m k b s s' code q res st e r0 where fresh: "msg = Inr m" "om_get (w_contracts (ch_wasm (ap_chain a))) address = None"
      "label \<noteq> []" "unat code_id \<le> length (wk_code_data ?wk)"
      and s: "s = (ap_chain a)\<lparr>ch_bank := b, ch_wasm := (ch_wasm (ap_chain a))
        \<lparr>w_contracts := om_insert address ?c (w_contracts (ch_wasm (ap_chain a)))\<rparr>\<rparr>"
      and paid: "funds_paid ext sender address funds (ch_bank (ap_chain a)) b"
      and code: "code_at ?wk code_id = Some code"
      and run: "run_cprog q (ct_instantiate code (get_env address (ap_block a)) \<lparr>mi_sender = sender, mi_funds = funds\<rparr> m)
        (contract_storage (ap_chain a) address) = (Ok res, st)"
      and proc: "process_at ext (router_at ext (ap_modules a) k) ?wk k (ap_block a) address
        (build_app_response address e res) (put_contract_storage address st s) = (Ok r0, s')"
      and a': "a' = a\<lparr>ap_chain := s'\<rparr>"
    by (rule instantiate_contract_Ok [OF _ assms(2)])
  have c: "om_get (w_contracts (ch_wasm (put_contract_storage address st s))) address = Some ?c" by (simp add: s)
  have "instances_rel (put_contract_storage address st s) s'"
    using ok_runsD [OF instances.process_at_ok [OF instances.router_at_ok [OF refl]] proc] .
  with c obtain c' where "om_get (w_contracts (ch_wasm s')) address = Some c'" "same_instance ?c c'"
    unfolding instances_rel_def by blast
  moreover have "own_rel ?wk (put_contract_storage address st s) s'"
    using ok_runsD [OF own.process_at_ok [OF own.router_at_ok [OF refl]] proc] .
  then have "om_get (w_contracts (ch_wasm s')) address = Some ?c" if "admin = None"
    using own_relD(1) [OF _ c] that by simp
  moreover have "s' = put_contract_storage address st s" if "rs_messages res = []"
    using proc that by (auto simp: process_at_def process_response_def build_app_response_def ok_iffs)
  moreover have "contract_code ?wk code_id s = (Ok code, s)" using code by (simp add: contract_code_Ok_iff)
  ultimately show ?thesis
    unfolding Let_def using fresh s paid run proc a'
    by (intro conjI exI [of _ m] exI [of _ k] exI [of _ b] exI [of _ s] exI [of _ code] exI [of _ q] exI [of _ res]
        exI [of _ st] exI [of _ e] exI [of _ r0]) auto
qed

text \<open>A keeper with one contract that does nothing, and addresses that are the instance's name.\<close>

definition instance_ext :: ext where
  "instance_ext = demo_ext\<lparr>x_encode_instantiate := (\<lambda>a d. as_bytes a)\<rparr>"

definition instance_app :: app where
  "instance_app = (demo_app instance_ext)\<lparr>ap_modules := (ap_modules (demo_app instance_ext))\<lparr>md_wasm :=
     demo_keeper\<lparr>wk_address := (\<lambda>code_id instance_id. Inr (Addr ''first''))\<rparr>\<rparr>\<rparr>"

lemma instance_codec: "instantiate_codec instance_ext"
  by (simp add: instantiate_codec_def instance_ext_def demo_ext_def string_of_bytes)

lemma instance_app_parts:
  "md_wasm (ap_modules instance_app) = demo_keeper\<lparr>wk_address := (\<lambda>code_id instance_id. Inr (Addr ''first''))\<rparr>"
  "ap_chain instance_app = empty_chain\<lparr>ch_ibc := demo_ibc\<rparr>" "ap_block instance_app = demo_time"
  by (simp_all add: instance_app_def demo_app_parts)

lemma instance_code: "contract_code (demo_keeper\<lparr>wk_address := g\<rparr>) 1 s = (Ok idle_contract, s)"
  using demo_contract_code [of s] by (simp add: contract_code_def code_data_def cong: if_cong)

theorem instantiate_contract_registers_witness:
  "\<exists>a'. instantiate_contract instance_ext 2 1 (Addr ''alice'') (Inr []) [] ''demo'' None instance_app = (Ok (Addr ''first''), a')
     \<and> om_get (w_contracts (ch_wasm (ap_chain a'))) (Addr ''first'') = Some \<lparr>cd_code_id = 1, cd_creator = Addr ''alice'',
         cd_admin = None, cd_label = ''demo'', cd_created = bl_height demo_time\<rparr>"
proof -
  let ?wk = "md_wasm (ap_modules instance_app)"
  have "code_at ?wk 1 = Some idle_contract"
    using instance_code [of _ "()"] by (simp add: contract_code_Ok_iff instance_app_parts)
  moreover have "unat (1 :: u64) \<le> length (wk_code_data ?wk)" by (simp add: demo_keeper_data instance_app_parts)
  moreover have "verify_response new_response t = (Ok new_response, t)" for t :: chain by (rule verify_new_response)
  ultimately obtain a' where
      "instantiate_contract instance_ext (Suc 1) 1 (Addr ''alice'') (Inr []) [] ''demo'' None instance_app = (Ok (Addr ''first''), a')"
    using idle_contract_runs(2) instantiate_contract_completes [OF instance_codec, of "''demo''" 1 instance_app "Addr ''first''" idle_contract]
    by (simp add: instance_app_parts empty_chain_def new_response_def)
  with instantiate_contract_registers [OF _ this] instance_codec show ?thesis
    by (auto simp: instantiate_codec_def numeral_2_eq_2 Let_def instance_app_parts)
qed

text \<open>
  C3. A contract without an administrator is immutable. Instantiate a code without naming an administrator.
  After any history of the application - calls of the contract and of others, sub-messages and replies,
  privileged messages, packets, blocks, new code, and tests that write to the storage of contracts from
  outside (\<open>App::contract_storage_mut\<close>) - the contract is still there, has no administrator and runs the same
  code. Its storage is the one its \<open>instantiate\<close> left, changed only by runs of its own entry points, one after
  another, if it is not among the contracts \<open>E\<close> whose storage a test wrote to. Raw writes to the storage of the
  whole chain or to the keepers are not part of a history.
\<close>
theorem immutable_contract:
  assumes "instantiate_codec ext" "keeper_wf (md_wasm (ap_modules a0))"
    and "code_at (md_wasm (ap_modules a0)) code_id = Some code"
    and "instantiate_contract ext n code_id sender (Inr m) funds label None a0 = (Ok address, a)"
    and "(app_step ext E)\<^sup>*\<^sup>* a a1"
  shows "\<exists>c q r st. contract_data address (ap_chain a1) = (Ok c, ap_chain a1) \<and> cd_admin c = None
    \<and> contract_code (md_wasm (ap_modules a1)) (cd_code_id c) (ap_chain a1) = (Ok code, ap_chain a1)
    \<and> run_cprog q (ct_instantiate code (get_env address (ap_block a0)) \<lparr>mi_sender = sender, mi_funds = funds\<rparr> m)
        (contract_storage (ap_chain a0) address) = (Ok r, st)
    \<and> (address \<notin> E \<longrightarrow> (entry_run code)\<^sup>*\<^sup>* st (contract_storage (ap_chain a1) address))"
proof -
  obtain c q r st where "run_cprog q (ct_instantiate code (get_env address (ap_block a0))
        \<lparr>mi_sender = sender, mi_funds = funds\<rparr> m) (contract_storage (ap_chain a0) address) = (Ok r, st)"
      "address \<notin> E \<longrightarrow> (entry_run code)\<^sup>*\<^sup>* st (contract_storage (ap_chain a1) address)"
      "om_get (w_contracts (ch_wasm (ap_chain a1))) address = Some c" "cd_admin c = None"
      "code_at (md_wasm (ap_modules a1)) (cd_code_id c) = Some code"
    by (rule own_code.promise_since_start [OF assms(1,4,2,3,5)]) (use that in simp)
  then show ?thesis by (intro exI conjI) (simp_all add: contract_data_Ok_iff contract_code_Ok_iff)
qed

text \<open>A privileged call of the contract, then a test that writes to the storage of another one.\<close>

theorem immutable_contract_witness:
  "\<exists>a a1 a2 r c. instantiate_contract helper_demo_ext 1 1 (Addr ''alice'') (Inr []) [] ''label'' None
        (helper_app (reflect_contract demo_hx)) = (Ok (Addr ''first''), a)
    \<and> app_sudo helper_demo_ext 2 (SudoWasm \<lparr>ws_contract = Addr ''first'', ws_message = []\<rparr>) a = (r, a1)
    \<and> app_contract_storage_mut (Addr ''other'') (modifies (\<lambda>m. [([1], [2])])) a1 = (Ok (), a2)
    \<and> contract_data (Addr ''first'') (ap_chain a2) = (Ok c, ap_chain a2)
    \<and> contract_code (md_wasm (ap_modules a2)) (cd_code_id c) (ap_chain a2) = (Ok (reflect_contract demo_hx), ap_chain a2)
    \<and> (\<exists>st. (entry_run (reflect_contract demo_hx))\<^sup>*\<^sup>* st (contract_storage (ap_chain a2) (Addr ''first'')))"
proof -
  let ?c = "reflect_contract demo_hx"
  obtain a where a: "instantiate_contract helper_demo_ext (Suc 0) 1 (Addr ''alice'') (Inr []) [] ''label'' None (helper_app ?c)
      = (Ok (Addr ''first''), a)"
    by (rule reflect_instantiates)
  obtain r a1 where run: "app_sudo helper_demo_ext 2 (SudoWasm \<lparr>ws_contract = Addr ''first'', ws_message = []\<rparr>) a = (r, a1)" by fastforce
  obtain a2 where access: "app_contract_storage_mut (Addr ''other'') (modifies (\<lambda>m. [([1], [2])])) a1 = (Ok (), a2)"
    by (simp add: app_contract_storage_mut_def on_chain_def contract_storage_mut_def zoom_def)
  have "app_step helper_demo_ext {Addr ''other''} a a1"
    using run by (intro app_step.messages message_step.run_sudo)
  moreover have "app_step helper_demo_ext {Addr ''other''} a1 a2"
    using access by (rule app_step.storage_access) simp
  ultimately have "(app_step helper_demo_ext {Addr ''other''})\<^sup>*\<^sup>* a a2" by (meson converse_rtranclp_into_rtranclp r_into_rtranclp)
  from immutable_contract [OF helper_ext_laws(2) helper_app_parts(1,2) a this] a run access show ?thesis
    unfolding One_nat_def by blast
qed

text \<open>
  C15. Contracts have code. Call an application well typed when its code registry is well formed and every
  contract on its chain refers to registered code and lives at an address its generators made. A new
  application is well typed and everything an application does keeps it so: whatever its contracts do, the
  code of a contract can be loaded, although the check of the code id at instantiation and migration only
  compares it with the number of codes.
\<close>
theorem contracts_have_code:
  assumes "(app_step ext E)\<^sup>*\<^sup>* a a'" "contracts_typed a"
    and "contract_data address (ap_chain a') = (Ok c, s)"
  shows "contracts_typed a' \<and> contracts_typed (default_app ext block)
    \<and> (\<exists>code. contract_code (md_wasm (ap_modules a')) (cd_code_id c) (ap_chain a') = (Ok code, ap_chain a'))"
proof -
  have typed: "contracts_typed a'" using contracts_typed_kept [OF assms(1,2)] .
  moreover have "om_get (w_contracts (ch_wasm (ap_chain a'))) address = Some c"
    using assms(3) by (simp add: contract_data_Ok_iff)
  ultimately show ?thesis using contracts_typed_code(2) default_app_typed by blast
qed

theorem contracts_have_code_witness:
  "\<exists>a' c code. app_store_code_with_creator (Addr ''creator'') idle_contract bech_app = (Ok 2, a')
     \<and> contract_data bech_address (ap_chain a') = (Ok c, ap_chain a')
     \<and> contract_code (md_wasm (ap_modules a')) (cd_code_id c) (ap_chain a') = (Ok code, ap_chain a')"
proof -
  have "next_code_id (md_wasm (ap_modules bech_app)) = Some 2"
    by (simp add: bech_app_def save_code_def Let_def default_wasm_keeper_def next_code_id_def om_last_key_def checked_add_def
        om_empty_def)
  then obtain a' where run: "app_store_code_with_creator (Addr ''creator'') idle_contract bech_app = (Ok 2, a')"
    by (simp add: app_store_code_with_creator_def on_keeper_def zoom_def store_code_def run_eqs ret_def)
  have step: "(app_step bech_ext {})\<^sup>*\<^sup>* bech_app a'" using run by (intro r_into_rtranclp app_step.new_code)
  have same: "ap_chain a' = ap_chain bech_app"
    using run by (auto simp: app_store_code_with_creator_def dest!: on_keeper_chain)
  then obtain c where c: "contract_data bech_address (ap_chain a') = (Ok c, ap_chain a')"
    by (auto simp: contract_data_Ok_iff bech_app_def)
  from contracts_have_code [OF step bech_app_typed(1) c] run c show ?thesis by blast
qed

text \<open>
  C29. The bookkeeping survives every message. Balances stay normalized whatever the application does,
  and as long as only messages are executed - whatever contracts do in them - the stakers listed for a
  validator are exactly the delegators with shares of it.
\<close>
theorem bookkeeping_kept:
  assumes "nb_laws ext" "dec_laws ext" "bank_wf (ch_bank (ap_chain a))" "staking_wf (ch_staking (ap_chain a))"
    and "(message_step ext)\<^sup>*\<^sup>* a a1" "(app_step ext E)\<^sup>*\<^sup>* a1 a2"
  shows "staking_wf (ch_staking (ap_chain a1)) \<and> bank_wf (ch_bank (ap_chain a2))"
proof
  show "staking_wf (ch_staking (ap_chain a1))"
    using stakers.message_steps_rel [OF assms(5) refl] assms(2,4) by (simp add: stakers_rel_def)
  show "bank_wf (ch_bank (ap_chain a2))"
    using balances.message_steps_rel [OF assms(5) refl] balances_history.app_steps_rel [OF assms(6) TrueI] assms(1,3)
    by (simp add: balances_rel_def)
qed

theorem bookkeeping_kept_witness:
  "staking_wf (ch_staking (ap_chain (snd (execute_multi demo_ext 2 (Addr ''bob'')
       [MStaking (Undelegate ''val'' \<lparr>c_denom = ''TOKEN'', c_amount = 2\<rparr>)]
       ((demo_app demo_ext)\<lparr>ap_chain := empty_chain\<lparr>ch_staking := demo_staking\<rparr>\<rparr>)))))"
proof -
  let ?a = "(demo_app demo_ext)\<lparr>ap_chain := empty_chain\<lparr>ch_staking := demo_staking\<rparr>\<rparr>"
  let ?run = "execute_multi demo_ext 2 (Addr ''bob'') [MStaking (Undelegate ''val'' \<lparr>c_denom = ''TOKEN'', c_amount = 2\<rparr>)] ?a"
  have "message_step demo_ext ?a (snd ?run)"
    by (rule message_step.run_messages) (rule prod.collapse [symmetric])
  then have "(message_step demo_ext)\<^sup>*\<^sup>* ?a (snd ?run)" by blast
  moreover have "bank_wf (ch_bank (ap_chain ?a))" "staking_wf (ch_staking (ap_chain ?a))"
    by (simp_all add: empty_chain_def bank_wf_def demo_staking_wf)
  ultimately show ?thesis
    using bookkeeping_kept [OF nb_laws_demo dec_laws_demo _ _ _ rtranclp.rtrancl_refl, of ?a "snd ?run"] by blast
qed

end
